(* ===== verification/Prelude.thy ===== *)
theory Prelude
  imports Main "HOL-Library.Char_ord" "HOL-Library.List_Lexorder" "HOL-Library.Product_Lexorder"
begin

text \<open>
  Shared vocabulary of the development: operations that thread a state and may return an
  error, the weakest-precondition reading of such an operation, and the reading of an
  operation as something that relates the state before it to the state after it. The list
  lemmas at the end are the ones every table of the database needs.
\<close>

section \<open>Operations: state, and an error or a value\<close>

text \<open>
  A Go function \<open>func (s *Service) F(...) (T, error)\<close> is an operation: it takes the state,
  returns \<open>Inl\<close> the error or \<open>Inr\<close> the value, and the state it leaves behind. A function
  that returns an error has still changed the state up to the point where it failed.
\<close>

type_synonym ('s, 'e, 'a) op = "'s \<Rightarrow> ('e + 'a) \<times> 's"

named_theorems op_simps "what each combinator does, as an equation on the state"
named_theorems wp_simps "weakest preconditions of the combinators and of the operations"

definition ret :: "'a \<Rightarrow> ('s, 'e, 'a) op" where
  "ret x s = (Inr x, s)"

definition raise :: "'e \<Rightarrow> ('s, 'e, 'a) op" where
  "raise e s = (Inl e, s)"

text \<open>\<open>if err != nil { return err }\<close>: the second operation runs only after a value.\<close>

definition bindE :: "('s, 'e, 'a) op \<Rightarrow> ('a \<Rightarrow> ('s, 'e, 'b) op) \<Rightarrow> ('s, 'e, 'b) op" where
  "bindE m f s = (case m s of (r, s') \<Rightarrow> (case r of Inl e \<Rightarrow> (Inl e, s') | Inr x \<Rightarrow> f x s'))"

text \<open>The code looks at the error itself: the handler sees the whole result.\<close>

definition tryE :: "('s, 'e, 'a) op \<Rightarrow> ('e + 'a \<Rightarrow> ('s, 'e, 'b) op) \<Rightarrow> ('s, 'e, 'b) op" where
  "tryE m h s = (case m s of (r, s') \<Rightarrow> h r s')"

definition failIf :: "bool \<Rightarrow> 'e \<Rightarrow> ('s, 'e, unit) op" where
  "failIf b e s = (if b then (Inl e, s) else (Inr (), s))"

text \<open>A pure function with an error result, used as an operation.\<close>

definition liftE :: "'e + 'a \<Rightarrow> ('s, 'e, 'a) op" where
  "liftE r s = (r, s)"

definition gets :: "('s \<Rightarrow> 'a) \<Rightarrow> ('s, 'e, 'a) op" where
  "gets f s = (Inr (f s), s)"

definition modify :: "('s \<Rightarrow> 's) \<Rightarrow> ('s, 'e, unit) op" where
  "modify g s = (Inr (), g s)"

text \<open>\<open>defer g()\<close>: \<open>g\<close> runs after the body, whatever the body returned.\<close>

definition deferE :: "('s, 'e, 'a) op \<Rightarrow> ('s \<Rightarrow> 's) \<Rightarrow> ('s, 'e, 'a) op" where
  "deferE m g s = (case m s of (r, s') \<Rightarrow> (r, g s'))"

text \<open>
  A deferred function that acts only when the body failed, and whose own error is logged
  and dropped: the result is the body's.
\<close>

definition onError :: "('s, 'e, 'a) op \<Rightarrow> ('s, 'e, 'b) op \<Rightarrow> ('s, 'e, 'a) op" where
  "onError m c s =
     (case m s of (r, s') \<Rightarrow> (case r of Inl e \<Rightarrow> (Inl e, snd (c s')) | Inr x \<Rightarrow> (Inr x, s')))"

text \<open>A deferred function that is itself an operation; its own result is ignored.\<close>

definition finallyE :: "('s, 'e, 'a) op \<Rightarrow> ('s, 'e, 'b) op \<Rightarrow> ('s, 'e, 'a) op" where
  "finallyE m c s = (case m s of (r, s') \<Rightarrow> (r, snd (c s')))"

fun forE :: "('x \<Rightarrow> ('s, 'e, unit) op) \<Rightarrow> 'x list \<Rightarrow> ('s, 'e, unit) op" where
  "forE f [] = ret ()"
| "forE f (x # xs) = bindE (f x) (\<lambda>_. forE f xs)"

lemmas op_defs = ret_def raise_def bindE_def tryE_def failIf_def liftE_def gets_def modify_def
  deferE_def onError_def finallyE_def

lemma bindE_simps [op_simps, simp]:
  "bindE (ret x) f = f x" "bindE (raise e) f = raise e"
  "bindE (liftE (Inr x)) f = f x" "bindE (liftE (Inl e)) f = raise e"
  "bindE (failIf False e) g = g ()" "bindE (failIf True e) g = raise e"
  by (auto simp: op_defs fun_eq_iff)

lemma bindE_assoc: "bindE (bindE m f) g = bindE m (\<lambda>x. bindE (f x) g)"
  by (auto simp: bindE_def fun_eq_iff split: prod.splits sum.splits)

lemma bindE_ret: "bindE m ret = m"
  by (auto simp: bindE_def ret_def fun_eq_iff split: prod.splits sum.splits)

lemma bindE_cong [fundef_cong]:
  assumes "m s = m' s'" and "\<And>x t. m' s' = (Inr x, t) \<Longrightarrow> f x t = f' x t"
  shows "bindE m f s = bindE m' f' s'"
  using assms by (auto simp: bindE_def split: prod.splits sum.splits)

section \<open>Weakest preconditions\<close>

definition wp :: "('s, 'e, 'a) op \<Rightarrow> ('e + 'a \<Rightarrow> 's \<Rightarrow> bool) \<Rightarrow> 's \<Rightarrow> bool" where
  "wp m Q s \<longleftrightarrow> (case m s of (r, s') \<Rightarrow> Q r s')"

text \<open>The postcondition of \<open>bindE\<close>'s first part: errors pass through to the caller's.\<close>

definition thenQ :: "('e + 'b \<Rightarrow> 's \<Rightarrow> bool) \<Rightarrow> ('a \<Rightarrow> 's \<Rightarrow> bool) \<Rightarrow> 'e + 'a \<Rightarrow> 's \<Rightarrow> bool" where
  "thenQ Q K r s = (case r of Inl e \<Rightarrow> Q (Inl e) s | Inr x \<Rightarrow> K x s)"

lemma thenQ_simps [simp]: "thenQ Q K (Inl e) s = Q (Inl e) s" "thenQ Q K (Inr x) s = K x s"
  by (simp_all add: thenQ_def)

lemma wp_combinators [wp_simps]:
  "wp (ret x) Q s = Q (Inr x) s"
  "wp (raise e) Q s = Q (Inl e) s"
  "wp (bindE m f) Q s = wp m (thenQ Q (\<lambda>x. wp (f x) Q)) s"
  "wp (tryE m h) R s = wp m (\<lambda>r. wp (h r) R) s"
  "wp (failIf b e) U s = (if b then U (Inl e) s else U (Inr ()) s)"
  "wp (liftE r) Q s = Q r s"
  "wp (gets g) V s = V (Inr (g s)) s"
  "wp (modify h') W s = W (Inr ()) (h' s)"
  "wp (deferE m k) Q' s = wp m (\<lambda>r s'. Q' r (k s')) s"
  by (auto simp: wp_def op_defs thenQ_def split: prod.splits sum.splits)

lemma wp_onError [wp_simps]:
  "wp (onError m c) Q s =
     wp m (\<lambda>r s'. case r of Inl e \<Rightarrow> wp c (\<lambda>_. Q (Inl e)) s' | Inr x \<Rightarrow> Q (Inr x) s') s"
  by (auto simp: wp_def onError_def split: prod.splits sum.splits)

lemma wp_finallyE [wp_simps]: "wp (finallyE m c) Q s = wp m (\<lambda>r. wp c (\<lambda>_. Q r)) s"
  by (auto simp: wp_def finallyE_def split: prod.splits)

lemma wp_mono: "wp m Q s \<Longrightarrow> (\<And>r t. Q r t \<Longrightarrow> Q' r t) \<Longrightarrow> wp m Q' s"
  by (auto simp: wp_def split: prod.splits)

lemma wpD: "wp m Q s \<Longrightarrow> m s = (r, t) \<Longrightarrow> Q r t"
  by (simp add: wp_def)

lemma wpI: "(\<And>r t. m s = (r, t) \<Longrightarrow> Q r t) \<Longrightarrow> wp m Q s"
  by (auto simp: wp_def split: prod.splits)

lemma wp_conj: "wp m Q s \<Longrightarrow> wp m Q' s \<Longrightarrow> wp m (\<lambda>r t. Q r t \<and> Q' r t) s"
  by (auto simp: wp_def split: prod.splits)

section \<open>What an operation may do to the state\<close>

definition upholds :: "('s \<Rightarrow> 's \<Rightarrow> bool) \<Rightarrow> ('s, 'e, 'a) op \<Rightarrow> bool" where
  "upholds R m \<longleftrightarrow> (\<forall>s. R s (snd (m s)))"

lemma upholdsI: "(\<And>s r t. m s = (r, t) \<Longrightarrow> R s t) \<Longrightarrow> upholds R m"
  unfolding upholds_def by (metis prod.collapse)

lemma upholdsD: "upholds R m \<Longrightarrow> m s = (r, t) \<Longrightarrow> R s t"
  unfolding upholds_def by (metis snd_conv)

lemma upholds_wp: "upholds R m \<longleftrightarrow> (\<forall>s. wp m (\<lambda>_ t. R s t) s)"
  unfolding upholds_def wp_def by (simp add: case_prod_beta)

lemma upholds_mono: "upholds R m \<Longrightarrow> (\<And>s t. R s t \<Longrightarrow> R' s t) \<Longrightarrow> upholds R' m"
  by (auto simp: upholds_def)

lemma upholds_conj: "upholds R m \<Longrightarrow> upholds R' m \<Longrightarrow> upholds (\<lambda>s t. R s t \<and> R' s t) m"
  by (auto simp: upholds_def)

text \<open>
  The interface of every such relation: reflexive and transitive, so that it composes along
  the combinators. Inside it, one rule per combinator; a component's proof that an operation
  upholds the relation is these rules applied to the operation's text.
\<close>

locale step_order =
  fixes R :: "'s \<Rightarrow> 's \<Rightarrow> bool"
  assumes refl: "R s s"
    and trans: "R s t \<Longrightarrow> R t u \<Longrightarrow> R s u"
begin

lemma up_ret: "upholds R (ret x)"
  by (simp add: upholds_def ret_def refl)

lemma up_raise: "upholds R (raise e)"
  by (simp add: upholds_def raise_def refl)

lemma up_failIf: "upholds R (failIf b e)"
  by (simp add: upholds_def failIf_def refl)

lemma up_liftE: "upholds R (liftE r)"
  by (simp add: upholds_def liftE_def refl)

lemma up_gets: "upholds R (gets f)"
  by (simp add: upholds_def gets_def refl)

lemma up_modify: "(\<And>s. R s (g s)) \<Longrightarrow> upholds R (modify g)"
  by (simp add: upholds_def modify_def)

lemma up_bindE:
  assumes "upholds R m" and "\<And>x. upholds R (f x)"
  shows "upholds R (bindE m f)"
proof (rule upholdsI)
  fix s r t
  assume run: "bindE m f s = (r, t)"
  obtain r1 s1 where m: "m s = (r1, s1)" by fastforce
  with assms(1) have first: "R s s1" by (rule upholdsD)
  show "R s t"
  proof (cases r1)
    case (Inl e)
    with run m first show ?thesis by (simp add: bindE_def)
  next
    case (Inr x)
    with run m have "f x s1 = (r, t)" by (simp add: bindE_def)
    with assms(2) have "R s1 t" by (rule upholdsD)
    with first show ?thesis by (rule trans)
  qed
qed

lemma up_tryE:
  assumes "upholds R m" and "\<And>r. upholds R (h r)"
  shows "upholds R (tryE m h)"
proof (rule upholdsI)
  fix s r t
  assume run: "tryE m h s = (r, t)"
  obtain r1 s1 where m: "m s = (r1, s1)" by fastforce
  with assms(1) have "R s s1" by (rule upholdsD)
  moreover from run m have "h r1 s1 = (r, t)" by (simp add: tryE_def)
  with assms(2) have "R s1 t" by (rule upholdsD)
  ultimately show "R s t" by (rule trans)
qed

lemma up_deferE: "upholds R m \<Longrightarrow> (\<And>s. R s (g s)) \<Longrightarrow> upholds R (deferE m g)"
  unfolding upholds_def deferE_def by (auto simp: case_prod_beta intro: trans)

lemma up_onError:
  assumes "upholds R m" and "upholds R c"
  shows "upholds R (onError m c)"
  using assms unfolding upholds_def onError_def
  by (auto simp: case_prod_beta split: sum.split intro: trans)

lemma up_finallyE: "upholds R m \<Longrightarrow> upholds R c \<Longrightarrow> upholds R (finallyE m c)"
  unfolding upholds_def finallyE_def by (auto simp: case_prod_beta intro: trans)

lemma up_if: "(b \<Longrightarrow> upholds R m) \<Longrightarrow> (\<not> b \<Longrightarrow> upholds R m') \<Longrightarrow> upholds R (if b then m else m')"
  by simp

lemma up_option:
  "(x = None \<Longrightarrow> upholds R m) \<Longrightarrow> (\<And>y. x = Some y \<Longrightarrow> upholds R (f y)) \<Longrightarrow>
   upholds R (case x of None \<Rightarrow> m | Some y \<Rightarrow> f y)"
  by (cases x) auto

lemma up_sum:
  "(\<And>e. r = Inl e \<Longrightarrow> upholds R (f e)) \<Longrightarrow> (\<And>y. r = Inr y \<Longrightarrow> upholds R (g y)) \<Longrightarrow>
   upholds R (case r of Inl e \<Rightarrow> f e | Inr y \<Rightarrow> g y)"
  by (cases r) auto

lemma up_prod: "(\<And>a b. p = (a, b) \<Longrightarrow> upholds R (f a b)) \<Longrightarrow> upholds R (case p of (a, b) \<Rightarrow> f a b)"
  by (cases p) auto

lemma up_let: "upholds R (f v) \<Longrightarrow> upholds R (let x = v in f x)"
  by simp

lemma up_forE: "(\<And>x. x \<in> set xs \<Longrightarrow> upholds R (f x)) \<Longrightarrow> upholds R (forE f xs)"
  by (induction xs) (auto intro: up_ret up_bindE)

lemmas up_rules = up_ret up_raise up_failIf up_liftE up_gets up_bindE up_tryE up_onError up_finallyE
  up_if up_option up_sum up_prod up_let up_forE

end

section \<open>Tables as lists of rows\<close>

definition updWhere :: "('r \<Rightarrow> bool) \<Rightarrow> ('r \<Rightarrow> 'r) \<Rightarrow> 'r list \<Rightarrow> 'r list" where
  "updWhere P f rows = map (\<lambda>r. if P r then f r else r) rows"

definition countWhere :: "('r \<Rightarrow> bool) \<Rightarrow> 'r list \<Rightarrow> int" where
  "countWhere P rows = int (length (filter P rows))"

definition sumWhere :: "('r \<Rightarrow> bool) \<Rightarrow> ('r \<Rightarrow> int) \<Rightarrow> 'r list \<Rightarrow> int" where
  "sumWhere P f rows = sum_list (map f (filter P rows))"

lemma set_updWhere: "r \<in> set (updWhere P f rows) \<longleftrightarrow> (\<exists>q \<in> set rows. r = (if P q then f q else q))"
  by (auto simp: updWhere_def)

lemma updWhere_ball:
  assumes "\<forall>r \<in> set rows. Q r" and "\<And>r. r \<in> set rows \<Longrightarrow> P r \<Longrightarrow> Q r \<Longrightarrow> Q (f r)"
  shows "\<forall>r \<in> set (updWhere P f rows). Q r"
  using assms by (auto simp: updWhere_def)

lemma map_updWhere: "(\<And>r. P r \<Longrightarrow> g (f r) = g r) \<Longrightarrow> map g (updWhere P f rows) = map g rows"
  by (simp add: updWhere_def)

lemma countWhere_simps [simp]:
  "countWhere P [] = 0"
  "countWhere P (r # rows) = (if P r then 1 else 0) + countWhere P rows"
  "countWhere P (rows @ rows') = countWhere P rows + countWhere P rows'"
  by (simp_all add: countWhere_def)

lemma sumWhere_simps [simp]:
  "sumWhere P f [] = 0"
  "sumWhere P f (r # rows) = (if P r then f r else 0) + sumWhere P f rows"
  "sumWhere P f (rows @ rows') = sumWhere P f rows + sumWhere P f rows'"
  by (simp_all add: sumWhere_def)

lemma countWhere_nonneg [simp]: "0 \<le> countWhere P rows"
  by (simp add: countWhere_def)

lemma sumWhere_nonneg: "(\<And>r. r \<in> set rows \<Longrightarrow> P r \<Longrightarrow> 0 \<le> f r) \<Longrightarrow> 0 \<le> sumWhere P f rows"
  by (induction rows) auto

lemma sumWhere_mono:
  "(\<And>r. r \<in> set rows \<Longrightarrow> P r \<Longrightarrow> f r \<le> g r) \<Longrightarrow> sumWhere P f rows \<le> sumWhere P g rows"
  by (induction rows) (auto simp: add_mono)

lemma countWhere_filter_le: "countWhere P (filter Q rows) \<le> countWhere P rows"
  by (induction rows) auto

lemma sumWhere_filter_le:
  "(\<And>r. r \<in> set rows \<Longrightarrow> P r \<Longrightarrow> 0 \<le> f r) \<Longrightarrow> sumWhere P f (filter Q rows) \<le> sumWhere P f rows"
  by (induction rows) (auto simp: add_increasing)

lemma countWhere_updWhere:
  "(\<And>r. r \<in> set rows \<Longrightarrow> C r \<Longrightarrow> P (g r) = P r) \<Longrightarrow> countWhere P (updWhere C g rows) = countWhere P rows"
  by (induction rows) (auto simp: updWhere_def)

lemma sumWhere_updWhere_le:
  "(\<And>r. r \<in> set rows \<Longrightarrow> C r \<Longrightarrow> P (g r) = P r) \<Longrightarrow>
   (\<And>r. r \<in> set rows \<Longrightarrow> C r \<Longrightarrow> P r \<Longrightarrow> f (g r) \<le> f r) \<Longrightarrow>
   sumWhere P f (updWhere C g rows) \<le> sumWhere P f rows"
  by (induction rows) (auto simp: updWhere_def add_mono)

lemma sumWhere_cong:
  "(\<And>r. r \<in> set rows \<Longrightarrow> P r = Q r) \<Longrightarrow> (\<And>r. r \<in> set rows \<Longrightarrow> P r \<Longrightarrow> f r = g r) \<Longrightarrow>
   sumWhere P f rows = sumWhere Q g rows"
  by (induction rows) auto

text \<open>The next rowid of an \<open>INTEGER PRIMARY KEY\<close> table without AUTOINCREMENT: one more than the
largest in use, so the identifier of a deleted last row is used again.\<close>

definition nextId :: "int list \<Rightarrow> int" where
  "nextId ids = 1 + foldr max ids 0"

lemma nextId_gt: "i \<in> set ids \<Longrightarrow> i < nextId ids"
  by (induction ids) (auto simp: nextId_def)

lemma nextId_fresh: "nextId ids \<notin> set ids"
  using nextId_gt by blast

lemma nextId_pos: "0 < nextId ids"
proof -
  have "0 \<le> foldr max ids 0" by (induction ids) auto
  then show ?thesis by (simp add: nextId_def)
qed

lemma find_SomeD: "find P xs = Some x \<Longrightarrow> x \<in> set xs \<and> P x"
  by (induction xs) (auto split: if_splits)

lemma find_None: "find P xs = None \<longleftrightarrow> (\<forall>x \<in> set xs. \<not> P x)"
  by (induction xs) auto

lemma find_distinct:
  "x \<in> set xs \<Longrightarrow> P x \<Longrightarrow> (\<And>y. y \<in> set xs \<Longrightarrow> P y \<Longrightarrow> y = x) \<Longrightarrow> find P xs = Some x"
  by (metis find_None find_SomeD option.exhaust)

lemma distinct_map_eq: "distinct (map f xs) \<Longrightarrow> x \<in> set xs \<Longrightarrow> y \<in> set xs \<Longrightarrow> f x = f y \<Longrightarrow> x = y"
  by (induction xs) (auto simp: image_iff)

lemma distinct_map_filter': "distinct (map f xs) \<Longrightarrow> distinct (map f (filter P xs))"
  by (induction xs) auto

text \<open>\<open>LIMIT n\<close>.\<close>

fun limitTo :: "int \<Rightarrow> 'a list \<Rightarrow> 'a list" where
  "limitTo n [] = []"
| "limitTo n (x # xs) = (if n \<le> 0 then [] else x # limitTo (n - 1) xs)"

lemma set_limitTo: "set (limitTo n xs) \<subseteq> set xs"
  by (induction n xs rule: limitTo.induct) auto

lemma limitTo_all: "int (length xs) \<le> n \<Longrightarrow> limitTo n xs = xs"
  by (induction n xs rule: limitTo.induct) auto

lemma length_limitTo: "0 \<le> n \<Longrightarrow> int (length (limitTo n xs)) \<le> n"
  by (induction n xs rule: limitTo.induct) auto

end
