(* ===== verification/GoText.thy ===== *)
theory GoText
  imports Prelude
begin

text \<open>
  Go strings as byte strings (a \<open>char\<close> is a byte), with what the source uses of
  \<open>unicode/utf8\<close>, \<open>strings\<close>, \<open>strconv\<close>, \<open>encoding/hex\<close> and \<open>encoding/base64\<close>, and the
  identifiers and storage keys of \<open>internal/media\<close>, \<open>internal/events\<close> and
  \<open>internal/storage\<close> built from them.
\<close>

section \<open>Bytes, runes and UTF-8\<close>

definition byteVal :: "char \<Rightarrow> int" where
  "byteVal c = of_char c"

definition byteIn :: "int \<Rightarrow> int \<Rightarrow> char \<Rightarrow> bool" where
  "byteIn lo hi c \<longleftrightarrow> lo \<le> byteVal c \<and> byteVal c \<le> hi"

lemma byteVal_inj: "byteVal c = byteVal d \<longleftrightarrow> c = d"
  by (simp add: byteVal_def)

text \<open>\<open>utf8.DecodeRuneInString\<close>: the rune and its width, (U+FFFD, 1) at an ill-formed sequence.\<close>

definition decodeRune :: "string \<Rightarrow> int \<times> nat" where
  "decodeRune s =
     (case s of [] \<Rightarrow> (65533, 0)
      | c0 # r \<Rightarrow>
        (let b0 = byteVal c0; bad = (65533, 1) in
         if b0 < 128 then (b0, 1)
         else if 194 \<le> b0 \<and> b0 \<le> 223 then
           (case r of [] \<Rightarrow> bad
            | c1 # _ \<Rightarrow> if byteIn 128 191 c1 then ((b0 - 192) * 64 + (byteVal c1 - 128), 2) else bad)
         else if 224 \<le> b0 \<and> b0 \<le> 239 then
           (case r of c1 # c2 # _ \<Rightarrow>
              if byteIn (if b0 = 224 then 160 else 128) (if b0 = 237 then 159 else 191) c1
                 \<and> byteIn 128 191 c2
              then ((b0 - 224) * 4096 + (byteVal c1 - 128) * 64 + (byteVal c2 - 128), 3) else bad
            | _ \<Rightarrow> bad)
         else if 240 \<le> b0 \<and> b0 \<le> 244 then
           (case r of c1 # c2 # c3 # _ \<Rightarrow>
              if byteIn (if b0 = 240 then 144 else 128) (if b0 = 244 then 143 else 191) c1
                 \<and> byteIn 128 191 c2 \<and> byteIn 128 191 c3
              then ((b0 - 240) * 262144 + (byteVal c1 - 128) * 4096
                    + (byteVal c2 - 128) * 64 + (byteVal c3 - 128), 4) else bad
            | _ \<Rightarrow> bad)
         else bad))"

lemma decodeRune_width: "s \<noteq> [] \<Longrightarrow> 1 \<le> snd (decodeRune s)"
  by (auto simp: decodeRune_def Let_def split: list.split)

text \<open>The string cut at rune boundaries; \<open>for _, r := range s\<close> visits one piece at a time.\<close>

function chunks :: "string \<Rightarrow> string list" where
  "chunks s = (if s = [] then [] else take (snd (decodeRune s)) s # chunks (drop (snd (decodeRune s)) s))"
  by pat_completeness auto
termination
  using decodeRune_width
  by (relation "measure length") (auto intro!: diff_less simp: Suc_le_eq)

declare chunks.simps [simp del]

lemma chunks_Nil [simp]: "chunks [] = []"
  by (simp add: chunks.simps)

lemma concat_chunks [simp]: "concat (chunks s) = s"
proof (induction s rule: chunks.induct)
  case (1 s)
  then show ?case by (subst chunks.simps) auto
qed

definition runeOf :: "string \<Rightarrow> int" where
  "runeOf k = fst (decodeRune k)"

definition runes :: "string \<Rightarrow> int list" where
  "runes s = map runeOf (chunks s)"

definition runeCount :: "string \<Rightarrow> nat" where
  "runeCount s = length (chunks s)"

definition validUTF8 :: "string \<Rightarrow> bool" where
  "validUTF8 s \<longleftrightarrow> list_all (\<lambda>k. decodeRune k \<noteq> (65533, 1)) (chunks s)"

lemma chunks_ne: "k \<in> set (chunks s) \<Longrightarrow> k \<noteq> []"
proof (induction s rule: chunks.induct)
  case (1 s)
  show ?case
  proof (cases "s = []")
    case False
    then have "1 \<le> snd (decodeRune s)" by (rule decodeRune_width)
    with False have "take (snd (decodeRune s)) s \<noteq> []" by (cases s) auto
    with 1 False show ?thesis by (subst (asm) chunks.simps) auto
  qed (use 1 in simp)
qed

lemma runeCount_le_length: "runeCount s \<le> length s"
proof -
  have "length ks \<le> length (concat ks)" if "\<forall>k \<in> set ks. k \<noteq> []" for ks :: "string list"
    using that by (induction ks) (auto simp: neq_Nil_conv)
  from this [of "chunks s"] show ?thesis
    by (auto simp: runeCount_def dest: chunks_ne)
qed

section \<open>Space, control characters, trimming\<close>

definition isSpaceRune :: "int \<Rightarrow> bool" where
  "isSpaceRune r \<longleftrightarrow> (9 \<le> r \<and> r \<le> 13) \<or> r = 32 \<or> r = 133 \<or> r = 160 \<or> r = 5760
     \<or> (8192 \<le> r \<and> r \<le> 8202) \<or> r = 8232 \<or> r = 8233 \<or> r = 8239 \<or> r = 8287 \<or> r = 12288"

definition isControlRune :: "int \<Rightarrow> bool" where
  "isControlRune r \<longleftrightarrow> r \<le> 31 \<or> (127 \<le> r \<and> r \<le> 159)"

text \<open>\<open>strings.TrimSpace\<close>, on rune boundaries.\<close>

definition trimSpace :: "string \<Rightarrow> string" where
  "trimSpace s =
     concat (rev (dropWhile (\<lambda>k. isSpaceRune (runeOf k))
       (rev (dropWhile (\<lambda>k. isSpaceRune (runeOf k)) (chunks s)))))"

definition containsAny :: "string \<Rightarrow> string \<Rightarrow> bool" where
  "containsAny s cs \<longleftrightarrow> list_ex (\<lambda>c. c \<in> set cs) s"

definition hasPrefix :: "string \<Rightarrow> string \<Rightarrow> bool" where
  "hasPrefix s p \<longleftrightarrow> take (length p) s = p"

lemma hasPrefix_singleton: "hasPrefix t [c] \<Longrightarrow> t = c # drop 1 t"
  by (cases t) (simp_all add: hasPrefix_def)

text \<open>The string "\textbackslash x00\textbackslash r\textbackslash n" of the source's character checks.\<close>

definition nulCrLf :: string where
  "nulCrLf = [CHR 0x00, CHR 0x0D, CHR 0x0A]"

section \<open>Decimal and hexadecimal\<close>

definition digitChar :: "int \<Rightarrow> char" where
  "digitChar n = char_of (48 + n)"

definition isDigit :: "char \<Rightarrow> bool" where
  "isDigit c \<longleftrightarrow> byteIn 48 57 c"

function decN :: "int \<Rightarrow> string" where
  "decN n = (if n < 10 then [digitChar n] else decN (n div 10) @ [digitChar (n mod 10)])"
  by pat_completeness auto
termination
  by (relation "measure nat") auto

declare decN.simps [simp del]

text \<open>\<open>strconv.FormatInt(i, 10)\<close>.\<close>

definition decI :: "int \<Rightarrow> string" where
  "decI i = (if i < 0 then CHR ''-'' # decN (- i) else decN i)"

definition hexChar :: "int \<Rightarrow> char" where
  "hexChar n = (if n < 10 then char_of (48 + n) else char_of (87 + n))"

definition isLowerHex :: "char \<Rightarrow> bool" where
  "isLowerHex c \<longleftrightarrow> byteIn 48 57 c \<or> byteIn 97 102 c"

definition isHex :: "char \<Rightarrow> bool" where
  "isHex c \<longleftrightarrow> isLowerHex c \<or> byteIn 65 70 c"

definition hexEncode :: "int list \<Rightarrow> string" where
  "hexEncode bs = concat (map (\<lambda>b. [hexChar (b div 16 mod 16), hexChar (b mod 16)]) bs)"

lemma byteVal_digitChar: "0 \<le> n \<Longrightarrow> n < 10 \<Longrightarrow> byteVal (digitChar n) = 48 + n"
  by (simp add: byteVal_def digitChar_def)

lemma digitChar_digit: "0 \<le> n \<Longrightarrow> n < 10 \<Longrightarrow> isDigit (digitChar n)"
  by (simp add: isDigit_def byteIn_def byteVal_digitChar)

lemma digitChar_inj:
  "0 \<le> m \<Longrightarrow> m < 10 \<Longrightarrow> 0 \<le> n \<Longrightarrow> n < 10 \<Longrightarrow> digitChar m = digitChar n \<Longrightarrow> m = n"
  by (metis add_left_cancel byteVal_digitChar)

lemma digitChar_0: "digitChar 0 = CHR ''0''"
  by code_simp

lemma decN_digits: "0 \<le> n \<Longrightarrow> c \<in> set (decN n) \<Longrightarrow> isDigit c"
proof (induction n rule: decN.induct)
  case (1 n)
  then show ?case
    by (subst (asm) (2) decN.simps) (auto simp: digitChar_digit split: if_splits)
qed

lemma decN_ne [simp]: "decN n \<noteq> []" "[] \<noteq> decN n"
  by (subst decN.simps, simp)+

lemma decN_small: "n < 10 \<Longrightarrow> decN n = [digitChar n]"
  by (simp add: decN.simps)

lemma decN_large: "\<not> n < 10 \<Longrightarrow> decN n = decN (n div 10) @ [digitChar (n mod 10)]"
  by (subst decN.simps) simp

lemma decN_inj: "0 \<le> m \<Longrightarrow> 0 \<le> n \<Longrightarrow> decN m = decN n \<Longrightarrow> m = n"
proof (induction m arbitrary: n rule: decN.induct)
  case (1 m)
  show ?case
  proof (cases "m < 10"; cases "n < 10")
    assume "m < 10" "n < 10"
    with 1 show ?thesis by (auto simp: decN_small intro: digitChar_inj)
  next
    assume "\<not> m < 10" "\<not> n < 10"
    with 1 have "decN (m div 10) = decN (n div 10)"
      and "digitChar (m mod 10) = digitChar (n mod 10)" by (simp_all add: decN_large)
    with "1.IH" [OF \<open>\<not> m < 10\<close>] 1 have "m div 10 = n div 10" and "m mod 10 = n mod 10"
      by (auto intro!: digitChar_inj)
    then show ?thesis by (metis div_mult_mod_eq)
  qed (use 1 in \<open>auto simp: decN_small decN_large\<close>)
qed

lemma decN_hd: "0 < n \<Longrightarrow> hd (decN n) \<noteq> CHR ''0''"
proof (induction n rule: decN.induct)
  case (1 n)
  show ?case
  proof (cases "n < 10")
    case True
    have "digitChar n \<noteq> digitChar 0" using digitChar_inj [of n 0] True "1.prems" by auto
    with True show ?thesis by (simp add: decN_small digitChar_0)
  next
    case False
    with "1.IH" show ?thesis by (simp add: decN_large)
  qed
qed

lemma decN_length: "0 \<le> n \<Longrightarrow> n < 10 ^ k \<Longrightarrow> 0 < k \<Longrightarrow> length (decN n) \<le> k"
proof (induction k arbitrary: n)
  case 0
  then show ?case by simp
next
  case (Suc k)
  show ?case
  proof (cases "n < 10")
    case True
    then show ?thesis by (simp add: decN_small)
  next
    case False
    have k: "0 < k" using False Suc.prems(2) by (cases k) auto
    have "n div 10 < 10 ^ k" using Suc.prems(2) by simp
    with Suc.IH [OF _ _ k] Suc.prems(1) have "length (decN (n div 10)) \<le> k" by simp
    with False show ?thesis by (simp add: decN_large)
  qed
qed

lemma hexChar_lower: "0 \<le> n \<Longrightarrow> n < 16 \<Longrightarrow> isLowerHex (hexChar n)"
  by (simp add: hexChar_def isLowerHex_def byteIn_def byteVal_def)

lemma hexEncode_length [simp]: "length (hexEncode bs) = 2 * length bs"
  by (induction bs) (auto simp: hexEncode_def)

lemma hexEncode_lower: "list_all isLowerHex (hexEncode bs)"
  by (induction bs) (auto simp: hexEncode_def hexChar_lower)

section \<open>Identifiers and storage keys\<close>

text \<open>\<open>media.validID\<close>: 32 characters that decode as 16 hexadecimal bytes, in either case.\<close>

definition validID :: "string \<Rightarrow> bool" where
  "validID i \<longleftrightarrow> length i = 32 \<and> list_all isHex i"

text \<open>\<open>media.randomID\<close>: the lower-case hexadecimal form of 16 random bytes.\<close>

definition lowerID :: "string \<Rightarrow> bool" where
  "lowerID i \<longleftrightarrow> length i = 32 \<and> list_all isLowerHex i"

definition randomID :: "int list \<Rightarrow> string" where
  "randomID bs = hexEncode (take 16 (bs @ replicate 16 0))"

definition objectKey :: "int \<Rightarrow> string \<Rightarrow> string" where
  "objectKey eventID assetID = ''e'' @ decI eventID @ ''_'' @ assetID"

text \<open>\<open>storage.keyPattern\<close>: \<open>^e[1-9][0-9]{0,18}_[0-9a-f]{32}$\<close>.\<close>

definition matchNumberThen :: "(string \<Rightarrow> bool) \<Rightarrow> string \<Rightarrow> bool" where
  "matchNumberThen K s =
     (let ds = takeWhile isDigit s in
      1 \<le> length ds \<and> length ds \<le> 19 \<and> hd ds \<noteq> CHR ''0'' \<and> K (dropWhile isDigit s))"

definition validKey :: "string \<Rightarrow> bool" where
  "validKey k \<longleftrightarrow> hasPrefix k ''e'' \<and>
     matchNumberThen (\<lambda>t. hasPrefix t ''_'' \<and> lowerID (drop 1 t)) (drop 1 k)"

text \<open>\<open>events.ValidPublicID\<close>: 24 characters of the URL-safe base64 alphabet, which decode to
18 bytes. \<open>auth.validToken\<close> is the same test with 43 characters and 32 bytes.\<close>

definition isBase64Url :: "char \<Rightarrow> bool" where
  "isBase64Url c \<longleftrightarrow> byteIn 48 57 c \<or> byteIn 65 90 c \<or> byteIn 97 122 c \<or> c = CHR ''-'' \<or> c = CHR ''_''"

definition validPublicID :: "string \<Rightarrow> bool" where
  "validPublicID i \<longleftrightarrow> length i = 24 \<and> list_all isBase64Url i"

definition validToken :: "string \<Rightarrow> bool" where
  "validToken t \<longleftrightarrow> length t = 43 \<and> list_all isBase64Url t"

lemma lowerID_valid: "lowerID i \<Longrightarrow> validID i"
  by (auto simp: lowerID_def validID_def isHex_def list_all_iff)

lemma randomID_lower: "lowerID (randomID bs)"
  by (simp add: lowerID_def randomID_def hexEncode_lower)

lemma hex_not_underscore: "isHex c \<Longrightarrow> c \<noteq> CHR ''_''"
  by (auto simp: isHex_def isLowerHex_def byteIn_def byteVal_def)

lemma decI_pos: "0 < e \<Longrightarrow> decI e = decN e"
  by (simp add: decI_def)

lemma takeWhile_decN: "0 \<le> n \<Longrightarrow> \<not> isDigit c \<Longrightarrow> takeWhile isDigit (decN n @ c # t) = decN n"
  by (subst takeWhile_append2) (auto intro: decN_digits)

lemma dropWhile_decN: "0 \<le> n \<Longrightarrow> \<not> isDigit c \<Longrightarrow> dropWhile isDigit (decN n @ c # t) = c # t"
  by (subst dropWhile_append2) (auto intro: decN_digits)

lemma matchNumberThen_decN:
  assumes "0 < e" and "e < 10 ^ 19" and "\<not> isDigit c"
  shows "matchNumberThen K (decI e @ c # t) \<longleftrightarrow> K (c # t)"
proof -
  have "length (decN e) \<le> 19" using assms(1,2) by (intro decN_length) auto
  moreover have "1 \<le> length (decN e)" using decN_ne [of e] by (cases "decN e") auto
  moreover have "hd (decN e) \<noteq> CHR ''0''" using assms(1) by (rule decN_hd)
  ultimately show ?thesis
    using assms by (simp add: matchNumberThen_def decI_pos takeWhile_decN dropWhile_decN)
qed

lemma not_digit_underscore [simp]: "\<not> isDigit CHR ''_''" and not_digit_slash [simp]: "\<not> isDigit CHR ''/''"
  by (simp_all add: isDigit_def byteIn_def byteVal_def)

lemma number_prefix_inj:
  assumes "0 < e" and "0 < e'" and "\<not> isDigit c" and "decI e @ c # t = decI e' @ c # t'"
  shows "e = e' \<and> t = t'"
proof -
  from assms have eq: "decN e @ c # t = decN e' @ c # t'" by (simp add: decI_pos)
  then have "takeWhile isDigit (decN e @ c # t) = takeWhile isDigit (decN e' @ c # t')" by simp
  with assms have d: "decN e = decN e'" by (simp add: takeWhile_decN)
  then have "e = e'" using assms(1,2) by (intro decN_inj) auto
  moreover from eq d have "t = t'" by simp
  ultimately show ?thesis by simp
qed

text \<open>
  The contract of a way to name objects: the key of a positive event number and a fresh
  asset identifier is accepted by the store's own check, and two assets never share a key.
\<close>

locale key_scheme =
  fixes mk :: "int \<Rightarrow> string \<Rightarrow> string"
    and ok :: "string \<Rightarrow> bool"
  assumes mk_ok: "0 < e \<Longrightarrow> e < 2 ^ 63 \<Longrightarrow> lowerID i \<Longrightarrow> ok (mk e i)"
    and mk_inj: "0 < e \<Longrightarrow> 0 < e' \<Longrightarrow> mk e i = mk e' i' \<Longrightarrow> e = e' \<and> i = i'"
begin

lemma keys_distinct:
  assumes "distinct (map snd as)" and "\<forall>(e, i) \<in> set as. 0 < e"
  shows "distinct (map (\<lambda>(e, i). mk e i) as)"
  using assms by (induction as) (auto dest!: mk_inj simp: image_iff)

lemma key_determines_asset:
  assumes "0 < e" and "0 < e'" and "i \<noteq> i'"
  shows "mk e i \<noteq> mk e' i'"
  using assms mk_inj by blast

end

lemma objectKey_inj: "0 < e \<Longrightarrow> 0 < e' \<Longrightarrow> objectKey e i = objectKey e' i' \<Longrightarrow> e = e' \<and> i = i'"
  using number_prefix_inj [of e e' "CHR ''_''" i i'] by (simp add: objectKey_def)

lemma objectKey_valid: "0 < e \<Longrightarrow> e < 2 ^ 63 \<Longrightarrow> lowerID i \<Longrightarrow> validKey (objectKey e i)"
  by (simp add: validKey_def objectKey_def hasPrefix_def matchNumberThen_decN)

interpretation local_key: key_scheme objectKey validKey
  by unfold_locales (fact objectKey_valid, fact objectKey_inj)

text \<open>A temporary name is never a key, so cleaning one up cannot touch a finished object.\<close>

lemma hex_no_dot: "lowerID i \<Longrightarrow> CHR ''.'' \<notin> set i"
  by (auto simp: lowerID_def list_all_iff isLowerHex_def byteIn_def byteVal_def)

lemma validKey_no_dot:
  assumes "validKey k"
  shows "CHR ''.'' \<notin> set k"
proof -
  let ?r = "drop 1 k"
  from assms have pre: "k = CHR ''e'' # ?r"
    by (cases k) (auto simp: validKey_def hasPrefix_def)
  from assms have t: "hasPrefix (dropWhile isDigit ?r) ''_''" "lowerID (drop 1 (dropWhile isDigit ?r))"
    by (auto simp: validKey_def matchNumberThen_def Let_def)
  from t(1) have "dropWhile isDigit ?r = CHR ''_'' # drop 1 (dropWhile isDigit ?r)"
    by (rule hasPrefix_singleton)
  then have r: "takeWhile isDigit ?r @ CHR ''_'' # drop 1 (dropWhile isDigit ?r) = ?r"
    by (metis takeWhile_dropWhile_id)
  have "CHR ''.'' \<notin> set (takeWhile isDigit ?r)"
    by (auto dest!: set_takeWhileD simp: isDigit_def byteIn_def byteVal_def)
  with hex_no_dot [OF t(2)] have "CHR ''.'' \<notin> set ?r"
    by (subst r [symmetric]) simp
  then have "CHR ''.'' \<notin> set (CHR ''e'' # ?r)" by simp
  with pre show ?thesis by (rule ssubst)
qed

lemma part_not_validKey: "\<not> validKey (k @ ''.part'')"
  using validKey_no_dot by fastforce

text \<open>\<open>strings.Join\<close> with a comma.\<close>

fun joinComma :: "string list \<Rightarrow> string" where
  "joinComma [] = []"
| "joinComma [s] = s"
| "joinComma (s # ss) = s @ CHR '','' # joinComma ss"

end
