(* ===== verification/GoTime.thy ===== *)
theory GoTime
  imports GoText "HOL-Library.Monad_Syntax"
begin

text \<open>
  Instants and the timestamps stored in SQLite. A Go \<open>time.Time\<close> is an instant, in
  nanoseconds since 1970 (UTC). The code stores instants as \<open>Format(time.RFC3339Nano)\<close> text,
  which drops trailing zeros of the fraction and reads back exactly; in SQL two timestamps are
  compared as text. A stored timestamp is therefore the instant it was written from, ordered
  the way SQLite orders the two texts. Years are between 0 and 9999, where the text up to the
  seconds has a fixed width. That the texts do behave so is proved in Timestamps.
\<close>

section \<open>Stored timestamps and their order in SQL\<close>

datatype stamp = Stamp (instant: int)

definition nanosPerSecond :: int where
  "nanosPerSecond = 1000000000"

definition stampSecs :: "stamp \<Rightarrow> int" where
  "stampSecs t = instant t div nanosPerSecond"

definition stampNanos :: "stamp \<Rightarrow> int" where
  "stampNanos t = instant t mod nanosPerSecond"

fun digitsOf :: "nat \<Rightarrow> int \<Rightarrow> int list" where
  "digitsOf 0 n = []"
| "digitsOf (Suc k) n = digitsOf k (n div 10) @ [48 + n mod 10]"

definition trimZeros :: "int list \<Rightarrow> int list" where
  "trimZeros ds = rev (dropWhile (\<lambda>d. d = 48) (rev ds))"

text \<open>The bytes after the seconds: \<open>Z\<close>, or a point, the fraction without trailing zeros, and \<open>Z\<close>.\<close>

definition fracText :: "int \<Rightarrow> int list" where
  "fracText n = (if n = 0 then [90] else 46 # trimZeros (digitsOf 9 n) @ [90])"

definition stampKey :: "stamp \<Rightarrow> int \<times> int list" where
  "stampKey t = (stampSecs t, fracText (stampNanos t))"

lemma length_digitsOf [simp]: "length (digitsOf k n) = k"
  by (induction k arbitrary: n) auto

lemma digitsOf_inj: "0 \<le> m \<Longrightarrow> m < 10 ^ k \<Longrightarrow> 0 \<le> n \<Longrightarrow> n < 10 ^ k \<Longrightarrow> digitsOf k m = digitsOf k n \<Longrightarrow> m = n"
proof (induction k arbitrary: m n)
  case 0
  then show ?case by simp
next
  case (Suc k)
  then have "m div 10 < 10 ^ k" and "n div 10 < 10 ^ k"
    by simp_all
  with Suc have "m div 10 = n div 10" and "m mod 10 = n mod 10" by auto
  then show ?case by (metis div_mult_mod_eq)
qed

lemma trimZeros_pad: "trimZeros ds @ replicate (length ds - length (trimZeros ds)) 48 = ds"
proof (induction ds rule: rev_induct)
  case Nil
  then show ?case by (simp add: trimZeros_def)
next
  case (snoc d ds)
  show ?case
  proof (cases "d = 48")
    case True
    have "length (trimZeros ds) \<le> length ds"
      by (simp add: trimZeros_def length_dropWhile_le [of _ "rev ds", simplified])
    moreover have "trimZeros (ds @ [d]) = trimZeros ds" using True by (simp add: trimZeros_def)
    ultimately show ?thesis using snoc True
      by (simp add: Suc_diff_le replicate_append_same [symmetric] flip: append_assoc)
  next
    case False
    then show ?thesis by (simp add: trimZeros_def)
  qed
qed

lemma trimZeros_inj:
  assumes "trimZeros ds = trimZeros es" and "length ds = length es"
  shows "ds = es"
  using trimZeros_pad [of ds] trimZeros_pad [of es] assms by metis

lemma fracText_inj:
  assumes "0 \<le> m" "m < 10 ^ 9" and "0 \<le> n" "n < 10 ^ 9" and "fracText m = fracText n"
  shows "m = n"
proof (cases "m = 0 \<or> n = 0")
  case True
  with assms(5) show ?thesis by (auto simp: fracText_def split: if_splits)
next
  case False
  with assms(5) have "trimZeros (digitsOf 9 m) = trimZeros (digitsOf 9 n)"
    by (simp add: fracText_def)
  then have "digitsOf 9 m = digitsOf 9 n" by (rule trimZeros_inj) simp
  with assms(1-4) show ?thesis by (rule digitsOf_inj)
qed

lemma stampNanos_bound: "0 \<le> stampNanos t" "stampNanos t < 10 ^ 9"
  by (simp_all add: stampNanos_def nanosPerSecond_def)

lemma stampKey_inj: "stampKey s = stampKey t \<Longrightarrow> s = t"
proof -
  assume eq: "stampKey s = stampKey t"
  then have "stampNanos s = stampNanos t"
    by (auto simp: stampKey_def intro: fracText_inj stampNanos_bound)
  then have "instant s mod nanosPerSecond = instant t mod nanosPerSecond"
    by (simp add: stampNanos_def nanosPerSecond_def)
  moreover from eq have "instant s div nanosPerSecond = instant t div nanosPerSecond"
    by (simp add: stampKey_def stampSecs_def)
  ultimately have "instant s = instant t" by (metis div_mult_mod_eq)
  then show "s = t" by (simp add: stamp.expand)
qed

instantiation stamp :: linorder
begin

definition less_eq_stamp :: "stamp \<Rightarrow> stamp \<Rightarrow> bool" where
  "less_eq_stamp s t \<longleftrightarrow> stampKey s \<le> stampKey t"

definition less_stamp :: "stamp \<Rightarrow> stamp \<Rightarrow> bool" where
  "less_stamp s t \<longleftrightarrow> stampKey s < stampKey t"

instance
  by standard (auto simp: less_eq_stamp_def less_stamp_def dest: stampKey_inj)

end

lemma stamp_less_secs: "stampSecs s < stampSecs t \<Longrightarrow> s < t"
  by (simp add: less_stamp_def stampKey_def)

lemma stamp_less_imp_secs: "s < t \<Longrightarrow> stampSecs s \<le> stampSecs t"
  by (auto simp: less_stamp_def stampKey_def)

text \<open>
  Text order and time order agree up to the second: a timestamp that compares smaller was
  written less than a second after the other.
\<close>

lemma stamp_less_instant: "s < t \<Longrightarrow> instant s < instant t + nanosPerSecond"
proof -
  assume "s < t"
  then have "instant s div nanosPerSecond \<le> instant t div nanosPerSecond"
    using stamp_less_imp_secs by (simp add: stampSecs_def)
  then show ?thesis
    unfolding nanosPerSecond_def by linarith
qed

lemma stamp_le_instant: "s \<le> t \<Longrightarrow> instant s < instant t + nanosPerSecond"
  using stamp_less_instant by (cases "s = t") (auto simp: nanosPerSecond_def)

lemma instant_less_stamp: "instant s + nanosPerSecond \<le> instant t \<Longrightarrow> s < t"
  by (rule stamp_less_secs) (unfold stampSecs_def nanosPerSecond_def, linarith)

text \<open>Within one second the two orders can disagree, because \<open>.\<close> sorts before \<open>Z\<close>.\<close>

lemma stamp_text_order_differs: "Stamp 500000000 < Stamp 0"
  by code_simp

section \<open>Dates\<close>

definition leapYear :: "int \<Rightarrow> bool" where
  "leapYear y \<longleftrightarrow> y mod 4 = 0 \<and> (y mod 100 \<noteq> 0 \<or> y mod 400 = 0)"

definition daysIn :: "int \<Rightarrow> int \<Rightarrow> int" where
  "daysIn m y = (if m = 2 then (if leapYear y then 29 else 28)
                 else if m \<in> {4, 6, 9, 11} then 30 else 31)"

text \<open>Days from 1970-01-01 to a date of the proleptic Gregorian calendar.\<close>

definition daysFromCivil :: "int \<Rightarrow> int \<Rightarrow> int \<Rightarrow> int" where
  "daysFromCivil y m d =
     (let y' = (if m \<le> 2 then y - 1 else y);
          era = y' div 400; yoe = y' mod 400;
          mp = (if m > 2 then m - 3 else m + 9);
          doy = (153 * mp + 2) div 5 + d - 1;
          doe = yoe * 365 + yoe div 4 - yoe div 100 + doy
      in era * 146097 + doe - 719468)"

definition instantOf :: "int \<Rightarrow> int \<Rightarrow> int \<Rightarrow> int \<Rightarrow> int \<Rightarrow> int \<Rightarrow> int \<Rightarrow> int \<Rightarrow> int" where
  "instantOf y mo d h mi s ns off =
     (daysFromCivil y mo d * 86400 + h * 3600 + mi * 60 + s - off) * nanosPerSecond + ns"

definition instantYearIn :: "int \<Rightarrow> int \<Rightarrow> int \<Rightarrow> bool" where
  "instantYearIn lo hi t \<longleftrightarrow> instantOf lo 1 1 0 0 0 0 0 \<le> t \<and> t < instantOf (hi + 1) 1 1 0 0 0 0 0"

definition digitVal :: "char \<Rightarrow> int" where
  "digitVal c = byteVal c - 48"

definition numVal :: "string \<Rightarrow> int" where
  "numVal s = foldl (\<lambda>n c. n * 10 + digitVal c) 0 s"

text \<open>\<open>getnum\<close> of package \<open>time\<close>: two digits, or one where the layout element is not fixed.\<close>

definition getnum :: "bool \<Rightarrow> string \<Rightarrow> (int \<times> string) option" where
  "getnum fixed s =
     (case s of [] \<Rightarrow> None
      | c # r \<Rightarrow> if \<not> isDigit c then None
         else (case r of
                 c' # r' \<Rightarrow> if isDigit c' then Some (digitVal c * 10 + digitVal c', r')
                           else if fixed then None else Some (digitVal c, r)
               | [] \<Rightarrow> if fixed then None else Some (digitVal c, [])))"

definition skipChar :: "char \<Rightarrow> string \<Rightarrow> string option" where
  "skipChar c s = (case s of [] \<Rightarrow> None | c' # r \<Rightarrow> if c' = c then Some r else None)"

definition guardO :: "bool \<Rightarrow> unit option" where
  "guardO b = (if b then Some () else None)"

definition parseYear :: "string \<Rightarrow> (int \<times> string) option" where
  "parseYear s = (if 4 \<le> length s \<and> list_all isDigit (take 4 s) then Some (numVal (take 4 s), drop 4 s) else None)"

definition parseDate :: "string \<Rightarrow> (int \<times> int \<times> int \<times> string) option" where
  "parseDate s = do {
     (y, s) \<leftarrow> parseYear s; s \<leftarrow> skipChar CHR ''-'' s;
     (m, s) \<leftarrow> getnum True s; guardO (1 \<le> m \<and> m \<le> 12); s \<leftarrow> skipChar CHR ''-'' s;
     (d, s) \<leftarrow> getnum True s; Some (y, m, d, s) }"

text \<open>An optional fraction: a point or a comma and any number of digits, of which nine count.\<close>

definition parseFraction :: "string \<Rightarrow> int \<times> string" where
  "parseFraction s =
     (case s of
        p # c # r \<Rightarrow>
          if (p = CHR ''.'' \<or> p = CHR '','') \<and> isDigit c
          then (let ds = takeWhile isDigit (c # r)
                in (numVal (take 9 (ds @ replicate 9 (CHR ''0''))), dropWhile isDigit (c # r)))
          else (0, s)
      | _ \<Rightarrow> (0, s))"

text \<open>\<open>Z\<close>, or a sign and \<open>hh:mm\<close>; the range checks let 24 hours and 60 minutes through.\<close>

definition parseZone :: "string \<Rightarrow> (int \<times> string) option" where
  "parseZone s =
     (if hasPrefix s ''Z'' then Some (0, drop 1 s)
      else if length s < 6 \<or> s ! 3 \<noteq> CHR '':'' then None
      else do {
        (h, _) \<leftarrow> getnum True (take 2 (drop 1 s));
        (m, _) \<leftarrow> getnum True (take 2 (drop 4 s));
        guardO (h \<le> 24 \<and> m \<le> 60);
        if hd s = CHR ''+'' then Some ((h * 60 + m) * 60, drop 6 s)
        else if hd s = CHR ''-'' then Some (- ((h * 60 + m) * 60), drop 6 s)
        else None })"

text \<open>\<open>time.Parse(time.RFC3339Nano, s)\<close>, as an instant.\<close>

definition parseRFC3339Nano :: "string \<Rightarrow> int option" where
  "parseRFC3339Nano s = do {
     (y, mo, d, s) \<leftarrow> parseDate s; s \<leftarrow> skipChar CHR ''T'' s;
     (h, s) \<leftarrow> getnum False s; guardO (h < 24); s \<leftarrow> skipChar CHR '':'' s;
     (mi, s) \<leftarrow> getnum True s; guardO (mi < 60); s \<leftarrow> skipChar CHR '':'' s;
     (sec, s) \<leftarrow> getnum True s; guardO (sec < 60);
     (ns, s) \<leftarrow> Some (parseFraction s);
     (off, s) \<leftarrow> parseZone s;
     guardO (s = [] \<and> 1 \<le> d \<and> d \<le> daysIn mo y);
     Some (instantOf y mo d h mi sec ns off) }"

text \<open>\<open>time.Parse(time.DateOnly, s)\<close>: year, month and day.\<close>

definition parseDateOnly :: "string \<Rightarrow> (int \<times> int \<times> int) option" where
  "parseDateOnly s = do {
     (y, m, d, r) \<leftarrow> parseDate s;
     guardO (r = [] \<and> 1 \<le> d \<and> d \<le> daysIn m y);
     Some (y, m, d) }"

definition pad2 :: "int \<Rightarrow> string" where
  "pad2 n = (if n < 10 then CHR ''0'' # decI n else decI n)"

definition pad4 :: "int \<Rightarrow> string" where
  "pad4 n = (if n < 10 then ''000'' @ decI n else if n < 100 then ''00'' @ decI n
             else if n < 1000 then CHR ''0'' # decI n else decI n)"

definition formatDateOnly :: "int \<times> int \<times> int \<Rightarrow> string" where
  "formatDateOnly = (\<lambda>(y, m, d). pad4 y @ ''-'' @ pad2 m @ ''-'' @ pad2 d)"

lemma parse_examples:
  "parseRFC3339Nano ''1970-01-01T00:00:01.5Z'' = Some 1500000000"
  "parseRFC3339Nano ''2026-03-01T00:00:00+01:00'' = Some (1772319600 * 1000000000)"
  "parseRFC3339Nano ''2026-02-30T00:00:00Z'' = None"
  "parseDateOnly ''2024-02-29'' = Some (2024, 2, 29)" "parseDateOnly ''2023-02-29'' = None"
  "formatDateOnly (2024, 2, 29) = ''2024-02-29''"
  by code_simp+

end
