(* ===== verification/World.thy ===== *)
theory World
  imports GoTime Complex_Main
begin

text \<open>
  What every handler of the server shares: the error values of all packages, the SQLite
  tables (one record per row, in rowid order) with the constraints the migrations declare, the
  upload directory, the process-local locks and cursors, and the environment. The
  environment decides everything the code does not: what each clock reading is, which random
  bytes are drawn, what the object-storage SDK answers, and which statement, system call
  or commit fails, fails after taking effect, or is the last thing the process does.
\<close>

section \<open>Errors\<close>

datatype err =
    ErrClosed | ErrSession | ErrFilename | ErrType | ErrEmpty | ErrBusy | ErrDeleting | ErrSize
  | ErrExpired | ErrEventQuota | ErrSessionQuota | QuotaError string bool
  | ErrStrategy | ErrAsset | ErrReady | ErrRequest | ErrContributor
  | ErrTooLarge | ErrInvalidKey | ErrUnavailable | ErrMissing | ErrObjectChanged | ErrBackend
  | NoRows | ValidationError "string list"
  | ErrInput | ErrActive | ImmichUnavailable | ImmichAuth | ImmichMissing | ErrCredentials
  | ErrAlbumUncertain | ErrUnauthorized | Canceled
  | ErrOIDC | ErrChallenge | ErrChallengeExpired | ErrChallengeUnavailable
  | Failure string  \<comment> \<open>another \<open>errors.New\<close> or \<open>fmt.Errorf\<close> value\<close>
  | EIo             \<comment> \<open>a statement, commit, system call or read that failed\<close>
  | EConstraint     \<comment> \<open>a UNIQUE, CHECK, FOREIGN KEY or trigger violation\<close>
  | ECrashed        \<comment> \<open>not a Go value: the process ended here\<close>

text \<open>\<open>QuotaError.Unwrap\<close>, and \<open>errors.Is\<close> for the errors of this development.\<close>

fun unwrap :: "err \<Rightarrow> err option" where
  "unwrap (QuotaError code file) = Some (if file then ErrTooLarge else ErrEventQuota)"
| "unwrap _ = None"

definition errorsIs :: "err \<Rightarrow> err \<Rightarrow> bool" where
  "errorsIs e target \<longleftrightarrow> e = target \<or> unwrap e = Some target"

section \<open>Tables\<close>

record event_row =
  ev_id :: int
  ev_public :: string
  ev_name :: string
  ev_description :: string
  ev_date :: "string option"
  ev_enabled :: bool
  ev_expires :: "stamp option"
  ev_created :: stamp
  ev_updated :: stamp
  ev_deleting :: bool
  ev_max_assets :: "int option"
  ev_max_bytes :: "int option"
  ev_max_photos :: "int option"
  ev_max_videos :: "int option"
  ev_max_photo_file :: "int option"
  ev_max_video_file :: "int option"
  ev_max_photo_storage :: "int option"
  ev_max_video_storage :: "int option"

record session_row =
  us_id :: string
  us_event :: int
  us_created :: stamp
  us_updated :: stamp
  us_expires :: stamp
  us_max_assets :: int
  us_max_bytes :: int
  us_verified :: "stamp option"
  us_contributor :: "string option"

datatype asset_status = Pending | Ready

record asset_row =
  as_id :: string
  as_event :: int
  as_session :: string
  as_filename :: string
  as_key :: string
  as_mime :: string
  as_size :: int
  as_status :: asset_status
  as_created :: stamp
  as_completed :: "stamp option"
  as_provider :: string
  as_target :: string
  as_expected :: int
  as_expected_mime :: string
  as_authorized :: "stamp option"
  as_request :: "string option"
  as_backend :: int
  as_contributor :: "string option"
  as_class :: "string option"

record cleanup_row =
  cl_key :: string
  cl_target :: string
  cl_event :: int
  cl_asset :: string
  cl_checked :: stamp
  cl_backend :: int

record backend_row =
  sb_id :: int
  sb_key :: string
  sb_type :: string
  sb_endpoint :: string
  sb_bucket :: string
  sb_region :: string
  sb_path_style :: bool
  sb_prefix :: string

record target_row =
  it_id :: int
  it_key :: string
  it_url :: string

datatype album_state = AlbumNew | AlbumCreating | AlbumReady

record import_row =
  ei_id :: int
  ei_event :: int
  ei_target :: int
  ei_name :: string
  ei_marker :: string
  ei_state :: album_state
  ei_album :: "string option"
  ei_auto :: bool

datatype import_status = ImpPending | ImpImporting | ImpImported | ImpDuplicate | ImpFailed

record asset_import_row =
  ai_import :: int
  ai_asset :: string
  ai_remote :: "string option"
  ai_duplicate :: bool
  ai_status :: import_status
  ai_attempts :: int
  ai_error :: string

datatype job_status = Queued | Running | Completed | Failed | Cancelled
datatype job_mode = ModeNew | ModeRetry

record job_row =
  jb_id :: int
  jb_import :: int
  jb_status :: job_status
  jb_mode :: job_mode
  jb_cancel :: bool
  jb_error :: string

text \<open>Sign-in: the hash of the one password, sessions by the hash of their token, unfinished OpenID flows.
Times are Unix seconds.\<close>

record admin_row =
  ad_token :: string
  ad_csrf :: string
  ad_created :: int
  ad_expires :: int

record oidc_row =
  oi_state :: string
  oi_nonce :: string
  oi_verifier :: string
  oi_browser :: string
  oi_created :: int
  oi_expires :: int

record db =
  events :: "event_row list"
  sessions :: "session_row list"
  assets :: "asset_row list"
  retired :: "cleanup_row list"
  backends :: "backend_row list"
  targets :: "target_row list"
  event_imports :: "import_row list"
  asset_imports :: "asset_import_row list"
  jobs :: "job_row list"
  credential :: "string option"
  admin_sessions :: "admin_row list"
  oidc_flows :: "oidc_row list"

section \<open>Statements with constraints and cascades\<close>

text \<open>\<open>INSERT INTO assets\<close>: primary key, unique key, unique request per session, foreign
keys to the session of the same event, to the event and to the backend, and the CHECKs.\<close>

definition assetInsertOk :: "db \<Rightarrow> asset_row \<Rightarrow> bool" where
  "assetInsertOk d a \<longleftrightarrow>
     list_all (\<lambda>b. as_id b \<noteq> as_id a \<and> as_key b \<noteq> as_key a \<and>
       \<not> (as_request a \<noteq> None \<and> as_session b = as_session a \<and> as_request b = as_request a)) (assets d)
     \<and> list_ex (\<lambda>e. ev_id e = as_event a) (events d)
     \<and> list_ex (\<lambda>u. us_id u = as_session a \<and> us_event u = as_event a) (sessions d)
     \<and> list_ex (\<lambda>b. sb_id b = as_backend a) (backends d)
     \<and> 1 \<le> runeCount (as_filename a) \<and> runeCount (as_filename a) \<le> 255 \<and> 0 \<le> as_expected a"

definition insertAsset :: "asset_row \<Rightarrow> db \<Rightarrow> err + db \<times> unit" where
  "insertAsset a d = (if assetInsertOk d a then Inr (d\<lparr>assets := assets d @ [a]\<rparr>, ()) else Inl EConstraint)"

text \<open>\<open>DELETE FROM assets\<close> cascades to \<open>immich_asset_imports\<close>.\<close>

definition deleteAssets :: "(asset_row \<Rightarrow> bool) \<Rightarrow> db \<Rightarrow> db" where
  "deleteAssets P d =
     d\<lparr>assets := filter (\<lambda>a. \<not> P a) (assets d),
       asset_imports := filter (\<lambda>i. \<not> list_ex (\<lambda>a. P a \<and> as_id a = ai_asset i) (assets d)) (asset_imports d)\<rparr>"

text \<open>\<open>DELETE FROM upload_sessions\<close> cascades to the session's assets.\<close>

definition deleteSessions :: "(session_row \<Rightarrow> bool) \<Rightarrow> db \<Rightarrow> db" where
  "deleteSessions P d =
     (deleteAssets (\<lambda>a. list_ex (\<lambda>u. P u \<and> us_id u = as_session a \<and> us_event u = as_event a) (sessions d)) d)
       \<lparr>sessions := filter (\<lambda>u. \<not> P u) (sessions d)\<rparr>"

text \<open>\<open>DELETE FROM events\<close> cascades to sessions, assets, Immich bindings, their selections and jobs.\<close>

definition deleteEvents :: "(event_row \<Rightarrow> bool) \<Rightarrow> db \<Rightarrow> db" where
  "deleteEvents P d =
     (let gone = (\<lambda>i. list_ex (\<lambda>e. P e \<and> ev_id e = i) (events d));
          lost = (\<lambda>i. list_ex (\<lambda>b. gone (ei_event b) \<and> ei_id b = i) (event_imports d));
          d1 = deleteAssets (\<lambda>a. gone (as_event a)) d
      in d1\<lparr>events := filter (\<lambda>e. \<not> P e) (events d1),
            sessions := filter (\<lambda>u. \<not> gone (us_event u)) (sessions d1),
            event_imports := filter (\<lambda>b. \<not> gone (ei_event b)) (event_imports d1),
            asset_imports := filter (\<lambda>i. \<not> lost (ai_import i)) (asset_imports d1),
            jobs := filter (\<lambda>j. \<not> lost (jb_import j)) (jobs d1)\<rparr>)"

lemma assets_deleteAssets [simp]: "assets (deleteAssets P d) = filter (\<lambda>a. \<not> P a) (assets d)"
  by (simp add: deleteAssets_def)

lemma deleteAssets_other [simp]:
  "events (deleteAssets P d) = events d" "sessions (deleteAssets P d) = sessions d"
  "retired (deleteAssets P d) = retired d" "backends (deleteAssets P d) = backends d"
  "event_imports (deleteAssets P d) = event_imports d" "jobs (deleteAssets P d) = jobs d"
  "targets (deleteAssets P d) = targets d"
  by (simp_all add: deleteAssets_def)

lemma deleteSessions_simps [simp]:
  "events (deleteSessions P d) = events d" "retired (deleteSessions P d) = retired d"
  "backends (deleteSessions P d) = backends d"
  "sessions (deleteSessions P d) = filter (\<lambda>u. \<not> P u) (sessions d)"
  "event_imports (deleteSessions P d) = event_imports d" "jobs (deleteSessions P d) = jobs d"
  by (simp_all add: deleteSessions_def)

lemma deleteEvents_simps [simp]:
  "events (deleteEvents P d) = filter (\<lambda>e. \<not> P e) (events d)" "retired (deleteEvents P d) = retired d"
  "backends (deleteEvents P d) = backends d" "targets (deleteEvents P d) = targets d"
  by (simp_all add: deleteEvents_def Let_def)

section \<open>The environment\<close>

datatype fault = Fine | Refused | Unreported | CrashBefore | CrashAfter

text \<open>Answers of the S3 SDK (aws-sdk-go-v2), a third-party package: an API error with its code,
another error, or the fields of the output the code reads.\<close>

datatype sdk_error = ApiError string | TransportError

record head_out =
  ho_size :: int
  ho_type :: string
  ho_etag :: string

record get_out =
  go_range :: string
  go_length :: int
  go_etag :: string
  go_type :: string
  go_body :: string
  go_broken :: bool

record presign_out =
  po_method :: string
  po_url :: string
  po_headers :: "(string \<times> string list) list"

text \<open>What the Immich server answers, as \<open>encoding/json\<close> decodes it into the variable that the code passes.\<close>

record album =
  al_id :: string
  al_name :: string
  al_description :: string

datatype json =
    JPermissions "string list" | JVersion int int int | JAlbum album | JAlbums "album list"
  | JUpload string string | JAdded "(string \<times> bool \<times> string) list" | JInvalid

record http_answer =
  ha_done :: bool      \<comment> \<open>the exchange ended without a transport error\<close>
  ha_status :: int
  ha_length :: int
  ha_read :: bool      \<comment> \<open>the body was read without an error\<close>
  ha_json :: json

record env =
  e_now :: "nat \<Rightarrow> int"
  e_fault :: "nat \<Rightarrow> fault"
  e_rand :: "nat \<Rightarrow> int list"
  e_head :: "nat \<Rightarrow> sdk_error + head_out"
  e_get :: "nat \<Rightarrow> sdk_error + get_out"
  e_delete :: "nat \<Rightarrow> sdk_error + unit"
  e_presign :: "nat \<Rightarrow> sdk_error + presign_out"
  e_http :: "nat \<Rightarrow> http_answer"
  e_cancelled :: "nat \<Rightarrow> bool"

text \<open>Requests that left the process: to object storage, with the backend and the key, or to the Immich
server of a target, with the method, the path and the fields of the body, or to the OpenID provider with
the authorization code, or to the challenge service with the visitor's token.\<close>

datatype call =
    CallHead int string | CallGet int string | CallDelete int string | CallPresign int string
  | CallImmich int string string "string list" | CallOIDC string | CallChallenge string

text \<open>What the process remembers between requests: the endpoints of a discovered OpenID provider, and the
token buckets of the rate limiter by the digest of their key, with the time of the last sweep.\<close>

record oidc_metadata =
  om_jwks :: string
  om_auth :: string
  om_token :: string

record bucket =
  bk_tokens :: rat
  bk_updated :: int
  bk_seen :: int

record limiter =
  lm_entries :: "(int list \<times> bucket) list"
  lm_swept :: "int option"

text \<open>What an export writes (\<open>export.Manifest\<close>), and its files by their path in the output directory.\<close>

record manifest_asset =
  ma_id :: string
  ma_original :: string
  ma_export :: string
  ma_mime :: string
  ma_size :: int
  ma_uploaded :: stamp

record manifest =
  mf_version :: int
  mf_event_id :: int
  mf_public :: string
  mf_name :: string
  mf_date :: "string option"
  mf_exported :: stamp
  mf_assets :: "manifest_asset list"

datatype out_file = MediaFile string | ManifestFile manifest

record world =
  wdb :: db
  files :: "string \<Rightarrow> string option"  \<comment> \<open>the upload directory: names to contents\<close>
  readers :: "int \<Rightarrow> nat"             \<comment> \<open>shared holders of each event's lock\<close>
  cleanupAfter :: string
  retiredAfter :: string
  reconcileAfter :: int
  provider :: "oidc_metadata option"
  buckets :: limiter
  outputDir :: "(string \<Rightarrow> out_file option) option"  \<comment> \<open>of an export, once it is created\<close>
  trace :: "call list"
  tick :: nat
  dead :: bool
  env :: env

type_synonym 'a wop = "(world, err, 'a) op"

text \<open>
  One interaction with the outside. \<open>Refused\<close>: it fails and did nothing. \<open>Unreported\<close>: it
  took effect and an error came back (a lost reply, a commit with an uncertain outcome). A crash
  comes before or after the effect, and after it nothing has an effect any more.
\<close>

definition effect :: "(world \<Rightarrow> (err + 'a) \<times> world) \<Rightarrow> 'a wop" where
  "effect f w =
     (if dead w then (Inl ECrashed, w)
      else (let w1 = w\<lparr>tick := Suc (tick w)\<rparr> in
        (case e_fault (env w) (tick w) of
           Fine \<Rightarrow> f w1
         | Refused \<Rightarrow> (Inl EIo, w1)
         | Unreported \<Rightarrow> (Inl EIo, snd (f w1))
         | CrashBefore \<Rightarrow> (Inl ECrashed, w1\<lparr>dead := True\<rparr>)
         | CrashAfter \<Rightarrow> (Inl ECrashed, (snd (f w1))\<lparr>dead := True\<rparr>))))"

definition query :: "(db \<Rightarrow> err + 'a) \<Rightarrow> 'a wop" where
  "query q = effect (\<lambda>w. (q (wdb w), w))"

definition exec :: "(db \<Rightarrow> err + db \<times> 'a) \<Rightarrow> 'a wop" where
  "exec x = effect (\<lambda>w. case x (wdb w) of Inl e \<Rightarrow> (Inl e, w) | Inr (d, r) \<Rightarrow> (Inr r, w\<lparr>wdb := d\<rparr>))"

text \<open>\<open>QueryRow(...).Scan(...)\<close> of the first matching row.\<close>

definition queryRow :: "(db \<Rightarrow> 'a option) \<Rightarrow> 'a wop" where
  "queryRow q = query (\<lambda>d. case q d of None \<Rightarrow> Inl NoRows | Some r \<Rightarrow> Inr r)"

text \<open>\<open>if err != nil { return other }\<close>: the caller sees another error.\<close>

definition orErr :: "'a wop \<Rightarrow> err \<Rightarrow> 'a wop" where
  "orErr m other =
     tryE m (\<lambda>r. case r of Inl e \<Rightarrow> raise (if e = ECrashed then ECrashed else other) | Inr x \<Rightarrow> ret x)"

text \<open>
  \<open>BeginTx\<close>, the body, \<open>Commit\<close>, with the deferred \<open>Rollback\<close>: an error of the body
  restores the database, and so does a commit that is refused. The pool has one connection and
  transactions are IMMEDIATE, so no other statement runs between begin and commit.
\<close>

definition inTx :: "'a wop \<Rightarrow> 'a wop" where
  "inTx body w =
     (case effect (\<lambda>w. (Inr (), w)) w of (b, w1) \<Rightarrow>
       (case b of Inl e \<Rightarrow> (Inl e, w1)
        | Inr _ \<Rightarrow>
          (case body w1 of (r, w2) \<Rightarrow>
            (case r of
               Inl e \<Rightarrow> (Inl e, w2\<lparr>wdb := wdb w1\<rparr>)
             | Inr x \<Rightarrow> effect (\<lambda>w. (Inr x, w\<lparr>wdb := wdb w2\<rparr>)) (w2\<lparr>wdb := wdb w1\<rparr>)))))"

text \<open>\<open>time.Now()\<close>, \<open>rand.Read\<close>: they do not fail.\<close>

definition now :: "int wop" where
  "now w = (Inr (e_now (env w) (tick w)), w\<lparr>tick := Suc (tick w)\<rparr>)"

definition timestamp :: "stamp wop" where
  "timestamp = bindE now (\<lambda>t. ret (Stamp t))"

definition randomBytes :: "int list wop" where
  "randomBytes w = (Inr (e_rand (env w) (tick w)), w\<lparr>tick := Suc (tick w)\<rparr>)"

text \<open>\<open>ctx.Err() != nil\<close> at this step.\<close>

definition cancelled :: "bool wop" where
  "cancelled w = (Inr (e_cancelled (env w) (tick w)), w\<lparr>tick := Suc (tick w)\<rparr>)"

text \<open>A request to object storage. The SDK's answer is data; only a crash ends the operation.\<close>

definition remote :: "call \<Rightarrow> (env \<Rightarrow> nat \<Rightarrow> 'a) \<Rightarrow> 'a wop" where
  "remote c answer w =
     (if dead w then (Inl ECrashed, w)
      else (let w1 = w\<lparr>tick := Suc (tick w)\<rparr>; w2 = w1\<lparr>trace := trace w @ [c]\<rparr> in
        (case e_fault (env w) (tick w) of
           CrashBefore \<Rightarrow> (Inl ECrashed, w1\<lparr>dead := True\<rparr>)
         | CrashAfter \<Rightarrow> (Inl ECrashed, w2\<lparr>dead := True\<rparr>)
         | _ \<Rightarrow> (Inr (answer (env w) (tick w)), w2))))"

text \<open>\<open>lock.RLock()\<close> for the body, with the deferred \<open>RUnlock\<close>.\<close>

definition rlock :: "int \<Rightarrow> world \<Rightarrow> world" where
  "rlock i w = w\<lparr>readers := (readers w)(i := Suc (readers w i))\<rparr>"

definition runlock :: "int \<Rightarrow> world \<Rightarrow> world" where
  "runlock i w = w\<lparr>readers := (readers w)(i := readers w i - 1)\<rparr>"

definition withRLock :: "int \<Rightarrow> 'a wop \<Rightarrow> 'a wop" where
  "withRLock i m = bindE (modify (rlock i)) (\<lambda>_. deferE m (runlock i))"

definition tryLock :: "int \<Rightarrow> bool wop" where
  "tryLock i = gets (\<lambda>w. readers w i = 0)"

section \<open>SQL arithmetic\<close>

text \<open>Integers are 64-bit in Go and SQLite. \<open>sum()\<close> fails when the result leaves that range.\<close>

definition int64 :: "int \<Rightarrow> bool" where
  "int64 i \<longleftrightarrow> - (2 ^ 63) \<le> i \<and> i < 2 ^ 63"

definition sqlSum :: "int \<Rightarrow> err + int" where
  "sqlSum s = (if int64 s then Inr s else Inl EIo)"

end
