(* ===== verification/Effects.thy ===== *)
theory Effects
  imports World
begin

text \<open>
  Reasoning about operations on the world: a precondition calculus with one postcondition for
  the value and one for every error (whatever failed, and wherever the process stopped), and the
  relations between the world before and after an operation. Everything proved with them holds
  for every environment, hence for every place where a statement, commit, system call or
  remote request fails, takes effect without saying so, or is the last thing that happens.
\<close>

text \<open>Updates of different fields commute; the fields are written in the record's order.\<close>

lemma world_field_order [simp]:
  fixes w :: world
  shows
  "wdb_update fd (files_update ff w) = files_update ff (wdb_update fd w)"
  "wdb_update fd (readers_update fr w) = readers_update fr (wdb_update fd w)"
  "files_update ff (readers_update fr w) = readers_update fr (files_update ff w)"
  "wdb_update fd (cleanupAfter_update fc w) = cleanupAfter_update fc (wdb_update fd w)"
  "files_update ff (cleanupAfter_update fc w) = cleanupAfter_update fc (files_update ff w)"
  "readers_update fr (cleanupAfter_update fc w) = cleanupAfter_update fc (readers_update fr w)"
  "wdb_update fd (retiredAfter_update fa w) = retiredAfter_update fa (wdb_update fd w)"
  "files_update ff (retiredAfter_update fa w) = retiredAfter_update fa (files_update ff w)"
  "readers_update fr (retiredAfter_update fa w) = retiredAfter_update fa (readers_update fr w)"
  "cleanupAfter_update fc (retiredAfter_update fa w) = retiredAfter_update fa (cleanupAfter_update fc w)"
  "wdb_update fd (reconcileAfter_update fe w) = reconcileAfter_update fe (wdb_update fd w)"
  "files_update ff (reconcileAfter_update fe w) = reconcileAfter_update fe (files_update ff w)"
  "readers_update fr (reconcileAfter_update fe w) = reconcileAfter_update fe (readers_update fr w)"
  "cleanupAfter_update fc (reconcileAfter_update fe w) = reconcileAfter_update fe (cleanupAfter_update fc w)"
  "retiredAfter_update fa (reconcileAfter_update fe w) = reconcileAfter_update fe (retiredAfter_update fa w)"
  "wdb_update fd (trace_update ft w) = trace_update ft (wdb_update fd w)"
  "files_update ff (trace_update ft w) = trace_update ft (files_update ff w)"
  "readers_update fr (trace_update ft w) = trace_update ft (readers_update fr w)"
  "cleanupAfter_update fc (trace_update ft w) = trace_update ft (cleanupAfter_update fc w)"
  "retiredAfter_update fa (trace_update ft w) = trace_update ft (retiredAfter_update fa w)"
  "reconcileAfter_update fe (trace_update ft w) = trace_update ft (reconcileAfter_update fe w)"
  "wdb_update fd (tick_update fn w) = tick_update fn (wdb_update fd w)"
  "files_update ff (tick_update fn w) = tick_update fn (files_update ff w)"
  "readers_update fr (tick_update fn w) = tick_update fn (readers_update fr w)"
  "cleanupAfter_update fc (tick_update fn w) = tick_update fn (cleanupAfter_update fc w)"
  "retiredAfter_update fa (tick_update fn w) = tick_update fn (retiredAfter_update fa w)"
  "reconcileAfter_update fe (tick_update fn w) = tick_update fn (reconcileAfter_update fe w)"
  "trace_update ft (tick_update fn w) = tick_update fn (trace_update ft w)"
  "wdb_update fd (dead_update fb w) = dead_update fb (wdb_update fd w)"
  "files_update ff (dead_update fb w) = dead_update fb (files_update ff w)"
  "readers_update fr (dead_update fb w) = dead_update fb (readers_update fr w)"
  "cleanupAfter_update fc (dead_update fb w) = dead_update fb (cleanupAfter_update fc w)"
  "retiredAfter_update fa (dead_update fb w) = dead_update fb (retiredAfter_update fa w)"
  "reconcileAfter_update fe (dead_update fb w) = dead_update fb (reconcileAfter_update fe w)"
  "trace_update ft (dead_update fb w) = dead_update fb (trace_update ft w)"
  "wdb_update fd (provider_update fp w) = provider_update fp (wdb_update fd w)"
  "files_update ff (provider_update fp w) = provider_update fp (files_update ff w)"
  "readers_update fr (provider_update fp w) = provider_update fp (readers_update fr w)"
  "cleanupAfter_update fc (provider_update fp w) = provider_update fp (cleanupAfter_update fc w)"
  "retiredAfter_update fa (provider_update fp w) = provider_update fp (retiredAfter_update fa w)"
  "reconcileAfter_update fe (provider_update fp w) = provider_update fp (reconcileAfter_update fe w)"
  "wdb_update fd (buckets_update fk w) = buckets_update fk (wdb_update fd w)"
  "files_update ff (buckets_update fk w) = buckets_update fk (files_update ff w)"
  "readers_update fr (buckets_update fk w) = buckets_update fk (readers_update fr w)"
  "cleanupAfter_update fc (buckets_update fk w) = buckets_update fk (cleanupAfter_update fc w)"
  "retiredAfter_update fa (buckets_update fk w) = buckets_update fk (retiredAfter_update fa w)"
  "reconcileAfter_update fe (buckets_update fk w) = buckets_update fk (reconcileAfter_update fe w)"
  "provider_update fp (buckets_update fk w) = buckets_update fk (provider_update fp w)"
  "provider_update fp (trace_update ft w) = trace_update ft (provider_update fp w)"
  "buckets_update fk (trace_update ft w) = trace_update ft (buckets_update fk w)"
  "provider_update fp (tick_update fn w) = tick_update fn (provider_update fp w)"
  "buckets_update fk (tick_update fn w) = tick_update fn (buckets_update fk w)"
  "provider_update fp (dead_update fb w) = dead_update fb (provider_update fp w)"
  "buckets_update fk (dead_update fb w) = dead_update fb (buckets_update fk w)"
  "tick_update fn (dead_update fb w) = dead_update fb (tick_update fn w)"
  by (rule world.equality; simp)+

section \<open>A value postcondition and an error postcondition\<close>

named_theorems vcg "one rule per combinator, for intro"

definition wpE :: "'a wop \<Rightarrow> ('a \<Rightarrow> world \<Rightarrow> bool) \<Rightarrow> (world \<Rightarrow> bool) \<Rightarrow> world \<Rightarrow> bool" where
  "wpE m Q E w \<longleftrightarrow> (case m w of (r, t) \<Rightarrow> (case r of Inl _ \<Rightarrow> E t | Inr x \<Rightarrow> Q x t))"

lemma wpE_D1: "wpE m Q E w \<Longrightarrow> m w = (Inr x, t) \<Longrightarrow> Q x t"
  and wpE_D2: "wpE m Q E w \<Longrightarrow> m w = (Inl e, t) \<Longrightarrow> E t"
  by (simp_all add: wpE_def)

lemma wpE_state: "wpE m (\<lambda>_. I) I w \<Longrightarrow> I (snd (m w))"
  by (auto simp: wpE_def split: prod.splits sum.splits)

lemma wpE_mono:
  "wpE m Q E w \<Longrightarrow> (\<And>x t. Q x t \<Longrightarrow> Q' x t) \<Longrightarrow> (\<And>t. E t \<Longrightarrow> E' t) \<Longrightarrow> wpE m Q' E' w"
  by (auto simp: wpE_def split: prod.splits sum.splits)

lemma wpE_triv: "wpE m (\<lambda>_ _. True) (\<lambda>_. True) w"
  by (auto simp: wpE_def split: prod.splits sum.splits)

lemma wpE_conj: "wpE m Q E w \<Longrightarrow> wpE m Q' E' w \<Longrightarrow> wpE m (\<lambda>x t. Q x t \<and> Q' x t) (\<lambda>t. E t \<and> E' t) w"
  by (auto simp: wpE_def split: prod.splits sum.splits)

lemma wpE_upholds: "upholds R m \<Longrightarrow> wpE m (\<lambda>_ t. R w t) (R w) w"
  by (auto simp: wpE_def upholds_def split: prod.splits sum.splits) (metis snd_conv)+

lemma wpE_ret [vcg]: "Q x w \<Longrightarrow> wpE (ret x) Q E w"
  by (simp add: wpE_def ret_def)

lemma wpE_raise [vcg]: "E w \<Longrightarrow> wpE (raise e) Q E w"
  by (simp add: wpE_def raise_def)

lemma wpE_bindE [vcg]: "wpE m (\<lambda>x. wpE (f x) Q E) E w \<Longrightarrow> wpE (bindE m f) Q E w"
  by (auto simp: wpE_def bindE_def split: prod.splits sum.splits)

lemma wpE_step: "wpE m Q E w \<Longrightarrow> (\<And>x t. Q x t \<Longrightarrow> wpE (f x) Q' E t) \<Longrightarrow> wpE (bindE m f) Q' E w"
  by (rule wpE_bindE) (erule wpE_mono)

lemma wpE_tryE [vcg]:
  assumes "wpE m (\<lambda>x. wpE (h (Inr x)) Q E) (\<lambda>t. \<forall>e. wpE (h (Inl e)) Q E t) w"
  shows "wpE (tryE m h) Q E w"
proof -
  obtain r t where m: "m w = (r, t)" by fastforce
  with assms have "wpE (h r) Q E t" by (cases r) (simp_all add: wpE_def [of m])
  with m show ?thesis by (simp add: wpE_def tryE_def)
qed

lemma wpE_failIf [vcg]: "(b \<Longrightarrow> E w) \<Longrightarrow> (\<not> b \<Longrightarrow> Q () w) \<Longrightarrow> wpE (failIf b e) Q E w"
  by (simp add: wpE_def failIf_def)

lemma wpE_liftE [vcg]: "(\<And>e. r = Inl e \<Longrightarrow> E w) \<Longrightarrow> (\<And>x. r = Inr x \<Longrightarrow> Q x w) \<Longrightarrow> wpE (liftE r) Q E w"
  by (cases r) (auto simp: wpE_def liftE_def)

lemma wpE_gets [vcg]: "Q (f w) w \<Longrightarrow> wpE (gets f) Q E w"
  by (simp add: wpE_def gets_def)

lemma wpE_modify [vcg]: "Q () (g w) \<Longrightarrow> wpE (modify g) Q E w"
  by (simp add: wpE_def modify_def)

lemma wpE_deferE [vcg]: "wpE m (\<lambda>x t. Q x (g t)) (\<lambda>t. E (g t)) w \<Longrightarrow> wpE (deferE m g) Q E w"
  by (auto simp: wpE_def deferE_def split: prod.splits sum.splits)

lemma wpE_onError [vcg]: "wpE m Q (\<lambda>t. wpE c (\<lambda>_. E) E t) w \<Longrightarrow> wpE (onError m c) Q E w"
  by (auto simp: wpE_def onError_def split: prod.splits sum.splits)

lemma wpE_finallyE [vcg]:
  "wpE m (\<lambda>x. wpE c (\<lambda>_. Q x) (Q x)) (\<lambda>t. wpE c (\<lambda>_. E) E t) w \<Longrightarrow> wpE (finallyE m c) Q E w"
  by (auto simp: wpE_def finallyE_def split: prod.splits sum.splits)

lemma wpE_if [vcg]: "(b \<Longrightarrow> wpE m Q E w) \<Longrightarrow> (\<not> b \<Longrightarrow> wpE m' Q E w) \<Longrightarrow> wpE (if b then m else m') Q E w"
  by simp

lemma wpE_option [vcg]:
  "(x = None \<Longrightarrow> wpE m Q E w) \<Longrightarrow> (\<And>y. x = Some y \<Longrightarrow> wpE (f y) Q E w) \<Longrightarrow>
   wpE (case x of None \<Rightarrow> m | Some y \<Rightarrow> f y) Q E w"
  by (cases x) auto

lemma wpE_sum [vcg]:
  "(\<And>e. r = Inl e \<Longrightarrow> wpE (f e) Q E w) \<Longrightarrow> (\<And>y. r = Inr y \<Longrightarrow> wpE (g y) Q E w) \<Longrightarrow>
   wpE (case r of Inl e \<Rightarrow> f e | Inr y \<Rightarrow> g y) Q E w"
  by (cases r) auto

lemma wpE_prod [vcg]:
  "(\<And>a b. p = (a, b) \<Longrightarrow> wpE (f a b) Q E w) \<Longrightarrow> wpE (case p of (a, b) \<Rightarrow> f a b) Q E w"
  by (cases p) auto

lemma wpE_effect:
  assumes "\<And>n b. E (w\<lparr>tick := n, dead := b\<rparr>)"
    and "\<And>r t. f (w\<lparr>tick := Suc (tick w)\<rparr>) = (r, t) \<Longrightarrow>
           E t \<and> E (t\<lparr>dead := True\<rparr>) \<and> (\<forall>x. r = Inr x \<longrightarrow> Q x t)"
  shows "wpE (effect f) Q E w"
proof -
  obtain r t where f: "f (w\<lparr>tick := Suc (tick w)\<rparr>) = (r, t)" by fastforce
  note post = assms(2) [OF f]
  have "E w" using assms(1) [where n = "tick w" and b = "dead w"] by simp
  moreover have "E (w\<lparr>tick := Suc (tick w)\<rparr>)" using assms(1) [where n = "Suc (tick w)" and b = "dead w"] by simp
  moreover have "E (w\<lparr>tick := Suc (tick w), dead := True\<rparr>)" by (rule assms(1))
  ultimately show ?thesis
    using f post by (auto simp: wpE_def effect_def Let_def split: fault.split sum.split)
qed

lemma wpE_query [vcg]:
  assumes "\<And>n b. E (w\<lparr>tick := n, dead := b\<rparr>)"
    and "\<And>x n. q (wdb w) = Inr x \<Longrightarrow> Q x (w\<lparr>tick := n\<rparr>)"
  shows "wpE (query q) Q E w"
  unfolding query_def
proof (rule wpE_effect)
  have "E (w\<lparr>tick := Suc (tick w)\<rparr>)" using assms(1) [where n = "Suc (tick w)" and b = "dead w"] by simp
  then show "E t \<and> E (t\<lparr>dead := True\<rparr>) \<and> (\<forall>x. r = Inr x \<longrightarrow> Q x t)"
    if "(q (wdb (w\<lparr>tick := Suc (tick w)\<rparr>)), w\<lparr>tick := Suc (tick w)\<rparr>) = (r, t)" for r t
    using that assms by auto
qed (rule assms)

lemma wpE_queryRow [vcg]:
  assumes "\<And>n b. E (w\<lparr>tick := n, dead := b\<rparr>)"
    and "\<And>x n. q (wdb w) = Some x \<Longrightarrow> Q x (w\<lparr>tick := n\<rparr>)"
  shows "wpE (queryRow q) Q E w"
  unfolding queryRow_def by (rule wpE_query) (use assms in \<open>auto split: option.splits\<close>)

lemma wpE_exec [vcg]:
  assumes "\<And>n b. E (w\<lparr>tick := n, dead := b\<rparr>)"
    and "\<And>d r n b. x (wdb w) = Inr (d, r) \<Longrightarrow> E (w\<lparr>wdb := d, tick := n, dead := b\<rparr>)"
    and "\<And>d r n. x (wdb w) = Inr (d, r) \<Longrightarrow> Q r (w\<lparr>wdb := d, tick := n\<rparr>)"
  shows "wpE (exec x) Q E w"
  unfolding exec_def
proof (rule wpE_effect)
  fix r t
  let ?w = "w\<lparr>tick := Suc (tick w)\<rparr>"
  assume run: "(case x (wdb ?w) of Inl e \<Rightarrow> (Inl e, ?w) | Inr (d, r) \<Rightarrow> (Inr r, ?w\<lparr>wdb := d\<rparr>)) = (r, t)"
  show "E t \<and> E (t\<lparr>dead := True\<rparr>) \<and> (\<forall>x. r = Inr x \<longrightarrow> Q x t)"
  proof (cases "x (wdb w)")
    case (Inl e)
    with run assms(1) [where n = "Suc (tick w)" and b = "dead w"] assms(1) [where n = "Suc (tick w)" and b = True]
    show ?thesis by auto
  next
    case (Inr p)
    obtain d v where p: "p = (d, v)" by fastforce
    from Inr p run assms(2) [where d = d and r = v and n = "Suc (tick w)" and b = "dead w"] assms(2) [where d = d and r = v and n = "Suc (tick w)" and b = True]
      assms(3) [where d = d and r = v and n = "Suc (tick w)"]
    show ?thesis by auto
  qed
qed (rule assms)

lemma wpE_now [vcg]: "(\<And>x n. Q x (w\<lparr>tick := n\<rparr>)) \<Longrightarrow> wpE now Q E w"
  by (simp add: wpE_def now_def)

lemma wpE_timestamp [vcg]: "(\<And>x n. Q x (w\<lparr>tick := n\<rparr>)) \<Longrightarrow> wpE timestamp Q E w"
  unfolding timestamp_def by (intro vcg) auto

lemma wpE_cancelled [vcg]: "(\<And>x n. Q x (w\<lparr>tick := n\<rparr>)) \<Longrightarrow> wpE cancelled Q E w"
  by (simp add: wpE_def cancelled_def)

lemma wpE_randomBytes [vcg]: "(\<And>x n. Q x (w\<lparr>tick := n\<rparr>)) \<Longrightarrow> wpE randomBytes Q E w"
  by (simp add: wpE_def randomBytes_def)

lemma wpE_remote [vcg]:
  assumes "\<And>n b. E (w\<lparr>tick := n, dead := b\<rparr>)"
    and "\<And>n b. E (w\<lparr>trace := trace w @ [c], tick := n, dead := b\<rparr>)"
    and "\<And>x n. x = answer (env w) (tick w) \<Longrightarrow> Q x (w\<lparr>trace := trace w @ [c], tick := n\<rparr>)"
  shows "wpE (remote c answer) Q E w"
  using assms(1) [where n = "tick w" and b = "dead w"] assms
  by (auto simp: wpE_def remote_def Let_def split: fault.split)

lemma wpE_inTx [vcg]:
  assumes "\<And>n b. E (w\<lparr>tick := n, dead := b\<rparr>)"
    and "\<And>n. wpE body
           (\<lambda>x t. (\<forall>n b. E (t\<lparr>wdb := wdb w, tick := n, dead := b\<rparr>)) \<and>
                  (\<forall>n b. E (t\<lparr>tick := n, dead := b\<rparr>)) \<and> (\<forall>n. Q x (t\<lparr>tick := n\<rparr>)))
           (\<lambda>t. E (t\<lparr>wdb := wdb w\<rparr>)) (w\<lparr>tick := n\<rparr>)"
  shows "wpE (inTx body) Q E w"
proof -
  obtain b w1 where start: "effect (\<lambda>w. (Inr (), w)) w = (b, w1)" by fastforce
  have err: "E w1" if "b = Inl e" for e
  proof -
    have "wpE (effect (\<lambda>w. (Inr (), w))) (\<lambda>_ _. True) E w"
      using assms(1) [where n = "Suc (tick w)" and b = "dead w"] assms(1) by (intro wpE_effect) auto
    with start that show ?thesis by (auto dest: wpE_D2)
  qed
  have w1: "w1 = w\<lparr>tick := Suc (tick w)\<rparr>" if "b = Inr u" for u
    using start that by (auto simp: effect_def Let_def split: if_splits fault.splits)
  show ?thesis
  proof (cases b)
    case (Inl e)
    with start err show ?thesis by (simp add: wpE_def inTx_def)
  next
    case (Inr u)
    note w1 = w1 [OF Inr]
    obtain r w2 where body: "body w1 = (r, w2)" by fastforce
    from assms(2) [of "Suc (tick w)"] body w1 have post:
      "case r of Inl _ \<Rightarrow> E (w2\<lparr>wdb := wdb w\<rparr>)
       | Inr x \<Rightarrow> (\<forall>n b. E (w2\<lparr>wdb := wdb w, tick := n, dead := b\<rparr>)) \<and>
           (\<forall>n b. E (w2\<lparr>tick := n, dead := b\<rparr>)) \<and> (\<forall>n. Q x (w2\<lparr>tick := n\<rparr>))"
      by (simp add: wpE_def)
    show ?thesis
    proof (cases r)
      case (Inl e)
      with start Inr body w1 post show ?thesis by (simp add: wpE_def inTx_def)
    next
      case r: (Inr x)
      let ?undone = "w2\<lparr>wdb := wdb w\<rparr>"
      have "wpE (effect (\<lambda>w. (Inr x, w\<lparr>wdb := wdb w2\<rparr>))) Q E ?undone"
      proof (rule wpE_effect)
        fix n b
        show "E (?undone\<lparr>tick := n, dead := b\<rparr>)" using post r by simp
      next
        fix r' t
        assume "(Inr x, ?undone\<lparr>tick := Suc (tick ?undone)\<rparr>\<lparr>wdb := wdb w2\<rparr>) = (r', t)"
        then have rt: "r' = Inr x" "t = w2\<lparr>tick := Suc (tick w2)\<rparr>" by auto
        from post r have e: "\<forall>n b. E (w2\<lparr>tick := n, dead := b\<rparr>)" and q: "\<forall>n. Q x (w2\<lparr>tick := n\<rparr>)"
          by auto
        from e [rule_format, where n = "Suc (tick w2)" and b = "dead w2"] e [rule_format, where n = "Suc (tick w2)" and b = True] q rt
        show "E t \<and> E (t\<lparr>dead := True\<rparr>) \<and> (\<forall>x. r' = Inr x \<longrightarrow> Q x t)" by simp
      qed
      with start Inr body r w1 show ?thesis by (simp add: wpE_def inTx_def)
    qed
  qed
qed

lemma wpE_withRLock [vcg]:
  "wpE m (\<lambda>x t. Q x (runlock i t)) (\<lambda>t. E (runlock i t)) (rlock i w) \<Longrightarrow> wpE (withRLock i m) Q E w"
  unfolding withRLock_def by (intro vcg)

lemma wpE_tryLock [vcg]: "Q (readers w i = 0) w \<Longrightarrow> wpE (tryLock i) Q E w"
  unfolding tryLock_def by (intro vcg)

lemma wpE_let [vcg]: "(\<And>x. x = v \<Longrightarrow> wpE (f x) Q E w) \<Longrightarrow> wpE (let x = v in f x) Q E w"
  by simp

lemma wpE_orErr [vcg]: "wpE m Q E w \<Longrightarrow> wpE (orErr m e) Q E w"
  unfolding orErr_def by (auto simp: wpE_def tryE_def ret_def raise_def split: prod.splits sum.splits)

text \<open>A loop with an invariant of the remaining list.\<close>

lemma wpE_forE:
  assumes "\<And>x xs' t. set (x # xs') \<subseteq> set xs \<Longrightarrow> I t \<Longrightarrow> wpE (f x) (\<lambda>_. I) E t"
    and "I w" and "\<And>t. I t \<Longrightarrow> Q () t"
  shows "wpE (forE f xs) Q E w"
  using assms
proof (induction xs arbitrary: w)
  case Nil
  then show ?case by (simp add: wpE_ret)
next
  case (Cons x xs)
  have "wpE (f x) (\<lambda>_. I) E w" using Cons.prems(1) [of x xs] Cons.prems(2) by simp
  then have "wpE (f x) (\<lambda>_. wpE (forE f xs) Q E) E w"
  proof (rule wpE_mono)
    show "wpE (forE f xs) Q E t" if "I t" for t
      using that Cons.prems by (intro Cons.IH) auto
  qed auto
  then show ?case by (simp add: wpE_bindE)
qed

section \<open>Postconditions that see the error\<close>

named_theorems wpv "the same statements, with a postcondition on the whole result"

lemma wp_effect:
  assumes "\<And>n b e. e \<in> {EIo, ECrashed} \<Longrightarrow> Q (Inl e) (w\<lparr>tick := n, dead := b\<rparr>)"
    and "\<And>r t. f (w\<lparr>tick := Suc (tick w)\<rparr>) = (r, t) \<Longrightarrow>
           Q r t \<and> Q (Inl EIo) t \<and> Q (Inl ECrashed) (t\<lparr>dead := True\<rparr>)"
  shows "wp (effect f) Q w"
proof -
  obtain r t where f: "f (w\<lparr>tick := Suc (tick w)\<rparr>) = (r, t)" by fastforce
  note post = assms(2) [OF f]
  have "Q (Inl ECrashed) w" using assms(1) [where e = ECrashed and n = "tick w" and b = "dead w"] by simp
  moreover have "Q (Inl EIo) (w\<lparr>tick := Suc (tick w)\<rparr>)"
    using assms(1) [where e = EIo and n = "Suc (tick w)" and b = "dead w"] by simp
  moreover have "Q (Inl ECrashed) (w\<lparr>tick := Suc (tick w), dead := True\<rparr>)" by (rule assms(1)) simp
  ultimately show ?thesis
    using f post by (auto simp: wp_def effect_def Let_def split: fault.split)
qed

lemma wp_query [wpv]:
  assumes "\<And>n b e. e \<in> {EIo, ECrashed} \<Longrightarrow> Q (Inl e) (w\<lparr>tick := n, dead := b\<rparr>)"
    and "\<And>n. Q (q (wdb w)) (w\<lparr>tick := n\<rparr>)"
  shows "wp (query q) Q w"
  unfolding query_def
proof (rule wp_effect)
  fix r t
  assume "(q (wdb (w\<lparr>tick := Suc (tick w)\<rparr>)), w\<lparr>tick := Suc (tick w)\<rparr>) = (r, t)"
  then have rt: "r = q (wdb w)" "t = w\<lparr>tick := Suc (tick w)\<rparr>" by auto
  have "Q (Inl EIo) (w\<lparr>tick := Suc (tick w)\<rparr>)"
    using assms(1) [where e = EIo and n = "Suc (tick w)" and b = "dead w"] by simp
  with rt assms show "Q r t \<and> Q (Inl EIo) t \<and> Q (Inl ECrashed) (t\<lparr>dead := True\<rparr>)" by simp
qed (rule assms)

lemma wp_queryRow [wpv]:
  assumes "\<And>n b e. e \<in> {EIo, ECrashed} \<Longrightarrow> Q (Inl e) (w\<lparr>tick := n, dead := b\<rparr>)"
    and "\<And>n. q (wdb w) = None \<Longrightarrow> Q (Inl NoRows) (w\<lparr>tick := n\<rparr>)"
    and "\<And>n x. q (wdb w) = Some x \<Longrightarrow> Q (Inr x) (w\<lparr>tick := n\<rparr>)"
  shows "wp (queryRow q) Q w"
  unfolding queryRow_def
  by (rule wp_query) (use assms in \<open>auto split: option.splits\<close>)

text \<open>A look-up whose error is examined: nothing found is told apart from a failed statement.\<close>

lemma wpE_try_queryRow:
  assumes "\<And>n b e. e \<in> {EIo, ECrashed} \<Longrightarrow> wpE (h (Inl e)) Q E (w\<lparr>tick := n, dead := b\<rparr>)"
    and "\<And>n. q (wdb w) = None \<Longrightarrow> wpE (h (Inl NoRows)) Q E (w\<lparr>tick := n\<rparr>)"
    and "\<And>n x. q (wdb w) = Some x \<Longrightarrow> wpE (h (Inr x)) Q E (w\<lparr>tick := n\<rparr>)"
  shows "wpE (tryE (queryRow q) h) Q E w"
proof -
  have "wp (queryRow q) (\<lambda>r. wpE (h r) Q E) w" by (rule wp_queryRow) (use assms in auto)
  then show ?thesis by (auto simp: wp_def wpE_def tryE_def split: prod.splits)
qed

lemma wp_now [wpv]: "Q (Inr (e_now (env w) (tick w))) (w\<lparr>tick := Suc (tick w)\<rparr>) \<Longrightarrow> wp now Q w"
  by (simp add: wp_def now_def)

lemma wp_thenQ_ret [simp]: "thenQ Q (\<lambda>x. wp (ret x) Q) = Q"
  by (auto simp: thenQ_def wp_simps fun_eq_iff split: sum.split)

section \<open>Relations between the world before and after\<close>

text \<open>A relation that ignores the step counter and whether the process is alive.\<close>

locale world_order = step_order R for R :: "world \<Rightarrow> world \<Rightarrow> bool" +
  assumes admin: "R w (w\<lparr>tick := n, dead := b\<rparr>)"
begin

lemma tick_only: "R w (w\<lparr>tick := n\<rparr>)"
  using admin [where w = w and n = n and b = "dead w"] by simp

lemma dead_only: "R w (w\<lparr>dead := b\<rparr>)"
  using admin [where w = w and n = "tick w" and b = b] by simp

lemma up_effect: "(\<And>w. R w (snd (f w))) \<Longrightarrow> upholds R (effect f)"
  unfolding upholds_def effect_def
  by (auto simp: Let_def refl tick_only admin split: fault.split
      intro: trans [OF tick_only] trans [OF trans [OF tick_only _] dead_only])

lemma up_query: "upholds R (query q)"
  unfolding query_def by (rule up_effect) (simp add: refl)

lemma up_queryRow: "upholds R (queryRow q)"
  unfolding queryRow_def by (rule up_query)

lemma up_exec: "(\<And>w d r. x (wdb w) = Inr (d, r) \<Longrightarrow> R w (w\<lparr>wdb := d\<rparr>)) \<Longrightarrow> upholds R (exec x)"
  unfolding exec_def by (rule up_effect) (auto simp: refl split: sum.split)

lemma up_now: "upholds R now"
  by (simp add: upholds_def now_def tick_only)

lemma up_timestamp: "upholds R timestamp"
  unfolding timestamp_def by (intro up_bindE up_now up_ret)

lemma up_randomBytes: "upholds R randomBytes"
  by (simp add: upholds_def randomBytes_def tick_only)

lemma up_cancelled: "upholds R cancelled"
  by (simp add: upholds_def cancelled_def tick_only)

lemma up_remote:
  assumes "\<And>w. R w (w\<lparr>trace := trace w @ [c]\<rparr>)"
  shows "upholds R (remote c a)"
  using trans [OF assms tick_only] trans [OF assms admin] unfolding upholds_def remote_def
  by (auto simp: Let_def refl admin tick_only split: fault.split)

lemma up_orErr: "upholds R m \<Longrightarrow> upholds R (orErr m e)"
  unfolding orErr_def by (intro up_tryE up_sum up_raise up_ret)

lemma up_tryLock: "upholds R (tryLock i)"
  unfolding tryLock_def by (rule up_gets)

lemma up_withRLock:
  assumes "\<And>w. R w (rlock i w)" and "\<And>w. R w (runlock i w)" and "upholds R m"
  shows "upholds R (withRLock i m)"
  unfolding withRLock_def by (intro up_bindE up_modify up_deferE assms)

lemmas up_world = up_orErr up_query up_queryRow up_now up_timestamp up_randomBytes up_cancelled up_tryLock

end

text \<open>A relation that also survives a rollback of the database, so that it holds of a transaction.\<close>

locale tx_order = world_order +
  assumes rollback: "R s t \<Longrightarrow> R s (t\<lparr>wdb := wdb s\<rparr>)"
begin

lemma up_inTx:
  assumes "upholds R body"
  shows "upholds R (inTx body)"
proof (rule upholdsI)
  fix s r t
  assume run: "inTx body s = (r, t)"
  obtain b w1 where start: "effect (\<lambda>w. (Inr (), w)) s = (b, w1)" by fastforce
  have first: "R s w1"
    using start up_effect [of "\<lambda>w. (Inr (), w)"] refl by (auto dest: upholdsD)
  show "R s t"
  proof (cases b)
    case (Inl e)
    with run start first show ?thesis by (simp add: inTx_def)
  next
    case (Inr u)
    obtain r2 w2 where body: "body w1 = (r2, w2)" by fastforce
    with assms have second: "R w1 w2" by (rule upholdsD)
    show ?thesis
    proof (cases r2)
      case (Inl e)
      with run start Inr body first rollback [OF second] show ?thesis
        by (auto simp: inTx_def intro: trans)
    next
      case r2: (Inr x)
      let ?undone = "w2\<lparr>wdb := wdb w1\<rparr>"
      from run start Inr body r2
      have "effect (\<lambda>w. (Inr x, w\<lparr>wdb := wdb w2\<rparr>)) ?undone = (r, t)" by (simp add: inTx_def)
      moreover have "wpE (effect (\<lambda>w. (Inr x, w\<lparr>wdb := wdb w2\<rparr>))) (\<lambda>_. R w1) (R w1) ?undone"
      proof (rule wpE_effect)
        fix n b
        show "R w1 (?undone\<lparr>tick := n, dead := b\<rparr>)"
          by (rule trans [OF rollback [OF second] admin])
      next
        fix r' t'
        assume "(Inr x, ?undone\<lparr>tick := Suc (tick ?undone)\<rparr>\<lparr>wdb := wdb w2\<rparr>) = (r', t')"
        then have "r' = Inr x" "t' = w2\<lparr>tick := Suc (tick w2)\<rparr>" by auto
        then show "R w1 t' \<and> R w1 (t'\<lparr>dead := True\<rparr>) \<and> (\<forall>x. r' = Inr x \<longrightarrow> R w1 t')"
          using trans [OF second tick_only] trans [OF second admin] by auto
      qed
      ultimately have "R w1 t" by (cases r) (auto simp: wpE_def)
      with first show ?thesis by (rule trans)
    qed
  qed
qed

end

text \<open>Every lock taken is released: readers of each event's lock are the same afterwards.\<close>

definition sameReaders :: "world \<Rightarrow> world \<Rightarrow> bool" where
  "sameReaders s t \<longleftrightarrow> readers t = readers s"

interpretation same_readers: tx_order sameReaders
  by unfold_locales (auto simp: sameReaders_def)

lemma sameReaders_withRLock:
  assumes "upholds sameReaders m"
  shows "upholds sameReaders (withRLock i m)"
proof (rule upholdsI)
  fix s r t
  assume run: "withRLock i m s = (r, t)"
  obtain r2 t2 where m: "m (rlock i s) = (r2, t2)" by fastforce
  with assms have "readers t2 = readers (rlock i s)"
    by (auto dest!: upholdsD simp: sameReaders_def)
  moreover from run m have "t = runlock i t2"
    by (simp add: withRLock_def bindE_def modify_def deferE_def)
  ultimately show "sameReaders s t" by (simp add: sameReaders_def rlock_def runlock_def)
qed

text \<open>A property of the database that an operation keeps, transactions and rollbacks included.\<close>

definition keepsDB :: "(db \<Rightarrow> bool) \<Rightarrow> world \<Rightarrow> world \<Rightarrow> bool" where
  "keepsDB I s t \<longleftrightarrow> (I (wdb s) \<longrightarrow> I (wdb t))"

interpretation keeps: tx_order "keepsDB I" for I
  by unfold_locales (auto simp: keepsDB_def)

lemma keepsDB_withRLock: "upholds (keepsDB I) m \<Longrightarrow> upholds (keepsDB I) (withRLock i m)"
  by (rule keeps.up_withRLock) (simp_all add: keepsDB_def rlock_def runlock_def)

section \<open>Errors that leave the database as it was\<close>

text \<open>
  An operation whose last word on the database is one transaction: whenever it reports an error
  that is an answer, and not a failed or lost statement, nothing was written.
\<close>

definition sameData :: "world \<Rightarrow> world \<Rightarrow> bool" where
  "sameData s t \<longleftrightarrow> wdb t = wdb s"

interpretation same_data: tx_order sameData
  by unfold_locales (auto simp: sameData_def)

definition rejects :: "'a wop \<Rightarrow> bool" where
  "rejects m \<longleftrightarrow> (\<forall>w e t. m w = (Inl e, t) \<longrightarrow> e \<noteq> EIo \<longrightarrow> e \<noteq> ECrashed \<longrightarrow> wdb t = wdb w)"

lemma rejectsD: "rejects m \<Longrightarrow> m w = (Inl e, t) \<Longrightarrow> e \<noteq> EIo \<Longrightarrow> e \<noteq> ECrashed \<Longrightarrow> wdb t = wdb w"
  by (simp add: rejects_def)

lemma rejects_same: "upholds sameData m \<Longrightarrow> rejects m"
  unfolding rejects_def by (auto dest: upholdsD simp: sameData_def)

lemma rejects_bind:
  assumes "upholds sameData m" and "\<And>x. rejects (f x)"
  shows "rejects (bindE m f)"
  unfolding rejects_def
proof (intro allI impI)
  fix w e t
  assume run: "bindE m f w = (Inl e, t)" and e: "e \<noteq> EIo" "e \<noteq> ECrashed"
  obtain r u where m: "m w = (r, u)" by fastforce
  with assms(1) have u: "wdb u = wdb w" by (auto dest: upholdsD simp: sameData_def)
  with run m e show "wdb t = wdb w"
    by (cases r) (auto simp: bindE_def dest: rejectsD [OF assms(2)])
qed

lemma rejects_then:
  assumes "rejects m" and "\<And>x w. \<exists>y t. f x w = (Inr y, t)"
  shows "rejects (bindE m f)"
  unfolding rejects_def
proof (intro allI impI)
  fix w e t
  assume run: "bindE m f w = (Inl e, t)" and e: "e \<noteq> EIo" "e \<noteq> ECrashed"
  obtain r u where m: "m w = (r, u)" by fastforce
  show "wdb t = wdb w"
  proof (cases r)
    case (Inl x)
    with run m e rejectsD [OF assms(1)] show ?thesis by (auto simp: bindE_def)
  next
    case (Inr x)
    with run m assms(2) [of x u] show ?thesis by (auto simp: bindE_def)
  qed
qed

lemma rejects_inTx: "rejects (inTx body)"
  unfolding rejects_def inTx_def
  by (auto simp: effect_def Let_def split: prod.splits sum.splits if_splits fault.splits)

text \<open>A statement, when only the kind of an error matters.\<close>

lemma wp_exec_err:
  assumes "\<And>e t. e \<in> {EIo, ECrashed} \<Longrightarrow> Q (Inl e) t" and "\<And>e t. x (wdb w) = Inl e \<Longrightarrow> Q (Inl e) t"
    and "\<And>d r n. x (wdb w) = Inr (d, r) \<Longrightarrow> Q (Inr r) (w\<lparr>wdb := d, tick := n\<rparr>)"
  shows "wp (exec x) Q w"
  unfolding exec_def by (rule wp_effect) (use assms in \<open>auto split: sum.splits\<close>)

lemma wp_orErr:
  assumes "wpE m (\<lambda>x. Q (Inr x)) (\<lambda>_. True) w" and "\<And>t. Q (Inl other) t" and "\<And>t. Q (Inl ECrashed) t"
  shows "wp (orErr m other) Q w"
  using assms by (auto simp: wp_def wpE_def orErr_def tryE_def raise_def ret_def split: prod.splits sum.splits)

text \<open>Why a transaction was rolled back with an error of its own.\<close>

lemma wp_inTx_error:
  assumes "\<And>n. wp body (\<lambda>r t. r = Inl e \<longrightarrow> P) (w\<lparr>tick := n\<rparr>)" and "e \<noteq> EIo" "e \<noteq> ECrashed"
  shows "wp (inTx body) (\<lambda>r t. r = Inl e \<longrightarrow> P \<and> wdb t = wdb w) w"
proof (rule wpI, rule impI)
  fix r t
  assume run: "inTx body w = (r, t)" and r: "r = Inl e"
  have same: "wdb t = wdb w" using rejectsD [OF rejects_inTx] run r assms(2,3) by blast
  have "\<exists>n u. body (w\<lparr>tick := n\<rparr>) = (Inl e, u)"
    using run r assms(2,3)
    by (auto simp: inTx_def effect_def Let_def split: prod.splits sum.splits if_splits fault.splits)
  with assms(1) same show "P \<and> wdb t = wdb w" by (auto dest: wpD)
qed

lemma rejects_withRLock: "rejects m \<Longrightarrow> rejects (withRLock i m)"
  by (auto simp: rejects_def withRLock_def bindE_def modify_def deferE_def runlock_def rlock_def split: prod.splits)

lemma rejects_if: "rejects m \<Longrightarrow> rejects m' \<Longrightarrow> rejects (if b then m else m')"
  by simp

lemma rejects_sum: "(\<And>x. rejects (f x)) \<Longrightarrow> (\<And>x. rejects (g x)) \<Longrightarrow> rejects (case r of Inl x \<Rightarrow> f x | Inr x \<Rightarrow> g x)"
  by (cases r) auto

end
