(* ===== verification/Events.thy ===== *)
theory Events
  imports Effects
begin

text \<open>
  \<open>internal/events/events.go\<close>: the validation of an event's fields, its status at an instant,
  and the store's statements. The CHECK constraints of migrations 002, 004, 007 and 012 are
  part of the statements, so that a row the validation let through but the table refuses would
  show as an \<open>EConstraint\<close> error. \<open>fmt.Errorf\<close> with \<open>%w\<close> keeps the error it wraps.
\<close>

section \<open>Events and their input\<close>

record event_input =
  in_name :: string
  in_description :: string
  in_date :: "string option"
  in_enabled :: "bool option"
  in_expires :: "string option"
  in_max_assets :: "int option"
  in_max_bytes :: "int option"
  in_max_photos :: "int option"
  in_max_videos :: "int option"
  in_max_photo_file :: "int option"
  in_max_video_file :: "int option"
  in_max_photo_storage :: "int option"
  in_max_video_storage :: "int option"

text \<open>\<open>Event{}\<close>: the zero time is the first instant of year 1.\<close>

definition zeroEvent :: event_row where
  "zeroEvent = \<lparr>ev_id = 0, ev_public = [], ev_name = [], ev_description = [], ev_date = None,
     ev_enabled = False, ev_expires = None,
     ev_created = Stamp (instantOf 1 1 1 0 0 0 0 0), ev_updated = Stamp (instantOf 1 1 1 0 0 0 0 0),
     ev_deleting = False, ev_max_assets = None, ev_max_bytes = None, ev_max_photos = None,
     ev_max_videos = None, ev_max_photo_file = None, ev_max_video_file = None,
     ev_max_photo_storage = None, ev_max_video_storage = None\<rparr>"

datatype event_status = Disabled | Expired | Open

definition eventStatus :: "event_row \<Rightarrow> int \<Rightarrow> event_status" where
  "eventStatus e t =
     (if \<not> ev_enabled e \<or> ev_deleting e then Disabled
      else (case ev_expires e of
              Some x \<Rightarrow> if \<not> t < instant x then Expired else Open
            | None \<Rightarrow> Open))"

definition limitBad :: "int \<Rightarrow> int option \<Rightarrow> bool" where
  "limitBad hi limit = (case limit of None \<Rightarrow> False | Some n \<Rightarrow> n < 1 \<or> hi < n)"

definition maxCountLimit :: int where
  "maxCountLimit = 1000000"

definition maxBytesLimit :: int where
  "maxBytesLimit = 2 ^ 50"

definition fieldIf :: "bool \<Rightarrow> string \<Rightarrow> string list" where
  "fieldIf bad name = (if bad then [name] else [])"

definition dateBad :: "string \<Rightarrow> bool" where
  "dateBad s = (case parseDateOnly s of None \<Rightarrow> True | Some (y, m, d) \<Rightarrow> y < 1 \<or> formatDateOnly (y, m, d) \<noteq> s)"

definition expiryOf :: "string \<Rightarrow> stamp option" where
  "expiryOf s = (case parseRFC3339Nano s of None \<Rightarrow> None | Some t \<Rightarrow> if instantYearIn 1 9999 t then Some (Stamp t) else None)"

definition invalidFields :: "event_input \<Rightarrow> string list" where
  "invalidFields i =
     (let name = trimSpace (in_name i); description = trimSpace (in_description i) in
      fieldIf (limitBad maxCountLimit (in_max_photos i)) ''max_photos'' @
      fieldIf (limitBad maxCountLimit (in_max_videos i)) ''max_videos'' @
      fieldIf (limitBad maxBytesLimit (in_max_photo_file i)) ''max_photo_file_bytes'' @
      fieldIf (limitBad maxBytesLimit (in_max_video_file i)) ''max_video_file_bytes'' @
      fieldIf (limitBad maxBytesLimit (in_max_photo_storage i)) ''max_photo_storage_bytes'' @
      fieldIf (limitBad maxBytesLimit (in_max_video_storage i)) ''max_video_storage_bytes'' @
      fieldIf (limitBad maxCountLimit (in_max_assets i)) ''max_assets'' @
      fieldIf (limitBad maxBytesLimit (in_max_bytes i)) ''max_bytes'' @
      fieldIf (runeCount name = 0 \<or> 200 < runeCount name \<or> CHR 0x00 \<in> set name) ''name'' @
      fieldIf (4000 < runeCount description \<or> CHR 0x00 \<in> set description) ''description'' @
      fieldIf (in_enabled i = None) ''enabled'' @
      fieldIf (case in_date i of None \<Rightarrow> False | Some s \<Rightarrow> dateBad s) ''event_date'' @
      fieldIf (case in_expires i of None \<Rightarrow> False | Some s \<Rightarrow> expiryOf s = None) ''expires_at'')"

definition validate :: "event_input \<Rightarrow> err + event_row" where
  "validate i =
     (let e = zeroEvent\<lparr>ev_name := trimSpace (in_name i), ev_description := trimSpace (in_description i),
        ev_date := in_date i, ev_max_assets := in_max_assets i, ev_max_bytes := in_max_bytes i,
        ev_max_photos := in_max_photos i, ev_max_videos := in_max_videos i,
        ev_max_photo_file := in_max_photo_file i, ev_max_video_file := in_max_video_file i,
        ev_max_photo_storage := in_max_photo_storage i, ev_max_video_storage := in_max_video_storage i,
        ev_enabled := (in_enabled i = Some True), ev_expires := Option.bind (in_expires i) expiryOf\<rparr>
      in if invalidFields i \<noteq> [] then Inl (ValidationError (invalidFields i)) else Inr e)"

section \<open>Public identifiers\<close>

definition base64Char :: "int \<Rightarrow> char" where
  "base64Char n =
     (if n < 26 then char_of (65 + n) else if n < 52 then char_of (71 + n)
      else if n < 62 then char_of (n - 4) else if n = 62 then CHR ''-'' else CHR ''_'')"

fun base64Url :: "int list \<Rightarrow> string" where
  "base64Url (a # b # c # r) =
     [base64Char (a div 4 mod 64), base64Char (a mod 4 * 16 + b div 16 mod 16),
      base64Char (b mod 16 * 4 + c div 64 mod 4), base64Char (c mod 64)] @ base64Url r"
| "base64Url [a, b] =
     [base64Char (a div 4 mod 64), base64Char (a mod 4 * 16 + b div 16 mod 16), base64Char (b mod 16 * 4)]"
| "base64Url [a] = [base64Char (a div 4 mod 64), base64Char (a mod 4 * 16)]"
| "base64Url [] = []"

definition newPublicID :: "int list \<Rightarrow> string" where
  "newPublicID bs = base64Url (take 18 (bs @ replicate 18 0))"

lemma base64Char_ok: "0 \<le> n \<Longrightarrow> n < 64 \<Longrightarrow> isBase64Url (base64Char n)"
  by (auto simp: base64Char_def isBase64Url_def byteIn_def byteVal_def of_char_of take_bit_int_eq_self)

lemma base64Url_ok: "list_all isBase64Url (base64Url bs)"
proof -
  have "0 \<le> a mod 4 * 16 + b div 16 mod 16" "a mod 4 * 16 + b div 16 mod 16 < 64"
    "0 \<le> b mod 16 * 4 + c div 64 mod 4" "b mod 16 * 4 + c div 64 mod 4 < 64" for a b c :: int
    by auto
  moreover have "a mod 4 * 16 < 64" "a mod 16 * 4 < 64" for a :: int by auto
  ultimately show ?thesis
    by (induction bs rule: base64Url.induct) (auto intro!: base64Char_ok)
qed

lemma length_base64Url: "length (base64Url bs) = (4 * length bs + 2) div 3"
  by (induction bs rule: base64Url.induct) auto

lemma newPublicID_valid: "validPublicID (newPublicID bs)"
  by (simp add: validPublicID_def newPublicID_def base64Url_ok length_base64Url)

section \<open>The table and its statements\<close>

definition limitChecks :: "event_row \<Rightarrow> bool" where
  "limitChecks e \<longleftrightarrow>
     \<not> limitBad maxCountLimit (ev_max_assets e) \<and> \<not> limitBad maxBytesLimit (ev_max_bytes e) \<and>
     \<not> limitBad maxCountLimit (ev_max_photos e) \<and> \<not> limitBad maxCountLimit (ev_max_videos e) \<and>
     \<not> limitBad maxBytesLimit (ev_max_photo_file e) \<and> \<not> limitBad maxBytesLimit (ev_max_video_file e) \<and>
     \<not> limitBad maxBytesLimit (ev_max_photo_storage e) \<and> \<not> limitBad maxBytesLimit (ev_max_video_storage e)"

definition eventChecks :: "event_row \<Rightarrow> bool" where
  "eventChecks e \<longleftrightarrow> length (ev_public e) = 24 \<and>
     1 \<le> runeCount (ev_name e) \<and> runeCount (ev_name e) \<le> 200 \<and>
     runeCount (ev_description e) \<le> 4000 \<and> limitChecks e"

text \<open>\<open>INSERT ... ON CONFLICT(public_id) DO NOTHING RETURNING\<close>: no row when the identifier is taken.\<close>

definition insertEvent :: "string \<Rightarrow> event_row \<Rightarrow> stamp \<Rightarrow> db \<Rightarrow> err + db \<times> event_row" where
  "insertEvent public e t d =
     (let r = e\<lparr>ev_id := nextId (map ev_id (events d)), ev_public := public, ev_created := t,
                ev_updated := t, ev_deleting := False\<rparr>
      in if list_ex (\<lambda>q. ev_public q = public) (events d) then Inl NoRows
         else if \<not> eventChecks r then Inl EConstraint
         else Inr (d\<lparr>events := events d @ [r]\<rparr>, r))"

primrec tryCreate :: "nat \<Rightarrow> event_row \<Rightarrow> stamp \<Rightarrow> event_row wop" where
  "tryCreate 0 e t = raise (Failure ''allocate unique public event identifier'')"
| "tryCreate (Suc k) e t =
     bindE randomBytes (\<lambda>bs.
     tryE (exec (insertEvent (newPublicID bs) e t)) (\<lambda>r.
       case r of Inr saved \<Rightarrow> ret saved
       | Inl x \<Rightarrow> if x = NoRows then tryCreate k e t else raise x))"

definition createEvent :: "event_input \<Rightarrow> event_row wop" where
  "createEvent i = bindE (liftE (validate i)) (\<lambda>e. bindE timestamp (\<lambda>t. tryCreate 3 e t))"

definition listEvents :: "event_row list wop" where
  "listEvents = query (\<lambda>d. Inr (rev (sort_key ev_id (events d))))"

definition getEvent :: "int \<Rightarrow> event_row wop" where
  "getEvent i = queryRow (\<lambda>d. find (\<lambda>e. ev_id e = i) (events d))"

definition getPublic :: "string \<Rightarrow> event_row wop" where
  "getPublic public =
     (if \<not> validPublicID public then raise NoRows
      else queryRow (\<lambda>d. find (\<lambda>e. ev_public e = public) (events d)))"

definition withFields :: "event_row \<Rightarrow> stamp \<Rightarrow> event_row \<Rightarrow> event_row" where
  "withFields e t r = r\<lparr>ev_name := ev_name e, ev_description := ev_description e, ev_date := ev_date e,
     ev_enabled := ev_enabled e, ev_expires := ev_expires e, ev_updated := t,
     ev_max_assets := ev_max_assets e, ev_max_bytes := ev_max_bytes e,
     ev_max_photos := ev_max_photos e, ev_max_videos := ev_max_videos e,
     ev_max_photo_file := ev_max_photo_file e, ev_max_video_file := ev_max_video_file e,
     ev_max_photo_storage := ev_max_photo_storage e, ev_max_video_storage := ev_max_video_storage e\<rparr>"

definition updateRow :: "int \<Rightarrow> event_row \<Rightarrow> stamp \<Rightarrow> db \<Rightarrow> err + db \<times> event_row" where
  "updateRow i e t d =
     (case find (\<lambda>r. ev_id r = i \<and> \<not> ev_deleting r) (events d) of
        None \<Rightarrow> Inl NoRows
      | Some r \<Rightarrow>
          if \<not> eventChecks (withFields e t r) then Inl EConstraint
          else Inr (d\<lparr>events := updWhere (\<lambda>q. ev_id q = i \<and> \<not> ev_deleting q) (withFields e t) (events d)\<rparr>,
                    withFields e t r))"

definition updateEvent :: "int \<Rightarrow> event_input \<Rightarrow> event_row wop" where
  "updateEvent i inp =
     bindE (liftE (validate inp)) (\<lambda>e. bindE timestamp (\<lambda>t. exec (updateRow i e t)))"

definition removeEvent :: "int \<Rightarrow> unit wop" where
  "removeEvent i =
     bindE (exec (\<lambda>d. Inr (deleteEvents (\<lambda>e. ev_id e = i) d, countWhere (\<lambda>e. ev_id e = i) (events d))))
       (\<lambda>n. failIf (n = 0) NoRows)"

section \<open>What validation lets through\<close>

lemma fieldIf_Nil [simp]: "fieldIf b name = [] \<longleftrightarrow> \<not> b"
  by (simp add: fieldIf_def)

lemma validate_ok_fields: "validate i = Inr e \<Longrightarrow> invalidFields i = []"
  by (auto simp: validate_def Let_def split: if_splits)

lemma validate_checks:
  assumes "validate i = Inr e" and "ev_public r = p" and "length p = 24"
    and "r = e\<lparr>ev_id := n, ev_public := p, ev_created := c, ev_updated := u, ev_deleting := b\<rparr>"
  shows "eventChecks r"
  using assms validate_ok_fields [OF assms(1)]
  by (auto simp: validate_def invalidFields_def Let_def eventChecks_def limitChecks_def)

lemma eventChecks_withFields:
  assumes "validate i = Inr e" and "length (ev_public r) = 24"
  shows "eventChecks (withFields e t r)"
  using assms validate_ok_fields [OF assms(1)]
  by (auto simp: validate_def invalidFields_def Let_def eventChecks_def limitChecks_def withFields_def)

text \<open>An accepted expiry is the instant the text denotes, in the years the stored text can hold.\<close>

lemma expiryOf_Some: "expiryOf s = Some x \<Longrightarrow> parseRFC3339Nano s = Some (instant x) \<and> instantYearIn 1 9999 (instant x)"
  by (auto simp: expiryOf_def split: option.splits if_splits)

section \<open>The table's invariant\<close>

definition eventsOk :: "db \<Rightarrow> bool" where
  "eventsOk d \<longleftrightarrow> distinct (map ev_id (events d)) \<and> distinct (map ev_public (events d)) \<and>
     (\<forall>e \<in> set (events d). 0 < ev_id e \<and> validPublicID (ev_public e) \<and> eventChecks e)"

lemma insertEvent_ok:
  assumes "insertEvent (newPublicID bs) e t d = Inr (d', r)" and "eventsOk d"
  shows "eventsOk d'"
  using assms nextId_fresh [of "map ev_id (events d)"] nextId_pos newPublicID_valid
  by (auto simp: insertEvent_def Let_def eventsOk_def list_ex_iff split: if_splits) metis+

lemma ev_keep_withFields [simp]:
  "ev_id (withFields e t r) = ev_id r" "ev_public (withFields e t r) = ev_public r"
  "ev_deleting (withFields e t r) = ev_deleting r" "ev_created (withFields e t r) = ev_created r"
  by (simp_all add: withFields_def)

lemma updateRow_ok:
  assumes "validate i = Inr e" and "updateRow n e t d = Inr (d', r)" and "eventsOk d"
  shows "eventsOk d'"
proof -
  let ?P = "\<lambda>q. ev_id q = n \<and> \<not> ev_deleting q"
  from assms(2) have d': "d' = d\<lparr>events := updWhere ?P (withFields e t) (events d)\<rparr>"
    by (auto simp: updateRow_def split: option.splits if_splits)
  have "\<forall>q \<in> set (updWhere ?P (withFields e t) (events d)). 0 < ev_id q \<and> validPublicID (ev_public q) \<and> eventChecks q"
    using assms(3) eventChecks_withFields [OF assms(1)]
    by (intro updWhere_ball) (auto simp: eventsOk_def validPublicID_def)
  with assms(3) d' show ?thesis by (simp add: eventsOk_def map_updWhere)
qed

lemma eventsOk_filter: "eventsOk d \<Longrightarrow> events d' = filter P (events d) \<Longrightarrow> eventsOk d'"
  by (auto simp: eventsOk_def distinct_map_filter')

lemma tryCreate_keeps: "upholds (keepsDB eventsOk) (tryCreate k e t)"
proof (induction k)
  case 0
  show ?case by (simp add: keeps.up_raise)
next
  case (Suc k)
  have "upholds (keepsDB eventsOk) (exec (insertEvent (newPublicID bs) e t))" for bs
    by (rule keeps.up_exec) (auto simp: keepsDB_def insertEvent_ok)
  with Suc show ?case
    by (auto intro!: keeps.up_rules keeps.up_world)
qed

lemma createEvent_keeps: "upholds (keepsDB eventsOk) (createEvent i)"
  unfolding createEvent_def by (intro keeps.up_rules keeps.up_world tryCreate_keeps)

lemma updateEvent_keeps: "upholds (keepsDB eventsOk) (updateEvent n i)"
proof (cases "validate i")
  case (Inl x)
  then show ?thesis by (simp add: updateEvent_def keeps.up_raise)
next
  case (Inr e)
  have "upholds (keepsDB eventsOk) (exec (updateRow n e t))" for t
    by (rule keeps.up_exec) (auto simp: keepsDB_def updateRow_ok [OF Inr])
  with Inr show ?thesis by (auto simp: updateEvent_def intro!: keeps.up_rules keeps.up_world)
qed

lemma removeEvent_keeps: "upholds (keepsDB eventsOk) (removeEvent n)"
  unfolding removeEvent_def
  by (intro keeps.up_rules keeps.up_exec) (auto simp: keepsDB_def eventsOk_filter)

section \<open>What the statements do\<close>

lemma tryCreate_result:
  assumes "validate i = Inr e"
  shows "wp (tryCreate k e t)
    (\<lambda>r w'. (\<forall>saved. r = Inr saved \<longrightarrow>
        wdb w' = (wdb w)\<lparr>events := events (wdb w) @ [saved]\<rparr> \<and>
        (\<exists>bs. saved = e\<lparr>ev_id := nextId (map ev_id (events (wdb w))), ev_public := newPublicID bs,
                        ev_created := t, ev_updated := t, ev_deleting := False\<rparr> \<and>
              newPublicID bs \<notin> set (map ev_public (events (wdb w))))) \<and>
      r \<noteq> Inl EConstraint \<and> r \<noteq> Inl NoRows) w"
proof (induction k arbitrary: w)
  case 0
  show ?case by (simp add: wp_simps)
next
  case (Suc k)
  have len: "length (newPublicID bs) = 24" for bs
    using newPublicID_valid by (simp add: validPublicID_def)
  have "eventChecks (e\<lparr>ev_id := n, ev_public := newPublicID bs, ev_created := t, ev_updated := t, ev_deleting := False\<rparr>)"
    for n bs by (rule validate_checks [OF assms _ len [of bs]]) simp_all
  then have row: "insertEvent (newPublicID bs) e t d =
      (if newPublicID bs \<in> set (map ev_public (events d)) then Inl NoRows
       else Inr (d\<lparr>events := events d @ [e\<lparr>ev_id := nextId (map ev_id (events d)), ev_public := newPublicID bs,
         ev_created := t, ev_updated := t, ev_deleting := False\<rparr>]\<rparr>,
         e\<lparr>ev_id := nextId (map ev_id (events d)), ev_public := newPublicID bs,
         ev_created := t, ev_updated := t, ev_deleting := False\<rparr>))" for bs d
    by (auto simp: insertEvent_def Let_def list_ex_iff intro: rev_image_eqI)
  obtain bs w1 where rnd: "randomBytes w = (Inr bs, w1)" and d1: "wdb w1 = wdb w"
    by (simp add: randomBytes_def)
  show ?case
  proof (cases "exec (insertEvent (newPublicID bs) e t) w1")
    case (Pair r w2)
    show ?thesis
    proof (cases "r = Inl NoRows")
      case True
      with Pair row d1 have "wdb w2 = wdb w"
        by (auto simp: exec_def effect_def Let_def split: if_splits fault.splits)
      with Suc [of w2] Pair True rnd show ?thesis
        by (simp add: wp_def bindE_def tryE_def)
    next
      case False
      with Pair row d1 rnd show ?thesis
        by (auto simp: wp_def bindE_def tryE_def exec_def effect_def Let_def ret_def raise_def
            split: if_splits fault.splits)
    qed
  qed
qed

lemma getEvent_row: "getEvent i w = (Inr e, t) \<Longrightarrow> e \<in> set (events (wdb w)) \<and> ev_id e = i \<and> wdb t = wdb w"
  by (auto simp: getEvent_def queryRow_def query_def effect_def Let_def
      split: if_splits fault.splits option.splits dest: find_SomeD)

lemma getPublic_row:
  "getPublic p w = (Inr e, t) \<Longrightarrow> e \<in> set (events (wdb w)) \<and> ev_public e = p \<and> validPublicID p \<and> wdb t = wdb w"
  by (auto simp: getPublic_def queryRow_def query_def effect_def Let_def raise_def
      split: if_splits fault.splits option.splits dest: find_SomeD)

end
