(* ===== verification/Timestamps.thy ===== *)
theory Timestamps
  imports Events
begin

text \<open>
  What the columns of an event's instants hold: \<open>expiryValue\<close> and \<open>scan\<close> of \<open>internal/events/events.go\<close>, with
  \<open>Format(time.RFC3339Nano)\<close> of package \<open>time\<close>. The rest of the development keeps the instants themselves, ordered by
  \<open>stampKey\<close>; here that is justified: the text reads back to the instant, and its byte order is that order.
\<close>

section \<open>The calendar\<close>

text \<open>The date of a day, by cycles of 400, 100, 4 and 1 years that begin in March.\<close>

definition civilOf :: "int \<Rightarrow> int \<times> int \<times> int" where
  "civilOf n =
     (let z = n + 719468; era = z div 146097; doe = z mod 146097;
          c = min 3 (doe div 36524); r = doe - c * 36524;
          q = r div 1461; s = r mod 1461;
          a = min 3 (s div 365); doy = s - a * 365;
          mp = (5 * doy + 2) div 153; m = (if mp < 10 then mp + 3 else mp - 9); y = era * 400 + c * 100 + q * 4 + a
      in (if m \<le> 2 then y + 1 else y, m, doy - (153 * mp + 2) div 5 + 1))"

definition validDate :: "int \<Rightarrow> int \<Rightarrow> int \<Rightarrow> bool" where
  "validDate y m d \<longleftrightarrow> 1 \<le> m \<and> m \<le> 12 \<and> 1 \<le> d \<and> d \<le> daysIn m y"

text \<open>The days before the first of March of year \<open>y\<close>, up to a constant.\<close>

definition marchDays :: "int \<Rightarrow> int" where
  "marchDays y = 365 * y + y div 4 - y div 100 + y div 400"

lemma daysFromCivil_march:
  "daysFromCivil y m d =
     (if m \<le> 2 then marchDays (y - 1) + (153 * (m + 9) + 2) div 5 else marchDays y + (153 * (m - 3) + 2) div 5) + d - 719469"
proof -
  have split: "marchDays x = x div 400 * 146097 + (x mod 400 * 365 + x mod 400 div 4 - x mod 400 div 100)" for x
  proof -
    have x: "x = 400 * (x div 400) + x mod 400" by simp
    have "x div 4 = 100 * (x div 400) + x mod 400 div 4" "x div 100 = 4 * (x div 400) + x mod 400 div 100"
      using div_mult_self1 [of 4 "x mod 400" "100 * (x div 400)"] div_mult_self1 [of 100 "x mod 400" "4 * (x div 400)"]
      by (simp_all add: algebra_simps)
    with x show ?thesis unfolding marchDays_def by linarith
  qed
  show ?thesis by (simp add: daysFromCivil_def split Let_def)
qed

lemma marchDays_cycles:
  assumes "0 \<le> c" "c \<le> 3" "0 \<le> q" "q \<le> 24" "0 \<le> a" "a \<le> 3"
  shows "marchDays (era * 400 + c * 100 + q * 4 + a) = era * 146097 + c * 36524 + q * 1461 + a * 365"
proof -
  let ?y = "era * 400 + c * 100 + q * 4 + a"
  have "?y div 4 = 100 * era + 25 * c + q" "?y div 100 = 4 * era + c" "?y div 400 = era"
    using assms by (simp_all add: int_div_pos_eq)
  then show ?thesis by (simp add: marchDays_def)
qed

lemma marchDays_step: "marchDays y = marchDays (y - 1) + (if leapYear y then 366 else 365)"
proof -
  have step: "y div k = (y - 1) div k + (if y mod k = 0 then 1 else 0)" if "1 < k" for k :: int
  proof -
    define r where "r = (y - 1) mod k"
    then have r: "(y - 1) mod k = r" "0 \<le> r" "r < k" using that by simp_all
    have "y div k = (y - 1) div k + (r + 1) div k" "y mod k = (r + 1) mod k"
      using div_add1_eq [of "y - 1" 1 k] mod_add_left_eq [of "y - 1" k 1] that r(1) by simp_all
    with r that show ?thesis by (cases "r + 1 = k") simp_all
  qed
  have count: "365 * y + a - b + c = 365 * (y - 1) + a' - b' + c' + (if p \<and> (\<not> q \<or> r) then 366 else 365)"
    if "a = a' + (if p then 1 else 0)" "b = b' + (if q then 1 else 0)" "c = c' + (if r then 1 else 0)" "r \<longrightarrow> q" "q \<longrightarrow> p"
    for a b c a' b' c' :: int and p q r
    unfolding that(1-3) using that(4,5) by (cases p; cases q; cases r) simp_all
  have "y mod 100 = 0 \<longrightarrow> y mod 4 = 0" "y mod 400 = 0 \<longrightarrow> y mod 100 = 0" by presburger+
  note yearly = count [OF step [of 4] step [of 100] step [of 400] this(2,1)]
  show ?thesis unfolding marchDays_def leapYear_def by (rule yearly) simp_all
qed

text \<open>A month and day of the year that begins in March, for each of its 366 days.\<close>

lemma march_months:
  assumes "0 \<le> doy" "doy \<le> (365 :: int)"
  shows "\<exists>mp d. (5 * doy + 2) div 153 = mp \<and> doy - (153 * mp + 2) div 5 + 1 = d \<and> 0 \<le> mp \<and> mp \<le> 11 \<and> 1 \<le> d \<and> d \<le> 31 \<and>
    (mp \<in> {1, 3, 6, 8} \<longrightarrow> d \<le> 30) \<and> (mp = 11 \<longrightarrow> d \<le> 29 \<and> (d = 29 \<longrightarrow> doy = 365))"
proof -
  have "list_all (\<lambda>doy. let mp = (5 * doy + 2) div 153; d = doy - (153 * mp + 2) div 5 + 1 in
    0 \<le> mp \<and> mp \<le> 11 \<and> 1 \<le> d \<and> d \<le> 31 \<and> (mp \<in> {1, 3, 6, 8} \<longrightarrow> d \<le> 30) \<and>
    (mp = 11 \<longrightarrow> d \<le> 29 \<and> (d = 29 \<longrightarrow> doy = 365))) [0..365]"
    by code_simp
  with assms show ?thesis unfolding list_all_iff set_upto Let_def by auto
qed

text \<open>The year that begins in March and the day in it.\<close>

lemma march_year:
  fixes z :: int
  defines "doe \<equiv> z mod 146097"
  defines "c \<equiv> min 3 (doe div 36524)"
  defines "r \<equiv> doe - c * 36524"
  defines "s \<equiv> r mod 1461"
  defines "a \<equiv> min 3 (s div 365)"
  defines "y \<equiv> z div 146097 * 400 + c * 100 + r div 1461 * 4 + a" and "doy \<equiv> s - a * 365"
  shows "marchDays y + doy = z \<and> 0 \<le> doy \<and> doy \<le> 365 \<and> (doy = 365 \<longrightarrow> leapYear (y + 1))"
proof -
  have doe: "0 \<le> doe" "doe < 146097" by (simp_all add: doe_def)
  then have c: "0 \<le> c" "c \<le> 3" by (simp_all add: c_def)
  have r: "0 \<le> r" "r \<le> 36524" "c < 3 \<longrightarrow> r \<le> 36523" using doe unfolding r_def c_def by (auto simp: min_def)
  define q where "q = r div 1461"
  have rq: "r = 1461 * q + s" "0 \<le> s" "s \<le> 1460" by (simp_all add: q_def s_def)
  have q: "0 \<le> q" "q \<le> 24" "q = 24 \<and> c < 3 \<longrightarrow> s \<le> 1459" using rq r by linarith+
  have a: "0 \<le> a" "a \<le> 3" using rq by (simp_all add: a_def)
  have doy: "0 \<le> doy" "doy \<le> 365" "doy = 365 \<longrightarrow> a = 3 \<and> s = 1460"
    using rq unfolding doy_def a_def by (auto simp: min_def split: if_splits)
  have "z = z div 146097 * 146097 + doe" by (simp add: doe_def)
  moreover have "marchDays y = z div 146097 * 146097 + c * 36524 + q * 1461 + a * 365"
    using marchDays_cycles [OF c q(1,2) a, of "z div 146097"] by (simp add: y_def q_def)
  ultimately have "marchDays y + doy = z" using rq(1) by (simp add: doy_def r_def)
  moreover have "leapYear (y + 1)" if "doy = 365"
  proof -
    define e where "e = z div 146097"
    have y: "y + 1 = (e * 100 + c * 25 + q + 1) * 4" "y + 1 = (e * 4 + c) * 100 + (q + 1) * 4" "y + 1 = e * 400 + (c * 100 + (q + 1) * 4)"
      using doy that by (simp_all add: y_def q_def e_def)
    have "(y + 1) mod 4 = 0" by (subst y(1)) simp
    moreover have "(y + 1) mod 100 = (q + 1) * 4 mod 100" by (subst y(2)) (rule mod_mult_self3)
    moreover have "(y + 1) mod 400 = (c * 100 + (q + 1) * 4) mod 400" by (subst y(3)) (rule mod_mult_self3)
    moreover have "(q + 1) * 4 mod 100 = (q + 1) * 4 \<and> (q + 1) * 4 \<noteq> 0" if "q < 24" using q that by simp
    moreover have "c = 3 \<and> q = 24" if "\<not> q < 24" using q c doy that \<open>doy = 365\<close> by linarith
    ultimately show ?thesis unfolding leapYear_def by (cases "q < 24") simp_all
  qed
  ultimately show ?thesis using doy by simp
qed

lemma civilOf_correct:
  assumes "civilOf n = (y, m, d)"
  shows "daysFromCivil y m d = n \<and> validDate y m d"
proof -
  obtain Y doy where Y: "marchDays Y + doy = n + 719468" "0 \<le> doy" "doy \<le> 365" "doy = 365 \<longrightarrow> leapYear (Y + 1)"
    and ymd: "(let mp = (5 * doy + 2) div 153; m = (if mp < 10 then mp + 3 else mp - 9) in
       (if m \<le> 2 then Y + 1 else Y, m, doy - (153 * mp + 2) div 5 + 1)) = (y, m, d)"
    using assms march_year [of "n + 719468"] unfolding civilOf_def Let_def by blast
  obtain mp d' where mp: "(5 * doy + 2) div 153 = mp" "doy - (153 * mp + 2) div 5 + 1 = d'" "0 \<le> mp" "mp \<le> 11" "1 \<le> d'" "d' \<le> 31"
    "mp \<in> {1, 3, 6, 8} \<longrightarrow> d' \<le> 30" "mp = 11 \<longrightarrow> d' \<le> 29 \<and> (d' = 29 \<longrightarrow> doy = 365)"
    using march_months [OF Y(2,3)] by blast
  have "m = (if mp < 10 then mp + 3 else mp - 9) \<and> y = (if m \<le> 2 then Y + 1 else Y) \<and> d = d'"
    using ymd unfolding Let_def mp(1,2) prod.inject by (elim conjE, hypsubst) (intro conjI refl)
  then have m: "m = (if mp < 10 then mp + 3 else mp - 9)" "y = (if m \<le> 2 then Y + 1 else Y)" "d = d'" by blast+
  have "daysFromCivil y m d = n" using Y(1) mp m by (auto simp: daysFromCivil_march)
  moreover have "validDate y m d"
  proof (cases "mp = 11")
    case True
    then have "m = 2" "y = Y + 1" "d \<le> 29" "d = 29 \<longrightarrow> leapYear y" using m mp(8) Y(4) by simp_all
    then show ?thesis using mp(5) m(3) by (auto simp: validDate_def daysIn_def)
  next
    case False
    then have "1 \<le> m" "m \<le> 12" "m \<noteq> 2" using m(1) mp(3,4) by (simp_all split: if_splits)
    moreover have "m \<in> {4, 6, 9, 11} \<longrightarrow> mp \<in> {1, 3, 6, 8}" using m(1) mp(3,4) by (auto split: if_splits)
    ultimately show ?thesis using mp(5,6,7) m(3) by (auto simp: validDate_def daysIn_def)
  qed
  ultimately show ?thesis by simp
qed

text \<open>Dates in their usual order have their days in that order.\<close>

definition monthStart :: "int \<Rightarrow> bool \<Rightarrow> int" where
  "monthStart m leap = (if m \<le> 2 then 31 * (m - 1) else (153 * (m - 3) + 2) div 5 + (if leap then 60 else 59))"

definition monthLength :: "int \<Rightarrow> bool \<Rightarrow> int" where
  "monthLength m leap = (if m = 2 then (if leap then 29 else 28) else if m \<in> {4, 6, 9, 11} then 30 else 31)"

lemma daysIn_length: "daysIn m y = monthLength m (leapYear y)"
  by (simp add: daysIn_def monthLength_def)

lemma daysFromCivil_year: "1 \<le> m \<Longrightarrow> daysFromCivil y m d = marchDays (y - 1) + 306 + monthStart m (leapYear y) + d - 719469"
  using marchDays_step [of y] by (auto simp: daysFromCivil_march monthStart_def)

lemma marchDays_mono: "x \<le> y \<Longrightarrow> marchDays x \<le> marchDays y"
proof (induction y rule: int_ge_induct)
  case (step i)
  then show ?case using marchDays_step [of "i + 1"] by (simp split: if_splits)
qed simp

lemma monthStart_less:
  assumes "1 \<le> m" "m < m'" "m' \<le> 12"
  shows "monthStart m leap + monthLength m leap \<le> monthStart m' leap"
proof -
  have "list_all (\<lambda>leap. list_all (\<lambda>m. list_all (\<lambda>m'. m < m' \<longrightarrow> monthStart m leap + monthLength m leap \<le> monthStart m' leap)
    [1..12]) [1..12]) [True, False]" by code_simp
  with assms show ?thesis unfolding list_all_iff set_upto by (cases leap) auto
qed

lemma monthStart_end:
  assumes "1 \<le> m" "m \<le> 12"
  shows "monthStart m leap + monthLength m leap \<le> (if leap then 366 else 365)" "0 \<le> monthStart m leap"
proof -
  have "list_all (\<lambda>leap. list_all (\<lambda>m. monthStart m leap + monthLength m leap \<le> (if leap then 366 else 365) \<and> 0 \<le> monthStart m leap)
    [1..12]) [True, False]" by code_simp
  with assms show "monthStart m leap + monthLength m leap \<le> (if leap then 366 else 365)" "0 \<le> monthStart m leap"
    unfolding list_all_iff set_upto by (cases leap; auto)+
qed

lemma date_order:
  assumes "validDate y m d" "validDate y' m' d'" "y < y' \<or> y = y' \<and> (m < m' \<or> m = m' \<and> d < d')"
  shows "daysFromCivil y m d < daysFromCivil y' m' d'"
proof -
  have v: "1 \<le> m" "m \<le> 12" "1 \<le> m'" "m' \<le> 12" "d \<le> monthLength m (leapYear y)" "1 \<le> d'"
    using assms(1,2) by (simp_all add: validDate_def daysIn_length)
  note days = daysFromCivil_year [OF v(1), of y d] daysFromCivil_year [OF v(3), of y' d']
  consider "y < y'" | "y = y'" "m < m'" | "y = y'" "m = m'" "d < d'" using assms(3) by blast
  then show ?thesis
  proof cases
    case 1
    then have "marchDays y \<le> marchDays (y' - 1)" by (intro marchDays_mono) simp
    with days v marchDays_step [of y] monthStart_end(1) [OF v(1,2), of "leapYear y"] monthStart_end(2) [OF v(3,4), of "leapYear y'"]
    show ?thesis by linarith
  next
    case 2
    with days v monthStart_less [OF v(1) _ v(4), of "leapYear y"] show ?thesis by simp
  next
    case 3
    with days show ?thesis by simp
  qed
qed

lemma daysFromCivil_inj:
  assumes "validDate y m d" "validDate y' m' d'" "daysFromCivil y m d = daysFromCivil y' m' d'"
  shows "y = y' \<and> m = m' \<and> d = d'"
  using date_order [OF assms(1,2)] date_order [OF assms(2,1)] assms(3) by (metis less_irrefl linorder_neq_iff)

section \<open>The text\<close>

text \<open>The bytes of \<open>t.UTC().Format(time.RFC3339Nano)\<close> in the years 0 to 9999, where a year has four digits.\<close>

definition dateBytes :: "int \<Rightarrow> int list" where
  "dateBytes day = (case civilOf day of (y, m, d) \<Rightarrow> digitsOf 4 y @ 45 # digitsOf 2 m @ 45 # digitsOf 2 d)"

definition timeBytes :: "int \<Rightarrow> int list" where
  "timeBytes r = digitsOf 2 (r div 3600) @ 58 # digitsOf 2 (r div 60 mod 60) @ 58 # digitsOf 2 (r mod 60)"

definition stampBytes :: "int \<Rightarrow> int list" where
  "stampBytes t =
     (let secs = t div nanosPerSecond in
      dateBytes (secs div 86400) @ 84 # timeBytes (secs mod 86400) @ fracText (t mod nanosPerSecond))"

definition formatRFC3339Nano :: "int \<Rightarrow> string" where
  "formatRFC3339Nano t = map char_of (stampBytes t)"

lemma format_examples:
  "formatRFC3339Nano 1500000000 = ''1970-01-01T00:00:01.5Z''"
  "formatRFC3339Nano (1772319600 * 1000000000) = ''2026-02-28T23:00:00Z''"
  "formatRFC3339Nano (951782400 * 1000000000 + 120000) = ''2000-02-29T00:00:00.00012Z''"
  by code_simp+

text \<open>An instant of the years 0 to 9999 has a date of those years.\<close>

lemma civil_of_instant:
  assumes "instantYearIn 0 9999 t"
  obtains y m d where "civilOf (t div nanosPerSecond div 86400) = (y, m, d)" "validDate y m d" "0 \<le> y" "y \<le> 9999"
    "daysFromCivil y m d = t div nanosPerSecond div 86400"
proof -
  define n where "n = t div nanosPerSecond div 86400"
  obtain y m d where c: "civilOf n = (y, m, d)" by (cases "civilOf n") auto
  from civilOf_correct [OF this] have days: "daysFromCivil y m d = n" and valid: "validDate y m d" by simp_all
  have range: "daysFromCivil 0 1 1 \<le> n" "n < daysFromCivil 10000 1 1"
  proof -
    have "- 62167219200 * 1000000000 \<le> t" "t < 253402300800 * 1000000000"
      using assms by (simp_all add: instantYearIn_def instantOf_def nanosPerSecond_def daysFromCivil_def)
    then have "- 62167219200 \<le> t div nanosPerSecond" "t div nanosPerSecond < 253402300800"
      unfolding nanosPerSecond_def by linarith+
    then have "- 719528 \<le> n" "n < 2932897" unfolding n_def by linarith+
    then show "daysFromCivil 0 1 1 \<le> n" "n < daysFromCivil 10000 1 1" by (simp_all add: daysFromCivil_def)
  qed
  have first: "validDate 0 1 1" "validDate 10000 1 1" by (simp_all add: validDate_def daysIn_def)
  have "0 \<le> y"
    using date_order [OF valid first(1)] days range(1) by (cases "y < 0") auto
  moreover have "y \<le> 9999"
  proof (rule ccontr)
    assume "\<not> y \<le> 9999"
    then have "10000 < y \<or> 10000 = y \<and> (1 < m \<or> 1 = m \<and> 1 < d) \<or> (y, m, d) = (10000, 1, 1)"
      using valid by (auto simp: validDate_def)
    then have "daysFromCivil 10000 1 1 \<le> daysFromCivil y m d"
      using date_order [OF first(2) valid] by auto
    with range(2) days show False by simp
  qed
  ultimately show ?thesis using c valid days that unfolding n_def by blast
qed

section \<open>Reading it back\<close>

lemma digitsOf_range: "b \<in> set (digitsOf k n) \<Longrightarrow> 48 \<le> b \<and> b \<le> 57"
  by (induction k arbitrary: n) auto

lemma digits_isDigit: "list_all isDigit (map char_of (digitsOf k n))"
proof -
  have "isDigit (char_of b)" if "48 \<le> b" "b \<le> (57 :: int)" for b
    using that by (simp add: isDigit_def byteIn_def byteVal_def of_char_of take_bit_int_eq_self)
  then show ?thesis using digitsOf_range by (auto simp: list_all_iff)
qed

lemma numVal_snoc: "numVal (s @ [c]) = numVal s * 10 + digitVal c"
  by (simp add: numVal_def)

lemma digitVal_char: "0 \<le> n \<Longrightarrow> n < 10 \<Longrightarrow> digitVal (char_of (48 + n)) = (n :: int)"
  by (simp add: digitVal_def byteVal_def of_char_of take_bit_int_eq_self)

lemma numVal_digits: "numVal (map char_of (digitsOf k n)) = n mod 10 ^ k"
proof (induction k arbitrary: n)
  case 0
  then show ?case by (simp add: numVal_def)
next
  case (Suc k)
  have "n mod 10 ^ Suc k = n div 10 mod 10 ^ k * 10 + n mod 10"
    using zmod_zmult2_eq [of "10 ^ k" n 10] by simp
  with Suc show ?case by (simp add: numVal_snoc digitVal_char)
qed

lemma chars_digits2: "map char_of (digitsOf 2 n) = [char_of (48 + n div 10 mod 10), char_of (48 + n mod 10)]"
  by (simp add: numeral_2_eq_2)

lemma getnum_digits:
  assumes "0 \<le> n" "n < 100"
  shows "getnum fixed (map char_of (digitsOf 2 n) @ s) = Some (n, s)"
proof -
  have "isDigit (char_of (48 + n div 10 mod 10))" "isDigit (char_of (48 + n mod 10))"
    using digits_isDigit [of 2 n] unfolding chars_digits2 by simp_all
  moreover have "n div 10 mod 10 * 10 + n mod 10 = n" using assms by simp
  ultimately show ?thesis unfolding chars_digits2 by (simp add: getnum_def digitVal_char)
qed

lemma parseYear_digits:
  assumes "0 \<le> y" "y \<le> 9999"
  shows "parseYear (map char_of (digitsOf 4 y) @ s) = Some (y, s)"
  using assms digits_isDigit [of 4 y] by (simp add: parseYear_def numVal_digits)

lemma skipChar_Cons: "skipChar c (c # s) = Some s"
  by (simp add: skipChar_def)

lemma trimZeros_take: "take (length ds) (trimZeros ds @ replicate (length ds) 48) = ds"
proof -
  have "length (trimZeros ds) \<le> length ds" by (simp add: trimZeros_def length_dropWhile_le [of _ "rev ds", simplified])
  then have "take (length ds) (trimZeros ds @ replicate (length ds) 48) =
      trimZeros ds @ replicate (length ds - length (trimZeros ds)) 48" by (simp add: min_def)
  with trimZeros_pad [of ds] show ?thesis by simp
qed

lemma trimZeros_not_nil:
  assumes "0 < n" "n < 10 ^ k"
  shows "trimZeros (digitsOf k n) \<noteq> []"
proof
  assume "trimZeros (digitsOf k n) = []"
  then have "digitsOf k n = replicate k 48" using trimZeros_pad [of "digitsOf k n"] by simp
  moreover have "digitsOf k 0 = replicate k 48" by (induction k) (simp_all add: replicate_append_same)
  ultimately show False using digitsOf_inj [of n k 0] assms by simp
qed

lemma parseFraction_text:
  assumes "0 \<le> n" "n < nanosPerSecond"
  shows "parseFraction (map char_of (fracText n)) = (n, ''Z'')"
proof (cases "n = 0")
  case True
  have "char_of (90 :: int) = CHR ''Z''" by code_simp
  with True show ?thesis by (simp add: fracText_def parseFraction_def)
next
  case False
  let ?ds = "trimZeros (digitsOf 9 n)" and ?z = "char_of (90 :: int) :: char"
  have n: "0 < n" "n < 10 ^ 9" using assms False by (simp_all add: nanosPerSecond_def)
  have digits: "list_all isDigit (map char_of ?ds)"
    using digits_isDigit [of 9 n] set_dropWhileD by (fastforce simp: trimZeros_def list_all_iff)
  have z: "?z = CHR ''Z''" "\<not> isDigit (CHR ''Z'')" "char_of (46 :: int) = CHR ''.''" "char_of (48 :: int) = CHR ''0''" by code_simp+
  obtain c r where c: "map char_of ?ds = c # r" "isDigit c" "\<forall>x\<in>set (c # r). isDigit x"
    using trimZeros_not_nil [OF n] digits by (cases "map char_of ?ds :: string") (auto simp: list_all_iff)
  have run: "takeWhile isDigit ((c # r) @ ''Z'') = c # r" "dropWhile isDigit ((c # r) @ ''Z'') = ''Z''"
    using c(3) z(2) by (simp_all add: takeWhile_append2 dropWhile_append2)
  have "take 9 ((c # r) @ replicate 9 (CHR ''0'')) = map char_of (take 9 (?ds @ replicate 9 48))"
    unfolding c(1) [symmetric] using z by (simp add: take_map)
  also have "\<dots> = map char_of (digitsOf 9 n)" using trimZeros_take [of "digitsOf 9 n"] by simp
  finally have "numVal (take 9 ((c # r) @ replicate 9 (CHR ''0''))) = n" using n by (simp add: numVal_digits)
  moreover have "map char_of (fracText n) = CHR ''.'' # (c # r) @ ''Z''" using False c(1) z by (simp add: fracText_def)
  ultimately show ?thesis using run c(2) by (simp add: parseFraction_def)
qed

definition fieldText :: "int \<Rightarrow> int \<Rightarrow> int \<Rightarrow> int \<Rightarrow> int \<Rightarrow> int \<Rightarrow> int \<Rightarrow> string" where
  "fieldText y m d h mi s ns =
     map char_of (digitsOf 4 y) @ CHR ''-'' # map char_of (digitsOf 2 m) @ CHR ''-'' # map char_of (digitsOf 2 d) @ CHR ''T'' #
     map char_of (digitsOf 2 h) @ CHR '':'' # map char_of (digitsOf 2 mi) @ CHR '':'' # map char_of (digitsOf 2 s) @
     map char_of (fracText ns)"

text \<open>Each field is read from its block of digits, and what follows is left for the next one.\<close>

lemma parse_fields:
  assumes "0 \<le> y" "y \<le> 9999" "validDate y m d" "0 \<le> h" "h < 24" "0 \<le> mi" "mi < 60" "0 \<le> s" "s < 60" "0 \<le> ns" "ns < nanosPerSecond"
  shows "parseRFC3339Nano (fieldText y m d h mi s ns) = Some (instantOf y m d h mi s ns 0)"
proof -
  have md: "0 \<le> m" "m < 100" "0 \<le> d" "d < 100" "1 \<le> m \<and> m \<le> 12" "1 \<le> d" "d \<le> daysIn m y"
    using assms(3) by (auto simp: validDate_def daysIn_def split: if_splits)
  have small: "h < 100" "mi < 100" "s < 100" using assms by simp_all
  note reads = parseYear_digits [OF assms(1,2)] getnum_digits [OF md(1,2)] getnum_digits [OF md(3,4)] getnum_digits [OF assms(4) small(1)]
    getnum_digits [OF assms(6) small(2)] getnum_digits [OF assms(8) small(3)] parseFraction_text [OF assms(10,11)]
  have date: "parseDate (map char_of (digitsOf 4 y) @ CHR ''-'' # map char_of (digitsOf 2 m) @ CHR ''-'' #
      map char_of (digitsOf 2 d) @ r) = Some (y, m, d, r)" for r
    by (simp only: parseDate_def reads skipChar_Cons guardO_def md(5) bind.bind_lunit case_prod_conv if_True simp_thms)
  have zone: "parseZone ''Z'' = Some (0, [])" by code_simp
  show ?thesis
    by (simp only: parseRFC3339Nano_def fieldText_def date reads skipChar_Cons guardO_def assms(5,7,9) md(6,7) zone bind.bind_lunit
        case_prod_conv if_True simp_thms)
qed

lemma seconds_split: "r = r div 3600 * 3600 + r div 60 mod 60 * 60 + r mod 60" for r :: int
proof -
  have "r = r div 60 * 60 + r mod 60" "r div 60 = r div 60 div 60 * 60 + r div 60 mod 60" "r div 60 div 60 = r div 3600"
    using zdiv_zmult2_eq [of 60 r 60] by simp_all
  then show ?thesis by linarith
qed

lemma format_parses:
  assumes "instantYearIn 0 9999 t"
  shows "parseRFC3339Nano (formatRFC3339Nano t) = Some t"
proof -
  define secs where "secs = t div nanosPerSecond"
  define r where "r = secs mod 86400"
  obtain y m d where c: "civilOf (secs div 86400) = (y, m, d)" "validDate y m d" "0 \<le> y" "y \<le> 9999" "daysFromCivil y m d = secs div 86400"
    using civil_of_instant [OF assms] unfolding secs_def by metis
  have r: "0 \<le> r" "r < 86400" by (simp_all add: r_def)
  have hms: "0 \<le> r div 3600" "r div 3600 < 24" "0 \<le> r div 60 mod 60" "r div 60 mod 60 < 60" "0 \<le> r mod 60" "r mod 60 < 60"
    using r by auto
  have ns: "0 \<le> t mod nanosPerSecond" "t mod nanosPerSecond < nanosPerSecond" by (simp_all add: nanosPerSecond_def)
  have seps: "char_of (45 :: int) = CHR ''-''" "char_of (84 :: int) = CHR ''T''" "char_of (58 :: int) = CHR '':''" by code_simp+
  have "formatRFC3339Nano t = fieldText y m d (r div 3600) (r div 60 mod 60) (r mod 60) (t mod nanosPerSecond)"
    using c(1) seps by (simp add: formatRFC3339Nano_def fieldText_def stampBytes_def dateBytes_def timeBytes_def secs_def r_def Let_def)
  moreover have "instantOf y m d (r div 3600) (r div 60 mod 60) (r mod 60) (t mod nanosPerSecond) 0 = t"
  proof -
    have "secs = secs div 86400 * 86400 + r" by (simp add: r_def)
    with seconds_split [of r]
    have "secs div 86400 * 86400 + r div 3600 * 3600 + r div 60 mod 60 * 60 + r mod 60 = secs" by linarith
    then have "instantOf y m d (r div 3600) (r div 60 mod 60) (r mod 60) (t mod nanosPerSecond) 0 =
      secs * nanosPerSecond + t mod nanosPerSecond" unfolding instantOf_def c(5) by simp
    then show ?thesis by (simp add: secs_def)
  qed
  ultimately show ?thesis using parse_fields [OF c(3,4,2) hms ns] by metis
qed

section \<open>The order in SQL\<close>

lemma block_less:
  "length xs = length ys \<Longrightarrow> xs @ r < ys @ s \<longleftrightarrow> xs < ys \<or> xs = ys \<and> r < s" for xs :: "int list"
  by (induction xs ys rule: list_induct2) auto

lemma digits_less:
  assumes "0 \<le> m" "m < 10 ^ k" "0 \<le> n" "n < 10 ^ k"
  shows "digitsOf k m < digitsOf k n \<longleftrightarrow> m < n"
  using assms
proof (induction k arbitrary: m n)
  case (Suc k)
  then have "digitsOf k (m div 10) < digitsOf k (n div 10) \<longleftrightarrow> m div 10 < n div 10"
    and eq: "digitsOf k (m div 10) = digitsOf k (n div 10) \<longleftrightarrow> m div 10 = n div 10"
    using digitsOf_inj [of "m div 10" k "n div 10"] by auto
  then have "digitsOf (Suc k) m < digitsOf (Suc k) n \<longleftrightarrow> m div 10 < n div 10 \<or> m div 10 = n div 10 \<and> m mod 10 < n mod 10"
    by (simp add: block_less)
  moreover have "m = m div 10 * 10 + m mod 10" "n = n div 10 * 10 + n mod 10" "m mod 10 < 10" "n mod 10 < 10" "0 \<le> m mod 10" "0 \<le> n mod 10"
    by simp_all
  then have "m div 10 < n div 10 \<or> m div 10 = n div 10 \<and> m mod 10 < n mod 10 \<longleftrightarrow> m < n" by linarith
  ultimately show ?case by blast
qed simp

lemma digits_eq:
  assumes "0 \<le> m" "m < 10 ^ k" "0 \<le> n" "n < 10 ^ k"
  shows "digitsOf k m = digitsOf k n \<longleftrightarrow> m = n"
  using digitsOf_inj assms by auto

lemma length_dateBytes: "length (dateBytes n) = 10"
  by (auto simp: dateBytes_def split: prod.split)

lemma length_timeBytes: "length (timeBytes r) = 8"
  by (simp add: timeBytes_def)

lemma clock_less:
  assumes "(0 :: int) \<le> b" "b < 60" "0 \<le> c" "c < 60" "0 \<le> b'" "b' < 60" "0 \<le> c'" "c' < 60"
  shows "a * 3600 + b * 60 + c < a' * 3600 + b' * 60 + c' \<longleftrightarrow> a < a' \<or> a = a' \<and> (b < b' \<or> b = b' \<and> c < c')"
    (is "?l \<longleftrightarrow> ?r")
proof
  show "?l \<Longrightarrow> ?r" using assms by linarith
  show "?r \<Longrightarrow> ?l" using assms by (elim disjE conjE) linarith+
qed

text \<open>Three blocks of digits between separators.\<close>

lemma blocks_less:
  assumes "0 \<le> a" "a < 10 ^ k" "0 \<le> a'" "a' < 10 ^ k" "0 \<le> b" "b < 100" "0 \<le> b'" "b' < 100"
    "0 \<le> c" "c < 100" "0 \<le> c'" "c' < 100"
  shows "digitsOf k a @ x # digitsOf 2 b @ x # digitsOf 2 c < digitsOf k a' @ x # digitsOf 2 b' @ x # digitsOf 2 c' \<longleftrightarrow>
      a < a' \<or> a = a' \<and> (b < b' \<or> b = b' \<and> c < c')"
    and "digitsOf k a @ x # digitsOf 2 b @ x # digitsOf 2 c = digitsOf k a' @ x # digitsOf 2 b' @ x # digitsOf 2 c' \<longleftrightarrow>
      a = a' \<and> b = b' \<and> c = c'"
  using assms by (simp_all add: block_less digits_less digits_eq)

lemma timeBytes_less:
  assumes "0 \<le> r" "r < 86400" "0 \<le> s" "s < 86400"
  shows "timeBytes r < timeBytes s \<longleftrightarrow> r < s" "timeBytes r = timeBytes s \<longleftrightarrow> r = s"
proof -
  have fields: "\<exists>h mi sec. x div 3600 = h \<and> x div 60 mod 60 = mi \<and> x mod 60 = sec \<and> 0 \<le> h \<and> h < 100 \<and> 0 \<le> mi \<and> mi < 60 \<and> 0 \<le> sec \<and>
      sec < 60 \<and> x = h * 3600 + mi * 60 + sec" if "0 \<le> x" "x < 86400" for x :: int
  proof -
    have "0 \<le> x div 3600" "x div 3600 < 100" using that by simp_all
    with seconds_split [of x] show ?thesis by auto
  qed
  obtain h mi sec where r: "timeBytes r = digitsOf 2 h @ 58 # digitsOf 2 mi @ 58 # digitsOf 2 sec" "0 \<le> h" "h < 100" "0 \<le> mi" "mi < 60"
    "0 \<le> sec" "sec < 60" "r = h * 3600 + mi * 60 + sec" using fields [OF assms(1,2)] unfolding timeBytes_def by blast
  obtain h' mi' sec' where s: "timeBytes s = digitsOf 2 h' @ 58 # digitsOf 2 mi' @ 58 # digitsOf 2 sec'" "0 \<le> h'" "h' < 100" "0 \<le> mi'"
    "mi' < 60" "0 \<le> sec'" "sec' < 60" "s = h' * 3600 + mi' * 60 + sec'" using fields [OF assms(3,4)] unfolding timeBytes_def by blast
  have "timeBytes r < timeBytes s \<longleftrightarrow> h < h' \<or> h = h' \<and> (mi < mi' \<or> mi = mi' \<and> sec < sec')"
    using r(2-7) s(2-7) unfolding r(1) s(1) by (intro blocks_less) simp_all
  then show "timeBytes r < timeBytes s \<longleftrightarrow> r < s"
    using clock_less [OF r(4-7) s(4-7)] unfolding r(8) s(8) by blast
  have "timeBytes r = timeBytes s \<longleftrightarrow> h = h' \<and> mi = mi' \<and> sec = sec'"
    using r(2-7) s(2-7) unfolding r(1) s(1) by (intro blocks_less) simp_all
  then show "timeBytes r = timeBytes s \<longleftrightarrow> r = s"
    using clock_less [OF r(4-7) s(4-7), of h h'] clock_less [OF s(4-7) r(4-7), of h' h] unfolding r(8) s(8) by linarith
qed

lemma dateBytes_less:
  assumes "instantYearIn 0 9999 t" "instantYearIn 0 9999 u"
    and "a = t div nanosPerSecond div 86400" "b = u div nanosPerSecond div 86400"
  shows "dateBytes a < dateBytes b \<longleftrightarrow> a < b" "dateBytes a = dateBytes b \<longleftrightarrow> a = b"
proof -
  obtain y m d where c: "civilOf a = (y, m, d)" "validDate y m d" "0 \<le> y" "y \<le> 9999" "daysFromCivil y m d = a"
    using civil_of_instant [OF assms(1)] unfolding assms(3) by metis
  obtain y' m' d' where c': "civilOf b = (y', m', d')" "validDate y' m' d'" "0 \<le> y'" "y' \<le> 9999" "daysFromCivil y' m' d' = b"
    using civil_of_instant [OF assms(2)] unfolding assms(4) by metis
  have small: "0 \<le> m" "m < 100" "0 \<le> d" "d < 100" "0 \<le> m'" "m' < 100" "0 \<le> d'" "d' < 100"
    using c(2) c'(2) by (auto simp: validDate_def daysIn_def split: if_splits)
  have "dateBytes a < dateBytes b \<longleftrightarrow> y < y' \<or> y = y' \<and> (m < m' \<or> m = m' \<and> d < d')"
    using c(1,3,4) c'(1,3,4) small unfolding dateBytes_def by (simp add: blocks_less)
  moreover have "a = b" if "y = y'" "m = m'" "d = d'" using that c(5) c'(5) by simp
  ultimately
  show "dateBytes a < dateBytes b \<longleftrightarrow> a < b" 
    using date_order [OF c(2) c'(2)] date_order [OF c'(2) c(2)] unfolding c(5) c'(5) by (metis less_asym linorder_neq_iff)
  have "dateBytes a = dateBytes b \<longleftrightarrow> y = y' \<and> m = m' \<and> d = d'"
    using c(1,3,4) c'(1,3,4) small unfolding dateBytes_def by (simp add: digits_eq)
  with daysFromCivil_inj [OF c(2) c'(2)] c(5) c'(5) show "dateBytes a = dateBytes b \<longleftrightarrow> a = b" by blast
qed

text \<open>The byte order of two texts is the order of the stamps.\<close>

lemma stampBytes_less:
  assumes "instantYearIn 0 9999 t" "instantYearIn 0 9999 u"
  shows "stampBytes t < stampBytes u \<longleftrightarrow> Stamp t < Stamp u"
proof -
  define a b r s where "a = t div nanosPerSecond div 86400" and "b = u div nanosPerSecond div 86400"
    and "r = t div nanosPerSecond mod 86400" and "s = u div nanosPerSecond mod 86400"
  have secs: "t div nanosPerSecond = a * 86400 + r" "u div nanosPerSecond = b * 86400 + s" "0 \<le> r" "r < 86400" "0 \<le> s" "s < 86400"
    by (simp_all add: a_def b_def r_def s_def)
  note time = timeBytes_less [OF secs(3-6)] and date = dateBytes_less [OF assms a_def b_def]
  have "stampBytes t < stampBytes u \<longleftrightarrow>
      a < b \<or> a = b \<and> (r < s \<or> r = s \<and> fracText (t mod nanosPerSecond) < fracText (u mod nanosPerSecond))"
    unfolding stampBytes_def Let_def a_def [symmetric] b_def [symmetric] r_def [symmetric] s_def [symmetric]
    by (simp add: block_less length_dateBytes length_timeBytes time date)
  moreover have "a < b \<or> a = b \<and> r < s \<longleftrightarrow> t div nanosPerSecond < u div nanosPerSecond"
    unfolding secs(1,2) using secs(3-6) by linarith
  moreover have "a = b \<and> r = s \<longleftrightarrow> t div nanosPerSecond = u div nanosPerSecond"
    unfolding secs(1,2) using secs(3-6) by (cases a b rule: linorder_cases) auto
  ultimately show ?thesis by (auto simp: less_stamp_def stampKey_def stampSecs_def stampNanos_def)
qed

section \<open>The columns of an event\<close>

definition stampText :: "stamp \<Rightarrow> string" where
  "stampText t = formatRFC3339Nano (instant t)"

definition expiryValue :: "stamp option \<Rightarrow> string option" where
  "expiryValue t = map_option stampText t"

record event_columns =
  ec_created :: string
  ec_updated :: string
  ec_expires :: "string option"

text \<open>What the statements of \<open>Create\<close> and \<open>Update\<close> bind.\<close>

definition writeEvent :: "event_row \<Rightarrow> event_columns" where
  "writeEvent e = \<lparr>ec_created = stampText (ev_created e), ec_updated = stampText (ev_updated e), ec_expires = expiryValue (ev_expires e)\<rparr>"

text \<open>\<open>scan\<close>: the other columns are copied; a text that is no timestamp is an error.\<close>

definition scanEvent :: "event_row \<Rightarrow> event_columns \<Rightarrow> event_row option" where
  "scanEvent e k = do {
     created \<leftarrow> parseRFC3339Nano (ec_created k);
     updated \<leftarrow> parseRFC3339Nano (ec_updated k);
     case ec_expires k of
       None \<Rightarrow> Some (e\<lparr>ev_created := Stamp created, ev_updated := Stamp updated, ev_expires := None\<rparr>)
     | Some s \<Rightarrow> do {
         t \<leftarrow> parseRFC3339Nano s;
         Some (e\<lparr>ev_created := Stamp created, ev_updated := Stamp updated, ev_expires := Some (Stamp t)\<rparr>) } }"

definition inYears :: "stamp \<Rightarrow> bool" where
  "inYears t \<longleftrightarrow> instantYearIn 0 9999 (instant t)"

text \<open>SQLite compares two texts byte by byte.\<close>

definition textLess :: "string \<Rightarrow> string \<Rightarrow> bool" where
  "textLess s t \<longleftrightarrow> map byteVal s < map byteVal t"

lemma stampText_parses: "inYears t \<Longrightarrow> parseRFC3339Nano (stampText t) = Some (instant t)"
  by (simp add: inYears_def stampText_def format_parses)

lemma scanEvent_write:
  assumes "inYears (ev_created e)" "inYears (ev_updated e)" "\<forall>x. ev_expires e = Some x \<longrightarrow> inYears x"
  shows "scanEvent (e\<lparr>ev_created := c, ev_updated := u, ev_expires := x\<rparr>) (writeEvent e) = Some e"
  using assms by (cases "ev_expires e") (simp_all add: scanEvent_def writeEvent_def expiryValue_def stampText_parses)

lemma stampBytes_bytes: "b \<in> set (stampBytes t) \<Longrightarrow> 0 \<le> b \<and> b < 256"
proof -
  have digits: "0 \<le> b \<and> b < 256" if "b \<in> set (digitsOf k n)" for b k n using digitsOf_range [OF that] by simp
  have "0 \<le> b \<and> b < 256" if "b \<in> set (dateBytes n)" for b n
    using that digits by (auto simp: dateBytes_def split: prod.splits)
  moreover have "0 \<le> b \<and> b < 256" if "b \<in> set (timeBytes n)" for b n
    using that digits by (auto simp: timeBytes_def)
  moreover have "0 \<le> b \<and> b < 256" if "b \<in> set (fracText n)" for b n
  proof -
    have "0 \<le> x \<and> x < 256" if "x \<in> set (trimZeros (digitsOf 9 n))" for x
      using that set_dropWhileD [of x _ "rev (digitsOf 9 n)"] digits [of x 9 n] by (simp add: trimZeros_def)
    with that show ?thesis by (auto simp: fracText_def split: if_splits)
  qed
  ultimately show "b \<in> set (stampBytes t) \<Longrightarrow> 0 \<le> b \<and> b < 256" by (auto simp: stampBytes_def Let_def)
qed

lemma byteVal_format: "map byteVal (formatRFC3339Nano t) = stampBytes t"
proof -
  have "byteVal (char_of b) = b" if "0 \<le> b \<and> b < 256" for b
    using that by (simp add: byteVal_def of_char_of take_bit_int_eq_self)
  then have "\<forall>b \<in> set (stampBytes t). byteVal (char_of b) = b" using stampBytes_bytes by blast
  then show ?thesis by (simp add: formatRFC3339Nano_def map_idI)
qed

lemma stampText_less: "inYears s \<Longrightarrow> inYears t \<Longrightarrow> textLess (stampText s) (stampText t) \<longleftrightarrow> s < t"
  using stampBytes_less [of "instant s" "instant t"] by (simp add: inYears_def textLess_def stampText_def byteVal_format)

definition exWrittenEvent :: event_row where
  "exWrittenEvent = zeroEvent\<lparr>ev_name := ''Party'', ev_created := Stamp (1772319600 * 1000000000),
     ev_updated := Stamp (1772319600 * 1000000000 + 500000000)\<rparr>"

end
