(* ===== verification/Sha256.thy ===== *)
theory Sha256
  imports GoText "HOL-Library.Word"
begin

text \<open>
  \<open>crypto/sha256\<close> and the hexadecimal digest the server keeps of tokens (auth.go, \<open>tokenHash\<close>): FIPS 180-4
  on 32-bit words, over the bytes of the string.
\<close>

unbundle bit_operations_syntax

type_synonym w32 = "32 word"

definition rotr :: "nat \<Rightarrow> w32 \<Rightarrow> w32" where
  "rotr n x = drop_bit n x OR push_bit (32 - n) x"

text \<open>The constants of the standard: the first 32 bits behind the point of the cube roots (the rounds) and of
the square roots (the initial digest) of the first primes.\<close>

definition roundConstants :: "w32 list" where
  "roundConstants =
   [1116352408, 1899447441, 3049323471, 3921009573, 961987163, 1508970993, 2453635748, 2870763221,
    3624381080, 310598401, 607225278, 1426881987, 1925078388, 2162078206, 2614888103, 3248222580,
    3835390401, 4022224774, 264347078, 604807628, 770255983, 1249150122, 1555081692, 1996064986,
    2554220882, 2821834349, 2952996808, 3210313671, 3336571891, 3584528711, 113926993, 338241895,
    666307205, 773529912, 1294757372, 1396182291, 1695183700, 1986661051, 2177026350, 2456956037,
    2730485921, 2820302411, 3259730800, 3345764771, 3516065817, 3600352804, 4094571909, 275423344,
    430227734, 506948616, 659060556, 883997877, 958139571, 1322822218, 1537002063, 1747873779,
    1955562222, 2024104815, 2227730452, 2361852424, 2428436474, 2756734187, 3204031479, 3329325298]"

datatype digest = Digest w32 w32 w32 w32 w32 w32 w32 w32

definition initialDigest :: digest where
  "initialDigest =
     Digest 1779033703 3144134277 1013904242 2773480762
            1359893119 2600822924 528734635 1541459225"

fun addDigest :: "digest \<Rightarrow> digest \<Rightarrow> digest" where
  "addDigest (Digest a b c d e f g h) (Digest a' b' c' d' e' f' g' h') =
     Digest (a + a') (b + b') (c + c') (d + d') (e + e') (f + f') (g + g') (h + h')"

text \<open>One round, on the next constant and the next word of the schedule. The schedule is a window of the
last sixteen words.\<close>

fun sha256Round :: "w32 \<Rightarrow> w32 \<Rightarrow> digest \<Rightarrow> digest" where
  "sha256Round k w (Digest a b c d e f g h) =
     (let t1 = h + (rotr 6 e XOR rotr 11 e XOR rotr 25 e) + ((e AND f) XOR (NOT e AND g)) + k + w;
          t2 = (rotr 2 a XOR rotr 13 a XOR rotr 22 a) + ((a AND b) XOR (a AND c) XOR (b AND c))
      in Digest (t1 + t2) a b c (d + t1) e f g)"

definition nextWord :: "w32 list \<Rightarrow> w32" where
  "nextWord ws =
     (let x = ws ! 1; y = ws ! 14
      in (rotr 17 y XOR rotr 19 y XOR drop_bit 10 y) + ws ! 9 + (rotr 7 x XOR rotr 18 x XOR drop_bit 3 x) + ws ! 0)"

fun sha256Rounds :: "w32 list \<Rightarrow> w32 list \<Rightarrow> digest \<Rightarrow> digest" where
  "sha256Rounds [] ws s = s"
| "sha256Rounds (k # ks) ws s = sha256Rounds ks (tl ws @ [nextWord ws]) (sha256Round k (hd ws) s)"

fun bigEndian :: "int list \<Rightarrow> w32 list" where
  "bigEndian (a # b # c # d # r) = word_of_int (((a * 256 + b) * 256 + c) * 256 + d) # bigEndian r"
| "bigEndian _ = []"

definition sha256Block :: "int list \<Rightarrow> digest \<Rightarrow> digest" where
  "sha256Block bs s = addDigest s (sha256Rounds roundConstants (bigEndian bs) s)"

fun bytesOf :: "nat \<Rightarrow> int \<Rightarrow> int list" where
  "bytesOf 0 n = []"
| "bytesOf (Suc k) n = bytesOf k (n div 256) @ [n mod 256]"

definition padding :: "int list \<Rightarrow> int list" where
  "padding bs = bs @ 128 # replicate ((119 - length bs mod 64) mod 64) 0 @ bytesOf 8 (8 * int (length bs))"

fun sha256Blocks :: "nat \<Rightarrow> int list \<Rightarrow> digest \<Rightarrow> digest" where
  "sha256Blocks 0 bs s = s"
| "sha256Blocks (Suc n) bs s = sha256Blocks n (drop 64 bs) (sha256Block (take 64 bs) s)"

fun digestBytes :: "digest \<Rightarrow> int list" where
  "digestBytes (Digest a b c d e f g h) = concat (map (\<lambda>w. bytesOf 4 (uint w)) [a, b, c, d, e, f, g, h])"

definition sha256 :: "string \<Rightarrow> int list" where
  "sha256 s = (let bs = padding (map byteVal s) in digestBytes (sha256Blocks (length bs div 64) bs initialDigest))"

definition tokenHash :: "string \<Rightarrow> string" where
  "tokenHash token = hexEncode (sha256 token)"

lemma tokenHash_abc: "tokenHash ''abc'' = ''ba7816bf8f01cfea414140de5dae2223b00361a396177a9cb410ff61f20015ad''"
  by code_simp

end
