(* ===== verification/Auth.thy ===== *)
theory Auth
  imports Sha256 Events
begin

text \<open>
  \<open>internal/auth/auth.go\<close>: the one administrator password, and opaque sessions of which the database keeps
  only the digest of the token. A \<open>Manager\<close> is the hash it was made with, empty for \<open>NewSessionOnly\<close>.
  bcrypt is a third-party package: its three functions are a parameter.
\<close>

section \<open>Tokens\<close>

definition randomToken :: "string wop" where
  "randomToken = bindE randomBytes (\<lambda>bs. ret (base64Url (take 32 (bs @ replicate 32 0))))"

definition unixNow :: "int wop" where
  "unixNow = bindE now (\<lambda>t. ret (t div nanosPerSecond))"

definition truncateSecond :: "int \<Rightarrow> int" where
  "truncateSecond t = t div nanosPerSecond * nanosPerSecond"

definition sessionLifetime :: int where
  "sessionLifetime = 12 * 60 * 60"

definition passwordCost :: int where
  "passwordCost = 12"

section \<open>The password\<close>

text \<open>golang.org/x/crypto/bcrypt: whether a hash is well formed, whether a password matches it, and a new
hash, whose salt depends on when it is made.\<close>

record bcrypt =
  bc_cost :: "string \<Rightarrow> bool"
  bc_match :: "string \<Rightarrow> string \<Rightarrow> bool"
  bc_make :: "string \<Rightarrow> int \<Rightarrow> nat \<Rightarrow> string option"

definition hashPassword :: "bcrypt \<Rightarrow> string \<Rightarrow> int \<Rightarrow> string wop" where
  "hashPassword b password cost w =
     (case bc_make b password cost (tick w) of
        None \<Rightarrow> (Inl (Failure ''hash administrator credential''), w\<lparr>tick := Suc (tick w)\<rparr>)
      | Some h \<Rightarrow> (Inr h, w\<lparr>tick := Suc (tick w)\<rparr>))"

definition dropSessions :: "(admin_row \<Rightarrow> bool) \<Rightarrow> db \<Rightarrow> err + db \<times> unit" where
  "dropSessions P d = Inr (d\<lparr>admin_sessions := filter (\<lambda>r. \<not> P r) (admin_sessions d)\<rparr>, ())"

definition saveCredential :: "string \<Rightarrow> db \<Rightarrow> err + db \<times> unit" where
  "saveCredential hash d = Inr (d\<lparr>credential := Some hash\<rparr>, ())"

definition readCredential :: "bcrypt \<Rightarrow> string wop" where
  "readCredential b =
     tryE (queryRow credential) (\<lambda>r. case r of
         Inl e \<Rightarrow> if e = NoRows then ret [] else raise e
       | Inr hash \<Rightarrow> if bc_cost b hash then ret hash else raise (Failure ''stored administrator credential is invalid''))"

definition initialize :: "bcrypt \<Rightarrow> string \<Rightarrow> int \<Rightarrow> string wop" where
  "initialize b password cost =
     bindE (failIf (length password < 12 \<or> 72 < length password)
       (Failure ''administrator password must contain 12 to 72 bytes'')) (\<lambda>_.
     inTx (bindE (readCredential b) (\<lambda>hash.
       if hash = [] \<or> \<not> bc_match b hash password then
         bindE (hashPassword b password cost) (\<lambda>new.
         bindE (exec (dropSessions (\<lambda>_. True))) (\<lambda>_.
         bindE (exec (saveCredential new)) (\<lambda>_. ret new)))
       else ret hash)))"

definition NewManager :: "bcrypt \<Rightarrow> string \<Rightarrow> string wop" where
  "NewManager b password = initialize b password passwordCost"

section \<open>Sessions\<close>

record admin_session =
  se_csrf :: string
  se_expires :: int

text \<open>\<open>INSERT ... SELECT ... WHERE\<close>: the number of rows that were inserted.\<close>

definition insertAdmin :: "admin_row \<Rightarrow> (db \<Rightarrow> bool) \<Rightarrow> db \<Rightarrow> err + db \<times> int" where
  "insertAdmin r cond d =
     (if \<not> cond d then Inr (d, 0)
      else if list_ex (\<lambda>x. ad_token x = ad_token r) (admin_sessions d) then Inl EConstraint
      else Inr (d\<lparr>admin_sessions := admin_sessions d @ [r]\<rparr>, 1))"

definition sessionRow :: "string \<Rightarrow> admin_session \<Rightarrow> int \<Rightarrow> admin_row" where
  "sessionRow token s t =
     \<lparr>ad_token = tokenHash token, ad_csrf = se_csrf s, ad_created = t div nanosPerSecond,
      ad_expires = se_expires s div nanosPerSecond\<rparr>"

definition createSession :: "string \<Rightarrow> string \<Rightarrow> bool \<Rightarrow> (string \<times> admin_session) wop" where
  "createSession hash previous passwordLogin =
     bindE now (\<lambda>t.
     bindE randomToken (\<lambda>csrf.
     bindE randomToken (\<lambda>token.
     let session = \<lparr>se_csrf = csrf, se_expires = truncateSecond (t + sessionLifetime * nanosPerSecond)\<rparr> in
     inTx (
       bindE (exec (dropSessions (\<lambda>r. ad_expires r \<le> t div nanosPerSecond \<or> ad_token r = tokenHash previous))) (\<lambda>_.
       bindE (exec (insertAdmin (sessionRow token session t) (\<lambda>d. \<not> passwordLogin \<or> credential d = Some hash))) (\<lambda>n.
       bindE (failIf (n \<noteq> 1) ErrUnauthorized) (\<lambda>_. ret (token, session))))))))"

definition Login :: "bcrypt \<Rightarrow> string \<Rightarrow> string \<Rightarrow> string \<Rightarrow> (string \<times> admin_session) wop" where
  "Login b hash password previous =
     (if hash = [] \<or> 72 < length password \<or> \<not> bc_match b hash password then raise ErrUnauthorized
      else createSession hash previous True)"

definition CreateSession :: "string \<Rightarrow> string \<Rightarrow> (string \<times> admin_session) wop" where
  "CreateSession hash previous = createSession hash previous False"

definition Lookup :: "string \<Rightarrow> admin_session wop" where
  "Lookup token =
     (if \<not> validToken token then raise ErrUnauthorized
      else bindE unixNow (\<lambda>t.
        tryE (queryRow (\<lambda>d. find (\<lambda>r. ad_token r = tokenHash token \<and> t < ad_expires r) (admin_sessions d))) (\<lambda>r. case r of
            Inl e \<Rightarrow> raise (if e = NoRows then ErrUnauthorized else e)
          | Inr row \<Rightarrow> ret \<lparr>se_csrf = ad_csrf row, se_expires = ad_expires row * nanosPerSecond\<rparr>)))"

definition Logout :: "string \<Rightarrow> unit wop" where
  "Logout token = exec (dropSessions (\<lambda>r. ad_token r = tokenHash token))"

end
