(* ===== verification/Mime.thy ===== *)
theory Mime
  imports World
begin

text \<open>
  What the server reads of a media type: \<open>mime.ParseMediaType\<close> of Go's standard library (the
  type, and whether the parameters parse; no caller looks at their values), and the type
  lists of \<open>internal/media/validation.go\<close> and \<open>quotas.go\<close>.
\<close>

section \<open>mime.ParseMediaType\<close>

text \<open>
  \<open>strings.ToLower\<close> where its result can matter here. Two non-ASCII runes have an ASCII lower
  case, U+0130 and U+212A; every other one stays outside ASCII, hence no token character.
\<close>

definition lowerPiece :: "string \<Rightarrow> string" where
  "lowerPiece k =
     (let r = runeOf k in
      if 65 \<le> r \<and> r \<le> 90 then [char_of (r + 32)]
      else if r = 304 then ''i'' else if r = 8490 then ''k'' else k)"

definition toLower :: "string \<Rightarrow> string" where
  "toLower s = concat (map lowerPiece (chunks s))"

definition trimLeft :: "string \<Rightarrow> string" where
  "trimLeft s = concat (dropWhile (\<lambda>k. isSpaceRune (runeOf k)) (chunks s))"

definition isTSpecial :: "char \<Rightarrow> bool" where
  "isTSpecial c \<longleftrightarrow> c \<in> set ''()<>@,;:/[]?='' \<or> c = CHR 0x5C \<or> c = CHR 0x22"

definition isTokenChar :: "char \<Rightarrow> bool" where
  "isTokenChar c \<longleftrightarrow> byteIn 33 126 c \<and> \<not> isTSpecial c"

definition consumeToken :: "string \<Rightarrow> string \<times> string" where
  "consumeToken v = (takeWhile isTokenChar v, dropWhile isTokenChar v)"

definition mediaTypeOk :: "string \<Rightarrow> bool" where
  "mediaTypeOk s =
     (case consumeToken s of (typ, rest) \<Rightarrow>
        typ \<noteq> [] \<and>
        (rest = [] \<or>
         (hasPrefix rest ''/'' \<and>
          (case consumeToken (drop 1 rest) of (sub, rest') \<Rightarrow> sub \<noteq> [] \<and> rest' = []))))"

text \<open>The body of a quoted string after its opening quote: its value and what follows.\<close>

fun quotedBody :: "string \<Rightarrow> string \<Rightarrow> (string \<times> string) option" where
  "quotedBody acc [] = None"
| "quotedBody acc (c # r) =
     (if c = CHR 0x22 then Some (acc, r)
      else if c = CHR 0x5C then
        (case r of [] \<Rightarrow> quotedBody (acc @ [c]) r
         | d # r' \<Rightarrow> if isTSpecial d then quotedBody (acc @ [d]) r' else quotedBody (acc @ [c]) r)
      else if c = CHR 0x0D \<or> c = CHR 0x0A then None
      else quotedBody (acc @ [c]) r)"

definition consumeValue :: "string \<Rightarrow> string \<times> string" where
  "consumeValue v =
     (if hasPrefix v [CHR 0x22]
      then (case quotedBody [] (drop 1 v) of None \<Rightarrow> ([], v) | Some p \<Rightarrow> p)
      else consumeToken v)"

text \<open>One \<open>; key = value\<close>; None where Go returns an empty key.\<close>

definition consumeMediaParam :: "string \<Rightarrow> (string \<times> string \<times> string) option" where
  "consumeMediaParam v =
     (let r1 = trimLeft v in
      if \<not> hasPrefix r1 '';'' then None
      else (case consumeToken (trimLeft (drop 1 r1)) of (param, r2) \<Rightarrow>
        if param = [] then None
        else (let r3 = trimLeft r2 in
          if \<not> hasPrefix r3 ''='' then None
          else (let r4 = trimLeft (drop 1 r3) in
            (case consumeValue r4 of (val, r5) \<Rightarrow>
               if val = [] \<and> r5 = r4 then None else Some (toLower param, val, r5))))))"

lemma trimLeft_length: "length (trimLeft s) \<le> length s"
proof -
  have "length (concat (dropWhile P ks)) \<le> length (concat ks)" for P and ks :: "string list"
    by (induction ks) auto
  from this [of _ "chunks s"] show ?thesis by (simp add: trimLeft_def)
qed

lemma quotedBody_length: "quotedBody acc v = Some (x, r') \<Longrightarrow> length r' \<le> length v"
proof (induction acc v rule: quotedBody.induct)
  case (2 acc c r)
  show ?case
  proof (cases "c = CHR 0x22 \<or> c = CHR 0x0D \<or> c = CHR 0x0A")
    case True
    with "2.prems" show ?thesis by auto
  next
    case False
    show ?thesis
    proof (cases "c = CHR 0x5C")
      case True
      with 2 show ?thesis by (cases r) (fastforce split: if_splits)+
    next
      case neq: False
      with False "2.prems" have "quotedBody (acc @ [c]) r = Some (x, r')" by simp
      with "2.IH"(4) neq False have "length r' \<le> length r" by simp
      then show ?thesis by simp
    qed
  qed
qed simp

lemma consumeValue_length: "length (snd (consumeValue v)) \<le> length v"
proof -
  have "length (snd p) \<le> length v" if "quotedBody [] (drop 1 v) = Some p" for p
    using that quotedBody_length [of "[]" "drop 1 v" "fst p" "snd p"] by simp
  then show ?thesis
    by (auto simp: consumeValue_def consumeToken_def length_dropWhile_le split: option.split)
qed

lemma consumeMediaParam_length:
  "consumeMediaParam v = Some (k, x, r) \<Longrightarrow> length r < length v"
proof -
  assume run: "consumeMediaParam v = Some (k, x, r)"
  let ?r1 = "trimLeft v"
  let ?r2 = "dropWhile isTokenChar (trimLeft (drop 1 ?r1))"
  let ?r4 = "trimLeft (drop 1 (trimLeft ?r2))"
  from run have ne: "?r1 \<noteq> []" and r: "r = snd (consumeValue ?r4)"
    by (auto simp: consumeMediaParam_def consumeToken_def Let_def hasPrefix_def
        split: if_splits prod.splits)
  have "length r \<le> length ?r4" using r consumeValue_length by simp
  also have "\<dots> \<le> length (drop 1 (trimLeft ?r2))" by (rule trimLeft_length)
  also have "\<dots> \<le> length (trimLeft ?r2)" by simp
  also have "\<dots> \<le> length ?r2" by (rule trimLeft_length)
  also have "\<dots> \<le> length (trimLeft (drop 1 ?r1))" by (rule length_dropWhile_le)
  also have "\<dots> \<le> length (drop 1 ?r1)" by (rule trimLeft_length)
  also have "\<dots> < length ?r1" using ne by (cases ?r1) simp_all
  also have "\<dots> \<le> length v" by (rule trimLeft_length)
  finally show ?thesis .
qed

text \<open>
  The parameter loop. Go keeps the parameters in a map (in a second one, by base name, where
  the key has a \<open>*\<close>); a key decides which, so one map is enough to find a duplicate.
\<close>

function paramsOk :: "(string \<rightharpoonup> string) \<Rightarrow> string \<Rightarrow> string \<Rightarrow> string \<times> bool" where
  "paramsOk seen kind v =
     (let v1 = trimLeft v in
      if v1 = [] then (kind, True)
      else (case consumeMediaParam v1 of
              None \<Rightarrow> (kind, trimSpace v1 = '';'')
            | Some (key, val, rest) \<Rightarrow>
                if seen key \<noteq> None \<and> seen key \<noteq> Some val then ([], False)
                else paramsOk (seen(key \<mapsto> val)) kind rest))"
  by pat_completeness auto

termination
proof (relation "measure (\<lambda>(_, _, v). length v)", goal_cases)
  case (2 seen kind v v1 p key q val rest)
  then have "length rest < length (trimLeft v)" by (auto intro: consumeMediaParam_length)
  with trimLeft_length [of v] show ?case by simp
qed simp

declare paramsOk.simps [simp del]

definition parseMediaType :: "string \<Rightarrow> string \<times> bool" where
  "parseMediaType v =
     (let base = takeWhile (\<lambda>c. c \<noteq> CHR '';'') v;
          kind = trimSpace (toLower base) in
      if mediaTypeOk kind then paramsOk Map.empty kind (drop (length base) v) else ([], False))"

lemma paramsOk_kind: "paramsOk seen kind v = (k, True) \<Longrightarrow> k = kind"
proof (induction seen kind v rule: paramsOk.induct)
  case (1 seen kind v)
  show ?case
  proof (cases "trimLeft v = [] \<or> consumeMediaParam (trimLeft v) = None")
    case True
    with "1.prems" show ?thesis by (subst (asm) paramsOk.simps) (auto simp: Let_def split: if_splits)
  next
    case False
    then obtain key val rest where p: "consumeMediaParam (trimLeft v) = Some (key, val, rest)"
      by (metis option.exhaust prod_cases3)
    note run = "1.prems" [unfolded paramsOk.simps [of seen kind v]]
    from run p False have "\<not> (seen key \<noteq> None \<and> seen key \<noteq> Some val)"
      by (auto simp: Let_def split: if_splits)
    with run p False have "paramsOk (seen(key \<mapsto> val)) kind rest = (k, True)"
      by (auto simp: Let_def split: if_splits)
    with "1.IH" [OF refl _ p refl refl] False \<open>\<not> (seen key \<noteq> None \<and> _)\<close> show ?thesis by blast
  qed
qed

lemma parseMediaType_kind: "parseMediaType v = (k, True) \<Longrightarrow> mediaTypeOk k"
  by (auto simp: parseMediaType_def Let_def split: if_splits dest: paramsOk_kind)

lemma parseMediaType_examples:
  "parseMediaType ''IMAGE/JPEG; charset=utf-8'' = (''image/jpeg'', True)"
  "parseMediaType ''image/png;;'' = (''image/png'', False)"
  "parseMediaType ''image/png;'' = (''image/png'', True)"
  "parseMediaType ''image/'' = ([], False)"
  "parseMediaType ''video/mp4; a=1; a=2'' = ([], False)"
  by code_simp+

section \<open>Supported types\<close>

definition SupportedMIME :: "string \<Rightarrow> bool" where
  "SupportedMIME val \<longleftrightarrow> val \<in> {''image/jpeg'', ''image/png'', ''image/webp'', ''image/gif'',
     ''image/heic'', ''image/heif'', ''video/mp4'', ''video/quicktime''}"

definition ValidateDeclaredType :: "string \<Rightarrow> err + unit" where
  "ValidateDeclaredType val =
     (if val = [] then Inr ()
      else (case parseMediaType val of (kind, ok) \<Rightarrow>
        if \<not> ok \<or> (kind \<noteq> ''application/octet-stream'' \<and> \<not> SupportedMIME kind) then Inl ErrType
        else Inr ()))"

definition mediaClass :: "string \<Rightarrow> string" where
  "mediaClass kind =
     (if \<not> SupportedMIME kind then []
      else if kind = ''video/mp4'' \<or> kind = ''video/quicktime'' then ''video'' else ''photo'')"

lemma mediaClass_cases:
  "SupportedMIME k \<Longrightarrow> mediaClass k = ''photo'' \<or> mediaClass k = ''video''"
  by (auto simp: mediaClass_def)

lemma mediaClass_supported: "mediaClass k \<noteq> [] \<longleftrightarrow> SupportedMIME k"
  by (auto simp: mediaClass_def)

end
