(* ===== verification/NetText.thy ===== *)
theory NetText
  imports Mime
begin

text \<open>
  What the server reads of addresses and URLs: \<open>net.SplitHostPort\<close>, \<open>netip.ParseAddr\<close> with prefixes, and
  \<open>net/url.Parse\<close> with \<open>Hostname\<close>, \<open>Port\<close> and \<open>String\<close>, of Go's standard library, over bytes.
\<close>

section \<open>Cutting strings\<close>

text \<open>\<open>strings.Split\<close> at one byte.\<close>

fun splitAt :: "char \<Rightarrow> string \<Rightarrow> string list" where
  "splitAt c [] = [[]]"
| "splitAt c (x # s) =
     (if x = c then [] # splitAt c s
      else (case splitAt c s of p # ps \<Rightarrow> (x # p) # ps | [] \<Rightarrow> [[x]]))"

text \<open>\<open>strings.Cut\<close>: what is before the first \<open>c\<close>, and what is after it if there is one.\<close>

definition cutAt :: "char \<Rightarrow> string \<Rightarrow> string \<times> string option" where
  "cutAt c s = (takeWhile (\<lambda>x. x \<noteq> c) s, case dropWhile (\<lambda>x. x \<noteq> c) s of [] \<Rightarrow> None | _ # r \<Rightarrow> Some r)"

text \<open>The same at the last \<open>c\<close>.\<close>

definition cutLast :: "char \<Rightarrow> string \<Rightarrow> (string \<times> string) option" where
  "cutLast c s =
     (case cutAt c (rev s) of (_, None) \<Rightarrow> None | (b, Some a) \<Rightarrow> Some (rev a, rev b))"

definition hasSuffix :: "string \<Rightarrow> string \<Rightarrow> bool" where
  "hasSuffix s p \<longleftrightarrow> hasPrefix (rev s) (rev p)"

definition hexDigitVal :: "char \<Rightarrow> int" where
  "hexDigitVal c = (if isDigit c then byteVal c - 48 else if byteIn 97 102 c then byteVal c - 87 else byteVal c - 55)"

definition isLetter :: "char \<Rightarrow> bool" where
  "isLetter c \<longleftrightarrow> byteIn 65 90 c \<or> byteIn 97 122 c"

lemma splitAt_not_nil [simp]: "splitAt c s \<noteq> []"
  by (induction s) (auto split: list.split)

lemma splitAt_none: "c \<notin> set s \<Longrightarrow> splitAt c s = [s]"
  by (induction s) auto

section \<open>Addresses\<close>

text \<open>\<open>netip.Addr\<close>: four bytes, or sixteen bytes with a zone.\<close>

datatype addr = V4 "int list" | V6 "int list" string

definition octetOk :: "string \<Rightarrow> bool" where
  "octetOk s \<longleftrightarrow> s \<noteq> [] \<and> list_all isDigit s \<and> (length s = 1 \<or> hd s \<noteq> CHR ''0'') \<and> numVal s \<le> 255"

definition parseIPv4 :: "string \<Rightarrow> int list option" where
  "parseIPv4 s =
     (let fs = splitAt CHR ''.'' s in if length fs = 4 \<and> list_all octetOk fs then Some (map numVal fs) else None)"

text \<open>The fields of an IPv6 address: at most four hexadecimal digits each, as two bytes. The result is the
bytes and, if there was a double colon, how many of them are before it. The count \<open>n\<close> is of the fields
that are still allowed; each call reads one.\<close>

definition hexField :: "string \<Rightarrow> int" where
  "hexField s = foldl (\<lambda>v c. v * 16 + hexDigitVal c) 0 s"

fun parseFields :: "nat \<Rightarrow> string \<Rightarrow> int list \<Rightarrow> nat option \<Rightarrow> (int list \<times> nat option) option" where
  "parseFields 0 s ip ell = (if s = [] then Some (ip, ell) else None)"
| "parseFields (Suc n) s ip ell =
     (let h = takeWhile isHex s; r = dropWhile isHex s in
      if h = [] \<or> 4 < length h then None
      else if hasPrefix r ''.'' then
        (if (ell = None \<and> length ip \<noteq> 12) \<or> 16 < length ip + 4 then None
         else (case parseIPv4 s of None \<Rightarrow> None | Some q \<Rightarrow> Some (ip @ q, ell)))
      else
        (let ip' = ip @ [hexField h div 256, hexField h mod 256] in
         case r of [] \<Rightarrow> Some (ip', ell)
         | c # r' \<Rightarrow>
             if c \<noteq> CHR '':'' \<or> r' = [] then None
             else if hd r' = CHR '':'' then
               (if ell \<noteq> None then None
                else if tl r' = [] then Some (ip', Some (length ip'))
                else parseFields n (tl r') ip' (Some (length ip')))
             else parseFields n r' ip' ell))"

definition fillEllipsis :: "int list \<times> nat option \<Rightarrow> int list option" where
  "fillEllipsis r =
     (case r of (ip, ell) \<Rightarrow>
        (case ell of
           None \<Rightarrow> if length ip = 16 then Some ip else None
         | Some k \<Rightarrow> if length ip < 16 then Some (take k ip @ replicate (16 - length ip) 0 @ drop k ip) else None))"

definition parseIPv6Bytes :: "string \<Rightarrow> int list option" where
  "parseIPv6Bytes s =
     (if s = ''::'' then Some (replicate 16 0)
      else Option.bind (if hasPrefix s ''::'' then parseFields 8 (drop 2 s) [] (Some 0) else parseFields 8 s [] None)
             fillEllipsis)"

definition parseIPv6 :: "string \<Rightarrow> addr option" where
  "parseIPv6 s =
     (case cutAt CHR ''%'' s of
        (_, Some []) \<Rightarrow> None
      | (a, zone) \<Rightarrow> map_option (\<lambda>ip. V6 ip (case zone of None \<Rightarrow> [] | Some z \<Rightarrow> z)) (parseIPv6Bytes a))"

definition parseAddr :: "string \<Rightarrow> addr option" where
  "parseAddr s =
     (case find (\<lambda>c. c \<in> set ''.:%'') s of
        None \<Rightarrow> None
      | Some c \<Rightarrow> if c = CHR ''.'' then map_option V4 (parseIPv4 s)
                else if c = CHR '':'' then parseIPv6 s else None)"

fun zoneOf :: "addr \<Rightarrow> string" where
  "zoneOf (V4 ip) = []"
| "zoneOf (V6 ip z) = z"

text \<open>\<open>Unmap\<close>: the IPv4 address that an IPv6 address maps.\<close>

fun unmap :: "addr \<Rightarrow> addr" where
  "unmap (V4 ip) = V4 ip"
| "unmap (V6 ip z) = (if take 12 ip = replicate 10 0 @ [255, 255] then V4 (drop 12 ip) else V6 ip z)"

text \<open>\<open>netip.Prefix\<close> and \<open>Contains\<close>: the same family, no zone, and the same leading bits.\<close>

record prefix =
  px_addr :: addr
  px_bits :: nat

definition addrBits :: "int list \<Rightarrow> bool list" where
  "addrBits ip = concat (map (\<lambda>b. map (\<lambda>k. b div 2 ^ k mod 2 = 1) [7, 6, 5, 4, 3, 2, 1, 0 :: nat]) ip)"

fun prefixContains :: "prefix \<Rightarrow> addr \<Rightarrow> bool" where
  "prefixContains p (V4 ip) =
     (case px_addr p of V4 q \<Rightarrow> take (px_bits p) (addrBits ip) = take (px_bits p) (addrBits q) | V6 _ _ \<Rightarrow> False)"
| "prefixContains p (V6 ip z) =
     (z = [] \<and> (case px_addr p of V4 _ \<Rightarrow> False | V6 q _ \<Rightarrow> take (px_bits p) (addrBits ip) = take (px_bits p) (addrBits q)))"

text \<open>\<open>net.ParseIP\<close>, and \<open>IsLoopback\<close> of its result.\<close>

definition parseIP :: "string \<Rightarrow> addr option" where
  "parseIP s = (case parseAddr s of None \<Rightarrow> None | Some a \<Rightarrow> if zoneOf a \<noteq> [] then None else Some (unmap a))"

fun isLoopback :: "addr \<Rightarrow> bool" where
  "isLoopback (V4 ip) = (hd ip = 127)"
| "isLoopback (V6 ip z) = (ip = replicate 15 0 @ [1])"

text \<open>\<open>net.SplitHostPort\<close>.\<close>

definition splitHostPort :: "string \<Rightarrow> (string \<times> string) option" where
  "splitHostPort s =
     (case cutLast CHR '':'' s of
        None \<Rightarrow> None
      | Some (front, port) \<Rightarrow>
          if hasPrefix s ''['' then
            (case cutAt CHR '']'' (drop 1 s) of
               (_, None) \<Rightarrow> None
             | (host, Some after) \<Rightarrow>
                 if after \<noteq> CHR '':'' # port \<or> CHR ''['' \<in> set host \<or> CHR ''['' \<in> set after \<or> CHR '']'' \<in> set after
                 then None else Some (host, port))
          else if CHR '':'' \<in> set front \<or> CHR ''['' \<in> set s \<or> CHR '']'' \<in> set s then None
          else Some (front, port))"

section \<open>URLs\<close>

text \<open>The fields of \<open>url.URL\<close> that the server reads. The user information is only whether there is any, and the
path is as it was written: its decoded form is only compared with the empty path and \<open>/\<close>, which no
other spelling decodes to.\<close>

record url =
  u_scheme :: string
  u_opaque :: string
  u_user :: bool
  u_host :: string
  u_path :: string
  u_query :: string
  u_force :: bool

definition emptyUrl :: url where
  "emptyUrl = \<lparr>u_scheme = [], u_opaque = [], u_user = False, u_host = [], u_path = [], u_query = [], u_force = False\<rparr>"

text \<open>\<open>getScheme\<close>: None is the error of a missing scheme before a colon.\<close>

definition schemeChar :: "char \<Rightarrow> bool" where
  "schemeChar c \<longleftrightarrow> isLetter c \<or> isDigit c \<or> c \<in> set ''+-.''"

definition getScheme :: "string \<Rightarrow> (string \<times> string) option" where
  "getScheme s =
     (let p = takeWhile schemeChar s in
      case dropWhile schemeChar s of
        [] \<Rightarrow> Some ([], s)
      | c # r \<Rightarrow> if c \<noteq> CHR '':'' then Some ([], s)
               else if p = [] then None
               else if isLetter (hd p) then Some (p, r) else Some ([], s))"

text \<open>\<open>unescape\<close>: every percent sign starts an escape. In a host a decoded byte is not ASCII, \<open>%25\<close> excepted,
and no other ASCII byte than these stands for itself.\<close>

definition hostByte :: "char \<Rightarrow> bool" where
  "hostByte c \<longleftrightarrow> 128 \<le> byteVal c \<or> isLetter c \<or> isDigit c \<or> c \<in> set ''-_.~!$&()*+,;=:[]<>'' \<or> c = CHR 0x27 \<or> c = CHR 0x22"

fun unescapeHost :: "string \<Rightarrow> string option" where
  "unescapeHost [] = Some []"
| "unescapeHost (c # s) =
     (if c = CHR ''%'' then
        (case s of
           a # b # r \<Rightarrow>
             if \<not> isHex a \<or> \<not> isHex b then None
             else if hexDigitVal a < 8 \<and> \<not> (a = CHR ''2'' \<and> b = CHR ''5'') then None
             else map_option (\<lambda>t. char_of (hexDigitVal a * 16 + hexDigitVal b) # t) (unescapeHost r)
         | _ \<Rightarrow> None)
      else if hostByte c then map_option (\<lambda>t. c # t) (unescapeHost s)
      else None)"

fun escapesOk :: "string \<Rightarrow> bool" where
  "escapesOk [] = True"
| "escapesOk (c # s) =
     (if c = CHR ''%'' then (case s of a # b # r \<Rightarrow> isHex a \<and> isHex b \<and> escapesOk r | _ \<Rightarrow> False)
      else escapesOk s)"

definition validOptionalPort :: "string \<Rightarrow> bool" where
  "validOptionalPort p \<longleftrightarrow> p = [] \<or> (hd p = CHR '':'' \<and> list_all isDigit (tl p))"

text \<open>\<open>parseHost\<close>: brackets hold an IPv6 address and come first; elsewhere there is at most one colon, before
a port.\<close>

definition parseHost :: "string \<Rightarrow> string option" where
  "parseHost host =
     (if CHR ''['' \<in> set host then
        (case cutLast CHR '']'' host of
           None \<Rightarrow> None
         | Some (inner, port) \<Rightarrow>
             if \<not> hasPrefix host ''['' \<or> \<not> validOptionalPort port then None
             else (case unescapeHost host of
                     None \<Rightarrow> None
                   | Some h \<Rightarrow>
                       (case Option.bind (unescapeHost (drop 1 inner)) parseAddr of
                          Some (V6 _ _) \<Rightarrow> Some h | _ \<Rightarrow> None)))
      else (case cutAt CHR '':'' host of
              (_, None) \<Rightarrow> unescapeHost host
            | (_, Some p) \<Rightarrow> if list_all isDigit p then unescapeHost host else None))"

text \<open>\<open>url.Parse\<close>. What follows a number sign is the fragment, which every caller refuses or ignores; the user
information of an authority is not checked further, every caller refuses it.\<close>

definition parseRest :: "url \<Rightarrow> string \<Rightarrow> url option" where
  "parseRest u rest =
     (if \<not> hasPrefix rest ''/'' \<and> u_scheme u \<noteq> [] then Some (u\<lparr>u_opaque := rest\<rparr>)
      else if \<not> hasPrefix rest ''/'' \<and> CHR '':'' \<in> set (fst (cutAt CHR ''/'' rest)) then None
      else if (u_scheme u \<noteq> [] \<or> \<not> hasPrefix rest ''///'') \<and> hasPrefix rest ''//'' then
        (let authority = takeWhile (\<lambda>c. c \<noteq> CHR ''/'') (drop 2 rest);
             path = dropWhile (\<lambda>c. c \<noteq> CHR ''/'') (drop 2 rest) in
         case (case cutLast CHR ''@'' authority of None \<Rightarrow> (False, authority) | Some (_, h) \<Rightarrow> (True, h)) of
           (user, h) \<Rightarrow>
             (case parseHost h of
                None \<Rightarrow> None
              | Some host \<Rightarrow> if escapesOk path then Some (u\<lparr>u_user := user, u_host := host, u_path := path\<rparr>) else None))
      else if escapesOk rest then Some (u\<lparr>u_path := rest\<rparr>) else None)"

definition parseURL :: "string \<Rightarrow> url option" where
  "parseURL raw =
     (case cutAt CHR ''#'' raw of (s, fragment) \<Rightarrow>
        if list_ex (\<lambda>c. byteVal c < 32 \<or> byteVal c = 127) s then None
        else if (case fragment of None \<Rightarrow> False | Some f \<Rightarrow> \<not> escapesOk f) then None
        else if s = ''*'' then Some (emptyUrl\<lparr>u_path := s\<rparr>)
        else (case getScheme s of
                None \<Rightarrow> None
              | Some (scheme, rest) \<Rightarrow>
                  if hasSuffix rest ''?'' \<and> length (filter (\<lambda>c. c = CHR ''?'') rest) = 1
                  then parseRest (emptyUrl\<lparr>u_scheme := toLower scheme, u_force := True\<rparr>) (butlast rest)
                  else (case cutAt CHR ''?'' rest of (r, q) \<Rightarrow>
                          parseRest (emptyUrl\<lparr>u_scheme := toLower scheme, u_query := (case q of None \<Rightarrow> [] | Some x \<Rightarrow> x)\<rparr>) r)))"

text \<open>\<open>Hostname()\<close> and \<open>Port()\<close>.\<close>

definition hostAndPort :: "string \<Rightarrow> string \<times> string" where
  "hostAndPort h =
     (case (case cutLast CHR '':'' h of
              None \<Rightarrow> (h, [])
            | Some (b, p) \<Rightarrow> if list_all isDigit p then (b, p) else (h, [])) of
        (host, port) \<Rightarrow>
          (if hasPrefix host ''['' \<and> hasSuffix host '']'' then butlast (drop 1 host) else host, port))"

definition hostname :: "url \<Rightarrow> string" where
  "hostname u = fst (hostAndPort (u_host u))"

definition portOf :: "url \<Rightarrow> string" where
  "portOf u = snd (hostAndPort (u_host u))"

end
