(* ===== verification/ConfigText.thy ===== *)
theory ConfigText
  imports NetText
begin

text \<open>
  The checks of \<open>internal/config\<close> that other packages and the persisted identities rely on: host names and
  ports, origins, OpenID and Immich URLs, names of backends and targets, S3 prefixes and endpoints.
\<close>

section \<open>config.go\<close>

definition validPort :: "string \<Rightarrow> bool" where
  "validPort port \<longleftrightarrow> port \<noteq> [] \<and> list_all isDigit port \<and> 1 \<le> numVal port \<and> numVal port \<le> 65535"

definition labelOk :: "string \<Rightarrow> bool" where
  "labelOk l \<longleftrightarrow> l \<noteq> [] \<and> length l \<le> 63 \<and> hd l \<noteq> CHR ''-'' \<and> last l \<noteq> CHR ''-''
     \<and> list_all (\<lambda>c. isLetter c \<or> isDigit c \<or> c = CHR ''-'') l"

definition validHost :: "string \<Rightarrow> bool" where
  "validHost host \<longleftrightarrow>
     parseIP host \<noteq> None \<or>
     (0 < length host \<and> length host \<le> 253 \<and>
      list_all labelOk (splitAt CHR ''.'' (if hasSuffix host ''.'' then butlast host else host)))"

text \<open>The condition that the base URL, Immich URLs and S3 endpoints share: an origin, with nothing after it but
at most a slash.\<close>

definition originOk :: "string \<Rightarrow> url \<Rightarrow> bool" where
  "originOk raw u \<longleftrightarrow>
     (u_scheme u = ''http'' \<or> u_scheme u = ''https'') \<and> validHost (hostname u) \<and> \<not> u_user u \<and> u_opaque u = []
     \<and> (u_path u = [] \<or> u_path u = ''/'') \<and> u_query u = [] \<and> \<not> u_force u
     \<and> CHR ''#'' \<notin> set raw \<and> \<not> hasSuffix (u_host u) '':''
     \<and> (portOf u = [] \<or> validPort (portOf u))"

text \<open>The host in lower case, without the port that the scheme implies.\<close>

definition bracketed :: "string \<Rightarrow> string" where
  "bracketed h = (if CHR '':'' \<in> set h then CHR ''['' # h @ '']'' else h)"

definition normalHost :: "url \<Rightarrow> string" where
  "normalHost u =
     (let host = toLower (u_host u) in
      case hostAndPort host of (name, port) \<Rightarrow>
        if (u_scheme u = ''https'' \<and> port = ''443'') \<or> (u_scheme u = ''http'' \<and> port = ''80'') then bracketed name
        else host)"

definition normalBase :: "string \<Rightarrow> err + string" where
  "normalBase raw =
     (if raw = [] then Inr []
      else (case parseURL raw of
              None \<Rightarrow> Inl (Failure ''PHOTODROP_BASE_URL'')
            | Some u \<Rightarrow> if originOk raw u then Inr (u_scheme u @ ''://'' @ normalHost u)
                      else Inl (Failure ''PHOTODROP_BASE_URL'')))"

section \<open>immich.go and oidc.go\<close>

definition NormalizeImmichURL :: "string \<Rightarrow> err + string" where
  "NormalizeImmichURL raw =
     (case parseURL raw of
        None \<Rightarrow> Inl (Failure ''Immich URL'')
      | Some u \<Rightarrow> if originOk raw u then Inr (u_scheme u @ ''://'' @ normalHost u) else Inl (Failure ''Immich URL''))"

definition ValidOIDCURL :: "string \<Rightarrow> bool" where
  "ValidOIDCURL raw =
     (case parseURL raw of
        None \<Rightarrow> False
      | Some u \<Rightarrow>
          if 2048 < length raw \<or> u_opaque u \<noteq> [] \<or> \<not> validHost (hostname u) \<or> u_user u \<or> CHR ''#'' \<in> set raw
             \<or> hasSuffix (u_host u) '':'' \<or> (portOf u \<noteq> [] \<and> \<not> validPort (portOf u)) then False
          else if u_scheme u = ''https'' then True
          else u_scheme u = ''http'' \<and>
            (hostname u = ''localhost'' \<or> (case parseIP (hostname u) of None \<Rightarrow> False | Some ip \<Rightarrow> isLoopback ip)))"

section \<open>backends.go and storage.go\<close>

definition lowerAlnum :: "char \<Rightarrow> bool" where
  "lowerAlnum c \<longleftrightarrow> byteIn 97 122 c \<or> isDigit c"

text \<open>The expression of \<open>backendKey\<close>: groups of letters and digits between hyphens, a letter first.\<close>

definition ValidBackendKey :: "string \<Rightarrow> bool" where
  "ValidBackendKey key \<longleftrightarrow>
     length key \<le> 63 \<and> key \<noteq> [] \<and> byteIn 97 122 (hd key) \<and>
     list_all (\<lambda>p. p \<noteq> [] \<and> list_all lowerAlnum p) (splitAt CHR ''-'' key)"

definition localBackendKey :: string where
  "localBackendKey = ''local-default''"

definition trimSlash :: "string \<Rightarrow> string" where
  "trimSlash s = rev (dropWhile (\<lambda>c. c = CHR ''/'') (rev (dropWhile (\<lambda>c. c = CHR ''/'') s)))"

definition NormalizePrefix :: "string \<Rightarrow> err + string" where
  "NormalizePrefix raw =
     (let p = trimSlash raw in
      if 200 < length p then Inl (Failure ''PHOTODROP_S3_PREFIX is too long'')
      else if p = [] then Inr []
      else if list_all (\<lambda>s. s \<noteq> [] \<and> list_all (\<lambda>c. isLetter c \<or> isDigit c \<or> c = CHR ''_'' \<or> c = CHR ''-'') s)
                (splitAt CHR ''/'' p)
      then Inr (p @ ''/'')
      else Inl (Failure ''PHOTODROP_S3_PREFIX must contain slash-separated letters, digits, underscores or hyphens''))"

definition bucketOk :: "string \<Rightarrow> bool" where
  "bucketOk b \<longleftrightarrow>
     3 \<le> length b \<and> length b \<le> 63 \<and> lowerAlnum (hd b) \<and> lowerAlnum (last b) \<and>
     list_all (\<lambda>c. lowerAlnum c \<or> c = CHR ''.'' \<or> c = CHR ''-'') b \<and>
     list_all (\<lambda>i. \<not> (take 2 (drop i b) = ''..'' \<or> take 2 (drop i b) = ''.-'' \<or> take 2 (drop i b) = ''-.'')) [0..<length b] \<and>
     parseIP b = None"

definition regionOk :: "string \<Rightarrow> bool" where
  "regionOk r \<longleftrightarrow> 1 \<le> length r \<and> length r \<le> 63 \<and> lowerAlnum (hd r) \<and> list_all (\<lambda>c. lowerAlnum c \<or> c = CHR ''-'') r"

text \<open>An endpoint is an origin; its host is put in lower case and its port is kept.\<close>

definition normalEndpoint :: "string \<Rightarrow> err + string" where
  "normalEndpoint raw =
     (if raw = [] then Inr []
      else (case parseURL raw of
              None \<Rightarrow> Inl (Failure ''PHOTODROP_S3_ENDPOINT'')
            | Some u \<Rightarrow> if originOk raw u then Inr (u_scheme u @ ''://'' @ toLower (u_host u))
                      else Inl (Failure ''PHOTODROP_S3_ENDPOINT'')))"

end
