(* ===== verification/GoFloat.thy ===== *)
theory GoFloat
  imports GoTime Complex_Main
begin

text \<open>
  Go's \<open>float64\<close> on rationals, and \<open>time.ParseDuration\<close>, which uses it for fractions of a unit.
\<close>

section \<open>Rounding\<close>

text \<open>
  \<open>float64\<close>: rounding to a significand of 53 bits, to nearest and ties to even. \<open>binExp\<close> is the exponent of the
  binade. The values of the program are zero or between \<open>10 ^ -19\<close> and \<open>10 ^ 19\<close>, so nothing overflows or
  is denormal.
\<close>

definition roundEven :: "rat \<Rightarrow> int" where
  "roundEven x =
     (let n = \<lfloor>x\<rfloor>; d = x - of_int n in if d < 1 / 2 \<or> (d = 1 / 2 \<and> even n) then n else n + 1)"

function bitCount :: "int \<Rightarrow> int" where
  "bitCount n = (if n \<le> 0 then 0 else 1 + bitCount (n div 2))"
  by pat_completeness auto
termination
  by (relation "measure nat") auto

declare bitCount.simps [simp del]

definition binExp :: "rat \<Rightarrow> int" where
  "binExp x = (if 1 \<le> x then bitCount \<lfloor>x\<rfloor> - 1 else - bitCount (\<lceil>1 / x\<rceil> - 1))"

definition fl :: "rat \<Rightarrow> rat" where
  "fl x =
     (if x = 0 then 0
      else (let k = 52 - binExp \<bar>x\<bar> in
            if 0 \<le> k then of_int (roundEven (x * 2 ^ nat k)) / 2 ^ nat k
            else of_int (roundEven (x / 2 ^ nat (- k))) * 2 ^ nat (- k)))"


lemma roundEven_nonneg: "0 \<le> x \<Longrightarrow> 0 \<le> roundEven x"
  by (auto simp: roundEven_def Let_def)

lemma fl_nonneg: "0 \<le> x \<Longrightarrow> 0 \<le> fl x"
  by (simp add: fl_def Let_def roundEven_nonneg)

section \<open>Integers\<close>

text \<open>\<open>strconv.ParseInt(s, 10, 64)\<close>, which is \<open>strconv.Atoi\<close> on a 64-bit machine.\<close>

definition parseInt64 :: "string \<Rightarrow> int option" where
  "parseInt64 s =
     (let digits = (if s \<noteq> [] \<and> (hd s = CHR ''-'' \<or> hd s = CHR ''+'') then tl s else s);
          n = (if s \<noteq> [] \<and> hd s = CHR ''-'' then - numVal digits else numVal digits)
      in if digits \<noteq> [] \<and> list_all isDigit digits \<and> - (2 ^ 63) \<le> n \<and> n < 2 ^ 63 then Some n else None)"

section \<open>Durations\<close>

text \<open>\<open>leadingInt\<close>: the digits in front, unless they pass \<open>2 ^ 63\<close>.\<close>

definition leadingInt :: "string \<Rightarrow> (int \<times> string) option" where
  "leadingInt s =
     (let n = numVal (takeWhile isDigit s) in if 2 ^ 63 < n then None else Some (n, dropWhile isDigit s))"

text \<open>\<open>leadingFraction\<close>: the digits of a fraction and their scale; digits that do not fit are dropped.\<close>

fun fractionDigits :: "int \<Rightarrow> int \<Rightarrow> string \<Rightarrow> int \<times> int" where
  "fractionDigits x scale [] = (x, scale)"
| "fractionDigits x scale (c # cs) =
     (if (2 ^ 63 - 1) div 10 < x \<or> 2 ^ 63 < x * 10 + digitVal c then (x, scale)
      else fractionDigits (x * 10 + digitVal c) (scale * 10) cs)"

definition unitNanos :: "string \<Rightarrow> int option" where
  "unitNanos u =
     (if u = ''ns'' then Some 1
      else if u = ''us'' \<or> u = [CHR 0xC2, CHR 0xB5, CHR ''s''] \<or> u = [CHR 0xCE, CHR 0xBC, CHR ''s''] then Some 1000
      else if u = ''ms'' then Some 1000000
      else if u = ''s'' then Some nanosPerSecond
      else if u = ''m'' then Some (60 * nanosPerSecond)
      else if u = ''h'' then Some (3600 * nanosPerSecond)
      else None)"

text \<open>One number with its unit, in nanoseconds below \<open>2 ^ 63 + 1\<close>, and the text after it. The caller has seen
that a digit or a point comes first.\<close>

definition durationTerm :: "string \<Rightarrow> (int \<times> string) option" where
  "durationTerm s =
     (case leadingInt s of
        None \<Rightarrow> None
      | Some (v, s1) \<Rightarrow>
          let pre = s1 \<noteq> s;
              point = s1 \<noteq> [] \<and> hd s1 = CHR ''.'';
              digits = (if point then takeWhile isDigit (tl s1) else []);
              s2 = (if point then dropWhile isDigit (tl s1) else s1);
              unit = takeWhile (\<lambda>c. c \<noteq> CHR ''.'' \<and> \<not> isDigit c) s2;
              s3 = dropWhile (\<lambda>c. c \<noteq> CHR ''.'' \<and> \<not> isDigit c) s2
          in if \<not> pre \<and> digits = [] then None
             else (case unitNanos unit of
                     None \<Rightarrow> None
                   | Some u \<Rightarrow>
                       if 2 ^ 63 div u < v then None
                       else (case fractionDigits 0 1 digits of (f, scale) \<Rightarrow>
                         let n = v * u + (if 0 < f then \<lfloor>fl (fl (of_int f) * fl (of_int u / of_int scale))\<rfloor> else 0)
                         in if 2 ^ 63 < n then None else Some (n, s3))))"

lemma length_dropWhile_lt: "s \<noteq> [] \<Longrightarrow> P (hd s) \<Longrightarrow> length (dropWhile P s) < length s"
  by (cases s) (auto simp: le_imp_less_Suc length_dropWhile_le)

lemma durationTerm_shorter:
  assumes "durationTerm s = Some (n, r)"
  shows "length r < length s"
proof -
  have le: "length (dropWhile P (xs :: string)) \<le> length xs" for P xs by (rule length_dropWhile_le)
  from assms obtain s1 s2 u where s1: "s1 = dropWhile isDigit s"
    and s2: "s2 = (if s1 \<noteq> [] \<and> hd s1 = CHR ''.'' then dropWhile isDigit (tl s1) else s1)"
    and u: "unitNanos (takeWhile (\<lambda>c. c \<noteq> CHR ''.'' \<and> \<not> isDigit c) s2) = Some u"
    and r: "r = dropWhile (\<lambda>c. c \<noteq> CHR ''.'' \<and> \<not> isDigit c) s2"
    by (auto simp: durationTerm_def leadingInt_def Let_def split: option.splits if_splits prod.splits)
  from u have ne: "takeWhile (\<lambda>c. c \<noteq> CHR ''.'' \<and> \<not> isDigit c) s2 \<noteq> []" by (auto simp: unitNanos_def)
  then have "length r < length s2" unfolding r by (cases s2) (auto simp: le_imp_less_Suc le split: if_splits)
  also have "length s2 \<le> length s1"
    using le [of isDigit "tl s1"] by (auto simp: s2 intro: order_trans)
  also have "length s1 \<le> length s" unfolding s1 by (rule le)
  finally show ?thesis .
qed

text \<open>The sum is kept in a \<open>uint64\<close>, which wraps.\<close>

function durationSum :: "int \<Rightarrow> string \<Rightarrow> int option" where
  "durationSum d s =
     (if s = [] then Some d
      else if \<not> (hd s = CHR ''.'' \<or> isDigit (hd s)) then None
      else (case durationTerm s of
              None \<Rightarrow> None
            | Some (n, r) \<Rightarrow> let d' = (d + n) mod 2 ^ 64 in if 2 ^ 63 < d' then None else durationSum d' r))"
  by pat_completeness auto
termination
  by (relation "measure (length \<circ> snd)") (auto dest: durationTerm_shorter)

declare durationSum.simps [simp del]

definition ParseDuration :: "string \<Rightarrow> int option" where
  "ParseDuration s =
     (let sign = s \<noteq> [] \<and> (hd s = CHR ''-'' \<or> hd s = CHR ''+'');
          neg = sign \<and> hd s = CHR ''-'';
          body = (if sign then tl s else s)
      in if body = ''0'' then Some 0
         else if body = [] then None
         else (case durationSum 0 body of
                 None \<Rightarrow> None
               | Some d \<Rightarrow> if neg then Some (- d) else if 2 ^ 63 - 1 < d then None else Some d))"

text \<open>A duration fits 64 bits.\<close>

lemma durationSum_bound: "0 \<le> d \<Longrightarrow> d \<le> 2 ^ 63 \<Longrightarrow> durationSum d s = Some n \<Longrightarrow> 0 \<le> n \<and> n \<le> 2 ^ 63"
proof (induction d s rule: durationSum.induct)
  case (1 d s)
  from "1.prems"(3) show ?case
    using "1.IH" "1.prems"(1,2)
    by (subst (asm) durationSum.simps) (auto simp: Let_def split: if_splits option.splits prod.splits)
qed

lemma ParseDuration_bound: "ParseDuration s = Some d \<Longrightarrow> - (2 ^ 63) \<le> d \<and> d < 2 ^ 63"
  by (auto simp: ParseDuration_def Let_def split: if_splits option.splits dest!: durationSum_bound [rotated 2])

lemma duration_examples:
  "ParseDuration ''10m'' = Some (600 * nanosPerSecond)"
  "ParseDuration ''1h30m'' = Some (5400 * nanosPerSecond)"
  "ParseDuration ''1.5s'' = Some 1500000000"
  "ParseDuration ''-.5ms'' = Some (- 500000)"
  "ParseDuration ''10'' = None"
  by code_simp+

end
