(* ===== verification/Checks.thy ===== *)
theory Checks
  imports World
begin

text \<open>
  Functions that only check and compute, without a state: an error or a value, the checks one after the other,
  and loops that stop at the first error.
\<close>

section \<open>Checks in sequence\<close>

definition thenR :: "'e + 'a \<Rightarrow> ('a \<Rightarrow> 'e + 'b) \<Rightarrow> 'e + 'b" where
  "thenR r f = (case r of Inl e \<Rightarrow> Inl e | Inr x \<Rightarrow> f x)"

definition refuse :: "bool \<Rightarrow> string \<Rightarrow> err + unit" where
  "refuse b what = (if b then Inl (Failure what) else Inr ())"

fun eachR :: "('a \<Rightarrow> 's \<Rightarrow> 'e + 's) \<Rightarrow> 'a list \<Rightarrow> 's \<Rightarrow> 'e + 's" where
  "eachR f [] s = Inr s"
| "eachR f (x # xs) s = thenR (f x s) (eachR f xs)"

text \<open>When a chain of checks has a value.\<close>

named_theorems ok_iff

lemma thenR_ok [ok_iff]: "thenR r f = Inr y \<longleftrightarrow> (\<exists>x. r = Inr x \<and> f x = Inr y)"
  by (cases r) (auto simp: thenR_def)

lemma refuse_ok [ok_iff]: "refuse b e = Inr u \<longleftrightarrow> \<not> b"
  by (simp add: refuse_def)

lemma if_ok [ok_iff]: "(if b then Inl e else r) = Inr y \<longleftrightarrow> \<not> b \<and> r = Inr y"
  by simp

lemma eachR_Cons: "eachR f (x # xs) s = Inr t \<longleftrightarrow> (\<exists>u. f x s = Inr u \<and> eachR f xs u = Inr t)"
  by (simp add: ok_iff)

lemma eachR_inv:
  assumes "eachR f xs s = Inr t" and "I s"
    and "\<And>x s t. x \<in> set xs \<Longrightarrow> I s \<Longrightarrow> f x s = Inr t \<Longrightarrow> I t"
  shows "I t"
  using assms
proof (induction xs arbitrary: s)
  case (Cons x xs)
  from Cons.prems(1) obtain u where u: "f x s = Inr u" "eachR f xs u = Inr t"
    unfolding eachR_Cons by blast
  have "I u" using Cons.prems(3) [OF _ Cons.prems(2) u(1)] by simp
  then show ?case by (rule Cons.IH [OF u(2)]) (rule Cons.prems(3), auto)
qed simp

end
