(* ===== verification/Config.thy ===== *)
theory Config
  imports ConfigText GoFloat Checks
begin

text \<open>
  The loaders of \<open>internal/config\<close>: from the environment variables to the configuration, or an error. An
  environment is a partial map; \<open>Failure\<close> carries the variable (or the group of variables) that was refused and
  not the text for the operator. Where the code ranges over a Go map, whose order is not specified, the group
  is named, so that the result does not depend on that order.
\<close>

type_synonym variables = "string \<Rightarrow> string option"

section \<open>Variables\<close>

definition orDefault :: "variables \<Rightarrow> string \<Rightarrow> string \<Rightarrow> string" where
  "orDefault vars name d = (case vars name of None \<Rightarrow> d | Some v \<Rightarrow> v)"

section \<open>security.go\<close>

record security =
  sy_ttl :: int
  sy_max_assets :: int
  sy_max_bytes :: int
  sy_multiplier :: int
  sy_rate_off :: bool
  sy_trusted :: "prefix list"
  sy_site_key :: string
  sy_secret_key :: string

definition Defaults :: "security \<Rightarrow> security" where
  "Defaults s =
     s\<lparr>sy_ttl := (if sy_ttl s = 0 then 7200 * nanosPerSecond else sy_ttl s),
       sy_max_assets := (if sy_max_assets s = 0 then 100 else sy_max_assets s),
       sy_max_bytes := (if sy_max_bytes s = 0 then 5 * 1024 * 1024 * 1024 else sy_max_bytes s),
       sy_multiplier := (if sy_multiplier s = 0 then 1 else sy_multiplier s)\<rparr>"

definition noSecurity :: security where
  "noSecurity = \<lparr>sy_ttl = 0, sy_max_assets = 0, sy_max_bytes = 0, sy_multiplier = 0, sy_rate_off = False,
     sy_trusted = [], sy_site_key = [], sy_secret_key = []\<rparr>"

text \<open>\<open>netip.ParsePrefix\<close> and \<open>Masked\<close>: the bits after the prefix are cleared.\<close>

fun maskBytes :: "nat \<Rightarrow> int list \<Rightarrow> int list" where
  "maskBytes n [] = []"
| "maskBytes n (b # bs) = (if 8 \<le> n then b # maskBytes (n - 8) bs else (b div 2 ^ (8 - n) * 2 ^ (8 - n)) # maskBytes 0 bs)"

fun masked :: "prefix \<Rightarrow> prefix" where
  "masked p = (case px_addr p of V4 ip \<Rightarrow> p\<lparr>px_addr := V4 (maskBytes (px_bits p) ip)\<rparr>
                              | V6 ip z \<Rightarrow> p\<lparr>px_addr := V6 (maskBytes (px_bits p) ip) z\<rparr>)"

definition addrWidth :: "addr \<Rightarrow> int" where
  "addrWidth a = (case a of V4 _ \<Rightarrow> 32 | V6 _ _ \<Rightarrow> 128)"

definition parsePrefix :: "string \<Rightarrow> prefix option" where
  "parsePrefix s =
     (case cutLast CHR ''/'' s of
        None \<Rightarrow> None
      | Some (front, bits) \<Rightarrow>
          (case parseAddr front of
             None \<Rightarrow> None
           | Some a \<Rightarrow>
               if zoneOf a \<noteq> [] \<or> (1 < length bits \<and> \<not> byteIn 49 57 (hd bits)) then None
               else (case parseInt64 bits of
                       None \<Rightarrow> None
                     | Some n \<Rightarrow> if n < 0 \<or> addrWidth a < n then None else Some \<lparr>px_addr = a, px_bits = nat n\<rparr>)))"

definition turnstileKeyOk :: "string \<Rightarrow> bool" where
  "turnstileKeyOk k \<longleftrightarrow> k = [] \<or> (length k \<le> 256 \<and> trimSpace k = k \<and> \<not> containsAny k (nulCrLf @ [CHR 0x09, CHR '' '']))"

text \<open>An optional positive number up to a maximum: unset and empty keep the default.\<close>

definition boundedInt :: "variables \<Rightarrow> string \<Rightarrow> int \<Rightarrow> int \<Rightarrow> err + int" where
  "boundedInt vars name most d =
     (case vars name of
        None \<Rightarrow> Inr d
      | Some v \<Rightarrow>
          if v = [] then Inr d
          else (case parseInt64 v of
                  None \<Rightarrow> Inl (Failure name)
                | Some n \<Rightarrow> if n < 1 \<or> most < n \<or> \<not> list_all isDigit v then Inl (Failure name) else Inr n))"

definition boundedDuration :: "variables \<Rightarrow> string \<Rightarrow> int \<Rightarrow> int \<Rightarrow> int \<Rightarrow> err + int" where
  "boundedDuration vars name least most d =
     (case vars name of
        None \<Rightarrow> Inr d
      | Some v \<Rightarrow> (case ParseDuration v of
                     None \<Rightarrow> Inl (Failure name)
                   | Some n \<Rightarrow> if n < least \<or> most < n then Inl (Failure name) else Inr n))"

definition boolean :: "variables \<Rightarrow> string \<Rightarrow> bool \<Rightarrow> err + bool" where
  "boolean vars name d =
     (case vars name of
        None \<Rightarrow> Inr d
      | Some v \<Rightarrow> if v \<noteq> ''true'' \<and> v \<noteq> ''false'' then Inl (Failure name) else Inr (v = ''true''))"

text \<open>For some variables an empty value counts as unset.\<close>

definition nonEmpty :: "variables \<Rightarrow> variables" where
  "nonEmpty vars = (\<lambda>name. if vars name = Some [] then None else vars name)"

definition rateMultiplier :: "variables \<Rightarrow> int \<Rightarrow> err + int" where
  "rateMultiplier vars d =
     (case nonEmpty vars ''PHOTODROP_RATE_LIMIT_MULTIPLIER'' of
        None \<Rightarrow> Inr d
      | Some v \<Rightarrow> (case parseInt64 v of
                     None \<Rightarrow> Inl (Failure ''PHOTODROP_RATE_LIMIT_MULTIPLIER'')
                   | Some n \<Rightarrow> if n < 1 \<or> 100 < n then Inl (Failure ''PHOTODROP_RATE_LIMIT_MULTIPLIER'') else Inr n))"

definition addTrusted :: "string \<Rightarrow> prefix list \<Rightarrow> err + prefix list" where
  "addTrusted part ps =
     (case parsePrefix (trimSpace part) of
        None \<Rightarrow> Inl (Failure ''PHOTODROP_TRUSTED_PROXY_CIDRS'')
      | Some p \<Rightarrow> Inr (ps @ [masked p]))"

definition trustedProxies :: "variables \<Rightarrow> err + prefix list" where
  "trustedProxies vars =
     (case nonEmpty vars ''PHOTODROP_TRUSTED_PROXY_CIDRS'' of
        None \<Rightarrow> Inr []
      | Some v \<Rightarrow>
          let parts = splitAt CHR '','' v in
          thenR (refuse (32 < length parts) ''PHOTODROP_TRUSTED_PROXY_CIDRS'') (\<lambda>_. eachR addTrusted parts []))"

definition loadSecurity :: "variables \<Rightarrow> string \<Rightarrow> err + security" where
  "loadSecurity vars base =
     (let s = Defaults noSecurity;
          site = orDefault vars ''PHOTODROP_TURNSTILE_SITE_KEY'' [];
          secret = orDefault vars ''PHOTODROP_TURNSTILE_SECRET_KEY'' [] in
      thenR (refuse (\<not> turnstileKeyOk site \<or> \<not> turnstileKeyOk secret) ''PHOTODROP_TURNSTILE'') (\<lambda>_.
      thenR (refuse ((site = []) \<noteq> (secret = [])) ''PHOTODROP_TURNSTILE'') (\<lambda>_.
      thenR (refuse (site \<noteq> [] \<and> (case parseURL base of None \<Rightarrow> True | Some u \<Rightarrow> hostname u = [])) ''PHOTODROP_BASE_URL'') (\<lambda>_.
      thenR (boundedDuration (nonEmpty vars) ''PHOTODROP_UPLOAD_SESSION_TTL'' (60 * nanosPerSecond) (86400 * nanosPerSecond) (sy_ttl s)) (\<lambda>ttl.
      thenR (case (boundedInt vars ''PHOTODROP_UPLOAD_SESSION_MAX_ASSETS'' 1000 (sy_max_assets s),
                   boundedInt vars ''PHOTODROP_UPLOAD_SESSION_MAX_BYTES'' (2 ^ 40) (sy_max_bytes s)) of
               (Inr n, Inr b) \<Rightarrow> Inr (n, b) | _ \<Rightarrow> Inl (Failure ''PHOTODROP_UPLOAD_SESSION_MAX'')) (\<lambda>(assets, bytes).
      thenR (rateMultiplier vars (sy_multiplier s)) (\<lambda>multiplier.
      thenR (boolean (nonEmpty vars) ''PHOTODROP_RATE_LIMIT_DISABLED'' (sy_rate_off s)) (\<lambda>off.
      thenR (trustedProxies vars) (\<lambda>trusted.
      Inr \<lparr>sy_ttl = ttl, sy_max_assets = assets, sy_max_bytes = bytes, sy_multiplier = multiplier, sy_rate_off = off,
           sy_trusted = trusted, sy_site_key = site, sy_secret_key = secret\<rparr>)))))))))"

section \<open>oidc.go\<close>

record oidc_config =
  oc_issuer :: string
  oc_client :: string
  oc_secret :: string
  oc_subjects :: "string list"
  oc_groups :: "string list"
  oc_claim :: string
  oc_scopes :: "string list"

definition noOidc :: oidc_config where
  "noOidc = \<lparr>oc_issuer = [], oc_client = [], oc_secret = [], oc_subjects = [], oc_groups = [], oc_claim = [], oc_scopes = []\<rparr>"

definition PasswordEnabled :: "string \<Rightarrow> bool" where
  "PasswordEnabled mode \<longleftrightarrow> mode = [] \<or> mode = ''password'' \<or> mode = ''password+oidc''"

definition OIDCEnabled :: "string \<Rightarrow> bool" where
  "OIDCEnabled mode \<longleftrightarrow> mode = ''oidc'' \<or> mode = ''password+oidc''"

definition hasControl :: "string \<Rightarrow> bool" where
  "hasControl s \<longleftrightarrow> list_ex isControlRune (runes s)"

definition credentialText :: "string \<Rightarrow> bool" where
  "credentialText s \<longleftrightarrow> trimSpace s \<noteq> [] \<and> length s \<le> 4096 \<and> \<not> hasControl s"

definition issuerOk :: "string \<Rightarrow> bool" where
  "issuerOk s \<longleftrightarrow> ValidOIDCURL s \<and> (case parseURL s of None \<Rightarrow> False | Some u \<Rightarrow> u_query u = [] \<and> \<not> u_force u)"

definition allowlist :: "variables \<Rightarrow> string \<Rightarrow> string list option" where
  "allowlist vars name =
     (let raw = orDefault vars name []; parts = map trimSpace (splitAt CHR '','' raw) in
      if raw = [] then Some []
      else if 8192 < length raw \<or> hasControl raw \<or> \<not> list_all (\<lambda>v. v \<noteq> [] \<and> length v \<le> 512 \<and> \<not> hasControl v) parts
              \<or> 64 < length parts then None
      else Some parts)"

definition allowlists :: "variables \<Rightarrow> err + (string list \<times> string list)" where
  "allowlists vars =
     (case (allowlist vars ''PHOTODROP_OIDC_ALLOWED_SUBJECTS'', allowlist vars ''PHOTODROP_OIDC_ALLOWED_GROUPS'') of
        (Some subjects, Some groups) \<Rightarrow> Inr (subjects, groups)
      | _ \<Rightarrow> Inl (Failure ''PHOTODROP_OIDC_ALLOWED''))"

definition scopeOk :: "string \<Rightarrow> bool" where
  "scopeOk s \<longleftrightarrow> s \<noteq> [] \<and> list_all (\<lambda>r. 33 \<le> r \<and> r \<le> 126 \<and> r \<noteq> 34 \<and> r \<noteq> 92) (runes s)"

definition addScope :: "string \<Rightarrow> string list \<Rightarrow> err + string list" where
  "addScope s seen =
     (if \<not> scopeOk s then Inl (Failure ''PHOTODROP_OIDC_SCOPES'') else Inr (if s \<in> set seen then seen else seen @ [s]))"

definition loadOIDC :: "variables \<Rightarrow> string \<Rightarrow> err + oidc_config" where
  "loadOIDC vars base =
     (let issuer = orDefault vars ''PHOTODROP_OIDC_ISSUER'' []; client = orDefault vars ''PHOTODROP_OIDC_CLIENT_ID'' [];
          secret = orDefault vars ''PHOTODROP_OIDC_CLIENT_SECRET'' [];
          claim = orDefault vars ''PHOTODROP_OIDC_GROUPS_CLAIM'' ''groups'';
          raw = orDefault vars ''PHOTODROP_OIDC_SCOPES'' ''openid profile email'' in
      thenR (refuse (base = [] \<or> \<not> ValidOIDCURL base) ''PHOTODROP_BASE_URL'') (\<lambda>_.
      thenR (refuse (\<not> credentialText issuer \<or> \<not> credentialText client \<or> \<not> credentialText secret) ''PHOTODROP_OIDC'') (\<lambda>_.
      thenR (refuse (\<not> issuerOk issuer) ''PHOTODROP_OIDC_ISSUER'') (\<lambda>_.
      thenR (allowlists vars) (\<lambda>(subjects, groups).
      thenR (refuse (subjects = [] \<and> groups = []) ''PHOTODROP_OIDC_ALLOWED'') (\<lambda>_.
      thenR (refuse (claim = [] \<or> 256 < length claim \<or> list_ex isSpaceRune (runes claim) \<or> hasControl claim)
        ''PHOTODROP_OIDC_GROUPS_CLAIM'') (\<lambda>_.
      thenR (refuse (raw = [] \<or> 1024 < length raw) ''PHOTODROP_OIDC_SCOPES'') (\<lambda>_.
      thenR (eachR addScope (splitAt CHR '' '' raw) [''openid'']) (\<lambda>scopes.
      Inr \<lparr>oc_issuer = issuer, oc_client = client, oc_secret = secret, oc_subjects = subjects, oc_groups = groups,
           oc_claim = claim, oc_scopes = scopes\<rparr>)))))))))"

definition loadAuth :: "variables \<Rightarrow> string \<Rightarrow> err + (string \<times> oidc_config)" where
  "loadAuth vars base =
     (let mode = orDefault vars ''PHOTODROP_ADMIN_AUTH'' ''password'' in
      thenR (refuse (mode \<noteq> ''password'' \<and> mode \<noteq> ''oidc'' \<and> mode \<noteq> ''password+oidc'') ''PHOTODROP_ADMIN_AUTH'') (\<lambda>_.
      if \<not> OIDCEnabled mode then Inr (mode, noOidc) else thenR (loadOIDC vars base) (\<lambda>c. Inr (mode, c))))"

section \<open>storage.go and backends.go\<close>

record s3_settings =
  sc_endpoint :: string
  sc_bucket :: string
  sc_region :: string
  sc_style :: bool
  sc_prefix :: string
  sc_access :: string
  sc_secret :: string
  sc_token :: string
  sc_ttl :: int

record storage_config =
  cs_backends :: "(string \<times> s3_settings) list"
  cs_provider :: string
  cs_active :: string

definition configured :: "s3_settings \<Rightarrow> bool" where
  "configured c \<longleftrightarrow> sc_bucket c \<noteq> [] \<and> sc_access c \<noteq> [] \<and> sc_secret c \<noteq> []"

definition neededS3 :: "string \<Rightarrow> s3_settings \<Rightarrow> bool" where
  "neededS3 kind c \<longleftrightarrow> kind = ''s3'' \<or> sc_bucket c \<noteq> [] \<or> sc_access c \<noteq> [] \<or> sc_secret c \<noteq> [] \<or> sc_token c \<noteq> []"

definition secretOk :: "string \<Rightarrow> bool" where
  "secretOk s \<longleftrightarrow> trimSpace s \<noteq> [] \<and> \<not> containsAny s nulCrLf"

definition s3Variable :: "string \<Rightarrow> string" where
  "s3Variable name = ''PHOTODROP_S3_'' @ name"

definition loadStorageSingle :: "variables \<Rightarrow> err + (string \<times> s3_settings)" where
  "loadStorageSingle vars =
     (let kind = orDefault vars ''PHOTODROP_STORAGE_PROVIDER'' ''local'';
          var = (\<lambda>name d. orDefault vars (s3Variable name) d);
          bucket = var ''BUCKET'' []; region = var ''REGION'' ''auto''; access = var ''ACCESS_KEY_ID'' [];
          secret = var ''SECRET_ACCESS_KEY'' []; token = var ''SESSION_TOKEN'' [] in
      thenR (refuse (kind \<noteq> ''local'' \<and> kind \<noteq> ''s3'') ''PHOTODROP_STORAGE_PROVIDER'') (\<lambda>_.
      thenR (boolean vars (s3Variable ''PATH_STYLE'') False) (\<lambda>style.
      thenR (boundedDuration vars (s3Variable ''PRESIGN_TTL'') (60 * nanosPerSecond) (900 * nanosPerSecond) (600 * nanosPerSecond)) (\<lambda>ttl.
      thenR (NormalizePrefix (var ''PREFIX'' ''photodrop/'')) (\<lambda>pre.
      thenR (refuse (\<not> regionOk region) ''PHOTODROP_S3_REGION'') (\<lambda>_.
      thenR (normalEndpoint (var ''ENDPOINT'' [])) (\<lambda>endpoint.
      let c = \<lparr>sc_endpoint = endpoint, sc_bucket = bucket, sc_region = region, sc_style = style, sc_prefix = pre,
               sc_access = access, sc_secret = secret, sc_token = token, sc_ttl = ttl\<rparr> in
      if \<not> neededS3 kind c then Inr (kind, c)
      else
        thenR (refuse (\<not> bucketOk bucket) ''PHOTODROP_S3_BUCKET'') (\<lambda>_.
        thenR (refuse (\<not> secretOk access \<or> \<not> secretOk secret) ''PHOTODROP_S3'') (\<lambda>_.
        thenR (refuse (containsAny token nulCrLf) ''PHOTODROP_S3_SESSION_TOKEN'') (\<lambda>_.
        Inr (kind, c)))))))))))"

text \<open>The part of a variable's name that a backend or target adds: upper case, with underscores.\<close>

definition upperChar :: "char \<Rightarrow> char" where
  "upperChar c = (if c = CHR ''-'' then CHR ''_'' else if byteIn 97 122 c then char_of (byteVal c - 32) else c)"

definition variableName :: "string \<Rightarrow> string" where
  "variableName key = map upperChar key"

definition keyedVariable :: "string \<Rightarrow> string \<Rightarrow> string" where
  "keyedVariable key name = s3Variable (variableName key @ ''_'' @ name)"

text \<open>The environment of one named backend: its own variables in the place of the single backend's.\<close>

definition keyedEnv :: "string \<Rightarrow> variables \<Rightarrow> variables" where
  "keyedEnv key vars =
     (\<lambda>name. if name = ''PHOTODROP_STORAGE_PROVIDER'' then Some ''s3''
             else vars (keyedVariable key (if hasPrefix name ''PHOTODROP_S3_'' then drop 13 name else name)))"

definition addBackend :: "variables \<Rightarrow> string \<Rightarrow> (string \<times> s3_settings) list \<Rightarrow> err + (string \<times> s3_settings) list" where
  "addBackend vars key bs =
     thenR (refuse (\<not> ValidBackendKey key \<or> key = localBackendKey) ''PHOTODROP_S3_BACKENDS'') (\<lambda>_.
     thenR (refuse (key \<in> fst ` set bs) ''PHOTODROP_S3_BACKENDS'') (\<lambda>_.
     thenR (loadStorageSingle (keyedEnv key vars)) (\<lambda>(_, c). Inr (bs @ [(key, c)]))))"

definition singleBackend :: "string \<Rightarrow> s3_settings \<Rightarrow> err + (string \<times> s3_settings) list" where
  "singleBackend key c =
     (if configured c
      then thenR (refuse (key = [] \<or> key = localBackendKey) ''PHOTODROP_STORAGE_BACKEND_KEY'') (\<lambda>_. Inr [(key, c)])
      else Inr [])"

definition loadStorage :: "variables \<Rightarrow> err + storage_config" where
  "loadStorage vars =
     thenR (loadStorageSingle (vars(''PHOTODROP_STORAGE_PROVIDER'' \<mapsto> ''local''))) (\<lambda>(_, c).
     let kind = orDefault vars ''PHOTODROP_STORAGE_PROVIDER'' ''local'';
         key = orDefault vars ''PHOTODROP_STORAGE_BACKEND_KEY'' [];
         names = orDefault vars ''PHOTODROP_S3_BACKENDS'' [];
         keys = (if names = [] then [] else splitAt CHR '','' names) in
     thenR (refuse (kind \<noteq> ''local'' \<and> kind \<noteq> ''s3'') ''PHOTODROP_STORAGE_PROVIDER'') (\<lambda>_.
     thenR (refuse (key \<noteq> [] \<and> \<not> ValidBackendKey key) ''PHOTODROP_STORAGE_BACKEND_KEY'') (\<lambda>_.
     thenR (singleBackend key c) (\<lambda>bs.
     thenR (refuse (32 < length keys) ''PHOTODROP_S3_BACKENDS'') (\<lambda>_.
     thenR (eachR (addBackend vars) keys bs) (\<lambda>bs.
     thenR (refuse (kind = ''s3'' \<and> key \<notin> fst ` set bs) ''PHOTODROP_STORAGE_BACKEND_KEY'') (\<lambda>_.
     Inr \<lparr>cs_backends = bs, cs_provider = kind,
          cs_active = (if kind \<noteq> ''s3'' \<and> key = [] then localBackendKey else key)\<rparr>)))))))"

section \<open>immich.go\<close>

record immich_settings =
  ic_url :: string
  ic_public :: string
  ic_key :: string

record immich_config =
  cm_targets :: "(string \<times> immich_settings) list"
  cm_active :: string

definition immichVariable :: "string \<Rightarrow> string \<Rightarrow> string" where
  "immichVariable key name = ''PHOTODROP_IMMICH_'' @ variableName key @ ''_'' @ name"

definition addTarget :: "variables \<Rightarrow> string \<Rightarrow> (string \<times> immich_settings) list \<Rightarrow> err + (string \<times> immich_settings) list" where
  "addTarget vars key ts =
     (let raw = orDefault vars (immichVariable key ''URL'') []; public = orDefault vars (immichVariable key ''PUBLIC_URL'') [];
          secret = orDefault vars (immichVariable key ''API_KEY'') [] in
      thenR (refuse (\<not> ValidBackendKey key \<or> key \<in> fst ` set ts) ''PHOTODROP_IMMICH_TARGETS'') (\<lambda>_.
      thenR (if public \<noteq> [] then NormalizeImmichURL public else Inr []) (\<lambda>public.
      thenR (refuse (4096 < length secret \<or> containsAny secret nulCrLf) ''PHOTODROP_IMMICH_API_KEY'') (\<lambda>_.
      if raw = [] \<and> secret = [] then Inr (ts @ [(key, \<lparr>ic_url = [], ic_public = public, ic_key = []\<rparr>)])
      else thenR (NormalizeImmichURL raw) (\<lambda>base. Inr (ts @ [(key, \<lparr>ic_url = base, ic_public = public, ic_key = secret\<rparr>)]))))))"

definition loadImmich :: "variables \<Rightarrow> err + immich_config" where
  "loadImmich vars =
     (let active = orDefault vars ''PHOTODROP_IMMICH_TARGET'' []; names = orDefault vars ''PHOTODROP_IMMICH_TARGETS'' [];
          names = (if names = [] then active else names); keys = (if names = [] then [] else splitAt CHR '','' names) in
      thenR (refuse (active \<noteq> [] \<and> \<not> ValidBackendKey active) ''PHOTODROP_IMMICH_TARGET'') (\<lambda>_.
      thenR (refuse (32 < length keys) ''PHOTODROP_IMMICH_TARGETS'') (\<lambda>_.
      thenR (eachR (addTarget vars) keys []) (\<lambda>ts.
      Inr \<lparr>cm_targets = ts, cm_active = active\<rparr>))))"

section \<open>config.go and export.go\<close>

record config =
  cf_listen :: string
  cf_data :: string
  cf_base :: string
  cf_password :: string
  cf_auth :: string
  cf_oidc :: oidc_config
  cf_max_file :: int
  cf_storage :: storage_config
  cf_security :: security
  cf_immich :: immich_config

definition DefaultMaxFileSize :: int where
  "DefaultMaxFileSize = 50 * 1024 * 1024"

definition maxFileSize :: "variables \<Rightarrow> err + int" where
  "maxFileSize vars =
     (case vars ''PHOTODROP_MAX_FILE_SIZE'' of
        None \<Rightarrow> Inr DefaultMaxFileSize
      | Some v \<Rightarrow>
          (case parseInt64 v of
             None \<Rightarrow> Inl (Failure ''PHOTODROP_MAX_FILE_SIZE'')
           | Some n \<Rightarrow> if n < 1 \<or> 1024 * 1024 * 1024 < n \<or> \<not> list_all isDigit v then Inl (Failure ''PHOTODROP_MAX_FILE_SIZE'')
                     else Inr n))"

definition listenOk :: "string \<Rightarrow> bool" where
  "listenOk s \<longleftrightarrow>
     (case splitHostPort s of None \<Rightarrow> False | Some (host, port) \<Rightarrow> validPort port \<and> (host = [] \<or> validHost host))"

definition dataDirOk :: "string \<Rightarrow> bool" where
  "dataDirOk s \<longleftrightarrow> trimSpace s \<noteq> [] \<and> \<not> containsAny s nulCrLf"

definition adminPasswordOk :: "string \<Rightarrow> bool" where
  "adminPasswordOk s \<longleftrightarrow> 12 \<le> length s \<and> length s \<le> 72 \<and> trimSpace s \<noteq> [] \<and> CHR 0x00 \<notin> set s"

definition parse :: "variables \<Rightarrow> err + config" where
  "parse vars =
     (let listen = orDefault vars ''PHOTODROP_LISTEN_ADDR'' '':8080''; data = orDefault vars ''PHOTODROP_DATA_DIR'' ''/data'';
          password = orDefault vars ''PHOTODROP_ADMIN_PASSWORD'' [] in
      thenR (maxFileSize vars) (\<lambda>size.
      thenR (refuse (\<not> listenOk listen) ''PHOTODROP_LISTEN_ADDR'') (\<lambda>_.
      thenR (refuse (\<not> dataDirOk data) ''PHOTODROP_DATA_DIR'') (\<lambda>_.
      thenR (normalBase (orDefault vars ''PHOTODROP_BASE_URL'' [])) (\<lambda>base.
      thenR (loadAuth vars base) (\<lambda>(mode, oidc).
      thenR (refuse (PasswordEnabled mode \<and> \<not> adminPasswordOk password) ''PHOTODROP_ADMIN_PASSWORD'') (\<lambda>_.
      thenR (loadStorage vars) (\<lambda>storage.
      thenR (loadSecurity vars base) (\<lambda>security.
      thenR (loadImmich vars) (\<lambda>immich.
      Inr \<lparr>cf_listen = listen, cf_data = data, cf_base = base, cf_password = password, cf_auth = mode, cf_oidc = oidc,
           cf_max_file = size, cf_storage = storage, cf_security = security, cf_immich = immich\<rparr>))))))))))"

text \<open>What the export command reads: the data directory and the storage.\<close>

definition LoadExport :: "variables \<Rightarrow> err + (string \<times> storage_config)" where
  "LoadExport vars =
     (let data = orDefault vars ''PHOTODROP_DATA_DIR'' ''/data'' in
      thenR (refuse (\<not> dataDirOk data) ''PHOTODROP_DATA_DIR'') (\<lambda>_.
      thenR (loadStorage vars) (\<lambda>storage. Inr (data, storage))))"

end
