(* ===== verification/Oidc.thy ===== *)
theory Oidc
  imports Auth Config
begin

text \<open>
  \<open>internal/auth/oidc.go\<close>: sign-in with an external OpenID provider. A flow is one row, bound to the browser
  that began it, and is removed before anything is sent to the provider. The libraries go-oidc and oauth2
  and the provider are third parties: what they answer is a parameter, by the step it happens at.
\<close>

section \<open>The provider and the configuration\<close>

text \<open>The claims of a token, as JSON values: a string, an array, null, or something else.\<close>

datatype claim_value = ClaimText string | ClaimList "claim_value list" | ClaimNull | ClaimOther

record id_token =
  tok_issuer :: string
  tok_subject :: string
  tok_nonce :: string
  tok_audience :: "string list"
  tok_claims :: "(string \<times> claim_value) list option"

text \<open>\<open>op_discover\<close>: \<open>oidc.NewProvider\<close> and the metadata it found. \<open>op_exchange\<close>: the code and the PKCE
verifier sent for a token response, with its \<open>id_token\<close> if that is a string. \<open>op_verify\<close>: the verified
token, for a client.\<close>

record oidc_provider =
  op_discover :: "nat \<Rightarrow> oidc_metadata option"
  op_exchange :: "string \<Rightarrow> string \<Rightarrow> nat \<Rightarrow> string option option"
  op_verify :: "string \<Rightarrow> string \<Rightarrow> nat \<Rightarrow> id_token option"

definition MatchesIssuer :: "oidc_config \<Rightarrow> string \<Rightarrow> bool" where
  "MatchesIssuer cfg issuer \<longleftrightarrow> issuer = oc_issuer cfg"

text \<open>Only a successful discovery is remembered.\<close>

definition discover :: "oidc_provider \<Rightarrow> oidc_metadata wop" where
  "discover op =
     bindE (gets provider) (\<lambda>known. case known of
         Some m \<Rightarrow> ret m
       | None \<Rightarrow>
           bindE (remote (CallOIDC []) (\<lambda>_ k. op_discover op k)) (\<lambda>a. case a of
               None \<Rightarrow> raise ErrOIDC
             | Some m \<Rightarrow>
                 if \<not> ValidOIDCURL (om_jwks m) \<or> \<not> ValidOIDCURL (om_auth m) \<or> \<not> ValidOIDCURL (om_token m) then raise ErrOIDC
                 else bindE (modify (\<lambda>w. w\<lparr>provider := Some m\<rparr>)) (\<lambda>_. ret m)))"

section \<open>Begin\<close>

definition oidcLifetime :: int where
  "oidcLifetime = 5 * 60"

definition expiredFlows :: "int \<Rightarrow> db \<Rightarrow> string list" where
  "expiredFlows t d = map oi_state (limitTo 512 (sort_key oi_expires (filter (\<lambda>r. oi_expires r \<le> t) (oidc_flows d))))"

definition dropFlows :: "int \<Rightarrow> string \<Rightarrow> db \<Rightarrow> err + db \<times> unit" where
  "dropFlows t browser d =
     Inr (d\<lparr>oidc_flows := filter (\<lambda>r. \<not> (oi_state r \<in> set (expiredFlows t d) \<or> oi_browser r = browser)) (oidc_flows d)\<rparr>, ())"

definition insertFlow :: "oidc_row \<Rightarrow> db \<Rightarrow> err + db \<times> unit" where
  "insertFlow r d =
     (if list_ex (\<lambda>x. oi_state x = oi_state r) (oidc_flows d) then Inl EConstraint
      else Inr (d\<lparr>oidc_flows := oidc_flows d @ [r]\<rparr>, ()))"

text \<open>The redirect to the provider: its authorization endpoint, the state, the nonce and the verifier whose
challenge is sent. \<open>GenerateVerifier\<close> draws 32 random bytes, like a token.\<close>

record auth_request =
  ar_endpoint :: string
  ar_state :: string
  ar_nonce :: string
  ar_verifier :: string

definition beginTx :: "string \<Rightarrow> string \<Rightarrow> string \<Rightarrow> string \<Rightarrow> string \<Rightarrow> unit wop" where
  "beginTx state nonce verifier browser previous =
     inTx (
       bindE unixNow (\<lambda>t.
       bindE (exec (dropFlows t (tokenHash previous))) (\<lambda>_.
       bindE (query (\<lambda>d. Inr (int (length (oidc_flows d))))) (\<lambda>n.
       bindE (failIf (512 \<le> n) ErrOIDC) (\<lambda>_.
         exec (insertFlow \<lparr>oi_state = tokenHash state, oi_nonce = tokenHash nonce, oi_verifier = verifier,
           oi_browser = tokenHash browser, oi_created = t, oi_expires = t + oidcLifetime\<rparr>))))))"

definition Begin :: "oidc_provider \<Rightarrow> string \<Rightarrow> (auth_request \<times> string) wop" where
  "Begin op previous =
     orErr (
       bindE (discover op) (\<lambda>m.
       bindE randomToken (\<lambda>state.
       bindE randomToken (\<lambda>nonce.
       bindE randomToken (\<lambda>verifier.
       bindE randomToken (\<lambda>browser.
       bindE (beginTx state nonce verifier browser previous) (\<lambda>_.
         ret (\<lparr>ar_endpoint = om_auth m, ar_state = state, ar_nonce = nonce, ar_verifier = verifier\<rparr>, browser)))))))) ErrOIDC"

section \<open>Complete\<close>

definition isFlow :: "string \<Rightarrow> string \<Rightarrow> int \<Rightarrow> oidc_row \<Rightarrow> bool" where
  "isFlow state browser t r \<longleftrightarrow> oi_state r = tokenHash state \<and> oi_browser r = tokenHash browser \<and> t < oi_expires r"

text \<open>\<open>DELETE ... RETURNING\<close>.\<close>

definition takeFlow :: "string \<Rightarrow> string \<Rightarrow> int \<Rightarrow> db \<Rightarrow> err + db \<times> oidc_row" where
  "takeFlow state browser t d =
     (case find (isFlow state browser t) (oidc_flows d) of
        None \<Rightarrow> Inl NoRows
      | Some r \<Rightarrow> Inr (d\<lparr>oidc_flows := filter (\<lambda>r. \<not> isFlow state browser t r) (oidc_flows d)\<rparr>, r))"

text \<open>\<open>json.Unmarshal\<close> into a string: null leaves it empty.\<close>

fun claimText :: "claim_value \<Rightarrow> string option" where
  "claimText (ClaimText s) = Some s"
| "claimText ClaimNull = Some []"
| "claimText _ = None"

fun isText :: "claim_value \<Rightarrow> bool" where
  "isText (ClaimText s) = True"
| "isText _ = False"

definition partyOk :: "oidc_config \<Rightarrow> id_token \<Rightarrow> (string \<times> claim_value) list \<Rightarrow> bool" where
  "partyOk cfg tok claims \<longleftrightarrow>
     (case map_of claims ''azp'' of
        Some v \<Rightarrow> claimText v = Some (oc_client cfg)
      | None \<Rightarrow> length (tok_audience tok) \<le> 1)"

definition allowedBy :: "oidc_config \<Rightarrow> id_token \<Rightarrow> (string \<times> claim_value) list \<Rightarrow> bool" where
  "allowedBy cfg tok claims \<longleftrightarrow>
     (let bySubject = tok_subject tok \<in> set (oc_subjects cfg) in
      if oc_groups cfg = [] then bySubject
      else (case map_of claims (oc_claim cfg) of
              None \<Rightarrow> bySubject
            | Some (ClaimList vs) \<Rightarrow>
                list_all isText vs \<and> (bySubject \<or> list_ex (\<lambda>v. \<exists>g \<in> set (oc_groups cfg). v = ClaimText g) vs)
            | Some _ \<Rightarrow> False))"

definition acceptToken :: "oidc_config \<Rightarrow> string \<Rightarrow> id_token \<Rightarrow> bool" where
  "acceptToken cfg nonceHash tok \<longleftrightarrow>
     tok_issuer tok = oc_issuer cfg \<and> trimSpace (tok_subject tok) \<noteq> [] \<and> tokenHash (tok_nonce tok) = nonceHash \<and>
     (case tok_claims tok of None \<Rightarrow> False | Some claims \<Rightarrow> partyOk cfg tok claims \<and> allowedBy cfg tok claims)"

definition redeem :: "oidc_provider \<Rightarrow> oidc_config \<Rightarrow> oidc_row \<Rightarrow> string \<Rightarrow> unit wop" where
  "redeem op cfg flow code =
     bindE (discover op) (\<lambda>_.
     bindE (remote (CallOIDC code) (\<lambda>_ k. op_exchange op code (oi_verifier flow) k)) (\<lambda>answer. case answer of
         Some (Some raw) \<Rightarrow>
           if raw = [] then raise ErrOIDC
           else bindE (remote (CallOIDC []) (\<lambda>_ k. op_verify op (oc_client cfg) raw k)) (\<lambda>tok. case tok of
                    None \<Rightarrow> raise ErrOIDC
                  | Some t \<Rightarrow> failIf (\<not> acceptToken cfg (oi_nonce flow) t) ErrOIDC)
       | _ \<Rightarrow> raise ErrOIDC))"

definition CompleteOIDC :: "oidc_provider \<Rightarrow> oidc_config \<Rightarrow> string \<Rightarrow> string \<Rightarrow> string \<Rightarrow> bool \<Rightarrow> unit wop" where
  "CompleteOIDC op cfg state browser code providerError =
     (if \<not> validToken state \<or> \<not> validToken browser then raise ErrOIDC
      else orErr (
        bindE unixNow (\<lambda>t.
        bindE (exec (takeFlow state browser t)) (\<lambda>flow.
        bindE (failIf (providerError \<or> code = [] \<or> 4096 < length code) ErrOIDC) (\<lambda>_.
          redeem op cfg flow code)))) ErrOIDC)"

end
