(* ===== verification/Abuse.thy ===== *)
theory Abuse
  imports Sha256 ConfigText GoFloat Effects "HOL-Library.AList"
begin

text \<open>
  \<open>internal/abuse\<close>: the address a request is counted under, the token-bucket limiter, and the checks of a
  challenge's answer.
\<close>

section \<open>clientip.go\<close>

definition isTrusted :: "prefix list \<Rightarrow> addr \<Rightarrow> bool" where
  "isTrusted trusted ip \<longleftrightarrow> list_ex (\<lambda>p. prefixContains p ip) trusted"

text \<open>From right to left, while the hop that reported the address is trusted. The list is in walking order.\<close>

fun resolveHop :: "prefix list \<Rightarrow> addr \<Rightarrow> addr list \<Rightarrow> addr" where
  "resolveHop trusted resolved [] = resolved"
| "resolveHop trusted resolved (ip # ips) = (if isTrusted trusted resolved then resolveHop trusted ip ips else resolved)"

definition parseHop :: "string \<Rightarrow> addr option" where
  "parseHop p =
     (case parseAddr (trimSpace p) of None \<Rightarrow> None | Some ip \<Rightarrow> if zoneOf ip \<noteq> [] then None else Some (unmap ip))"

fun parseHops :: "string list \<Rightarrow> addr list option" where
  "parseHops [] = Some []"
| "parseHops (p # ps) =
     (case parseHop p of None \<Rightarrow> None | Some ip \<Rightarrow> map_option (\<lambda>ips. ip # ips) (parseHops ps))"

text \<open>The peer's address and the values of \<open>X-Forwarded-For\<close>. The zero address is None.\<close>

definition forwardedFor :: "prefix list \<Rightarrow> addr \<Rightarrow> string list \<Rightarrow> addr option \<times> bool" where
  "forwardedFor trusted peer forwarded =
     (if \<not> isTrusted trusted peer \<or> forwarded = [] then (Some peer, False)
      else
        (let chain = joinComma forwarded; parts = splitAt CHR '','' chain in
         if 4096 < length chain \<or> 32 < length parts then (Some peer, True)
         else (case parseHops parts of
                 None \<Rightarrow> (Some peer, True)
               | Some ips \<Rightarrow> (Some (resolveHop trusted peer (rev ips)), False))))"

definition ClientIP :: "string \<Rightarrow> string list \<Rightarrow> prefix list \<Rightarrow> addr option \<times> bool" where
  "ClientIP remoteAddr forwarded trusted =
     (let host = (case splitHostPort remoteAddr of None \<Rightarrow> remoteAddr | Some (h, _) \<Rightarrow> h) in
      case parseAddr host of
        None \<Rightarrow> (None, True)
      | Some peer \<Rightarrow> if zoneOf peer \<noteq> [] then (None, True) else forwardedFor trusted (unmap peer) forwarded)"

section \<open>limiter.go\<close>

text \<open>\<open>Duration.Seconds()\<close>, and zero for a clock that went back.\<close>

definition elapsedSeconds :: "int \<Rightarrow> rat" where
  "elapsedSeconds d =
     (if d < 0 then 0
      else fl (of_int (d div nanosPerSecond) + fl (of_int (d mod nanosPerSecond) / of_int nanosPerSecond)))"

definition nanosPerMinute :: int where
  "nanosPerMinute = 60 * nanosPerSecond"

definition sweep :: "int \<Rightarrow> limiter \<Rightarrow> limiter" where
  "sweep t l =
     (if (case lm_swept l of None \<Rightarrow> True | Some s \<Rightarrow> nanosPerMinute \<le> t - s)
      then l\<lparr>lm_entries := filter (\<lambda>(_, b). \<not> 10 * nanosPerMinute \<le> t - bk_seen b) (lm_entries l), lm_swept := Some t\<rparr>
      else l)"

definition refill :: "int \<Rightarrow> int \<Rightarrow> bucket \<Rightarrow> rat" where
  "refill rate t b =
     min (of_int rate) (fl (bk_tokens b + fl (fl (elapsedSeconds (t - bk_updated b) * of_int rate) / 60)))"

definition spend :: "int list \<Rightarrow> int \<Rightarrow> int \<Rightarrow> bucket \<Rightarrow> limiter \<Rightarrow> (bool \<times> int) \<times> limiter" where
  "spend k rate t b l =
     (let n = refill rate t b;
          keep = (\<lambda>n. l\<lparr>lm_entries := AList.update k \<lparr>bk_tokens = n, bk_updated = t, bk_seen = t\<rparr> (lm_entries l)\<rparr>) in
      if 1 \<le> n then ((True, 0), keep (fl (n - 1)))
      else ((False, max 1 \<lceil>fl (fl (fl (1 - n) * 60) / of_int rate)\<rceil>), keep n))"

definition allowAt :: "int \<Rightarrow> int list \<Rightarrow> int \<Rightarrow> int \<Rightarrow> limiter \<Rightarrow> (bool \<times> int) \<times> limiter" where
  "allowAt capacity k rate t l0 =
     (let l = sweep t l0 in
      case map_of (lm_entries l) k of
        Some b \<Rightarrow> spend k rate t b l
      | None \<Rightarrow>
          if capacity \<le> int (length (lm_entries l)) then ((False, 60), l)
          else spend k rate t \<lparr>bk_tokens = of_int rate, bk_updated = t, bk_seen = 0\<rparr> l)"

definition Allow :: "int \<Rightarrow> string \<Rightarrow> int \<Rightarrow> (bool \<times> int) wop" where
  "Allow capacity key rate =
     bindE now (\<lambda>t.
     bindE (gets (\<lambda>w. allowAt capacity (sha256 key) rate t (buckets w))) (\<lambda>(r, l).
     bindE (modify (\<lambda>w. w\<lparr>buckets := l\<rparr>)) (\<lambda>_. ret r)))"

section \<open>turnstile.go\<close>

text \<open>The fields of the service's answer; the transport's failures and a body that cannot be decoded are None.\<close>

record verification =
  vf_success :: bool
  vf_hostname :: string
  vf_action :: string
  vf_codes :: "string list"

definition challengeAction :: string where
  "challengeAction = ''photodrop_upload''"

fun challengeCode :: "string list \<Rightarrow> err" where
  "challengeCode [] = ErrChallenge"
| "challengeCode (c # cs) =
     (if c = ''timeout-or-duplicate'' then ErrChallengeExpired
      else if c = ''internal-error'' \<or> c = ''invalid-input-secret'' \<or> c = ''missing-input-secret'' then ErrChallengeUnavailable
      else challengeCode cs)"

text \<open>\<open>strings.EqualFold\<close> with the configured host name, which is ASCII: two other runes fold to an ASCII
letter, U+017F and U+212A.\<close>

definition foldRune :: "int \<Rightarrow> int" where
  "foldRune r = (if 65 \<le> r \<and> r \<le> 90 then r + 32 else if r = 383 then 115 else if r = 8490 then 107 else r)"

definition equalFold :: "string \<Rightarrow> string \<Rightarrow> bool" where
  "equalFold a b \<longleftrightarrow> map foldRune (runes a) = map foldRune (runes b)"

definition ValidateChallenge :: "verification \<Rightarrow> string \<Rightarrow> err option" where
  "ValidateChallenge v host =
     (if \<not> vf_success v then Some (challengeCode (vf_codes v))
      else if \<not> equalFold (vf_hostname v) host \<or> vf_action v \<noteq> challengeAction then Some ErrChallenge
      else None)"

record siteverify =
  vr_done :: bool
  vr_status :: int
  vr_length :: int
  vr_result :: "verification option"

definition VerifyChallenge :: "(nat \<Rightarrow> siteverify) \<Rightarrow> string \<Rightarrow> verification wop" where
  "VerifyChallenge service token =
     (if token = [] \<or> 2048 < length token then raise ErrChallenge
      else bindE (remote (CallChallenge token) (\<lambda>_ k. service k)) (\<lambda>a.
        if \<not> vr_done a \<or> vr_status a \<noteq> 200 \<or> 16384 < vr_length a then raise ErrChallengeUnavailable
        else (case vr_result a of None \<Rightarrow> raise ErrChallengeUnavailable | Some v \<Rightarrow> ret v)))"

end
