(* ===== verification/Validation.thy ===== *)
theory Validation
  imports Mime
begin

text \<open>
  \<open>internal/media/validation.go\<close> and \<open>NormalizeContributor\<close>: filenames, contributor labels, and
  \<open>Sniff\<close>, which classifies an object from at most its first 512 bytes. Of
  \<open>http.DetectContentType\<close> the four image signatures are modelled that the caller can accept; no
  other signature of that function matches a text that matches one of these.
\<close>

section \<open>Names\<close>

definition ValidateFilename :: "string \<Rightarrow> err + unit" where
  "ValidateFilename name =
     (if \<not> validUTF8 name \<or> trimSpace name = [] \<or> 255 < runeCount name \<or> containsAny name nulCrLf
      then Inl ErrFilename else Inr ())"

definition NormalizeContributor :: "string \<Rightarrow> err + string option" where
  "NormalizeContributor name =
     (if \<not> validUTF8 name then Inl ErrContributor
      else (let name = trimSpace name in
        if list_ex isControlRune (runes name) then Inl ErrContributor
        else if 100 < runeCount name then Inl ErrContributor
        else if name = [] then Inr None
        else Inr (Some name)))"

lemma chunks_of_runes: "s \<noteq> [] \<Longrightarrow> 1 \<le> runeCount s"
  by (subst runeCount_def, subst chunks.simps) simp

lemma ValidateFilename_ok:
  "ValidateFilename name = Inr () \<Longrightarrow> 1 \<le> runeCount name \<and> runeCount name \<le> 255"
  using chunks_of_runes [of name]
  by (cases "name = []") (auto simp: ValidateFilename_def trimSpace_def split: if_splits)

section \<open>Sniffing\<close>

definition slice :: "string \<Rightarrow> nat \<Rightarrow> nat \<Rightarrow> string" where
  "slice s i j = take (j - i) (drop i s)"

text \<open>\<open>binary.BigEndian.Uint32\<close> and \<open>Uint64\<close>.\<close>

definition bigEndian :: "string \<Rightarrow> int" where
  "bigEndian s = foldl (\<lambda>n c. n * 256 + byteVal c) 0 s"

definition sigJPEG :: string where
  "sigJPEG = [CHR 0xFF, CHR 0xD8, CHR 0xFF]"

definition sigPNG :: string where
  "sigPNG = [CHR 0x89, CHR ''P'', CHR ''N'', CHR ''G'', CHR 0x0D, CHR 0x0A, CHR 0x1A, CHR 0x0A]"

text \<open>The image results of \<open>http.DetectContentType\<close>; None is any other type.\<close>

definition detectImage :: "string \<Rightarrow> string option" where
  "detectImage p =
     (if hasPrefix p ''GIF87a'' \<or> hasPrefix p ''GIF89a'' then Some ''image/gif''
      else if hasPrefix p ''RIFF'' \<and> slice p 8 14 = ''WEBPVP'' then Some ''image/webp''
      else if hasPrefix p sigPNG then Some ''image/png''
      else if hasPrefix p sigJPEG then Some ''image/jpeg''
      else None)"

function compatBrands :: "string \<Rightarrow> nat \<Rightarrow> nat \<Rightarrow> string list" where
  "compatBrands p i sz = (if i < sz then slice p i (i + 4) # compatBrands p (i + 4) sz else [])"
  by pat_completeness auto
termination
  by (relation "measure (\<lambda>(_, i, sz). sz - i)") auto

declare compatBrands.simps [simp del]

definition avifBrands :: "string list" where
  "avifBrands = [''avif'', ''avis'']"

definition heicBrands :: "string list" where
  "heicBrands = [''heic'', ''heix'', ''heim'', ''heis'', ''hevc'', ''hevx'']"

definition heifBrands :: "string list" where
  "heifBrands = [''mif1'', ''msf1'']"

definition mp4Majors :: "string list" where
  "mp4Majors = [''isom'', ''iso2'', ''iso3'', ''iso4'', ''iso5'', ''iso6'', ''iso7'', ''iso8'', ''iso9'',
     ''mp41'', ''mp42'', ''avc1'', ''M4V '', ''MSNV'']"

text \<open>
  The header of the box after \<open>ftyp\<close>: its size, and the least it may be; None where the
  source returns \<open>ErrType\<close>.
\<close>

definition nextBox :: "string \<Rightarrow> nat \<Rightarrow> (int \<times> int) option" where
  "nextBox p sz =
     (if length p - sz < 8 then None
      else (let nxt = bigEndian (slice p sz (sz + 4)) in
        if nxt = 1 then
          (if length p - sz < 16 then None
           else (let big = bigEndian (slice p (sz + 8) (sz + 16)) in
             if big < 16 then None else Some (big, 16)))
        else Some (nxt, 8)))"

text \<open>The part of \<open>Sniff\<close> from the box size on; \<open>uint64(objectSize-int64(size))\<close> is written out.\<close>

definition sniffBoxes :: "string \<Rightarrow> int \<Rightarrow> nat \<Rightarrow> err + string" where
  "sniffBoxes p objectSize sz =
     (let major = slice p 8 12; brands = major # compatBrands p 16 sz in
      if list_ex (\<lambda>b. b \<in> set avifBrands) brands then Inl ErrType
      else if list_ex (\<lambda>b. b \<in> set heicBrands) brands then Inr ''image/heic''
      else if list_ex (\<lambda>b. b \<in> set heifBrands) brands then Inr ''image/heif''
      else (case nextBox p sz of
              None \<Rightarrow> Inl ErrType
            | Some (nxt, minimum) \<Rightarrow>
                if nxt \<noteq> 0 \<and>
                   (nxt < minimum \<or> (0 \<le> objectSize \<and> (objectSize - int sz) mod 2 ^ 64 < nxt))
                then Inl ErrType
                else if list_ex (\<lambda>b. b = ''qt  '') brands then Inr ''video/quicktime''
                else if major \<in> set mp4Majors then Inr ''video/mp4''
                else Inl ErrType))"

definition Sniff :: "string \<Rightarrow> int \<Rightarrow> err + string" where
  "Sniff prefix objectSize =
     (if prefix = [] then Inl ErrEmpty
      else (let p = (if 512 < length prefix then take 512 prefix else prefix);
                n = (if objectSize < 0 \<and> length p < 512 then int (length p) else objectSize)
        in
        if 0 \<le> n \<and> n < int (length p) then Inl ErrType
        else if 8 \<le> length p \<and> slice p 4 8 = ''ftyp'' then
          (let sz = bigEndian (take 4 p) in
           if 16 \<le> sz \<and> sz \<le> int (length p) \<and> sz \<le> 512 \<and> sz mod 4 = 0
           then sniffBoxes p n (nat sz)
           else Inl ErrType)
        else (case detectImage p of Some kind \<Rightarrow> Inr kind | None \<Rightarrow> Inl ErrType)))"

text \<open>Examples: a PNG signature, an MP4 header, a truncated movie, and an AVIF image.\<close>

definition mp4Header :: string where
  "mp4Header = [CHR 0x00, CHR 0x00, CHR 0x00, CHR 0x18] @ ''ftypisom'' @ [CHR 0x00, CHR 0x00, CHR 0x00, CHR 0x00]
     @ ''isommp42'' @ [CHR 0x00, CHR 0x00, CHR 0x00, CHR 0x08] @ ''free''"

lemma Sniff_examples:
  "Sniff (sigPNG @ ''data'') 12 = Inr ''image/png''"
  "Sniff mp4Header 32 = Inr ''video/mp4''"
  "Sniff (take 28 mp4Header) 28 = Inl ErrType"
  "Sniff [] 0 = Inl ErrEmpty"
  by code_simp+

section \<open>What Sniff decides\<close>

lemma detectImage_supported: "detectImage p = Some k \<Longrightarrow> SupportedMIME k \<and> hasPrefix k ''image/''"
  by (auto simp: detectImage_def SupportedMIME_def hasPrefix_def split: if_splits)

lemma sniffBoxes_supported: "sniffBoxes p n sz = Inr k \<Longrightarrow> SupportedMIME k"
  by (auto simp: sniffBoxes_def Let_def SupportedMIME_def split: if_splits option.splits prod.splits)

lemma Sniff_supported: "Sniff p n = Inr k \<Longrightarrow> SupportedMIME k"
  by (auto simp: Sniff_def Let_def split: if_splits option.splits
      dest: detectImage_supported sniffBoxes_supported)

lemma Sniff_class: "Sniff p n = Inr k \<Longrightarrow> mediaClass k \<in> {''photo'', ''video''}"
  using mediaClass_cases Sniff_supported by blast

text \<open>The result with a size is the result with no size, or \<open>ErrType\<close>.\<close>

lemma sniffBoxes_stricter:
  "sniffBoxes p n sz = sniffBoxes p (-1) sz \<or> sniffBoxes p n sz = Inl ErrType"
  by (auto simp: sniffBoxes_def Let_def split: option.split)

lemma Sniff_prefix_only: "Sniff (take 512 p) n = Sniff p n"
  by (cases "p = []") (auto simp: Sniff_def Let_def min_def)

text \<open>
  The two calls of an upload: with no size while the stream is incomplete, and with the
  counted size at the end. The second cannot change the kind, only reject.
\<close>

lemma Sniff_twice:
  assumes "Sniff p (-1) = Inr k" and "0 < n"
  shows "Sniff p n = Inr k \<or> Sniff p n = Inl ErrType"
proof -
  let ?p = "if 512 < length p then take 512 p else p"
  define m where "m = (if length ?p < 512 then int (length ?p) else -1)"
  from assms(1) have ne: "p \<noteq> []" by (auto simp: Sniff_def)
  show ?thesis
  proof (cases "8 \<le> length ?p \<and> slice ?p 4 8 = ''ftyp''")
    case False
    with assms ne show ?thesis
      by (auto simp: Sniff_def Let_def split: option.splits if_splits)
  next
    case True
    let ?s = "bigEndian (take 4 ?p)"
    from assms(1) True ne have box: "16 \<le> ?s \<and> ?s \<le> int (length ?p) \<and> ?s \<le> 512 \<and> ?s mod 4 = 0"
      and k: "sniffBoxes ?p m (nat ?s) = Inr k"
      by (auto simp: Sniff_def Let_def m_def split: if_splits)
    have "sniffBoxes ?p (-1) (nat ?s) = Inr k"
      using k sniffBoxes_stricter [of ?p m "nat ?s"] by auto
    with sniffBoxes_stricter [of ?p n "nat ?s"] have
      "sniffBoxes ?p n (nat ?s) = Inr k \<or> sniffBoxes ?p n (nat ?s) = Inl ErrType" by auto
    with True ne box assms(2) show ?thesis
      unfolding Sniff_def Let_def by auto
  qed
qed

lemma Sniff_image:
  assumes "8 \<le> length p" and "slice p 4 8 = ''ftyp''" and "Sniff p n = Inr k"
  shows "k \<in> {''image/heic'', ''image/heif'', ''video/quicktime'', ''video/mp4''}"
proof -
  have "slice (take 512 p) 4 8 = slice p 4 8" by (simp add: slice_def drop_take min_def)
  with assms show ?thesis
    by (auto simp: Sniff_def Let_def sniffBoxes_def split: if_splits option.splits prod.splits)
qed

end
