(* ===== verification/Quotas.thy ===== *)
theory Quotas
  imports Events Mime
begin

text \<open>
  \<open>internal/media/quotas.go\<close>: the per-file limit, the expiry check of an upload session, and the
  reservation that is made, in the transaction that inserts the pending row, against the event, the
  session and the media class. A row that is not ready counts with its expected size.
\<close>

section \<open>Limits\<close>

definition EffectiveFileLimit :: "int \<Rightarrow> int option \<Rightarrow> int" where
  "EffectiveFileLimit server limit =
     (case limit of Some n \<Rightarrow> if n < server then n else server | None \<Rightarrow> server)"

definition eventById :: "int \<Rightarrow> db \<Rightarrow> event_row option" where
  "eventById i d = find (\<lambda>e. ev_id e = i) (events d)"

definition fileLimit :: "int \<Rightarrow> string \<Rightarrow> int \<Rightarrow> int wop" where
  "fileLimit eventID cls server =
     bindE (queryRow (\<lambda>d. map_option (\<lambda>e. (ev_max_photo_file e, ev_max_video_file e)) (eventById eventID d)))
       (\<lambda>(photo, video). ret (EffectiveFileLimit server (if cls = ''video'' then video else photo)))"

definition fileQuota :: "string \<Rightarrow> err" where
  "fileQuota cls = QuotaError (cls @ ''_file_too_large'') True"

definition quota :: "string \<Rightarrow> err" where
  "quota code = QuotaError code False"

record quota_session =
  q_max_assets :: int
  q_max_bytes :: int
  q_contributor :: "string option"

definition checkSession :: "int \<Rightarrow> string \<Rightarrow> quota_session wop" where
  "checkSession eventID sessionID =
     tryE (queryRow (\<lambda>d. find (\<lambda>u. us_id u = sessionID \<and> us_event u = eventID) (sessions d)))
       (\<lambda>r. case r of
          Inl e \<Rightarrow> raise (if e = NoRows then ErrSession else e)
        | Inr u \<Rightarrow>
            bindE now (\<lambda>t.
            bindE (failIf (\<not> t < instant (us_expires u)) ErrExpired) (\<lambda>_.
            ret \<lparr>q_max_assets = us_max_assets u, q_max_bytes = us_max_bytes u,
                 q_contributor = us_contributor u\<rparr>)))"

section \<open>Reservations\<close>

text \<open>\<open>CASE WHEN status='ready' THEN size_bytes ELSE expected_size_bytes END\<close>.\<close>

definition charge :: "asset_row \<Rightarrow> int" where
  "charge a = (if as_status a = Ready then as_size a else as_expected a)"

definition countAndSum :: "(asset_row \<Rightarrow> bool) \<Rightarrow> (int \<times> int) wop" where
  "countAndSum P =
     query (\<lambda>d. case sqlSum (sumWhere P charge (assets d)) of
                  Inl e \<Rightarrow> Inl e | Inr used \<Rightarrow> Inr (countWhere P (assets d), used))"

definition ofEvent :: "int \<Rightarrow> asset_row \<Rightarrow> bool" where
  "ofEvent i a \<longleftrightarrow> as_event a = i"

definition ofSession :: "string \<Rightarrow> asset_row \<Rightarrow> bool" where
  "ofSession s a \<longleftrightarrow> as_session a = s"

definition ofClass :: "int \<Rightarrow> string \<Rightarrow> asset_row \<Rightarrow> bool" where
  "ofClass i c a \<longleftrightarrow> as_event a = i \<and> as_class a = Some c"

text \<open>The comparisons of one scope: a full count first, then the storage.\<close>

definition checkScope ::
    "(asset_row \<Rightarrow> bool) \<Rightarrow> int option \<Rightarrow> int option \<Rightarrow> err \<Rightarrow> err \<Rightarrow> int \<Rightarrow> unit wop" where
  "checkScope P maxAssets maxBytes fullCount fullBytes sz =
     bindE (countAndSum P) (\<lambda>(count, used).
     bindE (failIf (case maxAssets of Some m \<Rightarrow> m \<le> count | None \<Rightarrow> False) fullCount) (\<lambda>_.
     failIf (case maxBytes of Some m \<Rightarrow> m < used \<or> m - used < sz | None \<Rightarrow> False) fullBytes))"

text \<open>The columns \<open>max_photos\<close> and \<open>max_photo_storage_bytes\<close>, or those of videos.\<close>

definition classLimits :: "event_row \<Rightarrow> string \<Rightarrow> int option \<times> int option" where
  "classLimits e cls =
     (if cls = ''photo'' then (ev_max_photos e, ev_max_photo_storage e)
      else (ev_max_videos e, ev_max_video_storage e))"

definition reserveClass :: "int \<Rightarrow> string \<Rightarrow> int \<Rightarrow> unit wop" where
  "reserveClass eventID cls sz =
     bindE (failIf (cls \<noteq> ''photo'' \<and> cls \<noteq> ''video'') ErrType) (\<lambda>_.
     bindE (queryRow (\<lambda>d. map_option (\<lambda>e. classLimits e cls) (eventById eventID d))) (\<lambda>(maxCount, maxBytes).
     checkScope (ofClass eventID cls) maxCount maxBytes
       (quota (cls @ ''_count'')) (quota (cls @ ''_storage'')) sz))"

definition reserve :: "int \<Rightarrow> string \<Rightarrow> int \<Rightarrow> quota_session \<Rightarrow> string \<Rightarrow> unit wop" where
  "reserve eventID sessionID sz q cls =
     bindE (queryRow (\<lambda>d. map_option (\<lambda>e. (ev_max_assets e, ev_max_bytes e)) (eventById eventID d)))
       (\<lambda>(eventMaxAssets, eventMaxBytes).
     bindE (forE (\<lambda>(P, maxAssets, maxBytes, fullCount, fullBytes).
                    checkScope P maxAssets maxBytes fullCount fullBytes sz)
             [(ofEvent eventID, eventMaxAssets, eventMaxBytes, quota ''event_file_count'', quota ''event_storage''),
              (ofSession sessionID, Some (q_max_assets q), Some (q_max_bytes q), ErrSessionQuota, ErrSessionQuota)])
       (\<lambda>_. reserveClass eventID cls sz))"

section \<open>What the checks decide\<close>

text \<open>A scope has room for one more object of a size.\<close>

definition room :: "(asset_row \<Rightarrow> bool) \<Rightarrow> int option \<Rightarrow> int option \<Rightarrow> int \<Rightarrow> db \<Rightarrow> bool" where
  "room P maxAssets maxBytes sz d \<longleftrightarrow>
     (\<forall>m. maxAssets = Some m \<longrightarrow> countWhere P (assets d) + 1 \<le> m) \<and>
     (\<forall>m. maxBytes = Some m \<longrightarrow> sumWhere P charge (assets d) + max sz 0 \<le> m)"

lemma room_iff:
  "room P ma mb sz d \<longleftrightarrow>
     \<not> (case ma of Some m \<Rightarrow> m \<le> countWhere P (assets d) | None \<Rightarrow> False) \<and>
     \<not> (case mb of Some m \<Rightarrow> m < sumWhere P charge (assets d) \<or> m - sumWhere P charge (assets d) < sz
        | None \<Rightarrow> False)"
  by (auto simp: room_def split: option.splits)

text \<open>Nothing in this component writes: every check leaves everything as it was.\<close>

definition quiet :: "world \<Rightarrow> world \<Rightarrow> bool" where
  "quiet s t \<longleftrightarrow> wdb t = wdb s \<and> files t = files s \<and> readers t = readers s \<and>
     cleanupAfter t = cleanupAfter s \<and> retiredAfter t = retiredAfter s \<and> reconcileAfter t = reconcileAfter s \<and> trace t = trace s \<and> env t = env s"

interpretation quiet: tx_order quiet
  by unfold_locales (auto simp: quiet_def)

lemma quiet_checks:
  "upholds quiet (countAndSum P)" "upholds quiet (checkScope P a b e e' n)"
  "upholds quiet (reserveClass i c n)" "upholds quiet (reserve i s n q c)"
  "upholds quiet (fileLimit i c n)" "upholds quiet (checkSession i s)"
  unfolding countAndSum_def checkScope_def reserveClass_def reserve_def fileLimit_def checkSession_def
  by (intro quiet.up_rules quiet.up_world)+

text \<open>Errors that only the outside, or a missing row, can cause.\<close>

definition outsideErr :: "err \<Rightarrow> bool" where
  "outsideErr e \<longleftrightarrow> e \<in> {EIo, ECrashed, NoRows}"

definition scopeResult ::
    "(asset_row \<Rightarrow> bool) \<Rightarrow> int option \<Rightarrow> int option \<Rightarrow> err \<Rightarrow> err \<Rightarrow> int \<Rightarrow> db \<Rightarrow> err + unit \<Rightarrow> bool" where
  "scopeResult P ma mb e1 e2 sz d r \<longleftrightarrow>
     (case r of
        Inr _ \<Rightarrow> room P ma mb sz d
      | Inl e \<Rightarrow> outsideErr e \<or>
          (e = e1 \<and> (\<exists>m. ma = Some m \<and> m \<le> countWhere P (assets d))) \<or>
          (e = e2 \<and> (\<exists>m. mb = Some m \<and> m < sumWhere P charge (assets d) + max sz 0)))"

lemma checkScope_wp:
  assumes "\<And>r t. scopeResult P ma mb e1 e2 sz (wdb w) r \<Longrightarrow> wdb t = wdb w \<Longrightarrow> Q r t"
  shows "wp (checkScope P ma mb e1 e2 sz) Q w"
proof -
  have o: "scopeResult P ma mb e1 e2 sz (wdb w) (Inl e)" if "e \<in> {EIo, ECrashed}" for e
    using that by (auto simp: scopeResult_def outsideErr_def)
  let ?C = "case ma of Some m \<Rightarrow> m \<le> countWhere P (assets (wdb w)) | None \<Rightarrow> False"
  let ?B = "case mb of Some m \<Rightarrow> m < sumWhere P charge (assets (wdb w)) \<or> m - sumWhere P charge (assets (wdb w)) < sz
        | None \<Rightarrow> False"
  have c: "scopeResult P ma mb e1 e2 sz (wdb w) (Inl e1)" if ?C
    using that by (auto simp: scopeResult_def split: option.splits)
  have b: "scopeResult P ma mb e1 e2 sz (wdb w) (Inl e2)" if ?B
    using that by (auto simp: scopeResult_def split: option.splits)
  have r: "scopeResult P ma mb e1 e2 sz (wdb w) (Inr ())" if "\<not> ?C" "\<not> ?B"
    using that by (simp add: scopeResult_def room_iff)
  show ?thesis
    unfolding checkScope_def countAndSum_def wp_simps
    by (rule wp_query)
      (auto simp: sqlSum_def wp_simps intro!: assms o c b r)
qed

definition eventRoom :: "event_row \<Rightarrow> string \<Rightarrow> int \<Rightarrow> quota_session \<Rightarrow> string \<Rightarrow> db \<Rightarrow> bool" where
  "eventRoom e sessionID sz q cls d \<longleftrightarrow>
     room (ofEvent (ev_id e)) (ev_max_assets e) (ev_max_bytes e) sz d \<and>
     room (ofSession sessionID) (Some (q_max_assets q)) (Some (q_max_bytes q)) sz d \<and>
     (if cls = ''photo'' then room (ofClass (ev_id e) cls) (ev_max_photos e) (ev_max_photo_storage e) sz d
      else room (ofClass (ev_id e) cls) (ev_max_videos e) (ev_max_video_storage e) sz d)"

text \<open>A refusal names a limit that the new object would break: nothing is refused needlessly.\<close>

definition overLimit :: "(asset_row \<Rightarrow> bool) \<Rightarrow> int option \<times> int option \<Rightarrow> int \<Rightarrow> db \<Rightarrow> bool" where
  "overLimit P limits sz d \<longleftrightarrow> \<not> room P (fst limits) (snd limits) sz d"

definition refusal :: "event_row \<Rightarrow> string \<Rightarrow> int \<Rightarrow> quota_session \<Rightarrow> string \<Rightarrow> db \<Rightarrow> err \<Rightarrow> bool" where
  "refusal e sessionID sz q cls d x \<longleftrightarrow>
     (x \<in> {quota ''event_file_count'', quota ''event_storage''} \<and>
        overLimit (ofEvent (ev_id e)) (ev_max_assets e, ev_max_bytes e) sz d) \<or>
     (x = ErrSessionQuota \<and>
        overLimit (ofSession sessionID) (Some (q_max_assets q), Some (q_max_bytes q)) sz d) \<or>
     (x \<in> {quota (cls @ ''_count''), quota (cls @ ''_storage'')} \<and>
        overLimit (ofClass (ev_id e) cls) (classLimits e cls) sz d) \<or>
     (x = ErrType \<and> cls \<noteq> ''photo'' \<and> cls \<noteq> ''video'')"

lemma scopeResult_over:
  "scopeResult P ma mb e1 e2 sz d (Inl x) \<Longrightarrow> \<not> outsideErr x \<Longrightarrow>
     (x = e1 \<or> x = e2) \<and> overLimit P (ma, mb) sz d"
  by (fastforce simp: scopeResult_def overLimit_def room_def)

lemma eventById_Some: "eventById i d = Some e \<Longrightarrow> e \<in> set (events d) \<and> ev_id e = i"
  unfolding eventById_def by (rule find_SomeD)

lemma reserveClass_wp:
  assumes "\<And>r (t :: world). wdb t = wdb w \<Longrightarrow>
      (case r of
         Inl x \<Rightarrow> outsideErr x \<or> (x = ErrType \<and> c \<noteq> ''photo'' \<and> c \<noteq> ''video'') \<or>
           (\<exists>e. eventById i (wdb w) = Some e \<and> x \<in> {quota (c @ ''_count''), quota (c @ ''_storage'')} \<and>
              overLimit (ofClass i c) (classLimits e c) sz (wdb w))
       | Inr _ \<Rightarrow> (c = ''photo'' \<or> c = ''video'') \<and>
           (\<exists>e. eventById i (wdb w) = Some e \<and> \<not> overLimit (ofClass i c) (classLimits e c) sz (wdb w))) \<Longrightarrow> Q r t"
  shows "wp (reserveClass i c sz) Q w"
proof (cases "c = ''photo'' \<or> c = ''video''")
  case False
  then have "reserveClass i c sz = raise ErrType"
    by (auto simp: reserveClass_def)
  with False show ?thesis by (auto simp: wp_simps intro!: assms)
next
  case True
  then have eq: "reserveClass i c sz =
      bindE (queryRow (\<lambda>d. map_option (\<lambda>e. classLimits e c) (eventById i d))) (\<lambda>(maxCount, maxBytes).
      checkScope (ofClass i c) maxCount maxBytes (quota (c @ ''_count'')) (quota (c @ ''_storage'')) sz)"
    by (auto simp: reserveClass_def)
  show ?thesis
    unfolding eq wp_simps
  proof (rule wp_queryRow)
    fix n x
    assume "map_option (\<lambda>e. classLimits e c) (eventById i (wdb w)) = Some x"
    then obtain e where e: "eventById i (wdb w) = Some e" "x = classLimits e c" by auto
    obtain ma mb where x: "x = (ma, mb)" by fastforce
    have "wp (checkScope (ofClass i c) ma mb (quota (c @ ''_count'')) (quota (c @ ''_storage'')) sz) Q (w\<lparr>tick := n\<rparr>)"
    proof (rule checkScope_wp)
      fix r and t :: world
      assume res: "scopeResult (ofClass i c) ma mb (quota (c @ ''_count'')) (quota (c @ ''_storage'')) sz
          (wdb (w\<lparr>tick := n\<rparr>)) r" and t: "wdb t = wdb (w\<lparr>tick := n\<rparr>)"
      have "overLimit (ofClass i c) (classLimits e c) sz (wdb w) \<longleftrightarrow> overLimit (ofClass i c) (ma, mb) sz (wdb w)"
        using e x by simp
      then show "Q r t"
        using res t e True scopeResult_over [of "ofClass i c" ma mb "quota (c @ ''_count'')" "quota (c @ ''_storage'')" sz "wdb w"]
        by (cases r; intro assms) (auto simp: scopeResult_def [of _ _ _ _ _ _ _ "Inr _"] overLimit_def)
    qed
    with x show "thenQ Q (\<lambda>x. wp (case x of (maxCount, maxBytes) \<Rightarrow> checkScope (ofClass i c) maxCount maxBytes
       (quota (c @ ''_count'')) (quota (c @ ''_storage'')) sz) Q) (Inr x) (w\<lparr>tick := n\<rparr>)" by simp
  qed (auto simp: outsideErr_def intro!: assms)
qed

definition reserveResult :: "int \<Rightarrow> string \<Rightarrow> int \<Rightarrow> quota_session \<Rightarrow> string \<Rightarrow> db \<Rightarrow> err + unit \<Rightarrow> bool" where
  "reserveResult i s sz q c d r \<longleftrightarrow>
     (case r of
        Inl x \<Rightarrow> outsideErr x \<or> (\<exists>e. eventById i d = Some e \<and> refusal e s sz q c d x)
      | Inr _ \<Rightarrow> (c = ''photo'' \<or> c = ''video'') \<and> (\<exists>e. eventById i d = Some e \<and> eventRoom e s sz q c d))"

lemma reserve_wp:
  assumes post: "\<And>r (t :: world). wdb t = wdb w \<Longrightarrow> reserveResult i s sz q c (wdb w) r \<Longrightarrow> Q r t"
  shows "wp (reserve i s sz q c) Q w"
  unfolding reserve_def wp_simps
proof (rule wp_queryRow)
  fix n x
  assume "map_option (\<lambda>e. (ev_max_assets e, ev_max_bytes e)) (eventById i (wdb w)) = Some x"
  then obtain e where e: "eventById i (wdb w) = Some e" and x: "x = (ev_max_assets e, ev_max_bytes e)" by auto
  from e have i: "ev_id e = i" by (auto dest: eventById_Some)
  have out: "Q (Inl y) t" if "outsideErr y" "wdb t = wdb w" for y and t :: world
    using that by (auto simp: reserveResult_def intro: post)
  have ref: "Q (Inl y) t" if "refusal e s sz q c (wdb w) y" "wdb t = wdb w" for y and t :: world
    using that e by (auto simp: reserveResult_def intro: post)
  have "wp (checkScope (ofEvent i) (ev_max_assets e) (ev_max_bytes e) (quota ''event_file_count'') (quota ''event_storage'') sz)
     (thenQ Q (\<lambda>_. wp (bindE (checkScope (ofSession s) (Some (q_max_assets q)) (Some (q_max_bytes q)) ErrSessionQuota ErrSessionQuota sz)
        (\<lambda>_. reserveClass i c sz)) Q)) (w\<lparr>tick := n\<rparr>)"
  proof (rule checkScope_wp)
    fix r1 and t1 :: world
    assume r1: "scopeResult (ofEvent i) (ev_max_assets e) (ev_max_bytes e) (quota ''event_file_count'')
        (quota ''event_storage'') sz (wdb (w\<lparr>tick := n\<rparr>)) r1" and t1: "wdb t1 = wdb (w\<lparr>tick := n\<rparr>)"
    show "thenQ Q (\<lambda>_. wp (bindE (checkScope (ofSession s) (Some (q_max_assets q)) (Some (q_max_bytes q)) ErrSessionQuota ErrSessionQuota sz)
        (\<lambda>_. reserveClass i c sz)) Q) r1 t1"
    proof (cases r1)
      case (Inl y)
      with r1 t1 i show ?thesis
        using out [of y t1] ref [of y t1] scopeResult_over [of "ofEvent i" _ _ _ _ sz "wdb w" y]
        by (auto simp: refusal_def)
    next
      case (Inr u)
      with r1 have room1: "room (ofEvent i) (ev_max_assets e) (ev_max_bytes e) sz (wdb w)"
        by (simp add: scopeResult_def)
      have "wp (checkScope (ofSession s) (Some (q_max_assets q)) (Some (q_max_bytes q)) ErrSessionQuota ErrSessionQuota sz)
          (thenQ Q (\<lambda>_. wp (reserveClass i c sz) Q)) t1"
      proof (rule checkScope_wp)
        fix r2 and t2 :: world
        assume r2: "scopeResult (ofSession s) (Some (q_max_assets q)) (Some (q_max_bytes q)) ErrSessionQuota ErrSessionQuota sz
          (wdb t1) r2" and t2: "wdb t2 = wdb t1"
        have d2: "wdb t2 = wdb w" using t1 t2 by simp
        show "thenQ Q (\<lambda>_. wp (reserveClass i c sz) Q) r2 t2"
        proof (cases r2)
          case (Inl y)
          with r2 t1 d2 i show ?thesis
            using out [of y t2] ref [of y t2] scopeResult_over [of "ofSession s" _ _ _ _ sz "wdb w" y]
            by (auto simp: refusal_def)
        next
          case (Inr u)
          with r2 t1 have room2: "room (ofSession s) (Some (q_max_assets q)) (Some (q_max_bytes q)) sz (wdb w)"
            by (simp add: scopeResult_def)
          have "wp (reserveClass i c sz) Q t2"
            by (rule reserveClass_wp, rule post)
              (use room1 room2 i e d2 in \<open>auto simp: reserveResult_def refusal_def eventRoom_def
                overLimit_def classLimits_def split: sum.splits if_splits\<close>)
          with Inr show ?thesis by simp
        qed
      qed
      with Inr show ?thesis by (simp add: wp_simps)
    qed
  qed
  then show "thenQ Q (\<lambda>x. wp (case x of (eventMaxAssets, eventMaxBytes) \<Rightarrow>
       bindE (forE (\<lambda>(P, maxAssets, maxBytes, fullCount, fullBytes).
                    checkScope P maxAssets maxBytes fullCount fullBytes sz)
             [(ofEvent i, eventMaxAssets, eventMaxBytes, quota ''event_file_count'', quota ''event_storage''),
              (ofSession s, Some (q_max_assets q), Some (q_max_bytes q), ErrSessionQuota, ErrSessionQuota)])
       (\<lambda>_. reserveClass i c sz)) Q) (Inr x) (w\<lparr>tick := n\<rparr>)"
    by (simp add: x bindE_assoc wp_simps)
qed (auto simp: reserveResult_def outsideErr_def intro!: post)

lemma fileLimit_wp:
  assumes "\<And>e n. eventById i (wdb w) = Some e \<Longrightarrow>
      Q (Inr (EffectiveFileLimit server (if c = ''video'' then ev_max_video_file e else ev_max_photo_file e))) (w\<lparr>tick := n\<rparr>)"
    and "\<And>n b x. outsideErr x \<Longrightarrow> Q (Inl x) (w\<lparr>tick := n, dead := b\<rparr>)"
  shows "wp (fileLimit i c server) Q w"
  unfolding fileLimit_def wp_simps
proof (rule wp_queryRow)
  show "thenQ Q (\<lambda>x. wp (case x of (photo, video) \<Rightarrow> ret (EffectiveFileLimit server (if c = ''video'' then video else photo))) Q)
      (Inl NoRows) (w\<lparr>tick := n\<rparr>)" for n
    using assms(2) [where x = NoRows and n = n and b = "dead w"] by (simp add: outsideErr_def)
  show "thenQ Q (\<lambda>x. wp (case x of (photo, video) \<Rightarrow> ret (EffectiveFileLimit server (if c = ''video'' then video else photo))) Q)
      (Inr x) (w\<lparr>tick := n\<rparr>)"
    if "map_option (\<lambda>e. (ev_max_photo_file e, ev_max_video_file e)) (eventById i (wdb w)) = Some x" for n x
    using that assms(1) by (cases "c = ''video''") (auto simp: wp_simps)
qed (auto simp: outsideErr_def intro!: assms)

lemma checkSession_wp:
  assumes "\<And>u t n. u \<in> set (sessions (wdb w)) \<Longrightarrow> us_id u = s \<Longrightarrow> us_event u = i \<Longrightarrow> t < instant (us_expires u) \<Longrightarrow>
      Q (Inr \<lparr>q_max_assets = us_max_assets u, q_max_bytes = us_max_bytes u, q_contributor = us_contributor u\<rparr>)
        (w\<lparr>tick := n\<rparr>)"
    and "\<And>n b x. x \<in> {EIo, ECrashed, ErrSession, ErrExpired} \<Longrightarrow> Q (Inl x) (w\<lparr>tick := n, dead := b\<rparr>)"
  shows "wp (checkSession i s) Q w"
proof -
  have e: "Q (Inl x) (w\<lparr>tick := n\<rparr>)" if "x \<in> {EIo, ECrashed, ErrSession, ErrExpired}" for n x
    using assms(2) [where x = x and n = n and b = "dead w"] that by simp
  show ?thesis
    unfolding checkSession_def wp_simps
    by (rule wp_queryRow)
      (auto simp: wp_simps intro!: wp_now assms e dest: find_SomeD)
qed

text \<open>The limit that an upload is measured against is never above the server's own.\<close>

lemma EffectiveFileLimit_le: "EffectiveFileLimit server limit \<le> server"
  and EffectiveFileLimit_event: "EffectiveFileLimit server (Some n) \<le> n"
  by (auto simp: EffectiveFileLimit_def split: option.split)

section \<open>Usage against a limit, over the life of an asset\<close>

definition underLimits :: "(asset_row \<Rightarrow> bool) \<Rightarrow> int option \<Rightarrow> int option \<Rightarrow> db \<Rightarrow> bool" where
  "underLimits P maxAssets maxBytes d \<longleftrightarrow>
     (\<forall>m. maxAssets = Some m \<longrightarrow> countWhere P (assets d) \<le> m) \<and>
     (\<forall>m. maxBytes = Some m \<longrightarrow> sumWhere P charge (assets d) \<le> m)"

lemma within_settle:
  assumes "underLimits P ma mb d" and "\<And>a. a \<in> set (assets d) \<Longrightarrow> C a \<Longrightarrow> P (g a) = P a \<and> charge (g a) \<le> charge a"
    and "assets d' = updWhere C g (assets d)"
  shows "underLimits P ma mb d'"
proof -
  have "countWhere P (assets d') = countWhere P (assets d)"
    unfolding assms(3) using assms(2) by (intro countWhere_updWhere) auto
  moreover have "sumWhere P charge (assets d') \<le> sumWhere P charge (assets d)"
    unfolding assms(3) using assms(2) by (intro sumWhere_updWhere_le) auto
  ultimately show ?thesis using assms(1) unfolding underLimits_def by fastforce
qed

text \<open>
  The contract of a bucket that usage is counted in: membership is a matter of the columns that
  no statement of an asset's life changes. Then a reservation leads from room to usage
  within the limit, settling a reservation with no more than it reserved keeps it there, and
  so does removing rows.
\<close>

locale quota_scope =
  fixes counted :: "asset_row \<Rightarrow> bool"
  assumes identity: "as_event a = as_event b \<Longrightarrow> as_session a = as_session b \<Longrightarrow> as_class a = as_class b \<Longrightarrow>
    counted a = counted b"
begin

lemma admit:
  assumes "room counted ma mb sz d" and "charge a \<le> sz" and "assets d' = assets d @ [a]"
  shows "underLimits counted ma mb d'"
proof -
  have "sumWhere counted charge (assets d') \<le> sumWhere counted charge (assets d) + max sz 0"
    using assms(2,3) by (auto simp: max_def)
  moreover have "countWhere counted (assets d') \<le> countWhere counted (assets d) + 1"
    using assms(3) by simp
  ultimately show ?thesis using assms(1) unfolding room_def underLimits_def by fastforce
qed

lemma settle:
  assumes "underLimits counted ma mb d"
    and "\<And>a. a \<in> set (assets d) \<Longrightarrow> C a \<Longrightarrow>
      as_event (g a) = as_event a \<and> as_session (g a) = as_session a \<and> as_class (g a) = as_class a \<and> charge (g a) \<le> charge a"
    and "assets d' = updWhere C g (assets d)"
  shows "underLimits counted ma mb d'"
  using assms(1) _ assms(3)
proof (rule within_settle)
  show "counted (g a) = counted a \<and> charge (g a) \<le> charge a" if "a \<in> set (assets d)" "C a" for a
    using assms(2) [OF that] identity [of "g a" a] by simp
qed

lemma remove:
  assumes "underLimits counted ma mb d" and "\<And>a. a \<in> set (assets d) \<Longrightarrow> 0 \<le> charge a"
    and "assets d' = filter K (assets d)"
  shows "underLimits counted ma mb d'"
proof -
  have "sumWhere counted charge (assets d') \<le> sumWhere counted charge (assets d)"
    unfolding assms(3) using assms(2) by (intro sumWhere_filter_le)
  moreover have "countWhere counted (assets d') \<le> countWhere counted (assets d)"
    unfolding assms(3) by (rule countWhere_filter_le)
  ultimately show ?thesis using assms(1) unfolding underLimits_def by fastforce
qed

end

interpretation event_scope: quota_scope "ofEvent i" for i
  by unfold_locales (simp add: ofEvent_def)

interpretation session_scope: quota_scope "ofSession s" for s
  by unfold_locales (simp add: ofSession_def)

interpretation class_scope: quota_scope "ofClass i c" for i c
  by unfold_locales (simp add: ofClass_def)

end
