(* ===== verification/LocalStore.thy ===== *)
theory LocalStore
  imports Effects
begin

text \<open>
  \<open>internal/storage/local.go\<close> and the local half of \<open>read.go\<close>: one flat directory, written through a
  temporary name. Every system call is a step that may fail or be the last one. The directory holds
  regular files of this process only; \<open>Sync\<close> and \<open>Close\<close> are steps without an effect on the contents
  (the process can stop at any step, the machine's disk keeps what was written).
\<close>

section \<open>Readers\<close>

text \<open>An \<open>io.Reader\<close>: what it delivers, and whether an error follows instead of the end.\<close>

record reader =
  rd_data :: string
  rd_broken :: bool

text \<open>\<open>io.LimitReader\<close>: after \<open>n\<close> bytes it reports the end without asking the source again.\<close>

definition limitReader :: "int \<Rightarrow> reader \<Rightarrow> reader" where
  "limitReader n r =
     (if n \<le> int (length (rd_data r)) then \<lparr>rd_data = take (nat n) (rd_data r), rd_broken = False\<rparr> else r)"

text \<open>The pieces in which \<open>io.CopyBuffer\<close> moves the data through its 32 KiB buffer.\<close>

function pieces :: "int \<Rightarrow> string \<Rightarrow> string list" where
  "pieces n xs =
     (if xs = [] then []
      else if n \<le> 0 \<or> int (length xs) \<le> n then [xs]
      else take (nat n) xs # pieces n (drop (nat n) xs))"
  by pat_completeness auto
termination
  by (relation "measure (\<lambda>(_, xs). length xs)") auto

declare pieces.simps [simp del]

lemma concat_pieces [simp]: "concat (pieces n xs) = xs"
  by (induction n xs rule: pieces.induct) (subst pieces.simps, auto)

section \<open>System calls\<close>

definition sysCall :: "unit wop" where
  "sysCall = effect (\<lambda>w. (Inr (), w))"

text \<open>\<open>ctx.Err()\<close>: the request may have been cancelled.\<close>

definition ctxErr :: "unit wop" where
  "ctxErr = effect (\<lambda>w. (Inr (), w))"

definition openExcl :: "string \<Rightarrow> unit wop" where
  "openExcl name =
     effect (\<lambda>w. if files w name \<noteq> None then (Inl (Failure ''create temporary upload''), w)
                 else (Inr (), w\<lparr>files := (files w)(name := Some [])\<rparr>))"

definition appendTo :: "string \<Rightarrow> string \<Rightarrow> unit wop" where
  "appendTo name piece =
     effect (\<lambda>w. (Inr (), w\<lparr>files := (files w)(name := map_option (\<lambda>c. c @ piece) (files w name))\<rparr>))"

definition lstat :: "string \<Rightarrow> string option wop" where
  "lstat name = effect (\<lambda>w. (Inr (files w name), w))"

definition renameFile :: "string \<Rightarrow> string \<Rightarrow> unit wop" where
  "renameFile old new =
     effect (\<lambda>w. case files w old of
                   None \<Rightarrow> (Inl (Failure ''publish upload''), w)
                 | Some c \<Rightarrow> (Inr (), w\<lparr>files := (files w)(old := None, new := Some c)\<rparr>))"

text \<open>\<open>root.Remove\<close>, where a missing name is no error.\<close>

definition removeFile :: "string \<Rightarrow> unit wop" where
  "removeFile name = effect (\<lambda>w. (Inr (), w\<lparr>files := (files w)(name := None)\<rparr>))"

section \<open>The store\<close>

definition partName :: "string \<Rightarrow> string" where
  "partName key = key @ ''.part''"

definition copyTo :: "string \<Rightarrow> reader \<Rightarrow> unit wop" where
  "copyTo name src =
     bindE (forE (\<lambda>piece. bindE ctxErr (\<lambda>_. appendTo name piece)) (pieces 32768 (rd_data src))) (\<lambda>_.
     bindE ctxErr (\<lambda>_. failIf (rd_broken src) EIo))"

definition putBody :: "string \<Rightarrow> reader \<Rightarrow> int \<Rightarrow> int wop" where
  "putBody key source limit =
     (let src = limitReader (limit + 1) source; sz = int (length (rd_data src)) in
      bindE (copyTo (partName key) src) (\<lambda>_.
      bindE (failIf (limit < sz) ErrTooLarge) (\<lambda>_.
      bindE (failIf (sz = 0) (Failure ''empty stored object'')) (\<lambda>_.
      bindE ctxErr (\<lambda>_.
      bindE sysCall (\<lambda>_.
      bindE sysCall (\<lambda>_.
      bindE (lstat key) (\<lambda>found.
      bindE (failIf (found \<noteq> None) (Failure ''reserve final upload'')) (\<lambda>_.
      bindE (renameFile (partName key) key) (\<lambda>_.
      bindE (lstat key) (\<lambda>found.
      bindE (failIf (case found of None \<Rightarrow> True | Some c \<Rightarrow> int (length c) \<noteq> sz)
               (Failure ''stored upload size could not be verified'')) (\<lambda>_.
      bindE sysCall (\<lambda>_.
      bindE sysCall (\<lambda>_.
      ret sz))))))))))))))"

definition localPut :: "string \<Rightarrow> reader \<Rightarrow> int \<Rightarrow> int wop" where
  "localPut key source limit =
     bindE (failIf (\<not> validKey key) ErrInvalidKey) (\<lambda>_.
     bindE (failIf (limit \<le> 0) ErrTooLarge) (\<lambda>_.
     bindE sysCall (\<lambda>_.
     bindE (openExcl (partName key)) (\<lambda>_.
     finallyE (putBody key source limit) (removeFile (partName key))))))"

definition localDelete :: "string \<Rightarrow> unit wop" where
  "localDelete key =
     bindE (failIf (\<not> validKey key) ErrInvalidKey) (\<lambda>_.
     bindE ctxErr (\<lambda>_.
     bindE sysCall (\<lambda>_.
     forE removeFile [partName key, key])))"

text \<open>\<open>Local.Open\<close>: the contents and their size. No other step runs between its calls here, so the
file that was looked at is the file that was opened.\<close>

definition localOpen :: "string \<Rightarrow> string wop" where
  "localOpen key =
     bindE (failIf (\<not> validKey key) ErrInvalidKey) (\<lambda>_.
     bindE ctxErr (\<lambda>_.
     bindE (orErr sysCall ErrUnavailable) (\<lambda>_.
     bindE (orErr (lstat key) ErrUnavailable) (\<lambda>found.
     case found of
       None \<Rightarrow> raise ErrMissing
     | Some content \<Rightarrow>
         bindE (orErr sysCall ErrUnavailable) (\<lambda>_.
         bindE (orErr sysCall ErrObjectChanged) (\<lambda>_.
         ret content))))))"

section \<open>What a system call may change\<close>

text \<open>Everything but the upload directory stays.\<close>

definition sameRest :: "world \<Rightarrow> world \<Rightarrow> bool" where
  "sameRest s t \<longleftrightarrow> wdb t = wdb s \<and> readers t = readers s \<and> cleanupAfter t = cleanupAfter s \<and>
     retiredAfter t = retiredAfter s \<and> reconcileAfter t = reconcileAfter s \<and> trace t = trace s \<and> env t = env s"

interpretation same_rest: tx_order sameRest
  by unfold_locales (auto simp: sameRest_def)

text \<open>The world is \<open>w\<close> with the directory \<open>F\<close>, at some later step.\<close>

definition dirIs :: "world \<Rightarrow> (string \<Rightarrow> string option) \<Rightarrow> world \<Rightarrow> bool" where
  "dirIs w F t \<longleftrightarrow> sameRest w t \<and> files t = F"

lemma dirIs_admin [simp]:
  "dirIs w F (t\<lparr>tick := n\<rparr>) = dirIs w F t" "dirIs w F (t\<lparr>dead := b\<rparr>) = dirIs w F t"
  "dirIs w F (t\<lparr>files := G\<rparr>) \<longleftrightarrow> sameRest w t \<and> G = F"
  "sameRest w (t\<lparr>tick := n\<rparr>) = sameRest w t" "sameRest w (t\<lparr>dead := b\<rparr>) = sameRest w t"
  "sameRest w (t\<lparr>files := G\<rparr>) = sameRest w t"
  by (auto simp: dirIs_def sameRest_def)

lemma dirIs_files: "dirIs w F t \<Longrightarrow> files t = F" "dirIs w F t \<Longrightarrow> sameRest w t"
  by (simp_all add: dirIs_def)

lemma dirIs_start: "dirIs w (files w) w"
  by (simp add: dirIs_def sameRest_def)

text \<open>One rule per call: from a directory \<open>F\<close>, the directories it may leave.\<close>

definition fsPost :: "world \<Rightarrow> ((string \<Rightarrow> string option) \<Rightarrow> bool) \<Rightarrow> world \<Rightarrow> bool" where
  "fsPost w G t \<longleftrightarrow> sameRest w t \<and> G (files t)"

lemma fsPost_admin [simp]:
  "fsPost w G (t\<lparr>tick := n\<rparr>) = fsPost w G t" "fsPost w G (t\<lparr>dead := b\<rparr>) = fsPost w G t"
  by (simp_all add: fsPost_def)

lemma fs_sysCall:
  "dirIs w F t \<Longrightarrow> G F \<Longrightarrow> wpE sysCall (\<lambda>_. dirIs w F) (fsPost w G) t"
  "dirIs w F t \<Longrightarrow> G F \<Longrightarrow> wpE ctxErr (\<lambda>_. dirIs w F) (fsPost w G) t"
  unfolding sysCall_def ctxErr_def by (rule wpE_effect; auto simp: fsPost_def dirIs_def)+

lemma fs_lstat:
  "dirIs w F t \<Longrightarrow> G F \<Longrightarrow> wpE (lstat name) (\<lambda>x u. x = F name \<and> dirIs w F u) (fsPost w G) t"
  unfolding lstat_def by (rule wpE_effect) (auto simp: fsPost_def dirIs_def)

lemma fs_openExcl:
  assumes "dirIs w F t" and "G F" and "F name = None \<Longrightarrow> G (F(name := Some []))"
  shows "wpE (openExcl name) (\<lambda>_ u. F name = None \<and> dirIs w (F(name := Some [])) u) (fsPost w G) t"
  unfolding openExcl_def by (rule wpE_effect) (use assms in \<open>auto simp: fsPost_def dirIs_def split: if_splits\<close>)

lemma fs_appendTo:
  assumes "dirIs w F t" and "F name = Some c" and "G F" and "G (F(name := Some (c @ piece)))"
  shows "wpE (appendTo name piece) (\<lambda>_. dirIs w (F(name := Some (c @ piece)))) (fsPost w G) t"
  unfolding appendTo_def by (rule wpE_effect) (use assms in \<open>auto simp: fsPost_def dirIs_def\<close>)

lemma fs_renameFile:
  assumes "dirIs w F t" and "F old = Some c" and "G F" and "G (F(old := None, new := Some c))"
  shows "wpE (renameFile old new) (\<lambda>_. dirIs w (F(old := None, new := Some c))) (fsPost w G) t"
  unfolding renameFile_def by (rule wpE_effect) (use assms in \<open>auto simp: fsPost_def dirIs_def split: option.splits\<close>)

lemma fs_removeFile:
  assumes "dirIs w F t" and "G F" and "G (F(name := None))"
  shows "wpE (removeFile name) (\<lambda>_. dirIs w (F(name := None))) (fsPost w G) t"
  unfolding removeFile_def by (rule wpE_effect) (use assms in \<open>auto simp: fsPost_def dirIs_def\<close>)

section \<open>Put and Delete\<close>

lemma copyTo_fs:
  assumes "dirIs w F t" and "F name = Some []" and grow: "\<And>c. G (F(name := Some c))"
  shows "wpE (copyTo name src)
    (\<lambda>_ u. \<not> rd_broken src \<and> dirIs w (F(name := Some (rd_data src))) u) (fsPost w G) t"
proof -
  have G: "G F" using grow [of "[]"] assms(2) by (simp add: fun_upd_idem)
  have loop: "wpE (forE (\<lambda>piece. bindE ctxErr (\<lambda>_. appendTo name piece)) ps)
      (\<lambda>_. dirIs w (F(name := Some (c @ concat ps)))) (fsPost w G) u"
    if "dirIs w (F(name := Some c)) u" for ps c u
    using that
  proof (induction ps arbitrary: c u)
    case Nil
    then show ?case by (auto intro!: wpE_ret)
  next
    case (Cons p ps)
    have "wpE (bindE ctxErr (\<lambda>_. appendTo name p)) (\<lambda>_. dirIs w (F(name := Some (c @ p)))) (fsPost w G) u"
      by (rule wpE_step, rule fs_sysCall(2) [where G = G, OF Cons.prems grow])
        (use fs_appendTo [of w "F(name := Some c)" _ name c G p] grow in simp)
    then have "wpE (bindE (bindE ctxErr (\<lambda>_. appendTo name p))
        (\<lambda>_. forE (\<lambda>piece. bindE ctxErr (\<lambda>_. appendTo name piece)) ps))
        (\<lambda>_. dirIs w (F(name := Some (c @ concat (p # ps))))) (fsPost w G) u"
      by (rule wpE_step) (rule wpE_mono, rule Cons.IH, assumption, simp_all add: fun_upd_def)
    then show ?case by (simp add: fun_upd_def)
  qed
  have start: "dirIs w (F(name := Some [])) t" using assms by (simp add: fun_upd_idem)
  show ?thesis
    unfolding copyTo_def
  proof (rule wpE_step, rule loop [OF start])
    fix u
    assume "dirIs w (F(name := Some ([] @ concat (pieces 32768 (rd_data src))))) u"
    then have u: "dirIs w (F(name := Some (rd_data src))) u" by simp
    show "wpE (bindE ctxErr (\<lambda>_. failIf (rd_broken src) EIo))
        (\<lambda>_ u. \<not> rd_broken src \<and> dirIs w (F(name := Some (rd_data src))) u) (fsPost w G) u"
      by (rule wpE_step, rule fs_sysCall(2) [where G = G, OF u grow])
        (use grow in \<open>auto intro!: wpE_failIf simp: fsPost_def dirIs_def\<close>)
  qed
qed

text \<open>The directories that an attempt to store \<open>data\<close> under \<open>key\<close> can leave.\<close>

definition putLeaves :: "string \<Rightarrow> string \<Rightarrow> (string \<Rightarrow> string option) \<Rightarrow> (string \<Rightarrow> string option) \<Rightarrow> bool" where
  "putLeaves key data F F' \<longleftrightarrow>
     (\<forall>k. k \<noteq> partName key \<longrightarrow> F' k = F k \<or> (k = key \<and> F key = None \<and> F' key = Some data))"

lemma partName_neq [simp]: "partName key \<noteq> key" "key \<noteq> partName key"
  by (simp_all add: partName_def)

lemma fsPost_failIf:
  "dirIs w F t \<Longrightarrow> G F \<Longrightarrow> (\<not> b \<Longrightarrow> Q ()  t) \<Longrightarrow> wpE (failIf b e) Q (fsPost w G) t"
  by (rule wpE_failIf) (auto simp: fsPost_def dirIs_def)

lemma putBody_fs:
  assumes t: "dirIs w F t" and F: "F (partName key) = Some []"
    and data: "data = rd_data (limitReader (limit + 1) source)"
  shows "wpE (putBody key source limit)
    (\<lambda>n u. n = int (length data) \<and> 0 < n \<and> n \<le> limit \<and> \<not> rd_broken (limitReader (limit + 1) source) \<and>
       F key = None \<and> dirIs w (F(partName key := None, key := Some data)) u)
    (fsPost w (putLeaves key data F)) t"
proof -
  let ?src = "limitReader (limit + 1) source" and ?part = "partName key"
  let ?F1 = "F(?part := Some data)" and ?F2 = "F(?part := None, key := Some data)"
  let ?G = "putLeaves key data F"
  have G0: "?G (F(?part := c))" for c by (simp add: putLeaves_def)
  have G1: "?G ?F1" by (rule G0)
  have G2: "?G ?F2" if "F key = None" using that by (simp add: putLeaves_def)
  have late: "wpE (bindE (renameFile ?part key) (\<lambda>_.
      bindE (lstat key) (\<lambda>found.
      bindE (failIf (case found of None \<Rightarrow> True | Some c \<Rightarrow> int (length c) \<noteq> int (length data))
               (Failure ''stored upload size could not be verified'')) (\<lambda>_.
      bindE sysCall (\<lambda>_. bindE sysCall (\<lambda>_. ret (int (length data))))))))
      (\<lambda>n u. n = int (length data) \<and> dirIs w ?F2 u) (fsPost w ?G) u"
    if u: "dirIs w ?F1 u" and none: "F key = None" for u
  proof (rule wpE_step, rule fs_renameFile [where G = ?G, OF u _ G1])
    show "?F1 ?part = Some data" by simp
    show "?G (?F1(?part := None, key := Some data))" using G2 none by simp
  next
    fix v
    assume "dirIs w (?F1(?part := None, key := Some data)) v"
    then have v: "dirIs w ?F2 v" by simp
    note G2 = G2 [OF none]
    show "wpE (bindE (lstat key) (\<lambda>found.
      bindE (failIf (case found of None \<Rightarrow> True | Some c \<Rightarrow> int (length c) \<noteq> int (length data))
               (Failure ''stored upload size could not be verified'')) (\<lambda>_.
      bindE sysCall (\<lambda>_. bindE sysCall (\<lambda>_. ret (int (length data)))))))
      (\<lambda>n u. n = int (length data) \<and> dirIs w ?F2 u) (fsPost w ?G) v"
      by (rule wpE_step, rule fs_lstat [where G = ?G, OF v G2], erule conjE)
        (auto intro!: wpE_step [OF fs_sysCall(1) [where G = ?G, OF _ G2]] wpE_ret)
  qed
  have tail: "wpE (bindE (lstat key) (\<lambda>found.
      bindE (failIf (found \<noteq> None) (Failure ''reserve final upload'')) (\<lambda>_.
      bindE (renameFile ?part key) (\<lambda>_.
      bindE (lstat key) (\<lambda>found.
      bindE (failIf (case found of None \<Rightarrow> True | Some c \<Rightarrow> int (length c) \<noteq> int (length data))
               (Failure ''stored upload size could not be verified'')) (\<lambda>_.
      bindE sysCall (\<lambda>_. bindE sysCall (\<lambda>_. ret (int (length data)))))))))) 
      (\<lambda>n u. n = int (length data) \<and> F key = None \<and> dirIs w ?F2 u) (fsPost w ?G) u"
    if u: "dirIs w ?F1 u" for u
    by (rule wpE_step, rule fs_lstat [where G = ?G, OF u G1], erule conjE, rule wpE_bindE, rule fsPost_failIf,
        assumption, rule G1, rule wpE_mono, erule late) auto
  show ?thesis
    unfolding putBody_def Let_def data [symmetric]
    apply (rule wpE_step, rule copyTo_fs [where G = ?G and src = ?src, OF t F G0], erule conjE)
    apply (unfold data [symmetric])
    apply (rule wpE_bindE, rule fsPost_failIf, assumption, rule G1)
    apply (rule wpE_bindE, rule fsPost_failIf, assumption, rule G1)
    apply (rule wpE_step, erule fs_sysCall, rule G1)
    apply (rule wpE_step, erule fs_sysCall, rule G1)
    apply (rule wpE_step, erule fs_sysCall, rule G1)
    apply (rule wpE_mono, erule tail)
     apply auto
    done
qed

lemma fsPost_mono: "fsPost w G t \<Longrightarrow> (\<And>F. G F \<Longrightarrow> G' F) \<Longrightarrow> fsPost w G' t"
  by (auto simp: fsPost_def)

lemma limitReader_short:
  "int (length (rd_data (limitReader (n + 1) r))) \<le> n \<Longrightarrow> 0 \<le> n \<Longrightarrow> limitReader (n + 1) r = r"
  by (auto simp: limitReader_def min_def split: if_splits)

lemma removeFile_leaves:
  assumes "fsPost w (putLeaves key data F) t"
  shows "wpE (removeFile (partName key)) (\<lambda>_. fsPost w (putLeaves key data F)) (fsPost w (putLeaves key data F)) t"
proof -
  have "putLeaves key data F (F'(partName key := None))" if "putLeaves key data F F'" for F'
    using that by (simp add: putLeaves_def)
  with assms show ?thesis
    unfolding removeFile_def by (intro wpE_effect) (auto simp: fsPost_def)
qed

lemma localPut_fs:
  assumes data: "data = rd_data (limitReader (limit + 1) source)"
  shows "wpE (localPut key source limit)
    (\<lambda>n u. validKey key \<and> n = int (length data) \<and> 0 < n \<and> n \<le> limit \<and> \<not> rd_broken source \<and> data = rd_data source \<and>
       files w key = None \<and> dirIs w ((files w)(partName key := None, key := Some data)) u)
    (fsPost w (putLeaves key data (files w))) w"
proof -
  let ?F = "files w" and ?part = "partName key"
  let ?G = "putLeaves key data ?F"
  have G: "?G ?F" "?G (?F(?part := c))" for c by (simp_all add: putLeaves_def)
  have mono: "?G F'" if "putLeaves key data (?F(?part := Some [])) F'" for F'
    using that by (auto simp: putLeaves_def)
  have "wpE (putBody key source limit)
      (\<lambda>n u. n = int (length data) \<and> 0 < n \<and> n \<le> limit \<and> \<not> rd_broken source \<and> data = rd_data source \<and>
         ?F key = None \<and> dirIs w (?F(?part := None, key := Some data)) u) (fsPost w ?G) t"
    if t: "dirIs w (?F(?part := Some [])) t" for t
  proof (rule wpE_mono, rule putBody_fs [OF t _ data], simp)
    fix n u
    assume post: "n = int (length data) \<and> 0 < n \<and> n \<le> limit \<and> \<not> rd_broken (limitReader (limit + 1) source) \<and>
      (?F(?part := Some [])) key = None \<and>
      dirIs w (?F(?part := Some [], ?part := None, key := Some data)) u"
    then have "limitReader (limit + 1) source = source"
      using limitReader_short [of limit source] data by simp
    with post data show "n = int (length data) \<and> 0 < n \<and> n \<le> limit \<and> \<not> rd_broken source \<and> data = rd_data source \<and>
         ?F key = None \<and> dirIs w (?F(?part := None, key := Some data)) u" by auto
  qed (erule fsPost_mono, erule mono)
  note body = this
  have finish: "wpE (removeFile ?part) (\<lambda>_. dirIs w (?F(?part := None, key := Some data)))
      (dirIs w (?F(?part := None, key := Some data))) u"
    if "dirIs w (?F(?part := None, key := Some data)) u" for u
    unfolding removeFile_def
    by (rule wpE_effect) (use that in \<open>auto simp: dirIs_def fun_upd_twist fun_eq_iff\<close>)
  show ?thesis
    unfolding localPut_def
    apply (rule wpE_bindE, rule fsPost_failIf, rule dirIs_start, rule G)
    apply (rule wpE_bindE, rule fsPost_failIf, rule dirIs_start, rule G)
    apply (rule wpE_step, rule fs_sysCall, rule dirIs_start, rule G)
    apply (rule wpE_step, erule fs_openExcl, rule G, rule G, erule conjE)
    apply (rule wpE_finallyE, rule wpE_mono, erule body)
     apply (elim conjE, rule wpE_mono, erule finish, simp, simp)
    apply (rule wpE_mono, erule removeFile_leaves, simp_all)
    done
qed

lemma localDelete_fs:
  "wpE (localDelete key)
    (\<lambda>_ u. validKey key \<and> dirIs w ((files w)(partName key := None, key := None)) u)
    (fsPost w (\<lambda>F. \<forall>k. k \<noteq> partName key \<longrightarrow> F k = files w k \<or> (k = key \<and> F k = None))) w"
proof -
  let ?F = "files w" and ?part = "partName key"
  let ?G = "\<lambda>F. \<forall>k. k \<noteq> ?part \<longrightarrow> F k = ?F k \<or> (k = key \<and> F k = None)"
  have G: "?G ?F" "?G (?F(?part := c))" "?G (?F(?part := c, key := None))" for c by auto
  show ?thesis
    unfolding localDelete_def forE.simps
    apply (rule wpE_bindE, rule fsPost_failIf, rule dirIs_start, rule G)
    apply (rule wpE_step, rule fs_sysCall, rule dirIs_start, rule G)
    apply (rule wpE_step, erule fs_sysCall, rule G)
    apply (rule wpE_step, erule fs_removeFile, rule G, rule G)
    apply (rule wpE_step, erule fs_removeFile, rule G, rule G)
    apply (rule wpE_ret, simp)
    done
qed

section \<open>The contract of a store\<close>

text \<open>\<open>storage.Store\<close>, the interface through which the media service stores and removes objects.\<close>

record store =
  st_put :: "string \<Rightarrow> reader \<Rightarrow> int \<Rightarrow> int wop"
  st_delete :: "string \<Rightarrow> unit wop"

locale object_store =
  fixes st :: store
  assumes put_ok: "st_put st key src limit w = (Inr n, t) \<Longrightarrow>
      validKey key \<and> files w key = None \<and> files t key = Some (rd_data src) \<and>
      n = int (length (rd_data src)) \<and> 0 < n \<and> n \<le> limit \<and> \<not> rd_broken src"
    and put_key: "st_put st key src limit w = (r, t) \<Longrightarrow>
      files t key = files w key \<or> files w key = None"
    and put_frame: "st_put st key src limit w = (r, t) \<Longrightarrow> validKey k \<Longrightarrow> k \<noteq> key \<Longrightarrow> files t k = files w k"
    and put_rest: "st_put st key src limit w = (r, t) \<Longrightarrow> sameRest w t"
    and delete_ok: "st_delete st key w = (Inr (), t) \<Longrightarrow> validKey key \<and> files t key = None"
    and delete_key: "st_delete st key w = (r', t) \<Longrightarrow> files t key = files w key \<or> files t key = None"
    and delete_frame: "st_delete st key w = (r', t) \<Longrightarrow> validKey k \<Longrightarrow> k \<noteq> key \<Longrightarrow> files t k = files w k"
    and delete_rest: "st_delete st key w = (r', t) \<Longrightarrow> sameRest w t"
begin

text \<open>An object that is there is never overwritten, and a put makes no other object.\<close>

lemma put_keeps: "st_put st key src limit w = (r, t) \<Longrightarrow> validKey k \<Longrightarrow> files w k = Some c \<Longrightarrow> files t k = Some c"
  using put_key put_frame by (metis option.distinct(1))

lemma put_no_overwrite: "files w key = Some c \<Longrightarrow> fst (st_put st key src limit w) \<noteq> Inr n"
  by (cases "st_put st key src limit w") (auto dest: put_ok)

lemma delete_others: "st_delete st key w = (r', t) \<Longrightarrow> validKey k \<Longrightarrow> files t k \<noteq> files w k \<Longrightarrow> k = key \<and> files t k = None"
  using delete_key delete_frame by metis

end

definition localStore :: store where
  "localStore = \<lparr>st_put = localPut, st_delete = localDelete\<rparr>"

lemma validKey_not_part: "validKey k \<Longrightarrow> k \<noteq> partName key"
  using part_not_validKey by (auto simp: partName_def)

lemma localPut_run:
  assumes "localPut key src limit w = (r, t)"
  shows "sameRest w t \<and> putLeaves key (rd_data (limitReader (limit + 1) src)) (files w) (files t)"
proof (cases r)
  case (Inl e)
  with assms localPut_fs [OF refl, of key src limit w] show ?thesis
    by (auto dest!: wpE_D2 simp: fsPost_def)
next
  case (Inr n)
  with assms localPut_fs [OF refl, of key src limit w] show ?thesis
    by (auto dest!: wpE_D1 simp: dirIs_def putLeaves_def split: if_splits)
qed

lemma localDelete_run:
  assumes "localDelete key w = (r, t)"
  shows "sameRest w t \<and> (\<forall>k. k \<noteq> partName key \<longrightarrow> files t k = files w k \<or> (k = key \<and> files t k = None))"
proof (cases r)
  case (Inl e)
  with assms localDelete_fs [of key w] show ?thesis
    by (auto dest!: wpE_D2 simp: fsPost_def)
next
  case (Inr n)
  with assms localDelete_fs [of key w] show ?thesis
    by (auto dest!: wpE_D1 simp: dirIs_def split: if_splits)
qed

interpretation local_store: object_store localStore
proof (unfold_locales, unfold localStore_def store.simps)
  fix key src limit w n t r r' k
  show "validKey key \<and> files w key = None \<and> files t key = Some (rd_data src) \<and>
      n = int (length (rd_data src)) \<and> 0 < n \<and> n \<le> limit \<and> \<not> rd_broken src"
    if "localPut key src limit w = (Inr n, t)"
    using that localPut_fs [OF refl, of key src limit w]
    by (auto dest!: wpE_D1 simp: dirIs_def)
  show "files t key = files w key \<or> files w key = None" if "localPut key src limit w = (r, t)"
    using localPut_run [OF that] by (auto simp: putLeaves_def)
  show "files t k = files w k" if "localPut key src limit w = (r, t)" "validKey k" "k \<noteq> key"
    using localPut_run [OF that(1)] that validKey_not_part by (auto simp: putLeaves_def)
  show "sameRest w t" if "localPut key src limit w = (r, t)"
    using localPut_run [OF that] by simp
  show "validKey key \<and> files t key = None" if "localDelete key w = (Inr (), t)"
    using that localDelete_fs [of key w] by (auto dest!: wpE_D1 simp: dirIs_def)
  show "files t key = files w key \<or> files t key = None" if "localDelete key w = (r', t)"
    using localDelete_run [OF that, THEN conjunct2, THEN spec, of key] by auto
  show "files t k = files w k" if "localDelete key w = (r', t)" "validKey k" "k \<noteq> key"
    using localDelete_run [OF that(1)] that validKey_not_part by auto
  show "sameRest w t" if "localDelete key w = (r', t)"
    using localDelete_run [OF that] by simp
qed

end
