(* ===== verification/S3Store.thy ===== *)
theory S3Store
  imports LocalStore Mime
begin

text \<open>
  \<open>internal/storage/s3.go\<close>, \<open>direct.go\<close> and \<open>Resolve\<close> of \<open>backends.go\<close>: the names of objects in a
  bucket, the requests of the S3 client, and which backend serves a stored asset. The SDK's answer to
  a request comes from the environment; what the code does with it is modelled.
\<close>

section \<open>Object names\<close>

record s3cfg =
  s3_id :: int
  s3_prefix :: string
  s3_target :: string
  s3_ttl :: int

definition s3Key :: "s3cfg \<Rightarrow> int \<Rightarrow> string \<Rightarrow> string" where
  "s3Key s eventID assetID = s3_prefix s @ ''events/e'' @ decI eventID @ ''/assets/'' @ assetID"

text \<open>\<open>^events/e[1-9][0-9]{0,18}/assets/[0-9a-f]{32}$\<close> after the configured prefix.\<close>

definition s3Suffix :: "string \<Rightarrow> bool" where
  "s3Suffix k \<longleftrightarrow> hasPrefix k ''events/e'' \<and>
     matchNumberThen (\<lambda>t. hasPrefix t ''/assets/'' \<and> lowerID (drop (length ''/assets/'') t))
       (drop (length ''events/e'') k)"

definition s3ValidKey :: "s3cfg \<Rightarrow> string \<Rightarrow> bool" where
  "s3ValidKey s k \<longleftrightarrow> hasPrefix k (s3_prefix s) \<and> s3Suffix (drop (length (s3_prefix s)) k)"

lemma hasPrefix_append [simp]: "hasPrefix (p @ k) p"
  by (simp add: hasPrefix_def)

lemma s3Key_valid: "0 < e \<Longrightarrow> e < 2 ^ 63 \<Longrightarrow> lowerID i \<Longrightarrow> s3ValidKey s (s3Key s e i)"
  using matchNumberThen_decN [of e "CHR ''/''" _ "''assets/'' @ i"]
  by (simp add: s3ValidKey_def s3Suffix_def s3Key_def hasPrefix_def)

lemma s3Key_inj: "0 < e \<Longrightarrow> 0 < e' \<Longrightarrow> s3Key s e i = s3Key s e' i' \<Longrightarrow> e = e' \<and> i = i'"
  using number_prefix_inj [of e e' "CHR ''/''" "''assets/'' @ i" "''assets/'' @ i'"]
  by (simp add: s3Key_def)

interpretation s3_key: key_scheme "s3Key s" "s3ValidKey s" for s
  by unfold_locales (fact s3Key_valid, fact s3Key_inj)

section \<open>Requests\<close>

definition safeS3Error :: "sdk_error \<Rightarrow> err" where
  "safeS3Error x =
     (case x of
        ApiError code \<Rightarrow>
          if code \<in> {''NoSuchKey'', ''NotFound'', ''NoSuchObject''} then ErrMissing
          else if code = ''PreconditionFailed'' then ErrObjectChanged
          else ErrUnavailable
      | TransportError \<Rightarrow> ErrUnavailable)"

definition safely :: "(sdk_error + 'a) wop \<Rightarrow> 'a wop" where
  "safely m = bindE m (\<lambda>r. case r of Inl x \<Rightarrow> raise (safeS3Error x) | Inr x \<Rightarrow> ret x)"

record upload_plan =
  up_method :: string
  up_url :: string
  up_headers :: "(string \<times> string) list"
  up_expires :: int

record object_info =
  oi_size :: int
  oi_type :: string
  oi_etag :: string

definition headerGet :: "string \<Rightarrow> (string \<times> string list) list \<Rightarrow> string" where
  "headerGet name hs = (case map_of hs name of Some (v # _) \<Rightarrow> v | _ \<Rightarrow> [])"

definition s3Authorize :: "s3cfg \<Rightarrow> string \<Rightarrow> string \<Rightarrow> upload_plan wop" where
  "s3Authorize s key kind =
     bindE (failIf (\<not> s3ValidKey s key) ErrInvalidKey) (\<lambda>_.
     bindE now (\<lambda>t.
     bindE (safely (remote (CallPresign (s3_id s) key) e_presign)) (\<lambda>p.
     bindE (failIf (headerGet ''Content-Type'' (po_headers p) \<noteq> kind \<or>
                    headerGet ''If-None-Match'' (po_headers p) \<noteq> ''*'') ErrUnavailable) (\<lambda>_.
     ret \<lparr>up_method = po_method p, up_url = po_url p,
          up_headers = map (\<lambda>(n, vs). (n, joinComma vs)) (filter (\<lambda>(n, _). toLower n \<noteq> ''host'') (po_headers p)),
          up_expires = t + s3_ttl s\<rparr>))))"

definition s3Head :: "s3cfg \<Rightarrow> string \<Rightarrow> object_info wop" where
  "s3Head s key =
     bindE (failIf (\<not> s3ValidKey s key) ErrInvalidKey) (\<lambda>_.
     bindE (safely (remote (CallHead (s3_id s) key) e_head)) (\<lambda>h.
     ret \<lparr>oi_size = ho_size h, oi_type = ho_type h, oi_etag = ho_etag h\<rparr>))"

definition contentRange :: "int \<Rightarrow> int \<Rightarrow> string" where
  "contentRange n size0 = ''bytes 0-'' @ decI (n - 1) @ ''/'' @ decI size0"

definition s3ReadPrefix :: "s3cfg \<Rightarrow> string \<Rightarrow> object_info \<Rightarrow> string wop" where
  "s3ReadPrefix s key info =
     bindE (failIf (\<not> s3ValidKey s key) ErrInvalidKey) (\<lambda>_.
     bindE (failIf (oi_size info \<le> 0 \<or> oi_etag info = []) ErrObjectChanged) (\<lambda>_.
     (let n = min (oi_size info) 512 in
      bindE (safely (remote (CallGet (s3_id s) key) e_get)) (\<lambda>g.
      bindE (failIf (go_range g \<noteq> contentRange n (oi_size info) \<or> go_length g \<noteq> n \<or> go_etag g \<noteq> oi_etag info)
               ErrObjectChanged) (\<lambda>_.
      (let body = limitReader (n + 1) \<lparr>rd_data = go_body g, rd_broken = go_broken g\<rparr> in
       bindE (failIf (rd_broken body) ErrUnavailable) (\<lambda>_.
       bindE (failIf (int (length (rd_data body)) \<noteq> n) ErrObjectChanged) (\<lambda>_.
       ret (rd_data body)))))))))"

definition s3Delete :: "s3cfg \<Rightarrow> string \<Rightarrow> unit wop" where
  "s3Delete s key =
     bindE (failIf (\<not> s3ValidKey s key) ErrInvalidKey) (\<lambda>_.
     bindE (remote (CallDelete (s3_id s) key) e_delete) (\<lambda>r.
     case r of Inr _ \<Rightarrow> ret ()
     | Inl x \<Rightarrow> if safeS3Error x = ErrMissing then ret () else raise (safeS3Error x)))"

section \<open>Backends\<close>

record backend =
  be_id :: int
  be_key :: string
  be_type :: string
  be_direct :: "s3cfg option"

record backend_set =
  bs_active :: int
  bs_entries :: "int \<Rightarrow> backend option"

definition localBackends :: backend_set where
  "localBackends = \<lparr>bs_active = 1, bs_entries = (\<lambda>_. None)(1 := Some
     \<lparr>be_id = 1, be_key = ''local-default'', be_type = ''local'', be_direct = None\<rparr>)\<rparr>"

definition resolve :: "backend_set \<Rightarrow> int \<Rightarrow> err + backend" where
  "resolve bs i =
     (case bs_entries bs i of
        None \<Rightarrow> Inl ErrBackend
      | Some e \<Rightarrow> if be_type e = ''s3'' \<and> be_direct e = None then Inl ErrBackend else Inr e)"

text \<open>What a set of backends made by the program satisfies (\<open>Reconcile\<close>, migration 006): each entry is
under its own identifier, number 1 is the local directory and nothing else is.\<close>

definition backendsOk :: "backend_set \<Rightarrow> bool" where
  "backendsOk bs \<longleftrightarrow> (\<forall>i e. bs_entries bs i = Some e \<longrightarrow> be_id e = i \<and> (be_type e = ''local'' \<longleftrightarrow> i = 1))"

lemma backendsOk_local: "backendsOk localBackends"
  by (simp add: backendsOk_def localBackends_def)

section \<open>What the client guarantees\<close>

text \<open>Requests change nothing of the process but the log of requests.\<close>

definition onlyTrace :: "world \<Rightarrow> world \<Rightarrow> bool" where
  "onlyTrace s t \<longleftrightarrow> wdb t = wdb s \<and> files t = files s \<and> readers t = readers s \<and>
     cleanupAfter t = cleanupAfter s \<and> retiredAfter t = retiredAfter s \<and> reconcileAfter t = reconcileAfter s \<and> env t = env s"

interpretation only_trace: world_order onlyTrace
  by unfold_locales (auto simp: onlyTrace_def)

lemma onlyTrace_remote: "upholds onlyTrace (remote c a)"
  by (rule only_trace.up_remote) (simp add: onlyTrace_def)

lemma onlyTrace_requests:
  "upholds onlyTrace (s3Authorize s k c)" "upholds onlyTrace (s3Head s k)"
  "upholds onlyTrace (s3ReadPrefix s k i)" "upholds onlyTrace (s3Delete s k)"
  unfolding s3Authorize_def s3Head_def s3ReadPrefix_def s3Delete_def safely_def Let_def
  by (intro only_trace.up_rules only_trace.up_world onlyTrace_remote)+

text \<open>Nothing the SDK reports reaches a caller but one of four fixed errors.\<close>

definition safeErr :: "err \<Rightarrow> bool" where
  "safeErr e \<longleftrightarrow> e \<in> {ErrInvalidKey, ErrMissing, ErrObjectChanged, ErrUnavailable, ECrashed}"

definition onlySafe :: "err + 'a \<Rightarrow> world \<Rightarrow> bool" where
  "onlySafe r w \<longleftrightarrow> (case r of Inl e \<Rightarrow> safeErr e | Inr _ \<Rightarrow> True)"

lemma onlySafe_simps [simp]: "onlySafe (Inr x) w" "onlySafe (Inl e) w = safeErr e"
  by (simp_all add: onlySafe_def)

lemma safeS3Error_safe [simp]: "safeErr (safeS3Error x)"
  by (auto simp: safeErr_def safeS3Error_def split: sdk_error.split)

lemma remote_safe: "(\<And>x t. Q (Inr x) t) \<Longrightarrow> (\<And>t. Q (Inl ECrashed) t) \<Longrightarrow> wp (remote c a) Q w"
  by (auto simp: wp_def remote_def Let_def split: fault.split)

lemma requests_safe:
  "wp (s3Authorize s k c) onlySafe w" "wp (s3Head s k) onlySafe w"
  "wp (s3ReadPrefix s k i) onlySafe w" "wp (s3Delete s k) onlySafe w"
  unfolding s3Authorize_def s3Head_def s3ReadPrefix_def s3Delete_def safely_def Let_def wp_simps
  by (auto simp: wp_simps safeErr_def [of ErrInvalidKey] safeErr_def [of ErrUnavailable]
      safeErr_def [of ErrObjectChanged] safeErr_def [of ECrashed]
      intro!: wp_now remote_safe split: sum.split)

text \<open>A prefix that is returned is exactly the first bytes of the version that was inspected.\<close>

lemma s3ReadPrefix_length:
  assumes "s3ReadPrefix s k info w = (Inr p, t)"
  shows "int (length p) = min (oi_size info) 512 \<and> 0 < oi_size info"
proof -
  have "wpE (s3ReadPrefix s k info) (\<lambda>p _. int (length p) = min (oi_size info) 512 \<and> 0 < oi_size info) (\<lambda>_. True) w"
    unfolding s3ReadPrefix_def safely_def Let_def
    by (intro vcg) auto
  with assms show ?thesis by (auto dest: wpE_D1)
qed

end
