(* ===== verification/Media.thy ===== *)
theory Media
  imports Validation Quotas S3Store
begin

text \<open>
  \<open>internal/media/media.go\<close>: guest sessions, the local upload, and the removal of an attempt. An
  upload is written in the phases in which the source holds no lock on the database: admission (one
  transaction that checks and reserves), the transfer into the store, the completion (a second
  transaction), and the deferred removal of an attempt that did not become ready.
\<close>

section \<open>The service\<close>

text \<open>What \<open>media.Service\<close> is configured with at start-up; its mutable state is in the world.\<close>

record service =
  sv_backends :: backend_set
  sv_store :: store
  sv_ceiling :: int
  sv_ttl :: int
  sv_max_assets :: int
  sv_max_bytes :: int

definition Strategy :: "service \<Rightarrow> string" where
  "Strategy sv = (if bs_active (sv_backends sv) \<noteq> 1 then ''direct'' else ''local'')"

definition openEvent :: "string \<Rightarrow> event_row wop" where
  "openEvent public =
     bindE (getPublic public) (\<lambda>e.
     bindE now (\<lambda>t.
     bindE (failIf (ev_deleting e \<or> eventStatus e t \<noteq> Open) ErrClosed) (\<lambda>_.
     ret e)))"

definition checkOpen :: "int \<Rightarrow> string \<Rightarrow> unit wop" where
  "checkOpen eventID public =
     bindE (queryRow (\<lambda>d. find (\<lambda>e. ev_id e = eventID \<and> ev_public e = public) (events d))) (\<lambda>e.
     bindE (failIf (\<not> ev_enabled e \<or> ev_deleting e) ErrClosed) (\<lambda>_.
     case ev_expires e of
       None \<Rightarrow> ret ()
     | Some x \<Rightarrow> bindE now (\<lambda>t. failIf (\<not> t < instant x) ErrClosed)))"

section \<open>Upload sessions\<close>

text \<open>\<open>INSERT INTO upload_sessions\<close>: primary key, foreign key and the CHECKs of 007 and 009.\<close>

definition insertSession :: "session_row \<Rightarrow> db \<Rightarrow> err + db \<times> unit" where
  "insertSession u d =
     (if list_all (\<lambda>v. us_id v \<noteq> us_id u) (sessions d) \<and> list_ex (\<lambda>e. ev_id e = us_event u) (events d) \<and>
         0 < us_max_assets u \<and> 0 < us_max_bytes u \<and>
         (case us_contributor u of None \<Rightarrow> True | Some c \<Rightarrow> 1 \<le> runeCount c \<and> runeCount c \<le> 100)
      then Inr (d\<lparr>sessions := sessions d @ [u]\<rparr>, ()) else Inl EConstraint)"

definition CreateAttributedSession :: "service \<Rightarrow> string \<Rightarrow> bool \<Rightarrow> string \<Rightarrow> (string \<times> int) wop" where
  "CreateAttributedSession sv public verified name =
     bindE (liftE (NormalizeContributor name)) (\<lambda>contributor.
     bindE (openEvent public) (\<lambda>e.
     withRLock (ev_id e) (inTx (
       bindE (checkOpen (ev_id e) public) (\<lambda>_.
       bindE randomBytes (\<lambda>bs.
       bindE timestamp (\<lambda>t.
       bindE now (\<lambda>t2.
       (let expires = t2 + sv_ttl sv in
        bindE (exec (insertSession \<lparr>us_id = randomID bs, us_event = ev_id e, us_created = t, us_updated = t,
          us_expires = Stamp expires, us_max_assets = sv_max_assets sv, us_max_bytes = sv_max_bytes sv,
          us_verified = (if verified then Some t else None), us_contributor = contributor\<rparr>)) (\<lambda>_.
        ret (randomID bs, expires)))))))))))"

section \<open>Removing an attempt\<close>

definition checkDirectKey :: "backend_set \<Rightarrow> int \<Rightarrow> string \<Rightarrow> string \<Rightarrow> int \<Rightarrow> err + s3cfg" where
  "checkDirectKey bs eventID i key backendID =
     (case resolve bs backendID of
        Inl e \<Rightarrow> Inl e
      | Inr b \<Rightarrow>
          (if be_type b \<noteq> ''s3'' then Inl ErrBackend
           else (case be_direct b of
                   None \<Rightarrow> Inl ErrBackend
                 | Some s \<Rightarrow> if \<not> validID i \<or> key \<noteq> s3Key s eventID i then Inl ErrInvalidKey else Inr s)))"

text \<open>\<open>INSERT OR IGNORE INTO s3_cleanup\<close>: the foreign key is checked, a known key is left as it is.\<close>

definition retireKey :: "cleanup_row \<Rightarrow> db \<Rightarrow> err + db \<times> unit" where
  "retireKey r d =
     (if list_ex (\<lambda>q. cl_key q = cl_key r) (retired d) then Inr (d, ())
      else if \<not> list_ex (\<lambda>b. sb_id b = cl_backend r) (backends d) then Inl EConstraint
      else Inr (d\<lparr>retired := retired d @ [r]\<rparr>, ()))"

definition isAttempt :: "string \<Rightarrow> int \<Rightarrow> asset_row \<Rightarrow> bool" where
  "isAttempt i eventID a \<longleftrightarrow> as_id a = i \<and> as_event a = eventID \<and> as_status a = Pending"

definition removeObject :: "service \<Rightarrow> int \<Rightarrow> string \<Rightarrow> string \<Rightarrow> int \<Rightarrow> unit wop" where
  "removeObject sv eventID i key backendID =
     bindE (liftE (resolve (sv_backends sv) backendID)) (\<lambda>b.
     if be_type b = ''local'' then
       bindE (failIf (key \<noteq> objectKey eventID i) ErrInvalidKey) (\<lambda>_.
       st_delete (sv_store sv) key)
     else if be_type b = ''s3'' then
       bindE (liftE (checkDirectKey (sv_backends sv) eventID i key backendID)) (\<lambda>s.
       bindE timestamp (\<lambda>t.
       bindE (exec (retireKey \<lparr>cl_key = key, cl_target = s3_target s, cl_event = eventID, cl_asset = i,
                               cl_checked = t, cl_backend = backendID\<rparr>)) (\<lambda>_.
       s3Delete s key)))
     else raise ErrBackend)"

definition removeAttempt :: "service \<Rightarrow> int \<Rightarrow> string \<Rightarrow> string \<Rightarrow> unit wop" where
  "removeAttempt sv eventID i key =
     bindE (failIf (\<not> validID i) ErrInvalidKey) (\<lambda>_.
     tryE (queryRow (\<lambda>d. find (\<lambda>a. as_id a = i \<and> as_event a = eventID \<and> as_key a = key) (assets d))) (\<lambda>r.
       case r of
         Inl e \<Rightarrow> if e = NoRows then ret () else raise e
       | Inr a \<Rightarrow>
           bindE (failIf (as_status a \<noteq> Pending) (Failure ''refusing to clean up a completed asset'')) (\<lambda>_.
           bindE (removeObject sv eventID i key (as_backend a)) (\<lambda>_.
           exec (\<lambda>d. Inr (deleteAssets (isAttempt i eventID) d, ()))))))"

section \<open>Upload\<close>

record asset_info =
  am_id :: string
  am_filename :: string
  am_mime :: string
  am_size :: int
  am_ready :: bool

text \<open>\<open>io.ReadFull(io.LimitReader(source, limit+1), prefix[:])\<close>: up to 512 bytes, or a read error.\<close>

definition readHeader :: "reader \<Rightarrow> int \<Rightarrow> err + string" where
  "readHeader source limit =
     (let src = limitReader (limit + 1) source in
      if length (rd_data src) < 512 \<and> rd_broken src then Inl (Failure ''read upload header'')
      else Inr (take 512 (rd_data src)))"

text \<open>\<open>io.MultiReader(bytes.NewReader(prefix[:n]), io.LimitReader(source, expected-int64(n)+1))\<close>.\<close>

definition uploadBody :: "reader \<Rightarrow> string \<Rightarrow> int \<Rightarrow> reader" where
  "uploadBody source prefix expected =
     (let rest = limitReader (expected - int (length prefix) + 1) (source\<lparr>rd_data := drop (length prefix) (rd_data source)\<rparr>)
      in \<lparr>rd_data = prefix @ rd_data rest, rd_broken = rd_broken rest\<rparr>)"

text \<open>The columns of the pending row; the others take the defaults of the schema.\<close>

definition pendingLocal :: "string \<Rightarrow> int \<Rightarrow> string \<Rightarrow> string \<Rightarrow> stamp \<Rightarrow> int \<Rightarrow> string option \<Rightarrow> string \<Rightarrow> asset_row" where
  "pendingLocal i eventID sessionID filename t expected contributor cls =
     \<lparr>as_id = i, as_event = eventID, as_session = sessionID, as_filename = filename,
      as_key = objectKey eventID i, as_mime = [], as_size = 0, as_status = Pending, as_created = t,
      as_completed = None, as_provider = ''local'', as_target = [], as_expected = expected,
      as_expected_mime = [], as_authorized = None, as_request = None, as_backend = 1,
      as_contributor = contributor, as_class = Some cls\<rparr>"

text \<open>The admission transaction: the expected size that is reserved, and the limit of the file.\<close>

definition admit ::
    "int \<Rightarrow> string \<Rightarrow> string \<Rightarrow> string \<Rightarrow> string \<Rightarrow> stamp \<Rightarrow> string \<Rightarrow> int \<Rightarrow> int \<Rightarrow> int \<Rightarrow> (int \<times> int) wop" where
  "admit eventID public sessionID filename i t cls n claimed limit = inTx (
     bindE (checkOpen eventID public) (\<lambda>_.
     bindE (checkSession eventID sessionID) (\<lambda>q.
     bindE (fileLimit eventID cls limit) (\<lambda>limit.
     bindE (failIf (limit < claimed \<or> limit < n) (fileQuota cls)) (\<lambda>_.
     (let expected = (if claimed < 0 then limit else claimed) in
      bindE (reserve eventID sessionID expected q cls) (\<lambda>_.
      bindE (exec (insertAsset (pendingLocal i eventID sessionID filename t expected (q_contributor q) cls))) (\<lambda>_.
      ret (expected, limit)))))))))"

text \<open>\<open>UPDATE assets SET ... status='ready'\<close>: the rows affected; the CHECK of ready rows.\<close>

definition markReady :: "(asset_row \<Rightarrow> bool) \<Rightarrow> (asset_row \<Rightarrow> asset_row) \<Rightarrow> db \<Rightarrow> err + db \<times> int" where
  "markReady P g d =
     (if list_ex (\<lambda>a. P a \<and> (as_size (g a) \<le> 0 \<or> as_mime (g a) = [] \<or> as_completed (g a) = None)) (assets d)
      then Inl EConstraint
      else Inr (d\<lparr>assets := updWhere P g (assets d)\<rparr>, countWhere P (assets d)))"

definition isPending :: "string \<Rightarrow> asset_row \<Rightarrow> bool" where
  "isPending i a \<longleftrightarrow> as_id a = i \<and> as_status a = Pending"

definition touchSession :: "string \<Rightarrow> stamp \<Rightarrow> db \<Rightarrow> err + db \<times> unit" where
  "touchSession s t d = Inr (d\<lparr>sessions := updWhere (\<lambda>u. us_id u = s) (us_updated_update (\<lambda>_. t)) (sessions d)\<rparr>, ())"

definition completed :: "string \<Rightarrow> int \<Rightarrow> stamp \<Rightarrow> asset_row \<Rightarrow> asset_row" where
  "completed kind sz t a = a\<lparr>as_mime := kind, as_size := sz, as_status := Ready, as_completed := Some t\<rparr>"

definition finish :: "int \<Rightarrow> string \<Rightarrow> string \<Rightarrow> string \<Rightarrow> string \<Rightarrow> int \<Rightarrow> unit wop" where
  "finish eventID public sessionID i kind sz = inTx (
     bindE (checkOpen eventID public) (\<lambda>_.
     bindE timestamp (\<lambda>t.
     bindE (exec (markReady (isPending i) (completed kind sz t))) (\<lambda>count.
     bindE (failIf (count \<noteq> 1) (Failure ''pending asset disappeared during upload'')) (\<lambda>_.
     exec (touchSession sessionID t))))))"

text \<open>From the admission to the result: transfer, size and type checks, completion.\<close>

definition transfer ::
    "service \<Rightarrow> int \<Rightarrow> string \<Rightarrow> string \<Rightarrow> string \<Rightarrow> string \<Rightarrow> reader \<Rightarrow> string \<Rightarrow> string \<Rightarrow> int \<Rightarrow> int \<Rightarrow> int \<Rightarrow> asset_info wop" where
  "transfer sv eventID public sessionID filename i source prefix kind claimed expected limit =
     (let key = objectKey eventID i; cls = mediaClass kind in
      bindE (failIf (expected < int (length prefix)) ErrSize) (\<lambda>_.
      bindE (tryE (st_put (sv_store sv) key (uploadBody source prefix expected) expected) (\<lambda>r.
               case r of
                 Inr n \<Rightarrow> ret n
               | Inl e \<Rightarrow> raise (if errorsIs e ErrTooLarge \<and> expected = limit then fileQuota cls else e))) (\<lambda>n.
      bindE (failIf (n \<le> 0 \<or> limit < n \<or> (0 \<le> claimed \<and> n \<noteq> claimed)) ErrSize) (\<lambda>_.
      bindE (liftE (Sniff prefix n)) (\<lambda>_.
      bindE (finish eventID public sessionID i kind n) (\<lambda>_.
      ret \<lparr>am_id = i, am_filename = filename, am_mime = kind, am_size = n, am_ready = True\<rparr>))))))"

definition uploadLocked ::
    "service \<Rightarrow> int \<Rightarrow> string \<Rightarrow> string \<Rightarrow> string \<Rightarrow> reader \<Rightarrow> int \<Rightarrow> int \<Rightarrow> asset_info wop" where
  "uploadLocked sv eventID public sessionID filename source claimed limit =
     bindE (liftE (readHeader source limit)) (\<lambda>prefix.
     (let n = int (length prefix) in
      bindE (failIf (limit < n) ErrTooLarge) (\<lambda>_.
      bindE (liftE (Sniff prefix (-1))) (\<lambda>kind.
      bindE randomBytes (\<lambda>bs.
      bindE timestamp (\<lambda>t.
      (let i = randomID bs in
       bindE (admit eventID public sessionID filename i t (mediaClass kind) n claimed limit) (\<lambda>(expected, limit).
       onError (transfer sv eventID public sessionID filename i source prefix kind claimed expected limit)
               (removeAttempt sv eventID i (objectKey eventID i))))))))))"

definition Upload ::
    "service \<Rightarrow> string \<Rightarrow> string \<Rightarrow> string \<Rightarrow> string \<Rightarrow> reader \<Rightarrow> int \<Rightarrow> int \<Rightarrow> asset_info wop" where
  "Upload sv public sessionID filename declared source claimed limit =
     bindE (failIf (bs_active (sv_backends sv) \<noteq> 1) ErrStrategy) (\<lambda>_.
     bindE (liftE (ValidateFilename filename)) (\<lambda>_.
     bindE (liftE (ValidateDeclaredType declared)) (\<lambda>_.
     bindE (failIf (limit < claimed) ErrTooLarge) (\<lambda>_.
     bindE (failIf (\<not> validID sessionID) ErrSession) (\<lambda>_.
     bindE (openEvent public) (\<lambda>e.
     withRLock (ev_id e) (uploadLocked sv (ev_id e) public sessionID filename source claimed limit)))))))"

end
