(* ===== verification/Direct.thy ===== *)
theory Direct
  imports Media
begin

text \<open>
  \<open>internal/media/direct.go\<close>: uploads that go from the browser to object storage. A prepared attempt
  is a pending row with its key, size and type fixed; an authorization is a presigned request for that
  key; completion inspects the object that arrived and marks the row ready or rejects the object.
\<close>

section \<open>State and look-up\<close>

record preparation =
  pr_filename :: string
  pr_size :: int
  pr_type :: string
  pr_request :: string
  pr_class :: string

text \<open>The asset and its event as \<open>loadDirect\<close> joins them.\<close>

record direct_asset =
  da_row :: asset_row
  da_event :: event_row

definition assetInfo :: "asset_row \<Rightarrow> asset_info" where
  "assetInfo a = \<lparr>am_id = as_id a, am_filename = as_filename a, am_mime = as_mime a, am_size = as_size a,
     am_ready = (as_status a = Ready)\<rparr>"

definition joinDirect :: "string \<Rightarrow> string \<Rightarrow> string \<Rightarrow> db \<Rightarrow> direct_asset option" where
  "joinDirect public sessionID i d =
     (case find (\<lambda>a. as_id a = i \<and> as_session a = sessionID \<and>
               list_ex (\<lambda>e. ev_id e = as_event a \<and> ev_public e = public) (events d) \<and>
               list_ex (\<lambda>u. us_id u = sessionID \<and> us_event u = as_event a) (sessions d) \<and>
               list_ex (\<lambda>b. sb_id b = as_backend a \<and> sb_type b = ''s3'') (backends d)) (assets d) of
        None \<Rightarrow> None
      | Some a \<Rightarrow> map_option (\<lambda>e. \<lparr>da_row = a, da_event = e\<rparr>) (find (\<lambda>e. ev_id e = as_event a) (events d)))"

definition loadDirect :: "string \<Rightarrow> string \<Rightarrow> string \<Rightarrow> direct_asset wop" where
  "loadDirect public sessionID i =
     bindE (failIf (\<not> validID i \<or> \<not> validID sessionID) ErrAsset) (\<lambda>_.
     tryE (queryRow (joinDirect public sessionID i)) (\<lambda>r.
       case r of Inl e \<Rightarrow> raise (if e = NoRows then ErrAsset else e) | Inr a \<Rightarrow> ret a))"

text \<open>\<open>directLock\<close>: the event's lock is shared; the stripe of the asset is exclusive among completions and
authorizations, which run one at a time here.\<close>

definition directLock :: "string \<Rightarrow> string \<Rightarrow> 'a wop \<Rightarrow> 'a wop" where
  "directLock public i body =
     bindE (failIf (\<not> validID i) ErrAsset) (\<lambda>_.
     bindE (getPublic public) (\<lambda>e.
     withRLock (ev_id e) body))"

section \<open>Authorize\<close>

definition setAuthorized :: "string \<Rightarrow> int \<Rightarrow> db \<Rightarrow> err + db \<times> unit" where
  "setAuthorized i t d =
     Inr (d\<lparr>assets := updWhere (isPending i) (as_authorized_update (\<lambda>_. Some (Stamp t))) (assets d)\<rparr>, ())"

definition Authorize :: "service \<Rightarrow> string \<Rightarrow> string \<Rightarrow> string \<Rightarrow> (asset_info \<times> upload_plan) wop" where
  "Authorize sv public sessionID i =
     directLock public i (
       bindE (loadDirect public sessionID i) (\<lambda>a.
       (let row = da_row a; eventID = as_event row in
        bindE (failIf (as_status row = Ready) ErrReady) (\<lambda>_.
        bindE (openEvent public) (\<lambda>_.
        bindE (liftE (checkDirectKey (sv_backends sv) eventID i (as_key row) (as_backend row))) (\<lambda>s.
        bindE (s3Authorize s (as_key row) (as_expected_mime row)) (\<lambda>plan.
        bindE (inTx (
          bindE (checkOpen eventID public) (\<lambda>_.
          bindE (checkSession eventID sessionID) (\<lambda>_.
          exec (setAuthorized i (up_expires plan)))))) (\<lambda>_.
        ret (assetInfo row, plan)))))))))"

section \<open>Prepare\<close>

definition pendingDirect ::
    "s3cfg \<Rightarrow> int \<Rightarrow> string \<Rightarrow> int \<Rightarrow> string \<Rightarrow> preparation \<Rightarrow> stamp \<Rightarrow> string option \<Rightarrow> asset_row" where
  "pendingDirect s backendID i eventID sessionID p t contributor =
     \<lparr>as_id = i, as_event = eventID, as_session = sessionID, as_filename = pr_filename p,
      as_key = s3Key s eventID i, as_mime = [], as_size = 0, as_status = Pending, as_created = t,
      as_completed = None, as_provider = ''s3'', as_target = s3_target s, as_expected = pr_size p,
      as_expected_mime = pr_type p, as_authorized = None, as_request = Some (pr_request p),
      as_backend = backendID, as_contributor = contributor, as_class = Some (pr_class p)\<rparr>"

text \<open>An attempt with the same request identifier must have been prepared with the same metadata.\<close>

definition sameAttempt :: "preparation \<Rightarrow> asset_row \<Rightarrow> bool" where
  "sameAttempt p a \<longleftrightarrow> as_filename a = pr_filename p \<and> as_expected a = pr_size p \<and>
     as_expected_mime a = pr_type p \<and> (as_class a = None \<or> as_class a = Some (pr_class p))"

definition attemptOf :: "string \<Rightarrow> string \<Rightarrow> db \<Rightarrow> asset_row option" where
  "attemptOf sessionID request d =
     find (\<lambda>a. as_session a = sessionID \<and> as_request a = Some request) (assets d)"

text \<open>A new attempt: its file limit, the reservation, and the pending row.\<close>

definition prepareNew ::
    "s3cfg \<Rightarrow> int \<Rightarrow> int \<Rightarrow> string \<Rightarrow> preparation \<Rightarrow> quota_session \<Rightarrow> int \<Rightarrow> string wop" where
  "prepareNew s backendID eventID sessionID p q limit =
     bindE (fileLimit eventID (pr_class p) limit) (\<lambda>effective.
     bindE (failIf (effective < pr_size p) (fileQuota (pr_class p))) (\<lambda>_.
     bindE randomBytes (\<lambda>bs.
     bindE (reserve eventID sessionID (pr_size p) q (pr_class p)) (\<lambda>_.
     bindE timestamp (\<lambda>t.
     bindE (exec (insertAsset (pendingDirect s backendID (randomID bs) eventID sessionID p t (q_contributor q)))) (\<lambda>_.
     ret (randomID bs)))))))"

definition prepareTx ::
    "s3cfg \<Rightarrow> int \<Rightarrow> int \<Rightarrow> string \<Rightarrow> string \<Rightarrow> preparation \<Rightarrow> int \<Rightarrow> string wop" where
  "prepareTx s backendID eventID public sessionID p limit = inTx (
     bindE (checkOpen eventID public) (\<lambda>_.
     bindE (checkSession eventID sessionID) (\<lambda>q.
     tryE (queryRow (attemptOf sessionID (pr_request p))) (\<lambda>r.
       case r of
         Inr a \<Rightarrow> bindE (failIf (\<not> sameAttempt p a) ErrRequest) (\<lambda>_. ret (as_id a))
       | Inl e \<Rightarrow> bindE (failIf (e \<noteq> NoRows) e) (\<lambda>_. prepareNew s backendID eventID sessionID p q limit)))))"

text \<open>The declared type and class of the request, checked and completed.\<close>

definition normalize :: "preparation \<Rightarrow> err + preparation" where
  "normalize p =
     (let declared = (if pr_type p = [] then ''application/octet-stream'' else pr_type p);
          kind = fst (parseMediaType declared);
          inferred = mediaClass kind;
          cls = (if pr_class p = [] then inferred else pr_class p)
      in if (cls \<noteq> ''photo'' \<and> cls \<noteq> ''video'') \<or> (inferred \<noteq> [] \<and> inferred \<noteq> cls) then Inl ErrType
         else Inr (p\<lparr>pr_type := kind, pr_class := cls\<rparr>))"

definition Prepare :: "service \<Rightarrow> string \<Rightarrow> string \<Rightarrow> preparation \<Rightarrow> int \<Rightarrow> (asset_info \<times> upload_plan) wop" where
  "Prepare sv public sessionID p limit =
     bindE (failIf (bs_active (sv_backends sv) = 1) ErrStrategy) (\<lambda>_.
     bindE (liftE (resolve (sv_backends sv) (bs_active (sv_backends sv)))) (\<lambda>active.
     bindE (liftE (ValidateFilename (pr_filename p))) (\<lambda>_.
     bindE (liftE (ValidateDeclaredType (pr_type p))) (\<lambda>_.
     bindE (liftE (normalize p)) (\<lambda>p.
     bindE (failIf (pr_size p \<le> 0) ErrEmpty) (\<lambda>_.
     bindE (failIf (limit < pr_size p) ErrTooLarge) (\<lambda>_.
     bindE (failIf (\<not> validID (pr_request p)) ErrRequest) (\<lambda>_.
     bindE (failIf (\<not> validID sessionID) ErrSession) (\<lambda>_.
     bindE (openEvent public) (\<lambda>e.
     case be_direct active of
       None \<Rightarrow> raise (Failure ''nil pointer dereference'')
     | Some s \<Rightarrow>
         bindE (withRLock (ev_id e) (prepareTx s (be_id active) (ev_id e) public sessionID p limit)) (\<lambda>i.
         Authorize sv public sessionID i)))))))))))"

section \<open>Complete\<close>

text \<open>\<open>reject\<close>: the object is deleted, the pending row is kept for a retry under the same key.\<close>

definition rejectObject :: "s3cfg \<Rightarrow> string \<Rightarrow> err \<Rightarrow> 'a wop" where
  "rejectObject s key cause = bindE (s3Delete s key) (\<lambda>_. raise cause)"

definition rejectIf :: "s3cfg \<Rightarrow> string \<Rightarrow> bool \<Rightarrow> err \<Rightarrow> unit wop" where
  "rejectIf s key bad cause = (if bad then rejectObject s key cause else ret ())"

text \<open>The content type that storage reports must be the declared one.\<close>

definition typeDiffers :: "object_info \<Rightarrow> string \<Rightarrow> bool" where
  "typeDiffers info expected \<longleftrightarrow> oi_type info \<noteq> [] \<and>
     (case parseMediaType (oi_type info) of (kind, ok) \<Rightarrow> \<not> ok \<or> kind \<noteq> expected)"

definition completedDirect :: "string \<Rightarrow> string \<Rightarrow> int \<Rightarrow> stamp \<Rightarrow> asset_row \<Rightarrow> asset_row" where
  "completedDirect kind cls sz t a =
     a\<lparr>as_mime := kind, as_size := sz, as_status := Ready, as_completed := Some t, as_class := Some cls\<rparr>"

definition completeTx ::
    "service \<Rightarrow> string \<Rightarrow> string \<Rightarrow> asset_row \<Rightarrow> string \<Rightarrow> string \<Rightarrow> int \<Rightarrow> unit wop" where
  "completeTx sv public sessionID row kind cls sz = inTx (
     bindE (queryRow (\<lambda>d. find (\<lambda>e. ev_id e = as_event row \<and> ev_public e = public) (events d))) (\<lambda>e.
     bindE (failIf (ev_deleting e) ErrClosed) (\<lambda>_.
     bindE (if as_class row = None
            then bindE (fileLimit (as_event row) cls (sv_ceiling sv)) (\<lambda>limit.
                 bindE (failIf (limit < sz) (fileQuota cls)) (\<lambda>_.
                 reserveClass (as_event row) cls sz))
            else ret ()) (\<lambda>_.
     bindE timestamp (\<lambda>t.
     bindE (exec (markReady (isPending (as_id row)) (completedDirect kind cls sz t))) (\<lambda>count.
     bindE (failIf (count \<noteq> 1) ErrAsset) (\<lambda>_.
     exec (touchSession sessionID t))))))))"

definition verifyObject :: "service \<Rightarrow> string \<Rightarrow> string \<Rightarrow> s3cfg \<Rightarrow> asset_row \<Rightarrow> asset_info wop" where
  "verifyObject sv public sessionID s row =
     (let key = as_key row in
      bindE (s3Head s key) (\<lambda>info.
      bindE (rejectIf s key (oi_size info \<noteq> as_expected row \<or> oi_size info \<le> 0) ErrSize) (\<lambda>_.
      bindE (rejectIf s key (typeDiffers info (as_expected_mime row)) ErrType) (\<lambda>_.
      bindE (s3ReadPrefix s key info) (\<lambda>prefix.
      case Sniff prefix (oi_size info) of
        Inl cause \<Rightarrow> rejectObject s key cause
      | Inr kind \<Rightarrow>
          bindE (rejectIf s key (as_class row \<noteq> None \<and> as_class row \<noteq> Some (mediaClass kind)) ErrType) (\<lambda>_.
          bindE (completeTx sv public sessionID row kind (mediaClass kind) (oi_size info)) (\<lambda>_.
          ret ((assetInfo row)\<lparr>am_ready := True, am_size := oi_size info, am_mime := kind\<rparr>))))))))"

definition Complete :: "service \<Rightarrow> string \<Rightarrow> string \<Rightarrow> string \<Rightarrow> asset_info wop" where
  "Complete sv public sessionID i =
     directLock public i (
       bindE (loadDirect public sessionID i) (\<lambda>a.
       (let row = da_row a in
        bindE (failIf (ev_deleting (da_event a)) ErrClosed) (\<lambda>_.
        if as_status row = Ready then ret (assetInfo row)
        else bindE (liftE (checkDirectKey (sv_backends sv) (as_event row) i (as_key row) (as_backend row))) (\<lambda>s.
             verifyObject sv public sessionID s row)))))"

end
