(* ===== verification/Cleanup.thy ===== *)
theory Cleanup
  imports Direct
begin

text \<open>
  Maintenance and deletion of \<open>internal/media\<close>: the periodic cleanup of stale attempts and of objects
  that a late request may have recreated, and the deletion of an event. The cleanup's own lock
  (\<open>cleanupMu\<close>) means that one pass runs at a time, as here.
\<close>

definition nanosPerHour :: int where
  "nanosPerHour = 3600 * nanosPerSecond"

section \<open>Retired keys\<close>

definition dueRetired :: "stamp \<Rightarrow> string \<Rightarrow> db \<Rightarrow> cleanup_row list" where
  "dueRetired cutoff after d =
     limitTo 1000 (sort_key cl_key (filter (\<lambda>r. cl_checked r < cutoff \<and> after < cl_key r) (retired d)))"

definition markChecked :: "string \<Rightarrow> stamp \<Rightarrow> db \<Rightarrow> err + db \<times> unit" where
  "markChecked key t d = Inr (d\<lparr>retired := updWhere (\<lambda>r. cl_key r = key) (cl_checked_update (\<lambda>_. t)) (retired d)\<rparr>, ())"

definition cleanRetired :: "service \<Rightarrow> cleanup_row \<Rightarrow> unit wop" where
  "cleanRetired sv r =
     bindE (modify (retiredAfter_update (\<lambda>_. cl_key r))) (\<lambda>_.
     tryE (bindE (liftE (checkDirectKey (sv_backends sv) (cl_event r) (cl_asset r) (cl_key r) (cl_backend r)))
             (\<lambda>s. s3Delete s (cl_key r))) (\<lambda>res.
       case res of
         Inl e \<Rightarrow> ctxErr
       | Inr _ \<Rightarrow> bindE timestamp (\<lambda>t. exec (markChecked (cl_key r) t))))"

definition cleanupRetired :: "service \<Rightarrow> unit wop" where
  "cleanupRetired sv =
     bindE now (\<lambda>t.
     bindE (gets retiredAfter) (\<lambda>after.
     bindE (query (\<lambda>d. Inr (dueRetired (Stamp (t - nanosPerHour)) after d))) (\<lambda>items.
     bindE (forE (cleanRetired sv) items) (\<lambda>_.
     modify (\<lambda>w. if int (length items) < 1000 then w\<lparr>retiredAfter := []\<rparr> else w)))))"

section \<open>Stale attempts\<close>

text \<open>Sessions that have expired and hold no asset.\<close>

definition emptyExpired :: "stamp \<Rightarrow> db \<Rightarrow> string list" where
  "emptyExpired t d =
     map us_id (limitTo 5000 (sort_key us_expires
       (filter (\<lambda>u. us_expires u \<le> t \<and> \<not> list_ex (\<lambda>a. as_session a = us_id u) (assets d)) (sessions d))))"

definition dropExpired :: "stamp \<Rightarrow> db \<Rightarrow> err + db \<times> unit" where
  "dropExpired t d = Inr (deleteSessions (\<lambda>u. us_id u \<in> set (emptyExpired t d)) d, ())"

definition staleAt :: "stamp \<Rightarrow> asset_row \<Rightarrow> bool" where
  "staleAt cutoff a \<longleftrightarrow> as_status a = Pending \<and> as_created a < cutoff \<and>
     (case as_authorized a of None \<Rightarrow> True | Some x \<Rightarrow> x < cutoff)"

definition dueAttempts :: "stamp \<Rightarrow> string \<Rightarrow> db \<Rightarrow> asset_row list" where
  "dueAttempts cutoff after d = limitTo 1000 (sort_key as_id (filter (\<lambda>a. staleAt cutoff a \<and> after < as_id a) (assets d)))"

definition stillStale :: "string \<Rightarrow> stamp \<Rightarrow> db \<Rightarrow> bool" where
  "stillStale i cutoff d \<longleftrightarrow> list_ex (\<lambda>a. as_id a = i \<and> staleAt cutoff a) (assets d)"

definition cleanAttempt :: "service \<Rightarrow> stamp \<Rightarrow> asset_row \<Rightarrow> unit wop" where
  "cleanAttempt sv cutoff p =
     bindE (modify (cleanupAfter_update (\<lambda>_. as_id p))) (\<lambda>_.
     bindE (tryLock (as_event p)) (\<lambda>locked.
     if \<not> locked then ret ()
     else tryE (bindE (query (\<lambda>d. Inr (stillStale (as_id p) cutoff d))) (\<lambda>stale.
                if stale then removeAttempt sv (as_event p) (as_id p) (as_key p) else ret ())) (\<lambda>r.
            case r of Inl e \<Rightarrow> ctxErr | Inr _ \<Rightarrow> ret ())))"

definition runCleanup :: "service \<Rightarrow> unit wop" where
  "runCleanup sv =
     bindE timestamp (\<lambda>t.
     bindE (exec (dropExpired t)) (\<lambda>_.
     bindE now (\<lambda>t2.
     (let cutoff = Stamp (t2 - nanosPerHour) in
      bindE (gets cleanupAfter) (\<lambda>after.
      bindE (query (\<lambda>d. Inr (dueAttempts cutoff after d))) (\<lambda>attempts.
      bindE (forE (cleanAttempt sv cutoff) attempts) (\<lambda>_.
      bindE (modify (\<lambda>w. if int (length attempts) < 1000 then w\<lparr>cleanupAfter := []\<rparr> else w)) (\<lambda>_.
      cleanupRetired sv))))))))"

section \<open>Deleting an event\<close>

definition markDeleting :: "int \<Rightarrow> string \<Rightarrow> stamp \<Rightarrow> db \<Rightarrow> err + db \<times> int" where
  "markDeleting i public t d =
     (let P = (\<lambda>e. ev_id e = i \<and> ev_public e = public) in
      Inr (d\<lparr>events := updWhere P (\<lambda>e. e\<lparr>ev_deleting := True, ev_enabled := False, ev_updated := t\<rparr>) (events d)\<rparr>,
           countWhere P (events d)))"

definition unready :: "string \<Rightarrow> db \<Rightarrow> err + db \<times> unit" where
  "unready i d =
     Inr (d\<lparr>assets := updWhere (\<lambda>a. as_id a = i) (\<lambda>a. a\<lparr>as_status := Pending, as_completed := None\<rparr>) (assets d)\<rparr>, ())"

text \<open>
  The loop over the event's assets. Every round that does not fail removes one, so that a number of
  rounds above the number of assets is never used up (\<open>deleteLoop_fuel\<close>).
\<close>

primrec deleteLoop :: "nat \<Rightarrow> service \<Rightarrow> int \<Rightarrow> unit wop" where
  "deleteLoop 0 sv i = raise (Failure ''fuel'')"
| "deleteLoop (Suc k) sv i =
     tryE (queryRow (\<lambda>d. find (\<lambda>a. as_event a = i) (assets d))) (\<lambda>r.
       case r of
         Inl e \<Rightarrow> if e = NoRows then ret () else raise e
       | Inr a \<Rightarrow>
           bindE (exec (unready (as_id a))) (\<lambda>_.
           bindE (orErr (removeAttempt sv i (as_id a) (as_key a)) ErrDeleting) (\<lambda>_.
           deleteLoop k sv i)))"

definition DeleteEvent :: "service \<Rightarrow> int \<Rightarrow> unit wop" where
  "DeleteEvent sv i =
     bindE (getEvent i) (\<lambda>e.
     bindE (tryLock i) (\<lambda>locked.
     bindE (failIf (\<not> locked) ErrBusy) (\<lambda>_.
     bindE timestamp (\<lambda>t.
     bindE (exec (markDeleting i (ev_public e) t)) (\<lambda>count.
     bindE (failIf (count \<noteq> 1) NoRows) (\<lambda>_.
     bindE (gets (\<lambda>w. Suc (length (assets (wdb w))))) (\<lambda>k.
     bindE (deleteLoop k sv i) (\<lambda>_.
     removeEvent i))))))))"

end
