(* ===== verification/MediaSafe.thy ===== *)
theory MediaSafe
  imports Media
begin

text \<open>
  What the operations of \<open>Media\<close> never break, whatever fails and wherever the process stops: the tie
  between the rows that are ready and the files of the upload directory, and the ready rows
  themselves. The argument about a store is made once, for its contract, and holds of the local
  directory by interpretation.
\<close>

section \<open>Ready rows have their file\<close>

type_synonym dir = "string \<Rightarrow> string option"

definition hasFile :: "dir \<Rightarrow> asset_row \<Rightarrow> bool" where
  "hasFile F a \<longleftrightarrow> validKey (as_key a) \<and> (\<exists>c. F (as_key a) = Some c \<and> int (length c) = as_size a)"

definition isReady :: "asset_row \<Rightarrow> bool" where
  "isReady a \<longleftrightarrow> as_status a = Ready"

definition stored :: "db \<Rightarrow> dir \<Rightarrow> bool" where
  "stored d F \<longleftrightarrow> distinct (map as_id (assets d)) \<and> distinct (map as_key (assets d)) \<and>
     (\<forall>a \<in> set (assets d). isReady a \<and> as_backend a = 1 \<longrightarrow> hasFile F a)"

text \<open>Ready rows stay as they are, and so do their files.\<close>

definition readyKept :: "world \<Rightarrow> world \<Rightarrow> bool" where
  "readyKept s t \<longleftrightarrow>
     (\<forall>a \<in> set (assets (wdb s)). isReady a \<longrightarrow>
        a \<in> set (assets (wdb t)) \<and>
        (as_backend a = 1 \<longrightarrow> files t (as_key a) = files s (as_key a)))"

definition under :: "(db \<Rightarrow> dir \<Rightarrow> bool) \<Rightarrow> world \<Rightarrow> world \<Rightarrow> bool" where
  "under P s t \<longleftrightarrow> (P (wdb s) (files s) \<longrightarrow> P (wdb t) (files t) \<and> readyKept s t)"

lemma readyKept_refl [simp]: "readyKept s s"
  by (simp add: readyKept_def)

lemma readyKept_trans: "readyKept s t \<Longrightarrow> readyKept t u \<Longrightarrow> readyKept s u"
  by (auto simp: readyKept_def)

interpretation under: world_order "under P" for P
  by unfold_locales (auto simp: under_def readyKept_def)

text \<open>With the directory untouched, any such step may be rolled back.\<close>

definition underTx :: "(db \<Rightarrow> dir \<Rightarrow> bool) \<Rightarrow> world \<Rightarrow> world \<Rightarrow> bool" where
  "underTx P s t \<longleftrightarrow> files t = files s \<and> under P s t"

interpretation under_tx: tx_order "underTx P" for P
  by unfold_locales (auto simp: underTx_def under_def readyKept_def)

lemma stored_rollback: "stored d F \<Longrightarrow> (\<And>a. a \<in> set (assets d) \<Longrightarrow> isReady a \<Longrightarrow> as_backend a = 1 \<Longrightarrow> F' (as_key a) = F (as_key a)) \<Longrightarrow>
    stored d F'"
  by (auto simp: stored_def hasFile_def)

interpretation guest: tx_order "under stored"
proof unfold_locales
  fix s t :: world
  assume step: "under stored s t"
  show "under stored s (t\<lparr>wdb := wdb s\<rparr>)"
    unfolding under_def
  proof
    assume ok: "stored (wdb s) (files s)"
    with step have kept: "readyKept s t" by (simp add: under_def)
    with ok have "stored (wdb s) (files t)" by (auto simp: readyKept_def intro: stored_rollback)
    with kept show "stored (wdb (t\<lparr>wdb := wdb s\<rparr>)) (files (t\<lparr>wdb := wdb s\<rparr>)) \<and> readyKept s (t\<lparr>wdb := wdb s\<rparr>)"
      by (simp add: readyKept_def)
  qed
qed

lemma quiet_under: "quiet s t \<Longrightarrow> under P s t"
  by (simp add: quiet_def under_def readyKept_def)

lemma quiet_underTx: "quiet s t \<Longrightarrow> underTx P s t"
  by (simp add: underTx_def quiet_under) (simp add: quiet_def)

lemma onlyTrace_under: "onlyTrace s t \<Longrightarrow> under P s t"
  by (simp add: onlyTrace_def under_def readyKept_def)

lemma under_withRLock: "upholds (under P) m \<Longrightarrow> upholds (under P) (withRLock i m)"
  by (rule under.up_withRLock) (simp_all add: under_def readyKept_def rlock_def runlock_def)

text \<open>A statement that leaves the assets alone.\<close>

lemma under_exec_other:
  assumes "\<And>d d' r. x d = Inr (d', r) \<Longrightarrow> assets d' = assets d"
    and "\<And>d d' F. assets d' = assets d \<Longrightarrow> P d F \<Longrightarrow> P d' F"
  shows "upholds (underTx P) (exec x)"
  using assms by (intro under_tx.up_exec) (fastforce simp: underTx_def under_def readyKept_def)

lemma underTx_under: "upholds (underTx P) m \<Longrightarrow> upholds (under P) m"
  by (erule upholds_mono) (simp add: underTx_def)

lemma stored_assets: "assets d' = assets d \<Longrightarrow> stored d F \<Longrightarrow> stored d' F"
  by (simp add: stored_def)

section \<open>The read-only parts\<close>

lemma quiet_reads:
  "upholds quiet (getPublic p)" "upholds quiet (getEvent n)" "upholds quiet (openEvent p)" "upholds quiet (checkOpen n p)"
  unfolding getPublic_def getEvent_def openEvent_def checkOpen_def
  by (intro quiet.up_rules quiet.up_world)+

lemmas under_reads = quiet_reads [THEN upholds_mono, OF quiet_under] quiet_checks [THEN upholds_mono, OF quiet_under]
lemmas underTx_reads = quiet_reads [THEN upholds_mono, OF quiet_underTx] quiet_checks [THEN upholds_mono, OF quiet_underTx]

section \<open>Admission and completion\<close>

lemma insertAsset_stored:
  assumes "insertAsset a d = Inr (d', ())" and "as_status a = Pending" and "stored d F"
  shows "stored d' F \<and> set (assets d) \<subseteq> set (assets d')"
  using assms by (auto simp: insertAsset_def assetInsertOk_def stored_def isReady_def list_all_iff split: if_splits) blast+

lemma insertAsset_under:
  assumes "as_status a = Pending"
  shows "upholds (underTx stored) (exec (insertAsset a))"
  using insertAsset_stored [OF _ assms]
  by (intro under_tx.up_exec) (fastforce simp: underTx_def under_def readyKept_def)

lemma admit_under: "upholds (under stored) (admit n p s f i t c k claimed limit)"
  unfolding admit_def Let_def
  by (intro underTx_under under_tx.up_inTx under_tx.up_rules underTx_reads insertAsset_under)
    (simp_all add: pendingLocal_def)

lemma session_under: "upholds (under stored) (CreateAttributedSession sv p v name)"
proof -
  have "upholds (underTx stored) (exec (insertSession u))" for u
    by (rule under_exec_other) (auto simp: insertSession_def stored_assets split: if_splits)
  then show ?thesis
    unfolding CreateAttributedSession_def Let_def
    by (intro under.up_rules under_reads under_withRLock underTx_under under_tx.up_inTx under_tx.up_rules
        under_tx.up_world underTx_reads)
qed

text \<open>The attempt \<open>i\<close> has its file, of the size that completion will record.\<close>

definition arrived :: "string \<Rightarrow> int \<Rightarrow> db \<Rightarrow> dir \<Rightarrow> bool" where
  "arrived i sz d F \<longleftrightarrow>
     (\<forall>a \<in> set (assets d). isPending i a \<and> as_backend a = 1 \<longrightarrow>
        validKey (as_key a) \<and> (\<exists>c. F (as_key a) = Some c \<and> int (length c) = sz))"

definition storedArrived :: "string \<Rightarrow> int \<Rightarrow> db \<Rightarrow> dir \<Rightarrow> bool" where
  "storedArrived i sz d F \<longleftrightarrow> stored d F \<and> arrived i sz d F"

lemma markReady_stored:
  assumes "markReady (isPending i) (completed kind sz t) d = Inr (d', n)" and "storedArrived i sz d F"
  shows "storedArrived i sz d' F \<and> (\<forall>a \<in> set (assets d). isReady a \<longrightarrow> a \<in> set (assets d'))"
proof -
  from assms(1) have d': "assets d' = updWhere (isPending i) (completed kind sz t) (assets d)"
    by (auto simp: markReady_def split: if_splits)
  have keys: "map as_key (assets d') = map as_key (assets d)" "map as_id (assets d') = map as_id (assets d)"
    unfolding d' by (auto intro!: map_updWhere simp: completed_def)
  have ready: "hasFile F a" if "a \<in> set (assets d')" "isReady a" "as_backend a = 1" for a
    using that assms(2) unfolding d' set_updWhere
    by (auto simp: storedArrived_def stored_def arrived_def hasFile_def completed_def isPending_def isReady_def
        split: if_splits)
  have "\<not> isPending i a" if "a \<in> set (assets d')" for a
  proof -
    obtain q where a: "a = (if isPending i q then completed kind sz t q else q)"
      using \<open>a \<in> set (assets d')\<close> unfolding d' set_updWhere by blast
    show ?thesis by (cases "isPending i q") (simp_all add: a completed_def isPending_def)
  qed
  then have "arrived i sz d' F" by (auto simp: arrived_def)
  with keys ready assms(2) have "storedArrived i sz d' F"
    by (simp add: storedArrived_def stored_def)
  moreover have "a \<in> set (assets d')" if "a \<in> set (assets d)" "isReady a" for a
    unfolding d' set_updWhere using that by (auto simp: isPending_def isReady_def intro!: bexI [of _ a])
  ultimately show ?thesis by blast
qed

lemma finish_under: "upholds (underTx (storedArrived i sz)) (finish n p s i kind sz)"
proof -
  have "upholds (underTx (storedArrived i sz)) (exec (markReady (isPending i) (completed kind sz t)))" for t
    using markReady_stored by (intro under_tx.up_exec) (fastforce simp: underTx_def under_def readyKept_def)
  moreover have "upholds (underTx (storedArrived i sz)) (exec (touchSession s t))" for t
    by (rule under_exec_other) (auto simp: touchSession_def storedArrived_def stored_def arrived_def)
  ultimately show ?thesis
    unfolding finish_def
    by (intro under_tx.up_inTx under_tx.up_rules under_tx.up_world underTx_reads)
qed

section \<open>Transfer and removal, for every store\<close>


text \<open>The row of attempt \<open>i\<close> is the one that was admitted.\<close>

definition mine :: "string \<Rightarrow> string \<Rightarrow> db \<Rightarrow> bool" where
  "mine i key d \<longleftrightarrow> (\<forall>a \<in> set (assets d). as_id a = i \<longrightarrow> as_key a = key)"

text \<open>No ready row uses the key.\<close>

definition storedFree :: "string \<Rightarrow> db \<Rightarrow> dir \<Rightarrow> bool" where
  "storedFree key d F \<longleftrightarrow> stored d F \<and> (\<forall>a \<in> set (assets d). as_key a = key \<longrightarrow> \<not> isReady a)"

lemma storedFree_assets: "assets d' = assets d \<Longrightarrow> storedFree key d F \<Longrightarrow> storedFree key d' F"
  by (simp add: storedFree_def stored_def)

lemma stored_filter: "stored d F \<Longrightarrow> assets d' = filter K (assets d) \<Longrightarrow> stored d' F"
  by (auto simp: stored_def distinct_map_filter')

lemma delete_attempt_under: "upholds (under (storedFree key)) (exec (\<lambda>d. Inr (deleteAssets (isAttempt i n) d, ())))"
proof (rule under.up_exec)
  fix w :: world and d and r :: unit
  assume "Inr (deleteAssets (isAttempt i n) (wdb w), ()) = Inr (d, r)"
  then have d: "assets d = filter (\<lambda>a. \<not> isAttempt i n a) (assets (wdb w))" by auto
  then show "under (storedFree key) w (w\<lparr>wdb := d\<rparr>)"
    using stored_filter [OF _ d]
    by (auto simp: under_def storedFree_def readyKept_def isReady_def isAttempt_def)
qed

lemma insertAsset_only:
  "insertAsset x d = Inr (d', ()) \<Longrightarrow> a \<in> set (assets d') \<Longrightarrow> as_id a = as_id x \<Longrightarrow> a = x"
  by (auto simp: insertAsset_def assetInsertOk_def list_all_iff split: if_splits)

text \<open>After admission the attempt's row is the one that was written, whatever else there is.\<close>

definition admitted :: "int \<Rightarrow> string \<Rightarrow> string \<Rightarrow> string \<Rightarrow> stamp \<Rightarrow> string \<Rightarrow> int \<Rightarrow> db \<Rightarrow> bool" where
  "admitted n s f i t c e d \<longleftrightarrow> (\<exists>q. \<forall>a \<in> set (assets d). as_id a = i \<longrightarrow> a = pendingLocal i n s f t e q c)"

lemma admitted_row:
  assumes "admitted n s f i t c e d" and "a \<in> set (assets d)" and "as_id a = i"
  shows "as_key a = objectKey n i \<and> as_expected a = e"
proof -
  from assms obtain q where "a = pendingLocal i n s f t e q c" by (auto simp: admitted_def)
  then show ?thesis by (simp add: pendingLocal_def)
qed

lemma admit_only:
  "wpE (admit n p s f i t c k claimed limit) (\<lambda>(e, l) u. admitted n s f i t c e (wdb u)) (\<lambda>_. True) w"
proof -
  have ins: "wpE (bindE (exec (insertAsset (pendingLocal i n s f t e q c))) (\<lambda>_. ret (e, l)))
     (\<lambda>(e, l) u. admitted n s f i t c e (wdb u)) (\<lambda>_. True) u" for e l q u
    apply (rule wpE_bindE, rule wpE_exec, rule TrueI, rule TrueI, rule wpE_ret)
    using insertAsset_only [of "pendingLocal i n s f t e q c"] by (auto simp: admitted_def) (auto simp: pendingLocal_def)
  show ?thesis
    unfolding admit_def Let_def
    apply (rule wpE_inTx, rule TrueI, rule wpE_mono
        [where Q = "\<lambda>(e, l) u. admitted n s f i t c e (wdb u)" and E = "\<lambda>_. True"])
      apply (rule wpE_step [OF wpE_triv], rule wpE_step [OF wpE_triv], rule wpE_step [OF wpE_triv],
        rule wpE_step [OF wpE_triv], rule wpE_step [OF wpE_triv])
      apply (rule ins)
     apply auto
    done
qed

lemma admit_mine: "wpE (admit n p s f i t c k claimed limit) (\<lambda>_ u. mine i (objectKey n i) (wdb u)) (\<lambda>_. True) w"
  by (rule wpE_mono [OF admit_only]) (auto simp: mine_def dest: admitted_row)

context object_store
begin

lemma put_under:
  assumes "stored (wdb s) (files s)" and "mine i key (wdb s)"
  shows "wpE (st_put st key src limit) (\<lambda>n t. readyKept s t \<and> storedArrived i n (wdb t) (files t)) (under stored s) s"
proof -
  obtain r t where run: "st_put st key src limit s = (r, t)" by fastforce
  have d: "wdb t = wdb s" using put_rest [OF run] by (simp add: sameRest_def)
  have F: "files t (as_key a) = files s (as_key a)"
    if "a \<in> set (assets (wdb s))" "isReady a" "as_backend a = 1" for a
    using that assms(1) put_keeps [OF run] by (fastforce simp: stored_def hasFile_def)
  have st: "stored (wdb t) (files t)"
    unfolding d by (rule stored_rollback [OF assms(1)]) (rule F)
  have kept: "readyKept s t" using F by (auto simp: readyKept_def d)
  have "storedArrived i n (wdb t) (files t)" if "r = Inr n" for n
    using st put_ok [OF run [unfolded that]] assms(2)
    by (auto simp: storedArrived_def arrived_def d mine_def isPending_def)
  with run st kept show ?thesis
    by (auto simp: wpE_def under_def split: sum.split)
qed

lemma transfer_under:
  assumes "sv_store sv = st" and "stored (wdb s) (files s)" and "mine i (objectKey n i) (wdb s)"
  shows "wpE (transfer sv n p u f i source prefix kind claimed expected limit) (\<lambda>_. under stored s) (under stored s) s"
proof -
  have "wpE (finish n p u i kind sz) (\<lambda>_. under stored s) (under stored s) t"
    if "readyKept s t" "storedArrived i sz (wdb t) (files t)" for sz t
  proof (rule wpE_mono, rule wpE_upholds [OF finish_under])
    show "under stored s v" if "underTx (storedArrived i sz) t v" for v
      using that \<open>readyKept s t\<close> \<open>storedArrived i sz (wdb t) (files t)\<close> readyKept_trans
      by (auto simp: underTx_def under_def storedArrived_def)
    then show "under stored s v" if "underTx (storedArrived i sz) t v" for v
      using that .
  qed
  note fin = this
  have base: "under stored s t" if "readyKept s t" "storedArrived i sz (wdb t) (files t)" for sz t
    using that by (auto simp: under_def storedArrived_def)
  have put: "wpE (tryE (st_put st key body expected) (\<lambda>r. case r of Inr n \<Rightarrow> ret n | Inl e \<Rightarrow> raise (h e)))
      (\<lambda>n t. readyKept s t \<and> storedArrived i n (wdb t) (files t)) (under stored s) s"
    if "mine i key (wdb s)" for key body h
    by (rule wpE_tryE, rule wpE_mono [OF put_under [OF assms(2) that]]) (auto intro: wpE_ret wpE_raise)
  show ?thesis
    unfolding transfer_def Let_def assms(1)
    apply (rule wpE_bindE, rule wpE_failIf, rule under.refl)
    apply (rule wpE_step, rule put [OF assms(3)])
    apply (erule conjE)
    apply (rule wpE_bindE, rule wpE_failIf, erule (1) base)
    apply (rule wpE_bindE, rule wpE_liftE, erule (1) base)
    apply (rule wpE_step, erule (1) fin)
    apply (erule wpE_ret)
    done
qed

lemma delete_under:
  "upholds (under (storedFree key)) (st_delete st key)"
proof (rule upholdsI)
  fix s r t
  assume run: "st_delete st key s = (r, t)"
  have d: "wdb t = wdb s" using delete_rest [OF run] by (simp add: sameRest_def)
  show "under (storedFree key) s t"
    unfolding under_def
  proof
    assume ok: "storedFree key (wdb s) (files s)"
    have F: "files t (as_key a) = files s (as_key a)"
      if "a \<in> set (assets (wdb s))" "isReady a" "as_backend a = 1" for a
      using that ok delete_frame [OF run] by (auto simp: storedFree_def stored_def hasFile_def)
    have "stored (wdb t) (files t)"
      unfolding d by (rule stored_rollback [of _ "files s"]) (use ok F in \<open>auto simp: storedFree_def\<close>)
    with ok d F show "storedFree key (wdb t) (files t) \<and> readyKept s t"
      by (auto simp: storedFree_def readyKept_def)
  qed
qed

lemma removeObject_under:
  assumes "sv_store sv = st"
  shows "upholds (under (storedFree key)) (removeObject sv n i key b)"
proof -
  have "upholds (under (storedFree key)) (exec (retireKey r))" for r
    by (intro underTx_under under_exec_other) (auto simp: retireKey_def storedFree_assets split: if_splits)
  moreover have "upholds (under (storedFree key)) (s3Delete s key)" for s
    by (rule upholds_mono [OF onlyTrace_requests(4) onlyTrace_under])
  ultimately show ?thesis
    unfolding removeObject_def assms
    by (intro under.up_rules under.up_world delete_under)
qed

lemma removeAttempt_under:
  assumes "sv_store sv = st"
  shows "upholds (under stored) (removeAttempt sv n i key)"
proof (rule upholdsI)
  fix s r t
  let ?q = "queryRow (\<lambda>d. find (\<lambda>a. as_id a = i \<and> as_event a = n \<and> as_key a = key) (assets d)) :: asset_row wop"
  let ?rest = "\<lambda>a. bindE (removeObject sv n i key (as_backend a)) (\<lambda>_. exec (\<lambda>d. Inr (deleteAssets (isAttempt i n) d, ())))"
  assume run: "removeAttempt sv n i key s = (r, t)"
  obtain r1 u where q: "?q s = (r1, u)" by fastforce
  have quiet: "quiet s u" using quiet.up_queryRow q by (rule upholdsD)
  have row: "a \<in> set (assets (wdb s)) \<and> as_key a = key" if "r1 = Inr a" for a
    using q that by (auto simp: queryRow_def query_def effect_def Let_def
        split: if_splits fault.splits option.splits dest: find_SomeD)
  have tail: "upholds (under (storedFree key)) (?rest a)" for a
    by (intro under.up_rules removeObject_under [OF assms] delete_attempt_under)
  show "under stored s t"
    unfolding under_def
  proof
    assume ok: "stored (wdb s) (files s)"
    show "stored (wdb t) (files t) \<and> readyKept s t"
    proof (cases "t = s \<or> t = u")
      case True
      with ok quiet show ?thesis by (auto simp: quiet_def readyKept_def)
    next
      case False
      with run q obtain a where a: "r1 = Inr a" "as_status a = Pending" "snd (?rest a u) = t"
        by (auto simp: removeAttempt_def op_defs split: if_splits sum.splits)
      have "storedFree key (wdb u) (files u)"
        using ok quiet row [OF a(1)] a(2)
        by (auto simp: storedFree_def quiet_def stored_def isReady_def dest: distinct_map_eq)
      with tail [of a] a(3) have "storedFree key (wdb t) (files t)" "readyKept u t"
        by (auto simp: upholds_def under_def)
      with quiet show ?thesis by (auto simp: storedFree_def quiet_def readyKept_def)
    qed
  qed
qed

lemma uploadLocked_under:
  assumes "sv_store sv = st"
  shows "upholds (under stored) (uploadLocked sv n p s f source claimed limit)"
proof -
  have "wpE (bindE (admit n p s f i t c k claimed limit) (\<lambda>(expected, limit).
       onError (transfer sv n p s f i source prefix kind claimed expected limit) (removeAttempt sv n i (objectKey n i))))
     (\<lambda>_. under stored w) (under stored w) w" for i t c k prefix kind w
  proof (cases "stored (wdb w) (files w)")
    case True
    have admitted: "wpE (admit n p s f i t c k claimed limit)
        (\<lambda>_ u. under stored w u \<and> mine i (objectKey n i) (wdb u)) (\<lambda>u. under stored w u \<and> True) w"
      by (rule wpE_conj [OF wpE_upholds [OF admit_under] admit_mine])
    have rest: "wpE (onError (transfer sv n p s f i source prefix kind claimed e l) (removeAttempt sv n i (objectKey n i)))
        (\<lambda>_. under stored w) (under stored w) u" if "under stored w u" "mine i (objectKey n i) (wdb u)" for e l u
    proof -
      have ok: "stored (wdb u) (files u)" using that True by (simp add: under_def)
      have "wpE (onError (transfer sv n p s f i source prefix kind claimed e l) (removeAttempt sv n i (objectKey n i)))
        (\<lambda>_. under stored u) (under stored u) u"
        by (rule wpE_onError, rule wpE_mono, rule transfer_under [OF assms ok that(2)], assumption)
          (rule wpE_mono [OF wpE_upholds [OF removeAttempt_under [OF assms]]]; erule (1) under.trans)
      then show ?thesis by (rule wpE_mono) (rule under.trans [OF that(1)], assumption)+
    qed
    show ?thesis
      by (rule wpE_step [OF wpE_mono [OF admitted]]) (auto intro: rest)
  qed (auto simp: wpE_def under_def split: prod.splits sum.splits)
  then have last: "upholds (under stored) (bindE (admit n p s f i t c k claimed limit) (\<lambda>(expected, limit).
       onError (transfer sv n p s f i source prefix kind claimed expected limit) (removeAttempt sv n i (objectKey n i))))"
    for i t c k prefix kind
    by (auto simp: upholds_def intro: wpE_state)
  show ?thesis
    unfolding uploadLocked_def Let_def
    by (rule under.up_bindE, rule under.up_liftE, rule under.up_bindE, rule under.up_failIf,
        rule under.up_bindE, rule under.up_liftE, rule under.up_bindE, rule under.up_randomBytes,
        rule under.up_bindE, rule under.up_timestamp, rule last)
qed

lemma Upload_under:
  assumes "sv_store sv = st"
  shows "upholds (under stored) (Upload sv p s f declared source claimed limit)"
  unfolding Upload_def
  by (intro under.up_rules under_reads under_withRLock uploadLocked_under [OF assms])

end

end
