(* ===== verification/UploadResult.thy ===== *)
theory UploadResult
  imports MediaSafe
begin

text \<open>
  What an upload that reports success has done: the stored object is the whole request body, byte for
  byte, the row is ready and describes it, and the limits and declarations were respected. Again the
  argument is for any store that keeps its contract.
\<close>

section \<open>The body that reaches the store\<close>

lemma readHeader_take: "readHeader source limit = Inr p \<Longrightarrow> p = take (length p) (rd_data source) \<and> p = take 512 p"
  by (auto simp: readHeader_def limitReader_def Let_def min_def split: if_splits)

lemma readHeader_prefix:
  assumes "readHeader source limit = Inr p" and "int (length (rd_data source)) \<le> limit"
  shows "p = take 512 (rd_data source)"
  using assms by (auto simp: readHeader_def limitReader_def Let_def split: if_splits)

text \<open>If the store saw no more than was reserved, it saw everything, and no read failed.\<close>

lemma uploadBody_complete:
  assumes "p = take (length p) (rd_data source)" and "int (length (rd_data (uploadBody source p e))) \<le> e"
    and "\<not> rd_broken (uploadBody source p e)" and "int (length p) \<le> e"
  shows "rd_data (uploadBody source p e) = rd_data source \<and> \<not> rd_broken source"
proof -
  let ?rest = "source\<lparr>rd_data := drop (length p) (rd_data source)\<rparr>"
  have "limitReader (e - int (length p) + 1) ?rest = ?rest"
    using assms(2,4) by (intro limitReader_short) (auto simp: uploadBody_def Let_def)
  with assms(1,3) show ?thesis
    by (simp add: uploadBody_def Let_def) (metis append_take_drop_id)
qed

section \<open>Completion\<close>

lemma markReady_settled:
  assumes "markReady (isPending i) (completed kind sz t) d = Inr (d', n)" and "n = 1" and "a \<in> set (assets d)" and "isPending i a"
  shows "completed kind sz t a \<in> set (assets d') \<and> 0 < sz"
  using assms by (auto simp: markReady_def set_updWhere list_ex_iff completed_def split: if_splits intro!: bexI [of _ a])

lemma quiet_wpE: "upholds quiet m \<Longrightarrow> wpE m (\<lambda>_ t. quiet w t) (\<lambda>_. True) w"
  by (rule wpE_mono [OF wpE_upholds]) auto

lemma quiet_from: "upholds quiet m \<Longrightarrow> quiet w v \<Longrightarrow> wpE m (\<lambda>_ t. quiet w t) (\<lambda>_. True) v"
  by (erule wpE_mono [OF wpE_upholds]) (erule (1) quiet.trans, rule TrueI)

lemma finish_settled:
  assumes "a \<in> set (assets (wdb w))" and "isPending i a"
  shows "wpE (finish n p s i kind sz) (\<lambda>_ u. files u = files w \<and> 0 < sz \<and> (\<exists>t. completed kind sz t a \<in> set (assets (wdb u))))
           (\<lambda>_. True) w"
proof -
  have "wpE (bindE (exec (markReady (isPending i) (completed kind sz t))) (\<lambda>count.
      bindE (failIf (count \<noteq> 1) (Failure ''pending asset disappeared during upload'')) (\<lambda>_. exec (touchSession s t))))
      (\<lambda>_ u. files u = files w \<and> 0 < sz \<and> (\<exists>t. completed kind sz t a \<in> set (assets (wdb u)))) (\<lambda>_. True) v"
    if "quiet w v" for t v
    apply (rule wpE_bindE, rule wpE_exec, rule TrueI, rule TrueI)
    apply (rule wpE_bindE, rule wpE_failIf, rule TrueI)
    apply (rule wpE_exec, rule TrueI, rule TrueI)
    using that assms by (auto simp: quiet_def touchSession_def dest!: markReady_settled)
  note upd = this
  show ?thesis
    unfolding finish_def
    apply (rule wpE_inTx, rule TrueI)
    apply (rule wpE_mono [where Q = "\<lambda>_ u. files u = files w \<and> 0 < sz \<and> (\<exists>t. completed kind sz t a \<in> set (assets (wdb u)))"
          and E = "\<lambda>_. True"])
      apply (rule wpE_step, rule quiet_wpE, rule quiet_reads(4))
      apply (rule wpE_step, rule quiet_wpE, rule quiet.up_timestamp)
      apply (rule upd)
      apply (auto simp: quiet_def)
    done
qed

section \<open>Admission\<close>

lemma admit_row:
  "wpE (admit n p s f i t c k claimed limit)
     (\<lambda>(e, l) u. (\<exists>q. pendingLocal i n s f t e q c \<in> set (assets (wdb u))) \<and> l \<le> limit \<and> k \<le> l \<and>
        (0 \<le> claimed \<longrightarrow> e = claimed) \<and> e \<le> l) (\<lambda>_. True) w"
proof -
  have lim: "wpE (fileLimit n c limit) (\<lambda>l _. l \<le> limit) (\<lambda>_. True) u" for u
    unfolding fileLimit_def
    by (intro wpE_bindE wpE_queryRow) (auto intro!: wpE_ret EffectiveFileLimit_le)
  have ins: "wpE (bindE (exec (insertAsset (pendingLocal i n s f t e q c))) (\<lambda>_. ret (e, l)))
      (\<lambda>(e, l) u. (\<exists>q. pendingLocal i n s f t e q c \<in> set (assets (wdb u))) \<and> l \<le> limit \<and> k \<le> l \<and>
        (0 \<le> claimed \<longrightarrow> e = claimed) \<and> e \<le> l) (\<lambda>_. True) u"
    if "l \<le> limit" "\<not> (l < claimed \<or> l < k)" "e = (if claimed < 0 then l else claimed)" for e l q u
    by (rule wpE_bindE, rule wpE_exec, rule TrueI, rule TrueI, rule wpE_ret)
      (use that in \<open>auto simp: insertAsset_def split: if_splits\<close>)
  show ?thesis
    unfolding admit_def Let_def
    apply (rule wpE_inTx, rule TrueI)
    apply (rule wpE_mono [where Q = "\<lambda>(e, l) u. (\<exists>q. pendingLocal i n s f t e q c \<in> set (assets (wdb u))) \<and> l \<le> limit \<and>
        k \<le> l \<and> (0 \<le> claimed \<longrightarrow> e = claimed) \<and> e \<le> l" and E = "\<lambda>_. True"])
      apply (rule wpE_step [OF wpE_triv], rule wpE_step [OF wpE_triv])
      apply (rule wpE_step, rule lim)
      apply (rule wpE_bindE, rule wpE_failIf, rule TrueI)
      apply (rule wpE_step [OF wpE_triv])
      apply (rule ins, assumption, assumption, rule refl)
     apply auto
    done
qed

section \<open>The result\<close>

text \<open>The object \<open>i\<close> of the event \<open>n\<close> holds the whole source and its ready row describes it.\<close>

definition uploaded :: "int \<Rightarrow> string \<Rightarrow> string \<Rightarrow> reader \<Rightarrow> int \<Rightarrow> int \<Rightarrow> asset_info \<Rightarrow> world \<Rightarrow> bool" where
  "uploaded n s f source claimed limit a t \<longleftrightarrow>
     (let data = rd_data source; key = objectKey n (am_id a); sz = int (length data) in
      \<not> rd_broken source \<and> 0 < sz \<and> sz \<le> limit \<and> (0 \<le> claimed \<longrightarrow> sz = claimed) \<and>
      Sniff data sz = Inr (am_mime a) \<and> am_size a = sz \<and> am_filename a = f \<and> am_ready a \<and>
      files t key = Some data \<and>
      (\<exists>r \<in> set (assets (wdb t)). as_id r = am_id a \<and> as_event r = n \<and> as_session r = s \<and> as_filename r = f \<and>
         as_key r = key \<and> as_status r = Ready \<and> as_size r = sz \<and> as_mime r = am_mime a \<and>
         as_class r = Some (mediaClass (am_mime a)) \<and> as_backend r = 1))"

context object_store
begin

lemma put_result:
  "wpE (tryE (st_put st key body e) (\<lambda>r. case r of Inr n \<Rightarrow> ret n | Inl x \<Rightarrow> raise (h x)))
     (\<lambda>n t. wdb t = wdb w \<and> files t key = Some (rd_data body) \<and> n = int (length (rd_data body)) \<and> n \<le> e \<and> \<not> rd_broken body)
     (\<lambda>_. True) w"
proof -
  obtain r t where run: "st_put st key body e w = (r, t)" by fastforce
  show ?thesis
    using put_ok [of key body e w _ t] put_rest [OF run] run
    by (cases r) (auto simp: wpE_def tryE_def ret_def raise_def sameRest_def)
qed

lemma transfer_result:
  assumes sv: "sv_store sv = st" and row: "pendingLocal i n s f t e q (mediaClass kind) \<in> set (assets (wdb w))"
    and head: "readHeader source l0 = Inr prefix" and l: "l \<le> l0" and kind: "Sniff prefix (-1) = Inr kind"
    and claim: "0 \<le> claimed \<longrightarrow> e = claimed"
  shows "wpE (transfer sv n p s f i source prefix kind claimed e l)
    (\<lambda>a u. uploaded n s f source claimed l0 a u) (\<lambda>_. True) w"
proof -
  let ?key = "objectKey n i" and ?body = "uploadBody source prefix e" and ?row = "pendingLocal i n s f t e q (mediaClass kind)"
  have post: "uploaded n s f source claimed l0 \<lparr>am_id = i, am_filename = f, am_mime = kind, am_size = sz, am_ready = True\<rparr> v"
    if "wdb u = wdb w" and "files u ?key = Some (rd_data ?body)" and sz: "sz = int (length (rd_data ?body))"
      and le: "sz \<le> e" and "\<not> rd_broken ?body" and e: "\<not> e < int (length prefix)"
      and "\<not> (sz \<le> 0 \<or> l < sz \<or> 0 \<le> claimed \<and> sz \<noteq> claimed)" and sniff: "Sniff prefix sz = Inr k2"
      and "files v = files u \<and> 0 < sz \<and> (\<exists>t. completed kind sz t ?row \<in> set (assets (wdb v)))" for sz u v k2
  proof -
    have all: "rd_data ?body = rd_data source \<and> \<not> rd_broken source"
      using readHeader_take [OF head] sz le e that(5) by (intro uploadBody_complete) auto
    have "prefix = take 512 (rd_data source)"
      using readHeader_prefix [OF head] all sz that(7) l by auto
    then have "Sniff (rd_data source) sz = Inr kind"
      using Sniff_twice [OF kind, of sz] sniff that(7) Sniff_prefix_only [of "rd_data source" sz] by auto
    moreover from that(9) obtain t' where "completed kind sz t' ?row \<in> set (assets (wdb v))" by blast
    ultimately show ?thesis
      using that all l by (auto simp: uploaded_def Let_def completed_def pendingLocal_def
          intro!: bexI [of _ "completed kind sz t' ?row"])
  qed
  show ?thesis
    unfolding transfer_def Let_def sv
    apply (rule wpE_bindE, rule wpE_failIf, rule TrueI)
    apply (rule wpE_step, rule put_result)
    apply (rule wpE_bindE, rule wpE_failIf, rule TrueI)
    apply (rule wpE_bindE, rule wpE_liftE, rule TrueI)
    apply (rule wpE_step, rule finish_settled [where a = ?row])
      apply (use row in simp, simp add: pendingLocal_def isPending_def)
    apply (rule wpE_ret, elim conjE, rule post)
           apply (assumption | simp)+
    done
qed

lemma uploadLocked_result:
  assumes "sv_store sv = st"
  shows "wpE (uploadLocked sv n p s f source claimed limit) (uploaded n s f source claimed limit) (\<lambda>_. True) w"
  unfolding uploadLocked_def Let_def
  apply (rule wpE_bindE, rule wpE_liftE, rule TrueI)
  apply (rule wpE_step [OF wpE_triv])
  apply (rule wpE_bindE, rule wpE_liftE, rule TrueI)
  apply (rule wpE_step [OF wpE_triv], rule wpE_step [OF wpE_triv])
  apply (rule wpE_step, rule admit_row)
  apply (clarsimp split: prod.splits)
  apply (rule wpE_onError, rule wpE_mono, rule transfer_result [OF assms], assumption, assumption, assumption, assumption)
    apply simp
   apply assumption
  apply (rule wpE_mono [OF wpE_triv], simp_all)
  done

lemma Upload_result:
  assumes "sv_store sv = st"
  shows "wpE (Upload sv p s f declared source claimed limit)
    (\<lambda>a t. \<exists>e \<in> set (events (wdb w)). ev_public e = p \<and> uploaded (ev_id e) s f source claimed limit a t) (\<lambda>_. True) w"
proof -
  have opened: "wpE (openEvent p) (\<lambda>e _. e \<in> set (events (wdb w)) \<and> ev_public e = p) (\<lambda>_. True) w"
    unfolding openEvent_def getPublic_def
    by (intro vcg TrueI) (auto dest: find_SomeD)
  have locked: "wpE (withRLock n (uploadLocked sv n p s f source claimed limit))
      (uploaded n s f source claimed limit) (\<lambda>_. True) u" for n u
    by (rule wpE_withRLock, rule wpE_mono, rule uploadLocked_result [OF assms])
      (simp_all add: uploaded_def runlock_def)
  show ?thesis
    unfolding Upload_def
    apply (rule wpE_bindE, rule wpE_failIf, rule TrueI)
    apply (rule wpE_bindE, rule wpE_liftE, rule TrueI)
    apply (rule wpE_bindE, rule wpE_liftE, rule TrueI)
    apply (rule wpE_bindE, rule wpE_failIf, rule TrueI)
    apply (rule wpE_bindE, rule wpE_failIf, rule TrueI)
    apply (rule wpE_step, rule opened)
    apply (rule wpE_mono, rule locked)
     apply auto
    done
qed

end

end
