(* ===== verification/Ledger.thy ===== *)
theory Ledger
  imports UploadResult
begin

text \<open>
  Quota safety of local uploads: the usage that is charged to an upload session stays within the
  session's limits while its event is not being deleted. A pending row is charged with what it
  reserved, so the sum does not depend on how far the transfers are, and completion can only lower it.
\<close>

definition liveSession :: "db \<Rightarrow> session_row \<Rightarrow> bool" where
  "liveSession d u \<longleftrightarrow> list_ex (\<lambda>e. ev_id e = us_event u \<and> \<not> ev_deleting e) (events d)"

definition sessionWithin :: "db \<Rightarrow> session_row \<Rightarrow> bool" where
  "sessionWithin d u \<longleftrightarrow> underLimits (ofSession (us_id u)) (Some (us_max_assets u)) (Some (us_max_bytes u)) d"

definition ledgerOk :: "db \<Rightarrow> bool" where
  "ledgerOk d \<longleftrightarrow> distinct (map us_id (sessions d)) \<and> distinct (map as_id (assets d)) \<and>
     (\<forall>a \<in> set (assets d). 0 \<le> as_expected a \<and> 0 \<le> as_size a) \<and>
     (\<forall>u \<in> set (sessions d). liveSession d u \<longrightarrow> sessionWithin d u)"

lemma charge_nonneg: "ledgerOk d \<Longrightarrow> a \<in> set (assets d) \<Longrightarrow> 0 \<le> charge a"
  by (simp add: ledgerOk_def charge_def)

lemma quiet_keepsDB: "quiet s t \<Longrightarrow> keepsDB P s t"
  by (simp add: quiet_def keepsDB_def)

lemmas keeps_reads = quiet_reads [THEN upholds_mono, OF quiet_keepsDB] quiet_checks [THEN upholds_mono, OF quiet_keepsDB]

section \<open>Admission charges the session\<close>

lemma ledger_insert:
  assumes ok: "ledgerOk d" and ins: "insertAsset a d = Inr (d', ())"
    and a: "as_status a = Pending" "as_size a = 0" "as_session a = us_id u"
    and u: "u \<in> set (sessions d)"
    and room: "room (ofSession (us_id u)) (Some (us_max_assets u)) (Some (us_max_bytes u)) (as_expected a) d"
  shows "ledgerOk d'"
proof -
  from ins have d': "d' = d\<lparr>assets := assets d @ [a]\<rparr>" and e: "0 \<le> as_expected a" and new: "as_id a \<notin> as_id ` set (assets d)"
    by (auto simp: insertAsset_def assetInsertOk_def list_all_iff split: if_splits)
  have "sessionWithin d' v" if v: "v \<in> set (sessions d)" "liveSession d v" for v
  proof (cases "us_id v = us_id u")
    case True
    with u v ok have "v = u" by (auto simp: ledgerOk_def dest: distinct_map_eq)
    then show ?thesis
      unfolding sessionWithin_def
      by (intro session_scope.admit [where sz = "as_expected a" and d = d and a = a])
        (use room a in \<open>auto simp: d' charge_def\<close>)
  next
    case False
    then have "\<not> ofSession (us_id v) a" using a by (auto simp: ofSession_def)
    with v ok show ?thesis by (auto simp: ledgerOk_def sessionWithin_def underLimits_def d')
  qed
  with ok e new a show ?thesis
    by (auto simp: ledgerOk_def d' liveSession_def)
qed

definition sessionOf :: "int \<Rightarrow> string \<Rightarrow> quota_session \<Rightarrow> db \<Rightarrow> bool" where
  "sessionOf n s q d \<longleftrightarrow> (\<exists>u \<in> set (sessions d). us_id u = s \<and> us_event u = n \<and>
     us_max_assets u = q_max_assets q \<and> us_max_bytes u = q_max_bytes q)"

lemma ledger_reserved:
  assumes ok: "ledgerOk d" and ins: "insertAsset a d = Inr (d', ())"
    and q: "sessionOf n s q d" "room (ofSession s) (Some (q_max_assets q)) (Some (q_max_bytes q)) (as_expected a) d"
    and a: "as_status a = Pending" "as_size a = 0" "as_session a = s"
  shows "ledgerOk d'"
proof -
  from q(1) obtain u where u: "u \<in> set (sessions d)" "us_id u = s"
    "us_max_assets u = q_max_assets q" "us_max_bytes u = q_max_bytes q" by (auto simp: sessionOf_def)
  show ?thesis
    by (rule ledger_insert [OF ok ins, of u]) (use u q a in simp_all)
qed

lemma checkSession_row:
  assumes "quiet w v"
  shows "wpE (checkSession n s) (\<lambda>q t. quiet w t \<and> sessionOf n s q (wdb w)) (\<lambda>_. True) v"
proof -
  have "wpE (checkSession n s) (\<lambda>q _. sessionOf n s q (wdb w)) (\<lambda>_. True) v"
    unfolding checkSession_def using assms
    by (intro vcg TrueI) (auto simp: sessionOf_def quiet_def intro!: wpE_raise dest: find_SomeD)
  from wpE_conj [OF quiet_from [OF quiet_checks(6) assms] this] show ?thesis by simp
qed

lemma reserve_room:
  assumes "quiet w v"
  shows "wpE (reserve n s sz q c)
    (\<lambda>_ t. quiet w t \<and> room (ofSession s) (Some (q_max_assets q)) (Some (q_max_bytes q)) sz (wdb w)) (\<lambda>_. True) v"
proof -
  have "wp (reserve n s sz q c) (\<lambda>r t. reserveResult n s sz q c (wdb v) r) v" by (rule reserve_wp)
  then have "wpE (reserve n s sz q c) (\<lambda>_ _. room (ofSession s) (Some (q_max_assets q)) (Some (q_max_bytes q)) sz (wdb w)) (\<lambda>_. True) v"
    using assms by (auto simp: wp_def wpE_def reserveResult_def eventRoom_def quiet_def split: prod.splits sum.splits)
  from wpE_conj [OF quiet_from [OF quiet_checks(4) assms] this] show ?thesis by simp
qed

lemma admit_ledger: "upholds (keepsDB ledgerOk) (admit n p s f i t c k claimed limit)"
  unfolding upholds_def
proof
  fix w :: world
  let ?K = "keepsDB ledgerOk w"
  have ins: "wpE (bindE (exec (insertAsset (pendingLocal i n s f t e (q_contributor q) c))) (\<lambda>_. ret (e, l)))
      (\<lambda>_. ?K) (\<lambda>_. True) u"
    if "quiet w u" "sessionOf n s q (wdb w)" "room (ofSession s) (Some (q_max_assets q)) (Some (q_max_bytes q)) e (wdb w)"
    for e l q u
    apply (rule wpE_bindE, rule wpE_exec, rule TrueI, rule TrueI, rule wpE_ret)
    using that by (auto simp: keepsDB_def quiet_def pendingLocal_def elim!: ledger_reserved)
  have "wpE (admit n p s f i t c k claimed limit) (\<lambda>_. ?K) ?K w"
    unfolding admit_def Let_def
    apply (rule wpE_inTx, simp add: keepsDB_def)
    apply (rule wpE_mono [where Q = "\<lambda>_. ?K" and E = "\<lambda>_. True"])
      apply (rule wpE_step, rule quiet_from [of _ w], rule quiet_reads(4), simp add: quiet_def)
      apply (rule wpE_step, erule checkSession_row, erule conjE)
      apply (rule wpE_step, erule quiet_from [OF quiet_checks(5)])
      apply (rule wpE_bindE, rule wpE_failIf, rule TrueI)
      apply (rule wpE_step, erule reserve_room, erule conjE)
      apply (erule (2) ins)
     apply (auto simp: keepsDB_def)
    done
  then show "?K (snd (admit n p s f i t c k claimed limit w))" by (rule wpE_state)
qed

section \<open>Completion and removal never raise a session's usage\<close>

definition ledgerAttempt :: "string \<Rightarrow> int \<Rightarrow> db \<Rightarrow> bool" where
  "ledgerAttempt i sz d \<longleftrightarrow> ledgerOk d \<and> (\<forall>a \<in> set (assets d). isPending i a \<longrightarrow> sz \<le> as_expected a)"

lemma markReady_ledger:
  assumes "markReady (isPending i) g d = Inr (d', m)" and "ledgerAttempt i sz d"
    and g: "\<And>a. as_id (g a) = as_id a \<and> as_session (g a) = as_session a \<and> as_expected (g a) = as_expected a \<and>
        as_status (g a) = Ready \<and> as_size (g a) = sz"
  shows "ledgerAttempt i sz d'"
proof -
  from assms(1) have d': "d' = d\<lparr>assets := updWhere (isPending i) g (assets d)\<rparr>"
    and pos: "\<And>a. a \<in> set (assets d) \<Longrightarrow> isPending i a \<Longrightarrow> 0 < sz"
    using g by (auto simp: markReady_def list_ex_iff split: if_splits)
  have ad: "assets d' = updWhere (isPending i) g (assets d)" by (simp add: d')
  have "sessionWithin d' u" if "sessionWithin d u" for u
    using that unfolding sessionWithin_def
    by (rule within_settle [where C = "isPending i" and g = g])
      (use assms(2) g in \<open>auto simp: ad charge_def isPending_def ledgerAttempt_def ofSession_def\<close>)
  moreover have "\<forall>a \<in> set (assets d'). 0 \<le> as_expected a \<and> 0 \<le> as_size a"
    unfolding ad using assms(2) pos
    by (intro updWhere_ball) (auto simp: ledgerAttempt_def ledgerOk_def g less_imp_le)
  moreover have "\<forall>a \<in> set (assets d'). isPending i a \<longrightarrow> sz \<le> as_expected a"
    unfolding ad using assms(2)
    by (intro updWhere_ball) (auto simp: ledgerAttempt_def g isPending_def)
  moreover have "map as_id (assets d') = map as_id (assets d)"
    unfolding ad by (rule map_updWhere) (simp add: g)
  ultimately show ?thesis
    using assms(2) by (auto simp: ledgerAttempt_def ledgerOk_def d' liveSession_def)
qed

lemma touchSession_ledger: "ledgerAttempt i sz d \<Longrightarrow> touchSession s t d = Inr (d', r) \<Longrightarrow> ledgerAttempt i sz d'"
  by (auto simp: touchSession_def ledgerAttempt_def ledgerOk_def set_updWhere map_updWhere sessionWithin_def
      underLimits_def liveSession_def split: if_splits)

lemma finish_ledger: "upholds (keepsDB (ledgerAttempt i sz)) (finish n p s i kind sz)"
proof -
  have "upholds (keepsDB (ledgerAttempt i sz)) (exec (markReady (isPending i) (completed kind sz t)))" for t
    by (rule keeps.up_exec) (auto simp: keepsDB_def completed_def elim!: markReady_ledger)
  moreover have "upholds (keepsDB (ledgerAttempt i sz)) (exec (touchSession s t))" for t
    by (rule keeps.up_exec) (auto simp: keepsDB_def touchSession_ledger)
  ultimately show ?thesis
    unfolding finish_def by (intro keeps.up_inTx keeps.up_rules keeps.up_world keeps_reads)
qed

lemma deleteAssets_ledger: "ledgerOk d \<Longrightarrow> ledgerOk (deleteAssets P d)"
proof -
  assume ok: "ledgerOk d"
  have "sessionWithin (deleteAssets P d) u" if "sessionWithin d u" for u
    using that charge_nonneg [OF ok] assets_deleteAssets
    unfolding sessionWithin_def by (rule session_scope.remove)
  with ok show ?thesis by (auto simp: ledgerOk_def liveSession_def distinct_map_filter')
qed

lemma sameRest_keepsDB: "sameRest s t \<Longrightarrow> keepsDB P s t"
  by (simp add: sameRest_def keepsDB_def)

lemma onlyTrace_keepsDB: "onlyTrace s t \<Longrightarrow> keepsDB P s t"
  by (simp add: onlyTrace_def keepsDB_def)

lemma ledger_assets: "ledgerOk d \<Longrightarrow> assets d' = assets d \<Longrightarrow> sessions d' = sessions d \<Longrightarrow> events d' = events d \<Longrightarrow> ledgerOk d'"
  by (simp add: ledgerOk_def sessionWithin_def underLimits_def liveSession_def)

context object_store
begin

lemma put_keepsDB: "upholds (keepsDB P) (st_put st key src limit)"
  and delete_keepsDB: "upholds (keepsDB P) (st_delete st key)"
  by (auto intro!: upholdsI sameRest_keepsDB dest: put_rest delete_rest)

lemma removeAttempt_ledger:
  assumes "sv_store sv = st"
  shows "upholds (keepsDB ledgerOk) (removeAttempt sv n i key)"
proof -
  have "upholds (keepsDB ledgerOk) (exec (retireKey r))" for r
    by (rule keeps.up_exec) (auto simp: keepsDB_def retireKey_def intro: ledger_assets split: if_splits)
  moreover have "upholds (keepsDB ledgerOk) (s3Delete s key)" for s
    by (rule upholds_mono [OF onlyTrace_requests(4) onlyTrace_keepsDB])
  moreover have "upholds (keepsDB ledgerOk) (exec (\<lambda>d. Inr (deleteAssets P d, ())))" for P
    by (rule keeps.up_exec) (auto simp: keepsDB_def deleteAssets_ledger)
  ultimately show ?thesis
    unfolding removeAttempt_def removeObject_def assms
    by (intro keeps.up_rules keeps.up_world delete_keepsDB)
qed

lemma transfer_ledger:
  assumes sv: "sv_store sv = st" and row: "\<forall>a \<in> set (assets (wdb w)). isPending i a \<longrightarrow> as_expected a = e"
  shows "wpE (transfer sv n p s f i source prefix kind claimed e l) (\<lambda>_. keepsDB ledgerOk w) (keepsDB ledgerOk w) w"
proof -
  let ?K = "keepsDB ledgerOk w"
  have put: "wpE (tryE (st_put st key body e) (\<lambda>r. case r of Inr n \<Rightarrow> ret n | Inl x \<Rightarrow> raise (h x)))
     (\<lambda>n t. wdb t = wdb w \<and> n \<le> e) ?K w" for key body h
  proof -
    obtain r t where run: "st_put st key body e w = (r, t)" by fastforce
    then show ?thesis
      using put_ok [of key body e w _ t] put_rest [OF run]
      by (cases r) (auto simp: wpE_def tryE_def ret_def raise_def sameRest_def keepsDB_def)
  qed
  have fin: "wpE (finish n p s i kind sz) (\<lambda>_. ?K) ?K u" if "wdb u = wdb w" "sz \<le> e" for sz u
    by (rule wpE_mono [OF wpE_upholds [OF finish_ledger [of i sz]]])
      (use that row in \<open>auto simp: keepsDB_def ledgerAttempt_def\<close>)
  have K: "?K u" if "wdb u = wdb w" for u using that by (simp add: keepsDB_def)
  show ?thesis
    unfolding transfer_def Let_def sv
    apply (rule wpE_bindE, rule wpE_failIf, rule keeps.refl)
    apply (rule wpE_step, rule put, erule conjE)
    apply (rule wpE_bindE, rule wpE_failIf, erule K)
    apply (rule wpE_bindE, rule wpE_liftE, erule K)
    apply (rule wpE_step, erule (1) fin)
    apply (erule wpE_ret)
    done
qed

lemma uploadLocked_ledger:
  assumes "sv_store sv = st"
  shows "upholds (keepsDB ledgerOk) (uploadLocked sv n p s f source claimed limit)"
proof -
  let ?run = "\<lambda>i t c k prefix kind. bindE (admit n p s f i t c k claimed limit) (\<lambda>(e, l).
       onError (transfer sv n p s f i source prefix kind claimed e l) (removeAttempt sv n i (objectKey n i)))"
  have "wpE (?run i t c k prefix kind) (\<lambda>_. keepsDB ledgerOk w) (keepsDB ledgerOk w) w" for i t c k prefix kind w
  proof -
    have rest: "wpE (onError (transfer sv n p s f i source prefix kind claimed e l) (removeAttempt sv n i (objectKey n i)))
        (\<lambda>_. keepsDB ledgerOk w) (keepsDB ledgerOk w) u"
      if "keepsDB ledgerOk w u" and row: "admitted n s f i t c e (wdb u)" for e l u
    proof -
      have "wpE (onError (transfer sv n p s f i source prefix kind claimed e l) (removeAttempt sv n i (objectKey n i)))
        (\<lambda>_. keepsDB ledgerOk u) (keepsDB ledgerOk u) u"
        by (rule wpE_onError, rule wpE_mono, rule transfer_ledger [OF assms])
          (use row in \<open>auto simp: isPending_def dest: admitted_row
            intro!: wpE_mono [OF wpE_upholds [OF removeAttempt_ledger [OF assms]]] intro: keeps.trans\<close>)
      then show ?thesis by (rule wpE_mono) (rule keeps.trans [OF that(1)], assumption)+
    qed
    show ?thesis
      by (rule wpE_step [OF wpE_mono [OF wpE_conj [OF wpE_upholds [OF admit_ledger] admit_only]]])
        (auto intro: rest)
  qed
  then have last: "upholds (keepsDB ledgerOk) (?run i t c k prefix kind)" for i t c k prefix kind
    by (auto simp: upholds_def intro: wpE_state)
  show ?thesis
    unfolding uploadLocked_def Let_def
    by (rule keeps.up_bindE, rule keeps.up_liftE, rule keeps.up_bindE, rule keeps.up_failIf,
        rule keeps.up_bindE, rule keeps.up_liftE, rule keeps.up_bindE, rule keeps.up_randomBytes,
        rule keeps.up_bindE, rule keeps.up_timestamp, rule last)
qed

lemma Upload_ledger:
  assumes "sv_store sv = st"
  shows "upholds (keepsDB ledgerOk) (Upload sv p s f declared source claimed limit)"
  unfolding Upload_def
  by (intro keeps.up_rules keeps_reads keepsDB_withRLock uploadLocked_ledger [OF assms])

end

text \<open>A new session starts with no usage, and the limits it is given.\<close>

lemma insertSession_ledger:
  assumes "insertSession u d = Inr (d', ())" and "ledgerOk d" and "\<forall>a \<in> set (assets d). as_session a \<noteq> us_id u"
  shows "ledgerOk d'"
proof -
  from assms(1) have d': "d' = d\<lparr>sessions := sessions d @ [u]\<rparr>" and u: "0 < us_max_assets u" "0 < us_max_bytes u"
    "us_id u \<notin> us_id ` set (sessions d)"
    by (auto simp: insertSession_def list_all_iff split: if_splits)
  have "countWhere (ofSession (us_id u)) (assets d) = 0" "sumWhere (ofSession (us_id u)) charge (assets d) = 0"
    using assms(3) by (auto simp: countWhere_def sumWhere_def ofSession_def filter_empty_conv)
  with u have "sessionWithin d' u" by (simp add: sessionWithin_def underLimits_def d')
  with assms(2) u d' show ?thesis
    by (auto simp: ledgerOk_def sessionWithin_def underLimits_def liveSession_def)
qed

end
