(* ===== verification/DirectSafe.thy ===== *)
theory DirectSafe
  imports Direct Ledger
begin

text \<open>
  The invariants of \<open>MediaSafe\<close> and \<open>Ledger\<close> for the direct uploads, and what a successful preparation
  or completion has established.
\<close>

section \<open>Steps that only talk to storage\<close>

lemmas under_requests = onlyTrace_requests [THEN upholds_mono, OF onlyTrace_under]
lemmas keeps_requests = onlyTrace_requests [THEN upholds_mono, OF onlyTrace_keepsDB]

lemma quiet_loadDirect: "upholds quiet (loadDirect p s i)"
  unfolding loadDirect_def by (intro quiet.up_rules quiet.up_world)

lemma loadDirect_row:
  assumes "quiet w v"
  shows "wpE (loadDirect p s i) (\<lambda>a t. quiet w t \<and> joinDirect p s i (wdb w) = Some a) (\<lambda>t. quiet w t) v"
proof -
  have "wpE (loadDirect p s i) (\<lambda>a _. joinDirect p s i (wdb w) = Some a) (\<lambda>_. True) v"
    unfolding loadDirect_def using assms
    by (intro vcg TrueI) (auto simp: quiet_def intro!: wpE_raise)
  moreover have "wpE (loadDirect p s i) (\<lambda>_ t. quiet w t) (\<lambda>t. quiet w t) v"
    by (rule wpE_mono [OF wpE_upholds [OF quiet_loadDirect]]) (auto intro: quiet.trans [OF assms])
  ultimately show ?thesis using wpE_conj by fastforce
qed

lemma joinDirect_row:
  assumes "joinDirect p s i d = Some a"
  shows "da_row a \<in> set (assets d) \<and> as_id (da_row a) = i \<and> as_session (da_row a) = s \<and>
    da_event a \<in> set (events d) \<and> ev_id (da_event a) = as_event (da_row a)"
  using assms by (auto simp: joinDirect_def split: option.splits dest!: find_SomeD)

section \<open>Authorization and preparation\<close>

lemma setAuthorized_under: "upholds (underTx stored) (exec (setAuthorized i t))"
proof (rule under_tx.up_exec)
  fix w :: world and d r
  assume run: "setAuthorized i t (wdb w) = Inr (d, r)"
  let ?g = "as_authorized_update (\<lambda>_. Some (Stamp t))" and ?as = "assets (wdb w)"
  from run have d: "assets d = updWhere (isPending i) ?g ?as" by (auto simp: setAuthorized_def)
  have keys: "map as_key (assets d) = map as_key ?as" "map as_id (assets d) = map as_id ?as"
    unfolding d by (auto intro!: map_updWhere)
  have same: "a \<in> set (assets d)" if "a \<in> set ?as" "isReady a" for a
    unfolding d set_updWhere using that by (auto simp: isPending_def isReady_def intro!: bexI [of _ a])
  have was: "a \<in> set ?as" if "a \<in> set (assets d)" "isReady a" for a
    using that unfolding d set_updWhere by (auto simp: isPending_def isReady_def split: if_splits)
  show "underTx stored w (w\<lparr>wdb := d\<rparr>)"
    using keys same was by (auto simp: underTx_def under_def stored_def readyKept_def)
qed

lemma Authorize_under: "upholds (under stored) (Authorize sv p s i)"
proof -
  have "upholds (under stored) (loadDirect p s i)"
    by (rule upholds_mono [OF quiet_loadDirect quiet_under])
  moreover have "upholds (under stored) (inTx (bindE (checkOpen n p) (\<lambda>_. bindE (checkSession n s) (\<lambda>_. exec (setAuthorized i t)))))"
    for n t
    by (intro underTx_under under_tx.up_inTx under_tx.up_rules underTx_reads setAuthorized_under)
  ultimately show ?thesis
    unfolding Authorize_def directLock_def Let_def
    by (intro under.up_rules under_reads under_withRLock under_requests)
qed

lemma prepareTx_under: "upholds (under stored) (prepareTx c b n p s r limit)"
  unfolding prepareTx_def prepareNew_def
  by (intro underTx_under under_tx.up_inTx under_tx.up_rules under_tx.up_world underTx_reads insertAsset_under)
    (simp_all add: pendingDirect_def)

lemma Prepare_under: "upholds (under stored) (Prepare sv p s r limit)"
  unfolding Prepare_def
  by (intro under.up_rules under_reads under_withRLock prepareTx_under Authorize_under)

section \<open>Completion keeps the files of the local backend out of it\<close>

definition storedRemote :: "string \<Rightarrow> db \<Rightarrow> dir \<Rightarrow> bool" where
  "storedRemote i d F \<longleftrightarrow> stored d F \<and> (\<forall>a \<in> set (assets d). as_id a = i \<longrightarrow> as_backend a \<noteq> 1)"

lemma storedRemote_assets: "assets d' = assets d \<Longrightarrow> storedRemote i d F \<Longrightarrow> storedRemote i d' F"
  by (simp add: storedRemote_def stored_def)

lemma markReady_remote:
  assumes "markReady (isPending i) g d = Inr (d', n)" and "storedRemote i d F"
    and g: "\<And>a. as_id (g a) = as_id a \<and> as_key (g a) = as_key a \<and> as_backend (g a) = as_backend a"
  shows "storedRemote i d' F \<and> (\<forall>a \<in> set (assets d). isReady a \<longrightarrow> a \<in> set (assets d'))"
proof -
  from assms(1) have d': "assets d' = updWhere (isPending i) g (assets d)"
    by (auto simp: markReady_def split: if_splits)
  have keys: "map as_key (assets d') = map as_key (assets d)" "map as_id (assets d') = map as_id (assets d)"
    unfolding d' using g by (auto intro!: map_updWhere)
  have row: "a \<in> set (assets d) \<or> (as_id a = i \<and> as_backend a \<noteq> 1)" if "a \<in> set (assets d')" for a
  proof -
    obtain q where q: "q \<in> set (assets d)" and a: "a = (if isPending i q then g q else q)"
      using \<open>a \<in> set (assets d')\<close> unfolding d' set_updWhere by blast
    show ?thesis
      using q a g [of q] assms(2) by (cases "isPending i q") (auto simp: storedRemote_def isPending_def)
  qed
  have "storedRemote i d' F"
    using keys row assms(2) by (auto simp: storedRemote_def stored_def)
  moreover have "a \<in> set (assets d')" if "a \<in> set (assets d)" "isReady a" for a
    unfolding d' set_updWhere using that by (auto simp: isPending_def isReady_def intro!: bexI [of _ a])
  ultimately show ?thesis by blast
qed

lemma completeTx_under:
  "upholds (under (storedRemote (as_id row))) (completeTx sv p s row kind cls sz)"
proof -
  have "upholds (underTx (storedRemote (as_id row))) (exec (markReady (isPending (as_id row)) (completedDirect kind cls sz t)))" for t
    by (intro under_tx.up_exec)
      (fastforce simp: underTx_def under_def readyKept_def completedDirect_def dest!: markReady_remote)
  moreover have "upholds (underTx (storedRemote (as_id row))) (exec (touchSession s t))" for t
    by (rule under_exec_other) (auto simp: touchSession_def storedRemote_assets)
  ultimately show ?thesis
    unfolding completeTx_def
    by (intro underTx_under under_tx.up_inTx under_tx.up_rules under_tx.up_world underTx_reads)
qed

lemma verifyObject_under: "upholds (under (storedRemote (as_id row))) (verifyObject sv p s c row)"
  unfolding verifyObject_def rejectIf_def rejectObject_def Let_def
  by (intro under.up_rules under_requests completeTx_under)

lemma backendsOk_local_iff: "backendsOk bs \<Longrightarrow> bs_entries bs i = Some e \<Longrightarrow> be_type e = ''local'' \<longleftrightarrow> i = 1"
  by (simp add: backendsOk_def)

lemma checkDirectKey_remote:
  assumes "backendsOk bs" and "checkDirectKey bs n i key b = Inr c"
  shows "b \<noteq> 1"
  using assms by (auto simp: checkDirectKey_def resolve_def split: option.splits sum.splits if_splits
      dest: backendsOk_local_iff)

lemma directLock_wpE:
  assumes "\<And>n u. quiet w u \<Longrightarrow> wpE body (\<lambda>x t. Q x (runlock n t)) (\<lambda>t. E (runlock n t)) (rlock n u)"
    and "\<And>u. quiet w u \<Longrightarrow> E u"
  shows "wpE (directLock p i body) Q E w"
  unfolding directLock_def
  apply (rule wpE_bindE, rule wpE_failIf, rule assms(2), rule quiet.refl)
  apply (rule wpE_bindE, rule wpE_mono [OF wpE_upholds [OF quiet_reads(1)]])
   apply (rule wpE_withRLock, erule assms(1))
  apply (erule assms(2))
  done

lemma Complete_under:
  assumes "backendsOk (sv_backends sv)"
  shows "upholds (under stored) (Complete sv p s i)"
  unfolding upholds_def
proof
  fix w
  let ?U = "under stored w"
  have U': "?U (runlock n t) = ?U t" for n t by (simp add: under_def readyKept_def runlock_def)
  have verify: "wpE (bindE (liftE (checkDirectKey (sv_backends sv) (as_event row) i (as_key row) (as_backend row)))
       (\<lambda>c. verifyObject sv p s c row)) (\<lambda>_. ?U) ?U v"
    if "wdb v = wdb w" "files v = files w" and row: "row \<in> set (assets (wdb w))" "as_id row = i" for row v
  proof (cases "stored (wdb w) (files w)")
    case True
    have v: "?U v" using that by (simp add: under_def readyKept_def)
    show ?thesis
    proof (rule wpE_bindE, rule wpE_liftE, rule v)
      fix c
      assume "checkDirectKey (sv_backends sv) (as_event row) i (as_key row) (as_backend row) = Inr c"
      with assms have "as_backend row \<noteq> 1" by (rule checkDirectKey_remote)
      with True that have ok: "storedRemote (as_id row) (wdb v) (files v)"
        by (auto simp: storedRemote_def stored_def dest: distinct_map_eq)
      have post: "?U t" if "under (storedRemote (as_id row)) v t" for t
        using that ok v readyKept_trans [of w v t] True by (auto simp: under_def storedRemote_def)
      show "wpE (verifyObject sv p s c row) (\<lambda>_. ?U) ?U v"
        by (rule wpE_mono [OF wpE_upholds [OF verifyObject_under]]) (erule post)+
    qed
  qed (auto simp: wpE_def under_def split: prod.splits sum.splits)
  have "wpE (Complete sv p s i) (\<lambda>_. ?U) ?U w"
    unfolding Complete_def Let_def
  proof (rule directLock_wpE, unfold U')
    fix n u
    assume u: "quiet w u"
    let ?R = "rlock n u"
    have qR: "quiet ?R t \<Longrightarrow> wdb t = wdb w \<and> files t = files w" for t using u by (simp add: quiet_def rlock_def)
    have Ut: "?U t" if "quiet ?R t" for t using qR [OF that] by (simp add: under_def readyKept_def)
    show "wpE (bindE (loadDirect p s i) (\<lambda>a. bindE (failIf (ev_deleting (da_event a)) ErrClosed) (\<lambda>_.
        if as_status (da_row a) = Ready then ret (assetInfo (da_row a))
        else bindE (liftE (checkDirectKey (sv_backends sv) (as_event (da_row a)) i (as_key (da_row a)) (as_backend (da_row a))))
             (\<lambda>c. verifyObject sv p s c (da_row a))))) (\<lambda>_. ?U) ?U ?R"
    proof (rule wpE_bindE, rule wpE_mono, rule loadDirect_row, rule quiet.refl)
      fix a t
      assume "quiet ?R t \<and> joinDirect p s i (wdb ?R) = Some a"
      then have q: "quiet ?R t" and j: "joinDirect p s i (wdb w) = Some a" using qR [OF quiet.refl] by auto
      show "wpE (bindE (failIf (ev_deleting (da_event a)) ErrClosed) (\<lambda>_.
        if as_status (da_row a) = Ready then ret (assetInfo (da_row a))
        else bindE (liftE (checkDirectKey (sv_backends sv) (as_event (da_row a)) i (as_key (da_row a)) (as_backend (da_row a))))
             (\<lambda>c. verifyObject sv p s c (da_row a)))) (\<lambda>_. ?U) ?U t"
        by (rule wpE_bindE, rule wpE_failIf, rule Ut [OF q], rule wpE_if, rule wpE_ret, rule Ut [OF q], rule verify)
          (use qR [OF q] joinDirect_row [OF j] in simp_all)
    qed (erule Ut)
  qed (auto simp: quiet_def under_def readyKept_def)
  then show "?U (snd (Complete sv p s i w))" by (rule wpE_state)
qed

section \<open>Quotas\<close>

definition prepared :: "string \<Rightarrow> preparation \<Rightarrow> string \<Rightarrow> db \<Rightarrow> db \<Rightarrow> bool" where
  "prepared s p i d d' \<longleftrightarrow>
     (case attemptOf s (pr_request p) d of
        Some a \<Rightarrow> i = as_id a \<and> sameAttempt p a \<and> d' = d
      | None \<Rightarrow> \<exists>a. d' = d\<lparr>assets := assets d @ [a]\<rparr> \<and> as_id a = i \<and> i \<notin> as_id ` set (assets d) \<and>
          as_session a = s \<and> as_request a = Some (pr_request p) \<and> sameAttempt p a \<and> as_status a = Pending)"

lemma quiet_attemptOf: "quiet w v \<Longrightarrow> attemptOf s r (wdb v) = attemptOf s r (wdb w)"
  by (simp add: quiet_def)

lemma insert_prepared:
  assumes ins: "insertAsset a d = Inr (d', ())" and new: "attemptOf s (pr_request p) d = None"
    and a: "as_session a = s" "as_request a = Some (pr_request p)" "as_filename a = pr_filename p"
      "as_expected a = pr_size p" "as_expected_mime a = pr_type p" "as_class a = Some (pr_class p)" "as_status a = Pending"
  shows "prepared s p (as_id a) d d'"
proof -
  from ins have "d' = d\<lparr>assets := assets d @ [a]\<rparr>" "as_id a \<notin> as_id ` set (assets d)"
    by (auto simp: insertAsset_def assetInsertOk_def list_all_iff split: if_splits)
  with new a show ?thesis by (auto simp: prepared_def sameAttempt_def)
qed

lemma insert_direct:
  assumes "insertAsset (pendingDirect c b i n s p t q) d = Inr (d', ())" and "attemptOf s (pr_request p) d = None"
  shows "prepared s p i d d'"
  using insert_prepared [OF assms] by (simp add: pendingDirect_def)

text \<open>The transaction of \<open>Prepare\<close>: the old attempt, or one new reserved row.\<close>

definition preparedOk :: "string \<Rightarrow> preparation \<Rightarrow> world \<Rightarrow> string \<Rightarrow> world \<Rightarrow> bool" where
  "preparedOk s p w i t \<longleftrightarrow> prepared s p i (wdb w) (wdb t) \<and> keepsDB ledgerOk w t"

lemma prepareNew_result:
  assumes "quiet w u" and "sessionOf n s q (wdb w)" and none: "attemptOf s (pr_request r) (wdb w) = None"
  shows "wpE (prepareNew c b n s r q limit) (preparedOk s r w) (\<lambda>_. True) u"
proof -
  have ins: "wpE (bindE (exec (insertAsset (pendingDirect c b (randomID bs) n s r t (q_contributor q)))) (\<lambda>_. ret (randomID bs)))
      (preparedOk s r w) (\<lambda>_. True) v"
    if "quiet w v" "room (ofSession s) (Some (q_max_assets q)) (Some (q_max_bytes q)) (pr_size r) (wdb w)" for bs t v
  proof (rule wpE_bindE, rule wpE_exec, rule TrueI, rule TrueI, rule wpE_ret)
    fix d x m
    let ?a = "pendingDirect c b (randomID bs) n s r t (q_contributor q)"
    assume "insertAsset ?a (wdb v) = Inr (d, x)"
    then have ins: "insertAsset ?a (wdb w) = Inr (d, ())" using that(1) by (simp add: quiet_def)
    have "ledgerOk d" if "ledgerOk (wdb w)"
      by (rule ledger_reserved [OF that ins assms(2)])
        (use \<open>room _ _ _ _ _\<close> in \<open>simp_all add: pendingDirect_def\<close>)
    with insert_direct [OF ins none] show "preparedOk s r w (randomID bs) (v\<lparr>wdb := d, tick := m\<rparr>)"
      by (simp add: preparedOk_def keepsDB_def)
  qed
  show ?thesis
    unfolding prepareNew_def
    apply (rule wpE_step, rule quiet_from [OF quiet_checks(5) assms(1)])
    apply (rule wpE_bindE, rule wpE_failIf, rule TrueI)
    apply (rule wpE_step, erule quiet_from [OF quiet.up_randomBytes])
    apply (rule wpE_step, erule reserve_room, erule conjE)
    apply (rule wpE_step, erule quiet_from [OF quiet.up_timestamp])
    apply (erule (1) ins)
    done
qed

lemma queryRow_cases:
  assumes "queryRow q u = (r, v)" and "quiet w u"
  shows "quiet w v \<and> (case r of Inr x \<Rightarrow> q (wdb w) = Some x | Inl e \<Rightarrow> e = NoRows \<longrightarrow> q (wdb w) = None)"
  using assms upholdsD [OF quiet.up_queryRow assms(1)] quiet.trans [OF assms(2)]
  by (auto simp: queryRow_def query_def effect_def Let_def quiet_def split: if_splits fault.splits option.splits sum.splits)

lemma prepareTx_result:
  "wpE (prepareTx c b n p s r limit) (preparedOk s r w) (keepsDB ledgerOk w) w"
proof -
  have old: "wpE (tryE (queryRow (attemptOf s (pr_request r))) (\<lambda>res. case res of
         Inr a \<Rightarrow> bindE (failIf (\<not> sameAttempt r a) ErrRequest) (\<lambda>_. ret (as_id a))
       | Inl e \<Rightarrow> bindE (failIf (e \<noteq> NoRows) e) (\<lambda>_. prepareNew c b n s r q limit)))
       (preparedOk s r w) (\<lambda>_. True) u"
    if u: "quiet w u" "sessionOf n s q (wdb w)" for q u
  proof -
    obtain res v where run: "queryRow (attemptOf s (pr_request r)) u = (res, v)" by fastforce
    note res = queryRow_cases [OF run u(1)]
    show ?thesis
    proof (cases res)
      case (Inr a)
      with run res show ?thesis
        by (auto simp: wpE_def tryE_def bindE_def failIf_def ret_def preparedOk_def prepared_def keepsDB_def quiet_def)
    next
      case (Inl e)
      show ?thesis
      proof (cases "e = NoRows")
        case True
        with res Inl prepareNew_result [OF _ u(2), of v] run show ?thesis by (simp add: wpE_def tryE_def)
      qed (use run Inl in \<open>simp add: wpE_def tryE_def raise_def\<close>)
    qed
  qed
  show ?thesis
    unfolding prepareTx_def
    apply (rule wpE_inTx, simp add: keepsDB_def)
    apply (rule wpE_mono [where Q = "preparedOk s r w" and E = "\<lambda>_. True"])
      apply (rule wpE_step, rule quiet_from [of _ w], rule quiet_reads(4), simp add: quiet_def)
      apply (rule wpE_step, erule checkSession_row, erule conjE)
      apply (erule (1) old)
     apply (auto simp: keepsDB_def preparedOk_def)
    done
qed

lemma prepareTx_ledger: "upholds (keepsDB ledgerOk) (prepareTx c b n p s r limit)"
  unfolding upholds_def
  by (rule allI, rule wpE_state, rule wpE_mono [OF prepareTx_result]) (auto simp: preparedOk_def)

lemma setAuthorized_ledger: "setAuthorized i t d = Inr (d', r) \<Longrightarrow> ledgerOk d \<Longrightarrow> ledgerOk d'"
proof -
  let ?g = "as_authorized_update (\<lambda>_. Some (Stamp t))"
  assume "setAuthorized i t d = Inr (d', r)" and ok: "ledgerOk d"
  then have d': "d' = d\<lparr>assets := updWhere (isPending i) ?g (assets d)\<rparr>" by (simp add: setAuthorized_def)
  then have ad: "assets d' = updWhere (isPending i) ?g (assets d)" by simp
  have "sessionWithin d' u" if "sessionWithin d u" for u
    using that unfolding sessionWithin_def
    by (rule within_settle [where C = "isPending i" and g = ?g]) (auto simp: ad charge_def ofSession_def)
  moreover have "\<forall>a \<in> set (assets d'). 0 \<le> as_expected a \<and> 0 \<le> as_size a"
    unfolding ad using ok by (intro updWhere_ball) (auto simp: ledgerOk_def)
  moreover have "map as_id (assets d') = map as_id (assets d)" unfolding ad by (rule map_updWhere) simp
  ultimately show "ledgerOk d'" using ok by (auto simp: ledgerOk_def d' liveSession_def)
qed

lemma Authorize_ledger: "upholds (keepsDB ledgerOk) (Authorize sv p s i)"
proof -
  have "upholds (keepsDB ledgerOk) (exec (setAuthorized i t))" for t
    by (rule keeps.up_exec) (auto simp: keepsDB_def intro: setAuthorized_ledger)
  moreover have "upholds (keepsDB ledgerOk) (loadDirect p s i)"
    by (rule upholds_mono [OF quiet_loadDirect quiet_keepsDB])
  ultimately show ?thesis
    unfolding Authorize_def directLock_def Let_def
    by (intro keeps.up_rules keeps_reads keepsDB_withRLock keeps_requests keeps.up_inTx)
qed

lemma Prepare_ledger: "upholds (keepsDB ledgerOk) (Prepare sv p s r limit)"
  unfolding Prepare_def
  by (intro keeps.up_rules keeps_reads keepsDB_withRLock prepareTx_ledger Authorize_ledger)

section \<open>Completion\<close>

lemma wpE_rejectIf:
  assumes "\<not> bad \<Longrightarrow> Q () w" and "\<And>t. onlyTrace w t \<Longrightarrow> E t"
  shows "wpE (rejectIf s key bad cause) Q E w"
proof (cases bad)
  case True
  have "wpE (s3Delete s key) (\<lambda>_. E) E w"
    by (rule wpE_mono [OF wpE_upholds [OF onlyTrace_requests(4)]]) (erule assms(2))+
  with True show ?thesis
    by (simp add: rejectIf_def rejectObject_def) (rule wpE_step, assumption, erule wpE_raise)
qed (use assms in \<open>simp add: rejectIf_def wpE_ret\<close>)

text \<open>What is known when the completing transaction starts, and what it leaves.\<close>

definition verified :: "asset_row \<Rightarrow> string \<Rightarrow> bool" where
  "verified row kind \<longleftrightarrow> SupportedMIME kind \<and> 0 < as_expected row \<and>
     (as_class row = None \<or> as_class row = Some (mediaClass kind))"

definition finalized :: "asset_row \<Rightarrow> string \<Rightarrow> asset_info \<Rightarrow> world \<Rightarrow> world \<Rightarrow> bool" where
  "finalized row public a w t \<longleftrightarrow>
     (\<exists>kind t'. verified row kind \<and>
        a = (assetInfo row)\<lparr>am_ready := True, am_size := as_expected row, am_mime := kind\<rparr> \<and>
        completedDirect kind (mediaClass kind) (as_expected row) t' row \<in> set (assets (wdb t)) \<and>
        (\<exists>e \<in> set (events (wdb w)). ev_id e = as_event row \<and> ev_public e = public \<and> \<not> ev_deleting e))"

lemma markReady_row:
  "markReady (isPending i) g d = Inr (d', n) \<Longrightarrow> a \<in> set (assets d) \<Longrightarrow> isPending i a \<Longrightarrow> g a \<in> set (assets d')"
  by (auto simp: markReady_def set_updWhere split: if_splits intro!: bexI [of _ a])

lemma completeTx_result:
  assumes q: "wdb v = wdb w" and row: "row \<in> set (assets (wdb w))" "as_status row = Pending"
  shows "wpE (completeTx sv p s row kind cls sz)
    (\<lambda>_ t. (\<exists>t'. completedDirect kind cls sz t' row \<in> set (assets (wdb t))) \<and>
       (\<exists>e \<in> set (events (wdb w)). ev_id e = as_event row \<and> ev_public e = p \<and> \<not> ev_deleting e)) (\<lambda>_. True) v"
proof -
  let ?E = "\<exists>e \<in> set (events (wdb w)). ev_id e = as_event row \<and> ev_public e = p \<and> \<not> ev_deleting e"
  let ?Q = "\<lambda>t :: world. (\<exists>t'. completedDirect kind cls sz t' row \<in> set (assets (wdb t))) \<and> ?E"
  have upd: "wpE (bindE (exec (markReady (isPending (as_id row)) (completedDirect kind cls sz t))) (\<lambda>count.
     bindE (failIf (count \<noteq> 1) ErrAsset) (\<lambda>_. exec (touchSession s t)))) (\<lambda>_. ?Q) (\<lambda>_. True) u"
    if "wdb u = wdb w" ?E for t u
    apply (rule wpE_bindE, rule wpE_exec, rule TrueI, rule TrueI)
    apply (rule wpE_bindE, rule wpE_failIf, rule TrueI)
    apply (rule wpE_exec, rule TrueI, rule TrueI)
    using that row by (auto simp: touchSession_def isPending_def dest!: markReady_row)
  have cls: "upholds quiet (if as_class row = None then bindE (fileLimit n c l) (\<lambda>limit.
      bindE (failIf (limit < sz) e) (\<lambda>_. reserveClass n c sz)) else ret ())" for n c l e
    by (intro quiet.up_rules quiet_checks)
  have Q: "wdb u = wdb w" if "quiet (v\<lparr>tick := m\<rparr>) u" for u m using that q by (simp add: quiet_def)
  show ?thesis
    unfolding completeTx_def
    apply (rule wpE_inTx, rule TrueI)
    apply (rule wpE_mono [where Q = "\<lambda>_. ?Q" and E = "\<lambda>_. True"])
      apply (rule wpE_bindE, rule wpE_queryRow, rule TrueI)
      apply (rule wpE_bindE, rule wpE_failIf, rule TrueI)
      apply (rule wpE_step, rule quiet_wpE, rule cls)
      apply (rule wpE_step, erule quiet_from [OF quiet.up_timestamp])
      apply (rule upd)
       apply (use q in \<open>auto simp: quiet_def dest!: find_SomeD\<close>)
    done
qed

lemma onlyTrace_wpE: "upholds onlyTrace m \<Longrightarrow> onlyTrace w v \<Longrightarrow> wpE m (\<lambda>_ t. onlyTrace w t) (\<lambda>_. True) v"
  by (erule wpE_mono [OF wpE_upholds]) (erule (1) only_trace.trans, rule TrueI)

lemma verifyObject_result:
  assumes q: "wdb v = wdb w" and row: "row \<in> set (assets (wdb w))" "as_status row = Pending"
  shows "wpE (verifyObject sv p s c row) (\<lambda>a t. finalized row p a w t) (\<lambda>_. True) v"
proof -
  have fin: "wpE (bindE (completeTx sv p s row kind (mediaClass kind) sz) (\<lambda>_.
          ret ((assetInfo row)\<lparr>am_ready := True, am_size := sz, am_mime := kind\<rparr>)))
      (\<lambda>a t. finalized row p a w t) (\<lambda>_. True) u"
    if "onlyTrace v u" and "\<not> (sz \<noteq> as_expected row \<or> sz \<le> 0)" and "Sniff prefix sz = Inr kind"
      and "\<not> (as_class row \<noteq> None \<and> as_class row \<noteq> Some (mediaClass kind))" for kind sz prefix u
  proof (rule wpE_step, rule completeTx_result)
    show "wdb u = wdb w" using that(1) q by (simp add: onlyTrace_def)
    fix x and t :: world
    assume "(\<exists>t'. completedDirect kind (mediaClass kind) sz t' row \<in> set (assets (wdb t))) \<and>
       (\<exists>e \<in> set (events (wdb w)). ev_id e = as_event row \<and> ev_public e = p \<and> \<not> ev_deleting e)"
    with that Sniff_supported [OF that(3)] show "wpE (ret ((assetInfo row)\<lparr>am_ready := True, am_size := sz, am_mime := kind\<rparr>))
        (\<lambda>a t. finalized row p a w t) (\<lambda>_. True) t"
      by (intro wpE_ret) (auto simp: finalized_def verified_def)
  qed (use row in auto)
  show ?thesis
    unfolding verifyObject_def Let_def
    apply (rule wpE_step, rule onlyTrace_wpE [OF onlyTrace_requests(2) only_trace.refl])
    apply (rule wpE_bindE, rule wpE_rejectIf [OF _ TrueI])
    apply (rule wpE_bindE, rule wpE_rejectIf [OF _ TrueI])
    apply (rule wpE_step, erule onlyTrace_wpE [OF onlyTrace_requests(3)])
    apply (rule wpE_sum)
     apply (simp add: rejectObject_def, rule wpE_step [OF wpE_triv], rule wpE_raise, rule TrueI)
    apply (rule wpE_bindE, rule wpE_rejectIf [OF _ TrueI])
    apply (erule (3) fin)
    done
qed

section \<open>A rejected completion changes nothing\<close>

lemma onlyTrace_data: "upholds sameData (s3Head s k)" "upholds sameData (s3ReadPrefix s k i)" "upholds sameData (s3Delete s k)"
  by (rule upholds_mono [OF onlyTrace_requests(2)] upholds_mono [OF onlyTrace_requests(3)]
      upholds_mono [OF onlyTrace_requests(4)]; simp add: onlyTrace_def sameData_def)+

lemma quiet_data: "quiet s t \<Longrightarrow> sameData s t"
  by (simp add: quiet_def sameData_def)

lemma verifyObject_rejects: "rejects (verifyObject sv p s c row)"
proof -
  have del: "upholds sameData (rejectObject c k e)" "upholds sameData (rejectIf c k b e)" for k b e
    unfolding rejectIf_def rejectObject_def by (intro same_data.up_rules onlyTrace_data)+
  have last: "rejects (bindE (completeTx sv p s row kind (mediaClass kind) sz) (\<lambda>_. ret (f kind sz)))"
    for kind sz and f :: "string \<Rightarrow> int \<Rightarrow> asset_info"
    by (rule rejects_then) (auto simp: completeTx_def rejects_inTx ret_def)
  show ?thesis
    unfolding verifyObject_def Let_def
    by (rule rejects_bind [OF onlyTrace_data(1)], rule rejects_bind [OF del(2)], rule rejects_bind [OF del(2)],
        rule rejects_bind [OF onlyTrace_data(2)], rule rejects_sum, rule rejects_same [OF del(1)],
        rule rejects_bind [OF del(2)], rule last)
qed

lemma Complete_rejects: "rejects (Complete sv p s i)"
proof -
  have "upholds sameData (liftE r)" "upholds sameData (failIf b e)" for r b and e :: err
    by (rule same_data.up_liftE same_data.up_failIf)+
  then show ?thesis
    unfolding Complete_def directLock_def Let_def
    by (intro rejects_bind rejects_withRLock rejects_if verifyObject_rejects rejects_same [OF same_data.up_ret]
        upholds_mono [OF quiet_reads(1) quiet_data] upholds_mono [OF quiet_loadDirect quiet_data])
qed

section \<open>The whole completion\<close>

lemma completeTx_ledger: "upholds (keepsDB (ledgerAttempt (as_id row) sz)) (completeTx sv p s row kind cls sz)"
proof -
  have "upholds (keepsDB (ledgerAttempt (as_id row) sz)) (exec (markReady (isPending (as_id row)) (completedDirect kind cls sz t)))" for t
    by (rule keeps.up_exec) (auto simp: keepsDB_def completedDirect_def elim!: markReady_ledger)
  moreover have "upholds (keepsDB (ledgerAttempt (as_id row) sz)) (exec (touchSession s t))" for t
    by (rule keeps.up_exec) (auto simp: keepsDB_def touchSession_ledger)
  ultimately show ?thesis
    unfolding completeTx_def by (intro keeps.up_inTx keeps.up_rules keeps.up_world keeps_reads)
qed

lemma verifyObject_ledger:
  assumes q: "wdb v = wdb w" and row: "row \<in> set (assets (wdb w))"
  shows "wpE (verifyObject sv p s c row) (\<lambda>_. keepsDB ledgerOk w) (keepsDB ledgerOk w) v"
proof -
  let ?K = "keepsDB ledgerOk w"
  have K: "?K u" if "onlyTrace v u" for u using that q by (simp add: onlyTrace_def keepsDB_def)
  have tr: "wpE m (\<lambda>_. onlyTrace v) ?K u" if "upholds onlyTrace m" "onlyTrace v u" for m :: "'b wop" and u
    by (rule wpE_mono [OF wpE_upholds [OF that(1)]]) (auto intro: K only_trace.trans [OF that(2)])
  have rej: "wpE (rejectIf c k bad e) (\<lambda>_ t. onlyTrace v t \<and> \<not> bad) ?K u" if "onlyTrace v u" for k bad e u
    by (rule wpE_rejectIf) (use that in \<open>auto intro: K only_trace.trans [OF that]\<close>)
  have fin: "wpE (bindE (completeTx sv p s row kind (mediaClass kind) sz) (\<lambda>_. ret x)) (\<lambda>_. ?K) ?K u"
    if "onlyTrace v u" "sz = as_expected row" for kind sz u and x :: asset_info
  proof -
    have "?K t" if t: "keepsDB (ledgerAttempt (as_id row) sz) u t" for t
      unfolding keepsDB_def
    proof
      assume ok: "ledgerOk (wdb w)"
      have "a = row" if "a \<in> set (assets (wdb w))" "as_id a = as_id row" for a
        using that row ok by (auto simp: ledgerOk_def dest: distinct_map_eq)
      then have "ledgerAttempt (as_id row) sz (wdb u)"
        using ok \<open>onlyTrace v u\<close> q \<open>sz = _\<close> by (fastforce simp: ledgerAttempt_def onlyTrace_def isPending_def)
      with t show "ledgerOk (wdb t)" by (simp add: keepsDB_def ledgerAttempt_def)
    qed
    then show ?thesis
      by (intro wpE_step [OF wpE_mono [OF wpE_upholds [OF completeTx_ledger]]] wpE_ret) auto
  qed
  show ?thesis
    unfolding verifyObject_def Let_def
    apply (rule wpE_step, rule tr [OF onlyTrace_requests(2) only_trace.refl])
    apply (rule wpE_step, erule rej, erule conjE)
    apply (rule wpE_step, erule rej, erule conjE)
    apply (rule wpE_step, erule tr [OF onlyTrace_requests(3)])
    apply (rule wpE_sum)
     apply (simp add: rejectObject_def, rule wpE_step, erule tr [OF onlyTrace_requests(4)], rule wpE_raise, erule K)
    apply (rule wpE_step, erule rej, erule conjE)
    apply (erule fin, simp)
    done
qed

text \<open>What \<open>Complete\<close> returns: the row as it was when it is ready already, or the finalized row.\<close>

definition completedAs :: "string \<Rightarrow> string \<Rightarrow> string \<Rightarrow> world \<Rightarrow> asset_info \<Rightarrow> world \<Rightarrow> bool" where
  "completedAs p s i w a t \<longleftrightarrow>
     (\<exists>d. joinDirect p s i (wdb w) = Some d \<and> \<not> ev_deleting (da_event d) \<and>
        (if as_status (da_row d) = Ready then a = assetInfo (da_row d) \<and> wdb t = wdb w
         else finalized (da_row d) p a w t))"

lemma finalized_locks: "finalized row p a w (runlock n t) = finalized row p a w t"
  by (simp add: finalized_def runlock_def)

lemma Complete_body:
  fixes E :: "world \<Rightarrow> bool"
  assumes quietE: "\<And>u. wdb u = wdb w \<Longrightarrow> E u" and locks: "\<And>n t. Q' (n :: int) t \<Longrightarrow> E t"
    and ready: "\<And>d u. joinDirect p s i (wdb w) = Some d \<Longrightarrow> \<not> ev_deleting (da_event d) \<Longrightarrow>
        as_status (da_row d) = Ready \<Longrightarrow> wdb u = wdb w \<Longrightarrow> Q (assetInfo (da_row d)) u"
    and verify: "\<And>d c u n. joinDirect p s i (wdb w) = Some d \<Longrightarrow> \<not> ev_deleting (da_event d) \<Longrightarrow>
        as_status (da_row d) = Pending \<Longrightarrow> wdb u = wdb w \<Longrightarrow>
        wpE (verifyObject sv p s c (da_row d)) (\<lambda>x t. Q x (runlock n t)) (\<lambda>t. E (runlock n t)) u"
  shows "wpE (Complete sv p s i) Q E w"
  unfolding Complete_def Let_def
proof (rule directLock_wpE)
  fix n u
  assume u: "quiet w u"
  let ?R = "rlock n u"
  have data: "wdb t = wdb w" if "quiet ?R t" for t using that u by (simp add: quiet_def rlock_def)
  have E: "E (runlock n t)" if "quiet ?R t" for t using data [OF that] by (intro quietE) (simp add: runlock_def)
  show "wpE (bindE (loadDirect p s i) (\<lambda>a. bindE (failIf (ev_deleting (da_event a)) ErrClosed) (\<lambda>_.
      if as_status (da_row a) = Ready then ret (assetInfo (da_row a))
      else bindE (liftE (checkDirectKey (sv_backends sv) (as_event (da_row a)) i (as_key (da_row a)) (as_backend (da_row a))))
           (\<lambda>c. verifyObject sv p s c (da_row a))))) (\<lambda>x t. Q x (runlock n t)) (\<lambda>t. E (runlock n t)) ?R"
  proof (rule wpE_bindE, rule wpE_mono, rule loadDirect_row, rule quiet.refl)
    fix a t
    assume "quiet ?R t \<and> joinDirect p s i (wdb ?R) = Some a"
    then have q: "quiet ?R t" and j: "joinDirect p s i (wdb w) = Some a" using data [OF quiet.refl] by auto
    show "wpE (bindE (failIf (ev_deleting (da_event a)) ErrClosed) (\<lambda>_.
      if as_status (da_row a) = Ready then ret (assetInfo (da_row a))
      else bindE (liftE (checkDirectKey (sv_backends sv) (as_event (da_row a)) i (as_key (da_row a)) (as_backend (da_row a))))
           (\<lambda>c. verifyObject sv p s c (da_row a)))) (\<lambda>x t. Q x (runlock n t)) (\<lambda>t. E (runlock n t)) t"
      apply (rule wpE_bindE, rule wpE_failIf, rule E [OF q])
      apply (rule wpE_if, rule wpE_ret, rule ready [OF j], assumption, assumption)
       apply (use data [OF q] in \<open>simp add: runlock_def\<close>)
      apply (rule wpE_bindE, rule wpE_liftE, rule E [OF q])
      apply (rule verify [OF j], assumption)
       apply (cases "as_status (da_row a)"; simp)
      apply (rule data [OF q])
      done
  qed (erule E)
qed (auto simp: quiet_def intro: quietE)

lemma Complete_result: "wpE (Complete sv p s i) (completedAs p s i w) (\<lambda>_. True) w"
  apply (rule Complete_body [where Q' = "\<lambda>_ _. True"], rule TrueI, rule TrueI)
   apply (simp add: completedAs_def)
  apply (rule wpE_mono, rule verifyObject_result, assumption)
     apply (auto simp: completedAs_def finalized_locks dest!: joinDirect_row)
  done

lemma Complete_ledger: "upholds (keepsDB ledgerOk) (Complete sv p s i)"
proof -
  have K: "keepsDB ledgerOk w (runlock n t) = keepsDB ledgerOk w t" for w n t by (simp add: keepsDB_def runlock_def)
  have "wpE (Complete sv p s i) (\<lambda>_. keepsDB ledgerOk w) (keepsDB ledgerOk w) w" for w
    by (rule Complete_body [where Q' = "\<lambda>_ _. False"], simp_all add: K keepsDB_def [of _ w _, simplified])
      (rule wpE_mono, rule verifyObject_ledger, auto simp: keepsDB_def runlock_def dest!: joinDirect_row)
  then show ?thesis by (auto simp: upholds_def intro: wpE_state)
qed

end
