(* ===== verification/CleanupSafe.thy ===== *)
theory CleanupSafe
  imports Cleanup DirectSafe
begin

text \<open>
  Maintenance and deletion keep the invariants of the uploads; what they may remove, in which order
  they do it, and that the deletion of an event ends.
\<close>

section \<open>Cleanup under the invariants\<close>

lemma emptyExpired_no_assets:
  assumes "i \<in> set (emptyExpired t d)" and "a \<in> set (assets d)"
  shows "as_session a \<noteq> i"
  using assms set_limitTo by (fastforce simp: emptyExpired_def list_ex_iff)

text \<open>Reclaiming expired grants cascades to no asset.\<close>

lemma dropExpired_only_sessions:
  assumes "dropExpired t d = Inr (d', r)"
  shows "assets d' = assets d \<and> events d' = events d \<and> retired d' = retired d \<and> backends d' = backends d \<and>
    (\<exists>K. sessions d' = filter K (sessions d))"
proof -
  from assms have d': "d' = deleteSessions (\<lambda>u. us_id u \<in> set (emptyExpired t d)) d" by (simp add: dropExpired_def)
  have "assets d' = assets d"
    unfolding d' using emptyExpired_no_assets [of _ t d]
    by (auto simp: deleteSessions_def list_ex_iff intro!: filter_True)
  then show ?thesis by (auto simp: d')
qed

lemma dropExpired_under: "upholds (under stored) (exec (dropExpired t))"
  by (intro underTx_under under_exec_other) (auto simp: stored_assets dest: dropExpired_only_sessions)

lemma sessions_filter_ledger:
  assumes "ledgerOk d" and "assets d' = assets d" "events d' = events d" "sessions d' = filter K (sessions d)"
  shows "ledgerOk d'"
  using assms by (auto simp: ledgerOk_def sessionWithin_def underLimits_def liveSession_def distinct_map_filter')

lemma dropExpired_ledger: "upholds (keepsDB ledgerOk) (exec (dropExpired t))"
  by (rule keeps.up_exec) (auto simp: keepsDB_def dest!: dropExpired_only_sessions intro: sessions_filter_ledger)

lemma markChecked_under: "upholds (under stored) (exec (markChecked k t))"
  by (intro underTx_under under_exec_other) (auto simp: markChecked_def stored_assets)

lemma markChecked_ledger: "upholds (keepsDB ledgerOk) (exec (markChecked k t))"
  by (rule keeps.up_exec) (auto simp: keepsDB_def markChecked_def intro: ledger_assets)

lemma ctxErr_quiet: "upholds quiet ctxErr"
  unfolding ctxErr_def by (rule quiet.up_effect) (simp add: quiet.refl)

lemma cleanupRetired_under: "upholds (under stored) (cleanupRetired sv)"
proof -
  have cursor: "upholds (under stored) (modify (retiredAfter_update f))" for f
    by (rule under.up_modify) (simp add: under_def readyKept_def)
  have "upholds (under stored) (modify (\<lambda>w. if b then w\<lparr>retiredAfter := []\<rparr> else w))" for b
    by (rule under.up_modify) (simp add: under_def readyKept_def)
  moreover have "upholds (under stored) (cleanRetired sv r)" for r
    unfolding cleanRetired_def
    by (intro under.up_rules under.up_world cursor under_requests markChecked_under
        upholds_mono [OF ctxErr_quiet quiet_under])
  ultimately show ?thesis
    unfolding cleanupRetired_def by (intro under.up_rules under.up_world)
qed

lemma cleanupRetired_ledger: "upholds (keepsDB ledgerOk) (cleanupRetired sv)"
proof -
  have cursor: "upholds (keepsDB ledgerOk) (modify (retiredAfter_update f))" for f
    by (rule keeps.up_modify) (simp add: keepsDB_def)
  have "upholds (keepsDB ledgerOk) (modify (\<lambda>w. if b then w\<lparr>retiredAfter := []\<rparr> else w))" for b
    by (rule keeps.up_modify) (simp add: keepsDB_def)
  moreover have "upholds (keepsDB ledgerOk) (cleanRetired sv r)" for r
    unfolding cleanRetired_def
    by (intro keeps.up_rules keeps.up_world cursor keeps_requests markChecked_ledger
        upholds_mono [OF ctxErr_quiet quiet_keepsDB])
  ultimately show ?thesis
    unfolding cleanupRetired_def by (intro keeps.up_rules keeps.up_world)
qed

context object_store
begin

lemma runCleanup_under:
  assumes "sv_store sv = st"
  shows "upholds (under stored) (runCleanup sv)"
proof -
  have cursor: "upholds (under stored) (modify (cleanupAfter_update f))" for f
    by (rule under.up_modify) (simp add: under_def readyKept_def)
  have "upholds (under stored) (modify (\<lambda>w. if b then w\<lparr>cleanupAfter := []\<rparr> else w))" for b
    by (rule under.up_modify) (simp add: under_def readyKept_def)
  moreover have "upholds (under stored) (cleanAttempt sv c p)" for c p
    unfolding cleanAttempt_def
    by (intro under.up_rules under.up_world cursor removeAttempt_under [OF assms]
        upholds_mono [OF ctxErr_quiet quiet_under])
  ultimately show ?thesis
    unfolding runCleanup_def Let_def
    by (intro under.up_rules under.up_world dropExpired_under cleanupRetired_under)
qed

lemma runCleanup_ledger:
  assumes "sv_store sv = st"
  shows "upholds (keepsDB ledgerOk) (runCleanup sv)"
proof -
  have cursor: "upholds (keepsDB ledgerOk) (modify (cleanupAfter_update f))" for f
    by (rule keeps.up_modify) (simp add: keepsDB_def)
  have "upholds (keepsDB ledgerOk) (modify (\<lambda>w. if b then w\<lparr>cleanupAfter := []\<rparr> else w))" for b
    by (rule keeps.up_modify) (simp add: keepsDB_def)
  moreover have "upholds (keepsDB ledgerOk) (cleanAttempt sv c p)" for c p
    unfolding cleanAttempt_def
    by (intro keeps.up_rules keeps.up_world cursor removeAttempt_ledger [OF assms]
        upholds_mono [OF ctxErr_quiet quiet_keepsDB])
  ultimately show ?thesis
    unfolding runCleanup_def Let_def
    by (intro keeps.up_rules keeps.up_world dropExpired_ledger cleanupRetired_ledger)
qed

end

section \<open>What removal takes away\<close>

text \<open>
  Removal of an attempt, whatever fails in it: the rows only shrink, only rows of that identifier and
  event can go, and the key of an object that is not in the local directory is in the list of retired
  keys before its row goes and before storage is asked to delete anything.
\<close>

definition retiredKeys :: "db \<Rightarrow> string set" where
  "retiredKeys d = cl_key ` set (retired d)"

definition remoteRow :: "backend_set \<Rightarrow> asset_row \<Rightarrow> bool" where
  "remoteRow bs a \<longleftrightarrow> (case bs_entries bs (as_backend a) of Some b \<Rightarrow> be_type b \<noteq> ''local'' | None \<Rightarrow> True)"

definition sameObject :: "asset_row \<Rightarrow> asset_row \<Rightarrow> bool" where
  "sameObject a b \<longleftrightarrow> as_id b = as_id a \<and> as_key b = as_key a \<and> as_backend b = as_backend a \<and> as_event b = as_event a"

fun deletesOnly :: "string set \<Rightarrow> call \<Rightarrow> bool" where
  "deletesOnly K (CallDelete b k) \<longleftrightarrow> k \<in> K"
| "deletesOnly K _ \<longleftrightarrow> False"

lemma deletesOnly_mono: "deletesOnly K c \<Longrightarrow> K \<subseteq> L \<Longrightarrow> deletesOnly L c"
  by (cases c) auto

text \<open>The object of a row is disposed of: its key is retired, or its file is gone.\<close>

definition disposed :: "backend_set \<Rightarrow> asset_row \<Rightarrow> world \<Rightarrow> bool" where
  "disposed bs a w \<longleftrightarrow>
     (if remoteRow bs a then as_key a \<in> retiredKeys (wdb w) else validKey (as_key a) \<and> files w (as_key a) = None)"

definition monotone :: "world \<Rightarrow> world \<Rightarrow> bool" where
  "monotone s t \<longleftrightarrow> retiredKeys (wdb s) \<subseteq> retiredKeys (wdb t) \<and>
     (\<forall>k. validKey k \<longrightarrow> files s k = None \<longrightarrow> files t k = None) \<and>
     (\<exists>cs. trace t = trace s @ cs \<and> (\<forall>c \<in> set cs. deletesOnly (retiredKeys (wdb t)) c))"

definition tracked :: "backend_set \<Rightarrow> world \<Rightarrow> world \<Rightarrow> bool" where
  "tracked bs s t \<longleftrightarrow>
     (distinct (map as_id (assets (wdb s))) \<longrightarrow>
        distinct (map as_id (assets (wdb t))) \<and> monotone s t \<and>
        (\<forall>b \<in> set (assets (wdb t)). \<exists>a \<in> set (assets (wdb s)). sameObject a b) \<and>
        (\<forall>a \<in> set (assets (wdb s)). (\<exists>b \<in> set (assets (wdb t)). sameObject a b) \<or> disposed bs a t))"

lemma sameObject_refl [simp]: "sameObject a a"
  by (simp add: sameObject_def)

lemma sameObject_trans: "sameObject a b \<Longrightarrow> sameObject b c \<Longrightarrow> sameObject a c"
  by (simp add: sameObject_def)

lemma remoteRow_same: "sameObject a b \<Longrightarrow> remoteRow bs b = remoteRow bs a"
  by (simp add: sameObject_def remoteRow_def)

lemma disposed_same: "sameObject a b \<Longrightarrow> disposed bs b w = disposed bs a w"
  by (simp add: disposed_def remoteRow_same) (simp add: sameObject_def)

lemma disposed_monotone: "monotone s t \<Longrightarrow> disposed bs a s \<Longrightarrow> disposed bs a t"
  by (auto simp: monotone_def disposed_def)

lemma monotone_trans:
  assumes "monotone s t" and "monotone t u"
  shows "monotone s u"
proof -
  from assms obtain cs cs' where "trace t = trace s @ cs" "\<forall>c \<in> set cs. deletesOnly (retiredKeys (wdb t)) c"
    "trace u = trace t @ cs'" "\<forall>c \<in> set cs'. deletesOnly (retiredKeys (wdb u)) c" by (auto simp: monotone_def)
  then have "\<exists>cs. trace u = trace s @ cs \<and> (\<forall>c \<in> set cs. deletesOnly (retiredKeys (wdb u)) c)"
    using assms(2) by (intro exI [of _ "cs @ cs'"]) (auto simp: monotone_def intro: deletesOnly_mono)
  with assms show ?thesis by (auto simp: monotone_def)
qed

lemma tracked_trans:
  assumes "tracked bs s t" and "tracked bs t u"
  shows "tracked bs s u"
  unfolding tracked_def
proof (intro impI conjI ballI)
  assume d: "distinct (map as_id (assets (wdb s)))"
  with assms(1) have dt: "distinct (map as_id (assets (wdb t)))" and st: "monotone s t" by (simp_all add: tracked_def)
  with assms(2) have tu: "monotone t u" by (simp add: tracked_def)
  show "distinct (map as_id (assets (wdb u)))" using assms(2) dt by (simp add: tracked_def)
  show "monotone s u" using st tu by (rule monotone_trans)
  show "\<exists>a \<in> set (assets (wdb s)). sameObject a b" if "b \<in> set (assets (wdb u))" for b
  proof -
    from that assms(2) dt obtain c where "c \<in> set (assets (wdb t))" "sameObject c b" by (auto simp: tracked_def)
    moreover from this assms(1) d obtain a where "a \<in> set (assets (wdb s))" "sameObject a c" by (auto simp: tracked_def)
    ultimately show ?thesis by (blast intro: sameObject_trans)
  qed
  fix a
  assume a: "a \<in> set (assets (wdb s))"
  show "(\<exists>b \<in> set (assets (wdb u)). sameObject a b) \<or> disposed bs a u"
  proof (cases "disposed bs a t")
    case True
    with tu show ?thesis by (auto intro: disposed_monotone)
  next
    case False
    with assms(1) d a obtain b where b: "b \<in> set (assets (wdb t))" "sameObject a b" by (auto simp: tracked_def)
    with assms(2) dt have "(\<exists>c \<in> set (assets (wdb u)). sameObject b c) \<or> disposed bs b u" by (simp add: tracked_def)
    with b show ?thesis by (metis sameObject_trans disposed_same)
  qed
qed

text \<open>Steps that touch neither the assets nor the log.\<close>

lemma tracked_same:
  assumes "assets (wdb t) = assets (wdb s)" and "monotone s t"
  shows "tracked bs s t"
  using assms by (auto simp: tracked_def intro: sameObject_refl)

lemma monotone_same: "retiredKeys (wdb s) \<subseteq> retiredKeys (wdb t) \<Longrightarrow> files t = files s \<Longrightarrow> trace t = trace s \<Longrightarrow> monotone s t"
  by (simp add: monotone_def)

interpretation tracked: world_order "tracked bs" for bs
proof
  show "tracked bs w w" for w by (rule tracked_same) (simp_all add: monotone_same)
  show "tracked bs w (w\<lparr>tick := n, dead := b\<rparr>)" for w n b by (rule tracked_same) (simp_all add: monotone_same)
qed (rule tracked_trans)

lemma quiet_tracked: "quiet s t \<Longrightarrow> tracked bs s t"
  by (rule tracked_same) (simp_all add: quiet_def monotone_same)

text \<open>Asking storage to delete a key that is retired.\<close>

lemma tracked_delete:
  assumes "key \<in> retiredKeys (wdb w)"
  shows "tracked bs w (w\<lparr>trace := trace w @ [CallDelete b key]\<rparr>)"
  by (rule tracked_same) (use assms in \<open>auto simp: monotone_def\<close>)

lemma s3Delete_tracked:
  assumes "key \<in> retiredKeys (wdb w)"
  shows "wpE (s3Delete c key) (\<lambda>_ t. tracked bs w t \<and> wdb t = wdb w) (tracked bs w) w"
proof -
  have step: "tracked bs w (w\<lparr>trace := trace w @ [CallDelete b key], tick := n, dead := d\<rparr>)" for b n d
    using tracked.trans [OF tracked_delete [OF assms] tracked.admin] by simp
  have step': "tracked bs w (w\<lparr>trace := trace w @ [CallDelete b key], tick := n\<rparr>)" for b n
    using tracked.trans [OF tracked_delete [OF assms] tracked.tick_only] by simp
  show ?thesis
    unfolding s3Delete_def
    by (rule wpE_bindE, rule wpE_failIf, simp add: tracked.refl, rule wpE_bindE, rule wpE_remote)
      (auto intro!: step step' tracked.admin wpE_ret wpE_raise split: sum.splits)
qed

lemma resolve_local: "resolve bs (as_backend a) = Inr b \<Longrightarrow> be_type b = ''local'' \<Longrightarrow> \<not> remoteRow bs a"
  and resolve_s3: "resolve bs (as_backend a) = Inr b \<Longrightarrow> be_type b \<noteq> ''local'' \<Longrightarrow> remoteRow bs a"
  by (auto simp: resolve_def remoteRow_def split: option.splits if_splits)

lemma retireKey_result:
  assumes "retireKey r d = Inr (d', u)"
  shows "assets d' = assets d \<and> retiredKeys d \<subseteq> retiredKeys d' \<and> cl_key r \<in> retiredKeys d' \<and>
    events d' = events d \<and> sessions d' = sessions d"
  using assms by (auto simp: retireKey_def retiredKeys_def list_ex_iff split: if_splits) (metis imageI)

lemma retireKey_tracked:
  "wpE (exec (retireKey r)) (\<lambda>_ t. tracked bs w t \<and> assets (wdb t) = assets (wdb w) \<and> cl_key r \<in> retiredKeys (wdb t))
     (tracked bs w) w"
  by (rule wpE_exec) (auto intro!: tracked.admin tracked_same monotone_same dest!: retireKey_result)

lemma delete_tracked:
  assumes "a \<in> set (assets (wdb w))" and "as_id a = i" and "disposed bs a w"
  shows "wpE (exec (\<lambda>d. Inr (deleteAssets (isAttempt i n) d, ()))) (\<lambda>_. tracked bs w) (tracked bs w) w"
proof -
  have "tracked bs w (w\<lparr>wdb := deleteAssets (isAttempt i n) (wdb w)\<rparr>)"
    unfolding tracked_def
  proof
    assume dist: "distinct (map as_id (assets (wdb w)))"
    let ?t = "w\<lparr>wdb := deleteAssets (isAttempt i n) (wdb w)\<rparr>"
    have m: "monotone w ?t" by (rule monotone_same) (simp_all add: retiredKeys_def)
    have "(\<exists>b \<in> set (assets (wdb ?t)). sameObject x b) \<or> disposed bs x ?t" if x: "x \<in> set (assets (wdb w))" for x
    proof (cases "isAttempt i n x")
      case True
      with x assms dist have "x = a" by (auto simp: isAttempt_def dest: distinct_map_eq)
      with assms(3) disposed_monotone [OF m] show ?thesis by simp
    next
      case False
      with x show ?thesis by (auto intro: sameObject_refl)
    qed
    with dist m show "distinct (map as_id (assets (wdb ?t))) \<and> monotone w ?t \<and>
        (\<forall>b \<in> set (assets (wdb ?t)). \<exists>a \<in> set (assets (wdb w)). sameObject a b) \<and>
        (\<forall>a \<in> set (assets (wdb w)). (\<exists>b \<in> set (assets (wdb ?t)). sameObject a b) \<or> disposed bs a ?t)"
      by (auto simp: distinct_map_filter' intro: sameObject_refl)
  qed
  then show ?thesis
    by (intro wpE_exec) (auto intro: tracked.admin tracked.trans [OF _ tracked.admin] tracked.trans [OF _ tracked.tick_only])
qed

context object_store
begin

lemma delete_local_tracked: "st_delete st key w = (r, t) \<Longrightarrow> tracked bs w t"
  using delete_rest [of key w r t] delete_key [of key w r t] delete_frame [of key w r t]
  by (intro tracked_same) (fastforce simp: sameRest_def monotone_def)+

lemma removeObject_tracked:
  assumes "sv_store sv = st"
  shows "wpE (removeObject sv n i (as_key a) (as_backend a))
    (\<lambda>_ t. tracked (sv_backends sv) w t \<and> assets (wdb t) = assets (wdb w) \<and> disposed (sv_backends sv) a t)
    (tracked (sv_backends sv) w) w"
proof -
  let ?bs = "sv_backends sv"
  let ?Q = "\<lambda>t. tracked ?bs w t \<and> assets (wdb t) = assets (wdb w) \<and> disposed ?bs a t"
  have local: "wpE (st_delete st (as_key a)) (\<lambda>_. ?Q) (tracked ?bs w) w" if "\<not> remoteRow ?bs a"
    using that by (auto simp: wpE_def disposed_def sameRest_def dest: delete_rest delete_ok
        intro!: delete_local_tracked split: prod.splits sum.splits)
  have remote: "wpE (s3Delete c (as_key a)) (\<lambda>_. ?Q) (tracked ?bs w) v"
    if "tracked ?bs w v" "assets (wdb v) = assets (wdb w)" "as_key a \<in> retiredKeys (wdb v)" "remoteRow ?bs a" for c v
    by (rule wpE_mono [OF s3Delete_tracked [OF that(3)]])
      (use that in \<open>auto simp: disposed_def intro: tracked.trans\<close>)
  have retire: "wpE (bindE (exec (retireKey r)) (\<lambda>_. s3Delete c (as_key a))) (\<lambda>_. ?Q) (tracked ?bs w) v"
    if "quiet w v" "cl_key r = as_key a" "remoteRow ?bs a" for c v r
    apply (rule wpE_bindE, rule wpE_mono, rule retireKey_tracked [of r ?bs v])
     apply (rule remote)
    using that tracked.trans [OF quiet_tracked [OF that(1)]] by (auto simp: quiet_def)
  show ?thesis
    unfolding removeObject_def assms
    apply (rule wpE_bindE, rule wpE_liftE, rule tracked.refl)
    apply (rule wpE_if)
     apply (rule wpE_bindE, rule wpE_failIf, rule tracked.refl)
     apply (rule local, erule (1) resolve_local)
    apply (rule wpE_if)
     apply (rule wpE_bindE, rule wpE_liftE, rule tracked.refl)
     apply (rule wpE_bindE, rule wpE_timestamp, rule retire)
       apply (simp add: quiet_def)
      apply simp
     apply (erule (1) resolve_s3)
    apply (rule wpE_raise, rule tracked.refl)
    done
qed

lemma removeAttempt_tracked:
  assumes "sv_store sv = st"
  shows "upholds (tracked (sv_backends sv)) (removeAttempt sv n i key)"
proof -
  let ?bs = "sv_backends sv"
  have rest: "wpE (bindE (removeObject sv n i key (as_backend a)) (\<lambda>_. exec (\<lambda>d. Inr (deleteAssets (isAttempt i n) d, ()))))
      (\<lambda>_. tracked ?bs w) (tracked ?bs w) w" if a: "a \<in> set (assets (wdb w))" "as_id a = i" "as_key a = key" for w a
    apply (rule wpE_bindE, rule wpE_mono)
      apply (rule removeObject_tracked [OF assms, of n i a w, unfolded a(3)])
     apply (rule wpE_mono, rule delete_tracked [of a])
    using a by (auto intro: tracked.trans)
  have "wpE (removeAttempt sv n i key) (\<lambda>_. tracked ?bs w) (tracked ?bs w) w" for w
  proof -
    have found: "wpE (bindE (failIf b e) (\<lambda>_. bindE (removeObject sv n i key (as_backend a))
         (\<lambda>_. exec (\<lambda>d. Inr (deleteAssets (isAttempt i n) d, ()))))) (\<lambda>_. tracked ?bs w) (tracked ?bs w) (w\<lparr>tick := m\<rparr>)"
      if "find (\<lambda>a. as_id a = i \<and> as_event a = n \<and> as_key a = key) (assets (wdb w)) = Some a" for a b e m
      apply (rule wpE_bindE, rule wpE_failIf, rule tracked.tick_only)
      apply (rule wpE_mono, rule rest [of a])
      using find_SomeD [OF that] by (auto intro: tracked.trans [OF tracked.tick_only])
    show ?thesis
      unfolding removeAttempt_def
      apply (rule wpE_bindE, rule wpE_failIf, rule tracked.refl)
      apply (rule wpE_tryE, rule wpE_queryRow)
      by (auto intro: found intro!: wpE_ret wpE_raise tracked.admin)
  qed
  then show ?thesis by (auto simp: upholds_def intro: wpE_state)
qed

end

section \<open>The periodic pass\<close>

lemma markChecked_keys:
  assumes "markChecked k t d = Inr (d', r)"
  shows "assets d' = assets d \<and> retiredKeys d' = retiredKeys d"
proof -
  have "retiredKeys d' = set (map cl_key (updWhere (\<lambda>r. cl_key r = k) (cl_checked_update (\<lambda>_. t)) (retired d)))"
    using assms by (auto simp: markChecked_def retiredKeys_def)
  also have "\<dots> = retiredKeys d" by (simp add: map_updWhere retiredKeys_def)
  finally show ?thesis using assms by (auto simp: markChecked_def)
qed

lemma cleanRetired_tracked:
  assumes "cl_key r \<in> retiredKeys (wdb w)"
  shows "wpE (cleanRetired sv r) (\<lambda>_. tracked bs w) (tracked bs w) w"
proof -
  let ?v = "w\<lparr>retiredAfter := cl_key r\<rparr>"
  have v: "tracked bs w ?v" by (rule tracked_same) (simp_all add: monotone_same)
  have T: "tracked bs ?v t \<Longrightarrow> tracked bs w t" for t by (rule tracked.trans [OF v])
  have mark: "upholds (tracked bs) (exec (markChecked k t))" for k t
    by (rule tracked.up_exec) (auto intro!: tracked_same monotone_same dest: markChecked_keys)
  have ctx: "upholds (tracked bs) ctxErr" by (rule upholds_mono [OF ctxErr_quiet quiet_tracked])
  have tail: "upholds (tracked bs) (case res of Inl e \<Rightarrow> ctxErr
       | Inr u \<Rightarrow> bindE timestamp (\<lambda>t. exec (markChecked (cl_key r) t)))" for res :: "err + unit"
    by (intro tracked.up_rules tracked.up_world ctx mark)
  have req: "wpE (bindE (liftE (checkDirectKey (sv_backends sv) (cl_event r) (cl_asset r) (cl_key r) (cl_backend r)))
             (\<lambda>s. s3Delete s (cl_key r))) (\<lambda>_. tracked bs ?v) (tracked bs ?v) ?v"
    by (rule wpE_bindE, rule wpE_liftE, rule tracked.refl, rule wpE_mono, rule s3Delete_tracked)
      (use assms in auto)
  have tail': "wpE (case res of Inl e \<Rightarrow> ctxErr
       | Inr u \<Rightarrow> bindE timestamp (\<lambda>t. exec (markChecked (cl_key r) t))) (\<lambda>_. tracked bs w) (tracked bs w) u"
    if "tracked bs ?v u" for res :: "err + unit" and u
    by (rule wpE_mono [OF wpE_upholds [OF tail]]) (auto intro: T tracked.trans [OF that])
  have "wpE (tryE (bindE (liftE (checkDirectKey (sv_backends sv) (cl_event r) (cl_asset r) (cl_key r) (cl_backend r)))
             (\<lambda>s. s3Delete s (cl_key r))) (\<lambda>res. case res of Inl e \<Rightarrow> ctxErr
       | Inr u \<Rightarrow> bindE timestamp (\<lambda>t. exec (markChecked (cl_key r) t)))) (\<lambda>_. tracked bs w) (tracked bs w) ?v"
    by (rule wpE_tryE, rule wpE_mono [OF req]) (use tail' in blast)+
  then show ?thesis
    unfolding cleanRetired_def by (intro wpE_bindE wpE_modify) simp
qed

lemma cleanAll_tracked:
  assumes "\<And>r. r \<in> set items \<Longrightarrow> cl_key r \<in> retiredKeys (wdb w)"
  shows "wpE (forE (cleanRetired sv) items) (\<lambda>_. tracked bs w) (tracked bs w) w"
proof (cases "distinct (map as_id (assets (wdb w)))")
  case True
  have keys: "cl_key r \<in> retiredKeys (wdb t)" if "r \<in> set items" "tracked bs w t" for r t
    using assms [OF that(1)] that(2) True by (auto simp: tracked_def monotone_def)
  show ?thesis
  proof (rule wpE_forE [where I = "tracked bs w"])
    fix r xs and t :: world
    assume "set (r # xs) \<subseteq> set items" and t: "tracked bs w t"
    then have "wpE (cleanRetired sv r) (\<lambda>_. tracked bs t) (tracked bs t) t"
      by (intro cleanRetired_tracked keys) auto
    then show "wpE (cleanRetired sv r) (\<lambda>_. tracked bs w) (tracked bs w) t"
      by (rule wpE_mono) (auto intro: tracked.trans [OF t])
  qed (auto intro: tracked.refl)
qed (auto simp: tracked_def wpE_def split: prod.splits sum.splits)

lemma cleanupRetired_tracked: "upholds (tracked bs) (cleanupRetired sv)"
proof -
  have cursor: "tracked bs t (t\<lparr>retiredAfter := []\<rparr>)" for t
    by (auto intro!: tracked_same monotone_same)
  have "wpE (cleanupRetired sv) (\<lambda>_. tracked bs w) (tracked bs w) w" for w
    unfolding cleanupRetired_def
    apply (rule wpE_bindE, rule wpE_now, rule wpE_bindE, rule wpE_gets, rule wpE_bindE, rule wpE_query)
     apply (simp add: tracked.admin)
    apply (rule wpE_bindE, rule wpE_mono, rule cleanAll_tracked [where bs = bs])
      apply (use set_limitTo in \<open>fastforce simp: dueRetired_def retiredKeys_def\<close>)
     apply (rule wpE_modify)
     apply (auto intro: tracked.trans [OF tracked.tick_only] tracked.trans [OF tracked.trans [OF tracked.tick_only _] cursor])
    done
  then show ?thesis by (auto simp: upholds_def intro: wpE_state)
qed

context object_store
begin

lemma runCleanup_tracked:
  assumes "sv_store sv = st"
  shows "upholds (tracked (sv_backends sv)) (runCleanup sv)"
proof -
  let ?bs = "sv_backends sv"
  have cursor: "upholds (tracked ?bs) (modify (cleanupAfter_update f))" for f
    by (rule tracked.up_modify) (simp add: tracked_same monotone_same)
  have "upholds (tracked ?bs) (modify (\<lambda>w. if b then w\<lparr>cleanupAfter := []\<rparr> else w))" for b
    by (rule tracked.up_modify) (simp add: tracked_same monotone_same)
  moreover have "upholds (tracked ?bs) (exec (dropExpired t))" for t
    by (rule tracked.up_exec) (auto intro!: tracked_same monotone_same simp: retiredKeys_def dest: dropExpired_only_sessions)
  moreover have "upholds (tracked ?bs) (cleanAttempt sv c p)" for c p
    unfolding cleanAttempt_def
    by (intro tracked.up_rules tracked.up_world cursor removeAttempt_tracked [OF assms]
        upholds_mono [OF ctxErr_quiet quiet_tracked])
  ultimately show ?thesis
    unfolding runCleanup_def Let_def
    by (intro tracked.up_rules tracked.up_world cleanupRetired_tracked)
qed

end

section \<open>Which attempts a pass may drop\<close>

text \<open>Rows are only dropped, and only rows of one identifier.\<close>

definition onlyDrops :: "string \<Rightarrow> world \<Rightarrow> world \<Rightarrow> bool" where
  "onlyDrops i s t \<longleftrightarrow> env t = env s \<and>
     (distinct (map as_id (assets (wdb s))) \<longrightarrow> distinct (map as_id (assets (wdb t)))) \<and>
     set (assets (wdb t)) \<subseteq> set (assets (wdb s)) \<and>
     (\<forall>a \<in> set (assets (wdb s)). as_id a \<noteq> i \<longrightarrow> a \<in> set (assets (wdb t)))"

interpretation only_drops: world_order "onlyDrops i" for i
  by unfold_locales (auto simp: onlyDrops_def)

lemma onlyDrops_same: "assets (wdb t) = assets (wdb s) \<Longrightarrow> env t = env s \<Longrightarrow> onlyDrops i s t"
  by (simp add: onlyDrops_def)

lemma delete_onlyDrops: "upholds (onlyDrops i) (exec (\<lambda>d. Inr (deleteAssets (isAttempt i n) d, ())))"
  by (rule only_drops.up_exec) (auto simp: onlyDrops_def isAttempt_def distinct_map_filter')

lemma quiet_onlyDrops: "quiet s t \<Longrightarrow> onlyDrops i s t"
  and onlyTrace_onlyDrops: "onlyTrace s t \<Longrightarrow> onlyDrops i s t"
  and sameRest_onlyDrops: "sameRest s t \<Longrightarrow> onlyDrops i s t"
  by (simp_all add: quiet_def onlyTrace_def sameRest_def onlyDrops_same)

context object_store
begin

lemma removeAttempt_onlyDrops:
  assumes "sv_store sv = st"
  shows "upholds (onlyDrops i) (removeAttempt sv n i key)"
proof -
  have "upholds (onlyDrops i) (st_delete st k)" for k
    by (rule upholdsI) (auto intro!: sameRest_onlyDrops dest: delete_rest)
  moreover have "upholds (onlyDrops i) (exec (retireKey r))" for r
    by (rule only_drops.up_exec) (auto intro!: onlyDrops_same dest: retireKey_result)
  ultimately show ?thesis
    unfolding removeAttempt_def removeObject_def assms
    by (intro only_drops.up_rules only_drops.up_world delete_onlyDrops
        upholds_mono [OF onlyTrace_requests(4) onlyTrace_onlyDrops])
qed

end

text \<open>A row is old enough when it was pending, and written and last authorized over an hour before a
reading of the clock, as SQLite compares the timestamps.\<close>

definition overdue :: "env \<Rightarrow> asset_row \<Rightarrow> bool" where
  "overdue v a \<longleftrightarrow> (\<exists>n. staleAt (Stamp (e_now v n - nanosPerHour)) a)"

definition aged :: "world \<Rightarrow> world \<Rightarrow> bool" where
  "aged s t \<longleftrightarrow> (distinct (map as_id (assets (wdb s))) \<longrightarrow>
     env t = env s \<and> distinct (map as_id (assets (wdb t))) \<and>
     set (assets (wdb t)) \<subseteq> set (assets (wdb s)) \<and>
     (\<forall>a \<in> set (assets (wdb s)). a \<in> set (assets (wdb t)) \<or> overdue (env s) a))"

interpretation aged: world_order aged
proof
  show "aged s u" if "aged s t" "aged t u" for s t u
    using that by (auto simp: aged_def)
qed (auto simp: aged_def)

lemma quiet_aged: "quiet s t \<Longrightarrow> aged s t"
  and onlyTrace_aged: "onlyTrace s t \<Longrightarrow> aged s t"
  by (auto simp: aged_def quiet_def onlyTrace_def)

lemma overdue_hour:
  assumes "overdue v a"
  shows "as_status a = Pending \<and> (\<exists>n. instant (as_created a) + nanosPerHour < e_now v n + nanosPerSecond \<and>
    (\<forall>x. as_authorized a = Some x \<longrightarrow> instant x + nanosPerHour < e_now v n + nanosPerSecond))"
proof -
  from assms obtain n where n: "staleAt (Stamp (e_now v n - nanosPerHour)) a" by (auto simp: overdue_def)
  have late: "instant s + nanosPerHour < e_now v n + nanosPerSecond" if "s < Stamp (e_now v n - nanosPerHour)" for s
    using stamp_less_instant [OF that] by simp
  from n show ?thesis by (auto simp: staleAt_def intro!: exI [of _ n] late split: option.splits)
qed

lemma wpE_now_env: "Q (e_now (env w) (tick w)) (w\<lparr>tick := Suc (tick w)\<rparr>) \<Longrightarrow> wpE now Q E w"
  by (simp add: wpE_def now_def)

lemma cleanupRetired_aged: "upholds aged (cleanupRetired sv)"
proof -
  have mark: "upholds aged (exec (markChecked k t))" for k t
    by (rule aged.up_exec) (auto simp: aged_def dest: markChecked_keys)
  have "upholds aged (modify (\<lambda>w. if b then w\<lparr>retiredAfter := []\<rparr> else w))" for b
    by (rule aged.up_modify) (simp add: aged_def)
  moreover have "upholds aged (modify (retiredAfter_update f))" for f
    by (rule aged.up_modify) (simp add: aged_def)
  ultimately show ?thesis
    unfolding cleanupRetired_def cleanRetired_def
    by (intro aged.up_rules aged.up_world mark upholds_mono [OF ctxErr_quiet quiet_aged]
        upholds_mono [OF onlyTrace_requests(4) onlyTrace_aged])
qed

context object_store
begin

lemma cleanAttempt_aged:
  assumes "sv_store sv = st" and "c = Stamp (e_now (env w) n - nanosPerHour)"
  shows "wpE (cleanAttempt sv c p) (\<lambda>_. aged w) (aged w) w"
proof -
  let ?i = "as_id p"
  have rm: "wpE (removeAttempt sv (as_event p) ?i (as_key p)) (\<lambda>_. aged w) (aged w) u"
    if u: "aged w u" "wdb u = wdb w" "stillStale ?i c (wdb w)" for u
  proof (rule wpE_mono [OF wpE_upholds [OF removeAttempt_onlyDrops [OF assms(1)]]])
    have stale: "overdue (env w) a"
      if "distinct (map as_id (assets (wdb w)))" "a \<in> set (assets (wdb w))" "as_id a = ?i" for a
      using u(3) that assms(2) by (auto simp: stillStale_def list_ex_iff overdue_def dest: distinct_map_eq)
    show "aged w t" if "onlyDrops ?i u t" for t
      using that u stale by (auto simp: aged_def onlyDrops_def)
    then show "aged w t" if "onlyDrops ?i u t" for t using that .
  qed
  have ctx: "wpE ctxErr (\<lambda>_. aged w) (aged w) u" if "aged w u" for u
    by (rule wpE_mono [OF wpE_upholds [OF ctxErr_quiet]]) (auto intro: aged.trans [OF that quiet_aged])
  show ?thesis
    unfolding cleanAttempt_def
    apply (rule wpE_bindE, rule wpE_modify, rule wpE_bindE, rule wpE_tryLock, rule wpE_if)
     apply (rule wpE_ret, simp add: aged_def)
    apply (rule wpE_tryE, rule wpE_bindE, rule wpE_query)
     apply (auto intro!: wpE_ret ctx wpE_mono [OF rm] simp: aged_def)
    done
qed

lemma runCleanup_aged:
  assumes "sv_store sv = st"
  shows "upholds aged (runCleanup sv)"
proof -
  have drop: "upholds aged (exec (dropExpired t))" for t
    by (rule aged.up_exec) (auto simp: aged_def dest: dropExpired_only_sessions)
  have cur: "aged t (t\<lparr>cleanupAfter := []\<rparr>)" for t by (simp add: aged_def)
  have loop: "wpE (forE (cleanAttempt sv (Stamp (e_now (env w) n - nanosPerHour))) xs)
      (\<lambda>_. aged w) (aged w) u" if u: "aged w u" for w u n xs
  proof (cases "distinct (map as_id (assets (wdb w)))")
    case True
    show ?thesis
    proof (rule wpE_forE [where I = "aged w"], goal_cases)
      case (1 p ys t)
      with True have "env t = env w" by (simp add: aged_def)
      then show ?case
        by (intro wpE_mono [OF cleanAttempt_aged [OF assms]]) (auto intro: aged.trans [OF 1(2)])
    qed (use u in auto)
  qed (auto simp: aged_def wpE_def split: prod.splits sum.splits)
  have fin: "wpE (bindE (modify (\<lambda>w. if b then w\<lparr>cleanupAfter := []\<rparr> else w)) (\<lambda>_. cleanupRetired sv)) (\<lambda>_. aged w) (aged w) t"
    if "aged w t" for t b and w :: world
    by (rule wpE_bindE, rule wpE_modify, rule wpE_mono [OF wpE_upholds [OF cleanupRetired_aged]])
      (auto intro: aged.trans [OF that] aged.trans [OF aged.trans [OF that cur]] split: if_splits)
  have body: "wpE (bindE now (\<lambda>t2. bindE (gets cleanupAfter) (\<lambda>after.
      bindE (query (\<lambda>d. Inr (dueAttempts (Stamp (t2 - nanosPerHour)) after d))) (\<lambda>attempts.
      bindE (forE (cleanAttempt sv (Stamp (t2 - nanosPerHour))) attempts) (\<lambda>_.
      bindE (modify (\<lambda>w. if int (length attempts) < 1000 then w\<lparr>cleanupAfter := []\<rparr> else w)) (\<lambda>_.
      cleanupRetired sv)))))) (\<lambda>_. aged u) (aged u) u" for u
    apply (rule wpE_bindE, rule wpE_now_env, rule wpE_bindE, rule wpE_gets)
    apply (rule wpE_bindE, rule wpE_query, simp add: aged_def)
    apply (rule wpE_bindE, rule wpE_mono, rule loop [of u])
      apply (simp add: aged_def)
     apply (erule fin)
    apply assumption
    done
  have "wpE (runCleanup sv) (\<lambda>_. aged w) (aged w) w" for w
    unfolding runCleanup_def Let_def
    apply (rule wpE_bindE, rule wpE_timestamp)
    apply (rule wpE_bindE, rule wpE_mono, rule wpE_upholds [OF drop])
     apply (rule wpE_mono, rule body)
      apply (auto elim: aged.trans intro: aged.trans [OF aged.tick_only])
    done
  then show ?thesis by (auto simp: upholds_def intro: wpE_state)
qed

end

text \<open>In the order of time: every row that is no longer there was pending, and written, and last authorized, more
than an hour less a second before a reading of the clock.\<close>

definition hourOld :: "env \<Rightarrow> asset_row \<Rightarrow> bool" where
  "hourOld v a \<longleftrightarrow> as_status a = Pending \<and>
     (\<exists>n. instant (as_created a) + nanosPerHour < e_now v n + nanosPerSecond \<and>
        (\<forall>x. as_authorized a = Some x \<longrightarrow> instant x + nanosPerHour < e_now v n + nanosPerSecond))"

definition dropsOld :: "world \<Rightarrow> world \<Rightarrow> bool" where
  "dropsOld s t \<longleftrightarrow> (distinct (map as_id (assets (wdb s))) \<longrightarrow>
     set (assets (wdb t)) \<subseteq> set (assets (wdb s)) \<and>
     (\<forall>a \<in> set (assets (wdb s)). a \<in> set (assets (wdb t)) \<or> hourOld (env s) a))"

lemma aged_dropsOld: "aged s t \<Longrightarrow> dropsOld s t"
  unfolding aged_def dropsOld_def hourOld_def using overdue_hour by blast

end
