(* ===== verification/Deletion.thy ===== *)
theory Deletion
  imports CleanupSafe
begin

text \<open>
  Deleting an event: the loop ends, a deletion that reports success has disposed of every object of the
  event, and one that stops half-way never leaves a ready row without its file, nor touches another
  event's media.
\<close>

section \<open>The loop ends\<close>

lemma unready_assets:
  assumes "unready i d = Inr (d', u)"
  shows "assets d' = updWhere (\<lambda>a. as_id a = i) (\<lambda>a. a\<lparr>as_status := Pending, as_completed := None\<rparr>) (assets d) \<and>
    events d' = events d \<and> sessions d' = sessions d \<and> retired d' = retired d"
  using assms by (auto simp: unready_def)

definition noFuel :: "err + 'a \<Rightarrow> bool" where
  "noFuel r \<longleftrightarrow> r \<noteq> Inl (Failure ''fuel'')"

lemma filter_shorter: "x \<in> set xs \<Longrightarrow> \<not> P x \<Longrightarrow> length (filter P xs) < length xs"
  by (induction xs) (auto intro: le_imp_less_Suc length_filter_le)

context object_store
begin

text \<open>A removal that succeeds removes a row, when the row is there and pending.\<close>

lemma removeAttempt_shrinks:
  assumes sv: "sv_store sv = st"
    and row: "a \<in> set (assets (wdb w))" "as_id a = i" "as_event a = n" "as_key a = key"
    and pend: "\<forall>b \<in> set (assets (wdb w)). as_id b = i \<longrightarrow> as_status b = Pending"
  shows "wpE (removeAttempt sv n i key) (\<lambda>_ t. length (assets (wdb t)) < length (assets (wdb w))) (\<lambda>_. True) w"
proof -
  let ?find = "\<lambda>d. find (\<lambda>a. as_id a = i \<and> as_event a = n \<and> as_key a = key) (assets d)"
  have gone: "length (filter (\<lambda>a. \<not> isAttempt i n a) (assets (wdb w))) < length (assets (wdb w))"
    using row pend by (intro filter_shorter [of a]) (auto simp: isAttempt_def)
  have del: "wpE (exec (\<lambda>d. Inr (deleteAssets (isAttempt i n) d, ())))
      (\<lambda>_ t. length (assets (wdb t)) < length (assets (wdb w))) (\<lambda>_. True) u"
    if "assets (wdb u) = assets (wdb w)" for u
    by (rule wpE_exec) (use that gone in auto)
  have rest: "wpE (bindE (removeObject sv n i key (as_backend b)) (\<lambda>_. exec (\<lambda>d. Inr (deleteAssets (isAttempt i n) d, ()))))
      (\<lambda>_ t. length (assets (wdb t)) < length (assets (wdb w))) (\<lambda>_. True) (w\<lparr>tick := m\<rparr>)"
    if "as_key b = key" for b :: asset_row and m
    apply (rule wpE_bindE, rule wpE_mono)
      apply (rule removeObject_tracked [OF sv, of n i b, unfolded that])
    by (auto intro: del)
  have "?find (wdb w) \<noteq> None" using row by (auto simp: find_None_iff)
  then show ?thesis
    unfolding removeAttempt_def
    by (intro wpE_bindE wpE_failIf TrueI wpE_try_queryRow)
      (auto intro!: wpE_bindE wpE_failIf wpE_raise rest dest: find_SomeD)
qed

lemma deleteLoop_wp:
  assumes sv: "sv_store sv = st"
  shows "length (assets (wdb w)) < k \<Longrightarrow> wp (deleteLoop k sv i) (\<lambda>r _. noFuel r) w"
proof (induction k arbitrary: w)
  case (Suc k)
  have round: "wp (bindE (exec (unready (as_id a))) (\<lambda>_.
      bindE (orErr (removeAttempt sv i (as_id a) (as_key a)) ErrDeleting) (\<lambda>_. deleteLoop k sv i))) (\<lambda>r _. noFuel r) u"
    if a: "a \<in> set (assets (wdb u))" "as_event a = i" and u: "assets (wdb u) = assets (wdb w)" for a u
    unfolding wp_simps
  proof (rule wp_exec_err)
    fix d and r :: unit and n
    assume d: "unready (as_id a) (wdb u) = Inr (d, r)"
    let ?v = "u\<lparr>wdb := d, tick := n\<rparr>" and ?a = "a\<lparr>as_status := Pending, as_completed := None\<rparr>"
    have "wpE (removeAttempt sv i (as_id a) (as_key a)) (\<lambda>_ t. length (assets (wdb t)) < length (assets (wdb ?v))) (\<lambda>_. True) ?v"
      by (rule removeAttempt_shrinks [OF sv, of ?a])
        (use a unready_assets [OF d] in \<open>auto simp: set_updWhere\<close>)
    then have "wpE (removeAttempt sv i (as_id a) (as_key a)) (\<lambda>_. wp (deleteLoop k sv i) (\<lambda>r _. noFuel r)) (\<lambda>_. True) ?v"
      by (rule wpE_mono) (use Suc u unready_assets [OF d] in \<open>auto simp: updWhere_def\<close>)
    then show "thenQ (\<lambda>r _. noFuel r) (\<lambda>_. wp (orErr (removeAttempt sv i (as_id a) (as_key a)) ErrDeleting)
        (thenQ (\<lambda>r _. noFuel r) (\<lambda>_. wp (deleteLoop k sv i) (\<lambda>r _. noFuel r)))) (Inr r) ?v"
      unfolding thenQ_simps by (intro wp_orErr) (auto simp: noFuel_def elim!: wpE_mono)
  qed (auto simp: noFuel_def unready_def)
  show ?case
    unfolding deleteLoop.simps wp_simps
  proof (rule wp_queryRow)
    fix n a
    assume "find (\<lambda>a. as_event a = i) (assets (wdb w)) = Some a"
    then show "wp (case Inr a of Inl e \<Rightarrow> if e = NoRows then ret () else raise e
        | Inr a \<Rightarrow> bindE (exec (unready (as_id a))) (\<lambda>_.
            bindE (orErr (removeAttempt sv i (as_id a) (as_key a)) ErrDeleting) (\<lambda>_. deleteLoop k sv i)))
        (\<lambda>r _. noFuel r) (w\<lparr>tick := n\<rparr>)"
      using round [of a "w\<lparr>tick := n\<rparr>"] by (auto dest: find_SomeD)
  qed (auto simp: wp_simps noFuel_def)
qed simp

lemma DeleteEvent_noFuel:
  assumes sv: "sv_store sv = st"
  shows "noFuel (fst (DeleteEvent sv i w))"
proof -
  have errs: "wp (getEvent i) (\<lambda>r _. noFuel r) w" "wp (exec (markDeleting i p t)) (\<lambda>r _. noFuel r) u"
    "wp (removeEvent i) (\<lambda>r _. noFuel r) u" for p t w u
    unfolding getEvent_def removeEvent_def wp_simps
    by (auto simp: noFuel_def markDeleting_def Let_def wp_simps thenQ_def split: sum.split intro!: wp_queryRow wp_exec_err)
  have loop: "wp (deleteLoop (Suc (length (assets (wdb u)))) sv i) (\<lambda>r _. noFuel r) u" for u
    by (rule deleteLoop_wp [OF sv]) simp
  have seq: "wp (bindE m f) (\<lambda>r _. noFuel r) u" if "wp m (\<lambda>r _. noFuel r) u" "\<And>x t. wp (f x) (\<lambda>r _. noFuel r) t"
    for m :: "'x wop" and f :: "'x \<Rightarrow> 'y wop" and u
    unfolding wp_simps by (rule wp_mono [OF that(1)]) (use that(2) in \<open>auto simp: noFuel_def thenQ_def split: sum.splits\<close>)
  have tail: "wp (bindE (gets (\<lambda>w. Suc (length (assets (wdb w))))) (\<lambda>k. bindE (deleteLoop k sv i) (\<lambda>_. removeEvent i)))
      (\<lambda>r _. noFuel r) u" for u
  proof -
    have "bindE (gets (\<lambda>w. Suc (length (assets (wdb w))))) (\<lambda>k. bindE (deleteLoop k sv i) (\<lambda>_. removeEvent i)) u =
        bindE (deleteLoop (Suc (length (assets (wdb u)))) sv i) (\<lambda>_. removeEvent i) u"
      by (simp add: bindE_def gets_def)
    moreover have "wp (bindE (deleteLoop (Suc (length (assets (wdb u)))) sv i) (\<lambda>_. removeEvent i)) (\<lambda>r _. noFuel r) u"
      by (intro seq loop errs)
    ultimately show ?thesis by (simp add: wp_def)
  qed
  have "wp (DeleteEvent sv i) (\<lambda>r _. noFuel r) w"
    unfolding DeleteEvent_def
    by (intro tail seq errs)
      (auto simp: wp_simps noFuel_def tryLock_def timestamp_def wp_def [of now] now_def)
  then show ?thesis by (simp add: wp_def split: prod.splits)
qed

end

section \<open>What a deletion does, for every relation that its steps uphold\<close>

definition noAssets :: "int \<Rightarrow> db \<Rightarrow> bool" where
  "noAssets i d \<longleftrightarrow> (\<forall>a \<in> set (assets d). as_event a \<noteq> i)"

definition eventGone :: "int \<Rightarrow> db \<Rightarrow> bool" where
  "eventGone i d \<longleftrightarrow> noAssets i d \<and> (\<forall>e \<in> set (events d). ev_id e \<noteq> i) \<and>
     (\<forall>u \<in> set (sessions d). us_event u \<noteq> i) \<and> (\<forall>b \<in> set (event_imports d). ei_event b \<noteq> i)"

lemma deleteEvents_assets:
  assumes "noAssets i d"
  shows "assets (deleteEvents (\<lambda>e. ev_id e = i) d) = assets d"
  using assms by (auto simp: deleteEvents_def Let_def noAssets_def list_ex_iff intro!: filter_True)

lemma deleteEvents_gone:
  assumes "noAssets i d" and "countWhere (\<lambda>e. ev_id e = i) (events d) \<noteq> 0"
  shows "eventGone i (deleteEvents (\<lambda>e. ev_id e = i) d)"
proof -
  from assms(2) have "list_ex (\<lambda>e. ev_id e = i) (events d)"
    by (auto simp: countWhere_def list_ex_iff filter_empty_conv)
  with assms(1) show ?thesis
    by (auto simp: eventGone_def noAssets_def deleteEvents_def Let_def list_ex_iff)
qed

context world_order
begin

lemma deleteLoop_order:
  assumes removal: "\<And>j key. upholds R (removeAttempt sv i j key)"
    and unready: "\<And>w a. a \<in> set (assets (wdb w)) \<Longrightarrow> as_event a = i \<Longrightarrow> wpE (exec (unready (as_id a))) (\<lambda>_. R w) (R w) w"
  shows "wpE (deleteLoop k sv i) (\<lambda>_ t. R w t \<and> noAssets i (wdb t)) (R w) w"
proof (induction k arbitrary: w)
  case 0
  show ?case by (simp add: wpE_raise refl)
next
  case (Suc k)
  let ?Q = "\<lambda>w t. R w t \<and> noAssets i (wdb t)"
  have later: "wpE m (\<lambda>_. ?Q w) (R w) t" if "R w t" "wpE m (\<lambda>_. ?Q t) (R t) t" for m :: "unit wop" and w t
    by (rule wpE_mono [OF that(2)]) (auto intro: trans [OF that(1)])
  have removed: "wpE (bindE (orErr (removeAttempt sv i j key) e) (\<lambda>_. deleteLoop k sv i)) (\<lambda>_. ?Q t) (R t) t" for j key e t
    by (rule wpE_bindE, rule wpE_orErr, rule wpE_mono, rule wpE_upholds [OF removal])
      (auto intro: later Suc.IH)
  have round: "wpE (bindE (exec (unready (as_id a))) (\<lambda>_.
      bindE (orErr (removeAttempt sv i (as_id a) (as_key a)) ErrDeleting) (\<lambda>_. deleteLoop k sv i))) (\<lambda>_. ?Q u) (R u) u"
    if "a \<in> set (assets (wdb u))" "as_event a = i" for a u
    by (rule wpE_bindE, rule wpE_mono, rule unready [OF that]) (auto intro: later removed)
  show ?case
    unfolding deleteLoop.simps
  proof (rule wpE_try_queryRow, goal_cases)
    case (2 n)
    then have "noAssets i (wdb w)" by (auto simp: noAssets_def find_None_iff)
    then show ?case by (simp add: wpE_ret tick_only)
  next
    case (3 n a)
    then show ?case by (auto intro!: later [OF tick_only] round dest: find_SomeD)
  qed (auto intro!: wpE_raise admin)
qed

lemma DeleteEvent_order:
  assumes removal: "\<And>j key. upholds R (removeAttempt sv i j key)"
    and unready: "\<And>w a. a \<in> set (assets (wdb w)) \<Longrightarrow> as_event a = i \<Longrightarrow> wpE (exec (unready (as_id a))) (\<lambda>_. R w) (R w) w"
    and mark: "\<And>p t. upholds R (exec (markDeleting i p t))"
    and drop: "\<And>w. noAssets i (wdb w) \<Longrightarrow> R w (w\<lparr>wdb := deleteEvents (\<lambda>e. ev_id e = i) (wdb w)\<rparr>)"
    and still: "\<And>s t. quiet s t \<Longrightarrow> R s t"
  shows "wpE (DeleteEvent sv i) (\<lambda>_ t. R w t \<and> eventGone i (wdb t)) (R w) w"
proof -
  have fin: "wpE (removeEvent i) (\<lambda>_ t. R w t \<and> eventGone i (wdb t)) (R w) u" if "R w u \<and> noAssets i (wdb u)" for u
    unfolding removeEvent_def
    by (intro wpE_bindE wpE_exec wpE_failIf)
      (use that in \<open>auto intro: trans [OF _ admin] trans [OF _ tick_only] trans [OF trans [OF _ drop] admin]
        trans [OF trans [OF _ drop] tick_only] dest: deleteEvents_gone\<close>)
  have loop: "wpE (bindE (deleteLoop k sv i) (\<lambda>_. removeEvent i)) (\<lambda>_ t. R w t \<and> eventGone i (wdb t)) (R w) u"
    if "R w u" for k u
    by (rule wpE_bindE, rule wpE_mono, rule deleteLoop_order [OF removal unready])
      (auto intro: fin trans [OF that])
  show ?thesis
    unfolding DeleteEvent_def
    apply (rule wpE_bindE, rule wpE_mono, rule wpE_upholds [OF quiet_reads(2)])
     apply (rule wpE_bindE, rule wpE_tryLock, rule wpE_bindE, rule wpE_failIf, erule still)
     apply (rule wpE_bindE, rule wpE_timestamp)
     apply (rule wpE_bindE, rule wpE_mono, rule wpE_upholds [OF mark])
      apply (rule wpE_bindE, rule wpE_failIf)
       apply (rule trans, erule still, erule trans [OF tick_only])
      apply (rule wpE_bindE, rule wpE_gets, rule loop)
      apply (rule trans, erule still, erule trans [OF tick_only])
     apply (rule trans, erule still, erule trans [OF tick_only])
    apply (erule still)
    done
qed

end

section \<open>Deletion disposes of the objects\<close>

lemma unready_tracked:
  "wpE (exec (unready i)) (\<lambda>_. tracked bs w) (tracked bs w) w"
proof -
  let ?P = "\<lambda>a. as_id a = i" and ?g = "\<lambda>a. a\<lparr>as_status := Pending, as_completed := None\<rparr>"
  have "tracked bs w (w\<lparr>wdb := d\<rparr>)" if "unready i (wdb w) = Inr (d, u)" for d u
  proof -
    let ?as = "assets (wdb w)"
    have d: "assets d = updWhere ?P ?g ?as" and r: "retired d = retired (wdb w)" using unready_assets [OF that] by auto
    have same: "sameObject a (if ?P a then ?g a else a)" "sameObject (if ?P a then ?g a else a) a" for a
      by (auto simp: sameObject_def)
    have "map as_id (assets d) = map as_id ?as" unfolding d by (rule map_updWhere) simp
    moreover have "monotone w (w\<lparr>wdb := d\<rparr>)" by (rule monotone_same) (simp_all add: retiredKeys_def r)
    moreover have "\<exists>a \<in> set ?as. sameObject a b" if "b \<in> set (assets d)" for b
      using that same unfolding d set_updWhere by blast
    moreover have "\<exists>b \<in> set (assets d). sameObject a b" if "a \<in> set ?as" for a
    proof
      show "(if ?P a then ?g a else a) \<in> set (assets d)" unfolding d set_updWhere using that by blast
    qed (rule same)
    ultimately show ?thesis by (simp add: tracked_def)
  qed
  then show ?thesis
    by (intro wpE_exec) (auto intro: tracked.admin tracked.trans [OF _ tracked.admin] tracked.trans [OF _ tracked.tick_only])
qed

lemma markDeleting_assets:
  "markDeleting i p t d = Inr (d', n) \<Longrightarrow> assets d' = assets d \<and> retired d' = retired d \<and> sessions d' = sessions d"
  by (auto simp: markDeleting_def Let_def)

context object_store
begin

lemma DeleteEvent_tracked:
  assumes "sv_store sv = st"
  shows "wpE (DeleteEvent sv i) (\<lambda>_ t. tracked (sv_backends sv) w t \<and> eventGone i (wdb t)) (tracked (sv_backends sv) w) w"
proof (rule tracked.DeleteEvent_order)
  show "upholds (tracked bs) (exec (markDeleting i p t))" for bs p t
    by (rule tracked.up_exec) (auto intro!: tracked_same monotone_same simp: retiredKeys_def dest: markDeleting_assets)
  show "tracked bs w (w\<lparr>wdb := deleteEvents (\<lambda>e. ev_id e = i) (wdb w)\<rparr>)" if "noAssets i (wdb w)" for bs w
    using that by (intro tracked_same monotone_same) (simp_all add: deleteEvents_assets retiredKeys_def)
qed (auto intro: removeAttempt_tracked [OF assms] unready_tracked quiet_tracked)

end

section \<open>Half a deletion\<close>

text \<open>The tie between ready rows and files holds throughout, and the ready media of every other event stays.\<close>

definition sparing :: "int \<Rightarrow> world \<Rightarrow> world \<Rightarrow> bool" where
  "sparing n s t \<longleftrightarrow> (stored (wdb s) (files s) \<longrightarrow>
     stored (wdb t) (files t) \<and>
     (\<forall>a \<in> set (assets (wdb s)). isReady a \<and> as_event a \<noteq> n \<longrightarrow>
        a \<in> set (assets (wdb t)) \<and> (as_backend a = 1 \<longrightarrow> files t (as_key a) = files s (as_key a))))"

interpretation sparing: world_order "sparing n" for n
  by unfold_locales (auto simp: sparing_def)

lemma under_sparing: "under stored s t \<Longrightarrow> sparing n s t"
  by (auto simp: under_def sparing_def readyKept_def)

lemma unready_sparing:
  assumes "a \<in> set (assets (wdb w))" and "as_event a = n"
  shows "wpE (exec (unready (as_id a))) (\<lambda>_. sparing n w) (sparing n w) w"
proof -
  let ?P = "\<lambda>b. as_id b = as_id a" and ?g = "\<lambda>a. a\<lparr>as_status := Pending, as_completed := None\<rparr>"
  have "sparing n w (w\<lparr>wdb := d\<rparr>)" if "unready (as_id a) (wdb w) = Inr (d, u)" for d u
    unfolding sparing_def
  proof
    assume ok: "stored (wdb w) (files w)"
    let ?as = "assets (wdb w)"
    have d: "assets d = updWhere ?P ?g ?as" using unready_assets [OF that] by auto
    have keys: "map as_id (assets d) = map as_id ?as" "map as_key (assets d) = map as_key ?as"
      unfolding d by (auto intro!: map_updWhere)
    have was: "b \<in> set ?as" if "b \<in> set (assets d)" "isReady b" for b
      using that unfolding d set_updWhere by (auto simp: isReady_def split: if_splits)
    have other: "b \<in> set (assets d)" if "b \<in> set ?as" "as_event b \<noteq> n" for b
    proof -
      have "as_id b \<noteq> as_id a" using that ok assms by (auto simp: stored_def dest: distinct_map_eq)
      with that show ?thesis unfolding d set_updWhere by (intro bexI [of _ b]) auto
    qed
    show "stored (wdb (w\<lparr>wdb := d\<rparr>)) (files (w\<lparr>wdb := d\<rparr>)) \<and>
       (\<forall>a \<in> set ?as. isReady a \<and> as_event a \<noteq> n \<longrightarrow> a \<in> set (assets (wdb (w\<lparr>wdb := d\<rparr>))) \<and>
          (as_backend a = 1 \<longrightarrow> files (w\<lparr>wdb := d\<rparr>) (as_key a) = files w (as_key a)))"
      using ok keys was other by (simp add: stored_def)
  qed
  then show ?thesis
    by (intro wpE_exec) (auto intro: sparing.admin sparing.trans [OF _ sparing.admin] sparing.trans [OF _ sparing.tick_only])
qed

context object_store
begin

lemma DeleteEvent_sparing:
  assumes "sv_store sv = st"
  shows "wpE (DeleteEvent sv i) (\<lambda>_ t. sparing i w t \<and> eventGone i (wdb t)) (sparing i w) w"
proof (rule sparing.DeleteEvent_order)
  show "upholds (sparing i) (removeAttempt sv i j key)" for j key
    by (rule upholds_mono [OF removeAttempt_under [OF assms] under_sparing])
  show "upholds (sparing i) (exec (markDeleting i p t))" for p t
    by (rule sparing.up_exec) (auto simp: sparing_def intro: stored_assets dest!: markDeleting_assets)
  show "sparing i w (w\<lparr>wdb := deleteEvents (\<lambda>e. ev_id e = i) (wdb w)\<rparr>)" if "noAssets i (wdb w)" for w
    using that deleteEvents_assets [OF that] stored_assets [OF deleteEvents_assets [OF that]] by (simp add: sparing_def)
qed (auto intro: unready_sparing under_sparing quiet_under)

end

end
