(* ===== verification/Reading.thy ===== *)
theory Reading
  imports Deletion "HOL-Library.Option_ord"
begin

text \<open>
  The reading side of the media service: \<open>internal/media/read.go\<close> (a snapshot of an event's ready
  media, which pins the event against deletion, and the streams opened from it), the statistics of
  \<open>media.go\<close>, the contributor summary of \<open>contributors.go\<close>, and \<open>S3.Open\<close> of
  \<open>internal/storage/read.go\<close>.
\<close>

section \<open>Statistics\<close>

text \<open>Additions of \<open>int64\<close> variables wrap.\<close>

definition wrap64 :: "int \<Rightarrow> int" where
  "wrap64 i = (i + 2 ^ 63) mod 2 ^ 64 - 2 ^ 63"

record type_stats =
  ts_ready :: int
  ts_bytes :: int
  ts_pending :: int
  ts_reserved :: int

record stats =
  st_photo_count :: int
  st_ready_count :: int
  st_storage_bytes :: int
  st_pending_count :: int
  st_reserved_bytes :: int
  st_photos :: type_stats
  st_videos :: type_stats

definition noTypeStats :: type_stats where
  "noTypeStats = \<lparr>ts_ready = 0, ts_bytes = 0, ts_pending = 0, ts_reserved = 0\<rparr>"

definition noStats :: stats where
  "noStats = \<lparr>st_photo_count = 0, st_ready_count = 0, st_storage_bytes = 0, st_pending_count = 0,
     st_reserved_bytes = 0, st_photos = noTypeStats, st_videos = noTypeStats\<rparr>"

text \<open>One row of \<open>GROUP BY event_id,media_class\<close>: \<open>sum()\<close> fails when it leaves 64 bits.\<close>

definition groupOf :: "int \<times> string option \<Rightarrow> asset_row \<Rightarrow> bool" where
  "groupOf g a \<longleftrightarrow> as_event a = fst g \<and> as_class a = snd g"

definition readyIn :: "(asset_row \<Rightarrow> bool) \<Rightarrow> asset_row \<Rightarrow> bool" where
  "readyIn P a \<longleftrightarrow> P a \<and> as_status a = Ready"

definition pendingIn :: "(asset_row \<Rightarrow> bool) \<Rightarrow> asset_row \<Rightarrow> bool" where
  "pendingIn P a \<longleftrightarrow> P a \<and> as_status a = Pending"

definition typeStats :: "(asset_row \<Rightarrow> bool) \<Rightarrow> asset_row list \<Rightarrow> type_stats" where
  "typeStats P rows =
     \<lparr>ts_ready = countWhere (readyIn P) rows, ts_bytes = sumWhere (readyIn P) as_size rows,
      ts_pending = countWhere (pendingIn P) rows, ts_reserved = sumWhere (pendingIn P) as_expected rows\<rparr>"

definition inRange :: "type_stats \<Rightarrow> bool" where
  "inRange t \<longleftrightarrow> int64 (ts_bytes t) \<and> int64 (ts_reserved t)"

definition statGroups :: "asset_row list \<Rightarrow> (int \<times> string option) list" where
  "statGroups rows = remdups (map (\<lambda>a. (as_event a, as_class a)) rows)"

definition addTyped :: "string option \<Rightarrow> type_stats \<Rightarrow> stats \<Rightarrow> stats" where
  "addTyped cls typed s =
     (let s = s\<lparr>st_photo_count := wrap64 (st_photo_count s + ts_ready typed),
               st_ready_count := wrap64 (st_ready_count s + ts_ready typed),
               st_storage_bytes := wrap64 (st_storage_bytes s + ts_bytes typed),
               st_pending_count := wrap64 (st_pending_count s + ts_pending typed),
               st_reserved_bytes := wrap64 (st_reserved_bytes s + ts_reserved typed)\<rparr>;
          s = (if cls = Some ''photo'' then s\<lparr>st_photos := typed\<rparr> else s)
      in if cls = Some ''video'' then s\<lparr>st_videos := typed\<rparr> else s)"

definition addGroup :: "asset_row list \<Rightarrow> int \<times> string option \<Rightarrow> (int \<Rightarrow> stats option) \<Rightarrow> (int \<Rightarrow> stats option)" where
  "addGroup rows g m =
     m(fst g \<mapsto> addTyped (snd g) (typeStats (groupOf g) rows) (case m (fst g) of None \<Rightarrow> noStats | Some s \<Rightarrow> s))"

definition Stats :: "(int \<Rightarrow> stats option) wop" where
  "Stats =
     query (\<lambda>d. if list_all (\<lambda>g. inRange (typeStats (groupOf g) (assets d))) (statGroups (assets d))
                then Inr (fold (addGroup (assets d)) (statGroups (assets d)) Map.empty) else Inl EIo)"

section \<open>Contributors\<close>

definition labelled :: "int \<Rightarrow> string option \<Rightarrow> asset_row \<Rightarrow> bool" where
  "labelled eventID c a \<longleftrightarrow> as_event a = eventID \<and> as_status a = Ready \<and> as_contributor a = c"

definition contributorGroups :: "int \<Rightarrow> asset_row list \<Rightarrow> (string option \<times> int) list" where
  "contributorGroups eventID rows =
     map (\<lambda>c. (c, countWhere (labelled eventID c) rows))
       (remdups (map as_contributor (filter (\<lambda>a. as_event a = eventID \<and> as_status a = Ready) rows)))"

definition Contributors :: "int \<Rightarrow> (string option \<times> int) list wop" where
  "Contributors eventID =
     query (\<lambda>d. Inr (limitTo 100 (sort_key (\<lambda>g. (- snd g, fst g)) (contributorGroups eventID (assets d)))))"

section \<open>Snapshots\<close>

record ready_asset =
  ra_id :: string
  ra_filename :: string
  ra_mime :: string
  ra_size :: int
  ra_uploaded :: stamp
  ra_key :: string
  ra_backend :: int

record snapshot =
  sn_event :: event_row
  sn_assets :: "ready_asset list"
  sn_closed :: bool

text \<open>A row is scanned into a \<open>ReadyAsset\<close>; a NULL completion time does not scan.\<close>

definition scanReady :: "asset_row \<Rightarrow> ready_asset option" where
  "scanReady a = map_option (\<lambda>t. \<lparr>ra_id = as_id a, ra_filename = as_filename a, ra_mime = as_mime a,
     ra_size = as_size a, ra_uploaded = t, ra_key = as_key a, ra_backend = as_backend a\<rparr>) (as_completed a)"

definition readyRows :: "int \<Rightarrow> db \<Rightarrow> asset_row list" where
  "readyRows eventID d =
     sort_key (\<lambda>a. (as_created a, as_id a)) (filter (\<lambda>a. as_event a = eventID \<and> as_status a = Ready) (assets d))"

definition scanAll :: "asset_row list \<Rightarrow> err + ready_asset list" where
  "scanAll rows = (if list_all (\<lambda>a. scanReady a \<noteq> None) rows then Inr (map (the \<circ> scanReady) rows) else Inl EIo)"

text \<open>The lock of the event stays shared after a success; every error path gives it back.\<close>

definition takeSnapshot :: "int \<Rightarrow> snapshot wop" where
  "takeSnapshot eventID =
     bindE (getEvent eventID) (\<lambda>_.
     bindE (modify (rlock eventID)) (\<lambda>_.
     tryE (bindE (getEvent eventID) (\<lambda>e.
           bindE (failIf (ev_deleting e) ErrDeleting) (\<lambda>_.
           bindE (query (\<lambda>d. scanAll (readyRows eventID d))) (\<lambda>items.
           ret \<lparr>sn_event = e, sn_assets = items, sn_closed = False\<rparr>)))) (\<lambda>r.
       case r of
         Inl x \<Rightarrow> bindE (modify (runlock eventID)) (\<lambda>_. raise x)
       | Inr s \<Rightarrow> ret s)))"

definition closeSnapshot :: "snapshot \<Rightarrow> snapshot wop" where
  "closeSnapshot s =
     (if sn_closed s then ret s
      else bindE (modify (runlock (ev_id (sn_event s)))) (\<lambda>_. ret (s\<lparr>sn_closed := True\<rparr>)))"

text \<open>\<open>S3.Open\<close>: the object as storage streams it, and what its headers say.\<close>

definition s3Open :: "s3cfg \<Rightarrow> string \<Rightarrow> (reader \<times> object_info) wop" where
  "s3Open s key =
     bindE (failIf (\<not> s3ValidKey s key) ErrInvalidKey) (\<lambda>_.
     bindE (safely (remote (CallGet (s3_id s) key) e_get)) (\<lambda>g.
     ret (\<lparr>rd_data = go_body g, rd_broken = go_broken g\<rparr>,
          \<lparr>oi_size = go_length g, oi_type = go_type g, oi_etag = go_etag g\<rparr>)))"

definition openLocal :: "string \<Rightarrow> (reader \<times> object_info) wop" where
  "openLocal key =
     bindE (localOpen key) (\<lambda>content.
     ret (\<lparr>rd_data = content, rd_broken = False\<rparr>,
          \<lparr>oi_size = int (length content), oi_type = [], oi_etag = []\<rparr>))"

definition openAsset :: "service \<Rightarrow> snapshot \<Rightarrow> ready_asset \<Rightarrow> (reader \<times> object_info) wop" where
  "openAsset sv s a =
     bindE (liftE (resolve (sv_backends sv) (ra_backend a))) (\<lambda>b.
     bindE (if be_type b = ''local''
            then bindE (failIf (ra_key a \<noteq> objectKey (ev_id (sn_event s)) (ra_id a)) ErrInvalidKey) (\<lambda>_.
                 openLocal (ra_key a))
            else bindE (liftE (checkDirectKey (sv_backends sv) (ev_id (sn_event s)) (ra_id a) (ra_key a) (ra_backend a)))
                   (\<lambda>c. s3Open c (ra_key a))) (\<lambda>(stream, info).
     bindE (failIf (oi_size info \<noteq> ra_size a \<or> (oi_type info \<noteq> [] \<and> oi_type info \<noteq> ra_mime a)) ErrObjectChanged) (\<lambda>_.
     ret (stream, info\<lparr>oi_type := ra_mime a\<rparr>))))"

end
