(* ===== verification/ExportNames.thy ===== *)
theory ExportNames
  imports Mime
begin

text \<open>
  The file names of an export, \<open>Filename\<close> and \<open>filenames\<close> of \<open>internal/export/export.go\<close>: a name that
  a guest chose becomes one that any platform accepts, and the names of one export are made distinct
  without regard to case.
\<close>

section \<open>Filename\<close>

text \<open>The UTF-8 form of U+FFFD, and of the superscript digits.\<close>

definition replacement :: string where
  "replacement = [CHR 0xEF, CHR 0xBF, CHR 0xBD]"

definition superscripts :: string where
  "superscripts = [CHR 0xC2, CHR 0xB9, CHR 0xC2, CHR 0xB2, CHR 0xC2, CHR 0xB3]"

definition unsafeRunes :: "int list" where
  "unsafeRunes = map byteVal ''<>:'' @ [34] @ map byteVal ''/'' @ [92] @ map byteVal ''|?*''"

text \<open>\<open>strings.Map\<close> of one rune; an ill-formed byte becomes U+FFFD.\<close>

definition safePiece :: "string \<Rightarrow> string" where
  "safePiece k =
     (let r = runeOf k in
      if isControlRune r \<or> r \<in> set unsafeRunes then ''_''
      else if decodeRune k = (65533, 1) then replacement else k)"

definition spaceDot :: "char \<Rightarrow> bool" where
  "spaceDot c \<longleftrightarrow> c = CHR '' '' \<or> c = CHR ''.''"

definition trimRightDots :: "string \<Rightarrow> string" where
  "trimRightDots s = rev (dropWhile spaceDot (rev s))"

definition trimDots :: "string \<Rightarrow> string" where
  "trimDots s = trimRightDots (dropWhile spaceDot s)"

text \<open>\<open>strings.ToUpper\<close>, as far as its result is compared here: two non-ASCII runes have an ASCII upper
case, U+0131 and U+017F.\<close>

definition upperPiece :: "string \<Rightarrow> string" where
  "upperPiece k =
     (let r = runeOf k in
      if 97 \<le> r \<and> r \<le> 122 then [char_of (r - 32)]
      else if r = 305 then ''I'' else if r = 383 then ''S''
      else if decodeRune k = (65533, 1) then replacement else k)"

definition toUpper :: "string \<Rightarrow> string" where
  "toUpper s = concat (map upperPiece (chunks s))"

definition trimPrefix :: "string \<Rightarrow> string \<Rightarrow> string" where
  "trimPrefix p s = (if hasPrefix s p then drop (length p) s else s)"

fun containsStr :: "string \<Rightarrow> string \<Rightarrow> bool" where
  "containsStr [] n \<longleftrightarrow> n = []"
| "containsStr (c # s) n \<longleftrightarrow> hasPrefix (c # s) n \<or> containsStr s n"

definition isDevice :: "string \<Rightarrow> bool" where
  "isDevice base \<longleftrightarrow>
     base \<in> {''CON'', ''PRN'', ''AUX'', ''NUL''} \<or>
     ((hasPrefix base ''COM'' \<or> hasPrefix base ''LPT'') \<and>
      (let suffix = trimPrefix ''LPT'' (trimPrefix ''COM'' base)
       in runeCount suffix = 1 \<and> containsStr (''123456789'' @ superscripts) suffix))"

text \<open>\<open>for len(name) > 180\<close>: the last rune goes, until the name fits.\<close>

lemma butlast_chunks_shorter: "s \<noteq> [] \<Longrightarrow> length (concat (butlast (chunks s))) < length s"
proof -
  assume s: "s \<noteq> []"
  then have ne: "chunks s \<noteq> []" by (simp add: chunks.simps)
  then have "last (chunks s) \<noteq> []" using chunks_ne [of "last (chunks s)" s] by simp
  moreover have "length s = length (concat (butlast (chunks s))) + length (last (chunks s))"
    using concat_chunks [of s] append_butlast_last_id [OF ne]
    by (metis concat.simps concat_append append_Nil2 length_append)
  ultimately show ?thesis by simp
qed

function shorten :: "string \<Rightarrow> string" where
  "shorten s = (if int (length s) \<le> 180 then s else shorten (concat (butlast (chunks s))))"
  by pat_completeness auto
termination
  by (relation "measure length") (auto intro: butlast_chunks_shorter)

declare shorten.simps [simp del]

definition Filename :: "string \<Rightarrow> string" where
  "Filename name =
     (let name = map (\<lambda>c. if c = CHR 0x5C then CHR ''/'' else c) name;
          name = rev (takeWhile (\<lambda>c. c \<noteq> CHR ''/'') (rev name));
          name = concat (map safePiece (chunks name));
          name = trimDots name;
          name = (if name = [] then ''photo'' else name);
          base = toUpper (takeWhile (\<lambda>c. c \<noteq> CHR ''.'') name);
          name = (if isDevice base then ''_'' @ name else name)
      in trimRightDots (shorten name))"

section \<open>Distinct names\<close>

text \<open>\<open>filepath.Ext\<close> of a name without separators, and the rest.\<close>

definition extOf :: "string \<Rightarrow> string" where
  "extOf name =
     (if CHR ''.'' \<in> set name then CHR ''.'' # rev (takeWhile (\<lambda>c. c \<noteq> CHR ''.'') (rev name)) else [])"

definition stemOf :: "string \<Rightarrow> string" where
  "stemOf name = take (length name - length (extOf name)) name"

definition numbered :: "string \<Rightarrow> string \<Rightarrow> int \<Rightarrow> string" where
  "numbered stem ext n = stem @ ''_'' @ decI n @ ext"

text \<open>
  The loop that looks for a free name. \<open>lower\<close> is \<open>strings.ToLower\<close>, whose Unicode tables are not
  modelled. Every round moves to the next number, so one more round than there are names in use is
  enough (\<open>pickName_fuel\<close>); \<open>None\<close> is a loop that used up its fuel.
\<close>

primrec pickName ::
    "nat \<Rightarrow> (string \<Rightarrow> string) \<Rightarrow> string list \<Rightarrow> string \<Rightarrow> string \<Rightarrow> string \<Rightarrow> int \<Rightarrow> int option \<Rightarrow> (string \<times> int option) option" where
  "pickName 0 lower used stem ext candidate n nxt = None"
| "pickName (Suc k) lower used stem ext candidate n nxt =
     (if lower candidate \<in> set used
      then pickName k lower used stem ext (numbered stem ext n) (n + 1) (Some (n + 1))
      else Some (candidate, nxt))"

definition addName ::
    "(string \<Rightarrow> string) \<Rightarrow> string \<Rightarrow> string list \<times> (string \<Rightarrow> int option) \<Rightarrow>
     (string \<times> string list \<times> (string \<Rightarrow> int option)) option" where
  "addName lower filename state =
     (case state of (used, nxt) \<Rightarrow>
        (let name = Filename filename; ext = extOf name; stem = stemOf name; key = lower name in
         (case pickName (Suc (Suc (length used))) lower used stem ext name
                 (max 2 (case nxt key of None \<Rightarrow> 0 | Some m \<Rightarrow> m)) None of
            None \<Rightarrow> None
          | Some (candidate, m) \<Rightarrow>
              Some (candidate, lower candidate # used, (case m of None \<Rightarrow> nxt | Some m \<Rightarrow> nxt(key \<mapsto> m))))))"

fun addNames ::
    "(string \<Rightarrow> string) \<Rightarrow> string list \<Rightarrow> string list \<times> (string \<Rightarrow> int option) \<Rightarrow> string list option" where
  "addNames lower [] state = Some []"
| "addNames lower (f # fs) state =
     (case addName lower f state of
        None \<Rightarrow> None
      | Some (candidate, state') \<Rightarrow> map_option (\<lambda>names. candidate # names) (addNames lower fs state'))"

definition filenames :: "(string \<Rightarrow> string) \<Rightarrow> string list \<Rightarrow> string list option" where
  "filenames lower names = addNames lower names ([], Map.empty)"

section \<open>Bytes and runes\<close>

text \<open>An ASCII byte is a piece of its own.\<close>

lemma decodeRune_ascii: "byteVal c < 128 \<Longrightarrow> decodeRune (c # s) = (byteVal c, 1)"
  by (simp add: decodeRune_def)

text \<open>The bytes after the first of a well-formed rune are continuation bytes.\<close>

lemma decodeRune_width1:
  assumes "128 \<le> byteVal c"
  shows "\<forall>d \<in> set (take (snd (decodeRune (c # r)) - 1) r). 128 \<le> byteVal d"
proof -
  have "\<forall>d \<in> set (take (n - 1) r). 128 \<le> byteVal d"
    if "decodeRune (c # r) = (v, n)" for v n
    using that assms unfolding decodeRune_def list.case Let_def
    by (auto simp: byteIn_def split: list.splits if_splits)
  then show ?thesis by (cases "decodeRune (c # r)") auto
qed

lemma decodeRune_bytes:
  assumes "c \<in> set (take (snd (decodeRune s)) s)" and "byteVal c < 128"
  shows "take (snd (decodeRune s)) s = [c]"
proof (cases s)
  case (Cons d r)
  show ?thesis
  proof (cases "byteVal d < 128")
    case True
    with Cons assms(1) show ?thesis by (simp add: decodeRune_ascii)
  next
    case False
    have "take (snd (decodeRune s)) s = d # take (snd (decodeRune s) - 1) r"
      using decodeRune_width [of s] Cons by (simp add: take_Cons')
    with assms False decodeRune_width1 [of d r] Cons show ?thesis by fastforce
  qed
qed (use assms in simp)

lemma chunks_byte: "k \<in> set (chunks s) \<Longrightarrow> c \<in> set k \<Longrightarrow> byteVal c < 128 \<Longrightarrow> k = [c]"
proof (induction s rule: chunks.induct)
  case (1 s)
  show ?case
  proof (cases "s = []")
    case False
    with 1 show ?thesis by (subst (asm) chunks.simps) (auto dest: decodeRune_bytes)
  qed (use 1 in simp)
qed

lemma chunks_ascii: "list_all (\<lambda>c. byteVal c < 128) s \<Longrightarrow> chunks s = map (\<lambda>c. [c]) s"
  by (induction s) (simp_all add: chunks.simps [of "_ # _"] decodeRune_ascii)

lemma concat_singletons: "concat (map (\<lambda>c. [f c]) s) = map f s"
  by (induction s) auto

lemma shorten_ascii: "list_all (\<lambda>c. byteVal c < 128) s \<Longrightarrow> shorten s = take 180 s"
proof (induction s rule: shorten.induct)
  case (1 s)
  show ?case
  proof (cases "int (length s) \<le> 180")
    case False
    have eq: "concat (butlast (chunks s)) = butlast s"
      using 1(2) by (simp add: chunks_ascii concat_singletons flip: map_butlast)
    have "list_all (\<lambda>c. byteVal c < 128) (butlast s)"
      using 1(2) by (auto simp: list_all_iff dest: in_set_butlastD)
    with 1(1) [OF False] False have "shorten s = take 180 (butlast s)" by (subst shorten.simps) (simp add: eq)
    with False show ?thesis by (simp add: take_butlast)
  qed (simp add: shorten.simps)
qed

section \<open>What every exported name satisfies\<close>

definition safeChar :: "char \<Rightarrow> bool" where
  "safeChar c \<longleftrightarrow> byteVal c \<notin> set unsafeRunes \<and> 32 \<le> byteVal c \<and> byteVal c \<noteq> 127"

lemma unsafeRunes_list: "set unsafeRunes = {60, 62, 58, 34, 47, 92, 124, 63, 42}"
  by (auto simp: unsafeRunes_def byteVal_def)

lemma high_safe: "128 \<le> byteVal c \<Longrightarrow> safeChar c"
  by (auto simp: safeChar_def unsafeRunes_list)

lemma safe_bytes: "c \<in> set (concat (map safePiece (chunks s))) \<Longrightarrow> safeChar c"
proof -
  assume "c \<in> set (concat (map safePiece (chunks s)))"
  then obtain k where k: "k \<in> set (chunks s)" "c \<in> set (safePiece k)" by auto
  show "safeChar c"
  proof (cases "byteVal c < 128 \<and> safePiece k = k")
    case True
    with k have kc: "k = [c]" by (auto dest: chunks_byte)
    then have r: "runeOf k = byteVal c" using True by (simp add: runeOf_def decodeRune_ascii)
    show ?thesis
    proof (cases "isControlRune (byteVal c) \<or> byteVal c \<in> set unsafeRunes")
      case True
      with k r have "c = CHR ''_''" by (auto simp: safePiece_def Let_def)
      then show ?thesis by (simp add: safeChar_def unsafeRunes_list byteVal_def)
    qed (auto simp: safeChar_def isControlRune_def)
  next
    case False
    then consider "128 \<le> byteVal c" | "safePiece k \<noteq> k" by linarith
    then show ?thesis
    proof cases
      case 2
      with k have "c = CHR ''_'' \<or> c \<in> set replacement"
        by (auto simp: safePiece_def Let_def split: if_splits)
      then show ?thesis by (auto simp: safeChar_def unsafeRunes_list byteVal_def replacement_def)
    qed (rule high_safe)
  qed
qed

lemma length_chunk: "k \<in> set (chunks s) \<Longrightarrow> length k \<le> 4"
proof (induction s rule: chunks.induct)
  case (1 s)
  have "snd (decodeRune s) \<le> 4" by (auto simp: decodeRune_def Let_def split: list.splits)
  moreover have "k = take (snd (decodeRune s)) s \<or> k \<in> set (chunks (drop (snd (decodeRune s)) s))" if "s \<noteq> []"
    using 1(2) that by (subst (asm) chunks.simps) auto
  moreover have "s \<noteq> []" using 1(2) by auto
  ultimately show ?case using 1(1) by (auto simp: min_le_iff_disj)
qed

lemma shorten_prefix: "\<exists>n. shorten s = take n s \<and> length (shorten s) \<le> 180 \<and> (s \<noteq> [] \<longrightarrow> 0 < n)"
proof (induction s rule: shorten.induct)
  case (1 s)
  show ?case
  proof (cases "int (length s) \<le> 180")
    case True
    then show ?thesis by (intro exI [of _ "Suc (length s)"]) (simp add: shorten.simps)
  next
    case False
    let ?t = "concat (butlast (chunks s))"
    have ne: "chunks s \<noteq> []" using False by (auto simp: chunks.simps)
    have s: "s = ?t @ last (chunks s)"
      using concat_chunks [of s] append_butlast_last_id [OF ne]
      by (metis concat.simps concat_append append_Nil2)
    have "length (last (chunks s)) \<le> 4" using ne length_chunk [of "last (chunks s)" s] by simp
    then have "?t \<noteq> []" using s False by (metis append_Nil less_imp_le linorder_not_le of_nat_le_iff of_nat_numeral order.trans numeral_le_iff semiring_norm(68,69,72))
    with 1 [OF False] obtain n where n: "shorten ?t = take n ?t" "length (shorten ?t) \<le> 180" "0 < n" by auto
    have "take n ?t = take (min n (length ?t)) s" by (subst (2) s) (simp add: min_def)
    moreover have "shorten s = shorten ?t" using False by (subst shorten.simps) simp
    ultimately show ?thesis
      using n \<open>?t \<noteq> []\<close> by (intro exI [of _ "min n (length ?t)"]) auto
  qed
qed

lemma trimRightDots_prefix: "\<exists>t. s = trimRightDots s @ t \<and> list_all spaceDot t"
  using takeWhile_dropWhile_id [of spaceDot "rev s"]
  by (intro exI [of _ "rev (takeWhile spaceDot (rev s))"])
    (auto simp: trimRightDots_def list_all_iff dest: set_takeWhileD simp flip: rev_append)

lemma trimRightDots_last: "trimRightDots s \<noteq> [] \<Longrightarrow> \<not> spaceDot (last (trimRightDots s))"
  by (simp add: trimRightDots_def last_rev hd_dropWhile)

lemma trimRightDots_hd:
  assumes "s \<noteq> []" and "\<not> spaceDot (hd s)"
  shows "trimRightDots s \<noteq> [] \<and> hd (trimRightDots s) = hd s"
proof -
  obtain t where t: "s = trimRightDots s @ t" "list_all spaceDot t" using trimRightDots_prefix by blast
  have "trimRightDots s \<noteq> []"
  proof
    assume "trimRightDots s = []"
    with t assms show False by (cases t) auto
  qed
  with t show ?thesis by (metis hd_append2)
qed

lemma trimRightDots_set: "set (trimRightDots s) \<subseteq> set s"
  using trimRightDots_prefix [of s] by (metis Un_upper1 set_append)

lemma trimDots_hd: "trimDots s \<noteq> [] \<Longrightarrow> \<not> spaceDot (hd (trimDots s))"
proof -
  assume ne: "trimDots s \<noteq> []"
  have d: "dropWhile spaceDot s \<noteq> []"
  proof
    assume "dropWhile spaceDot s = []"
    with ne show False by (simp add: trimDots_def trimRightDots_def)
  qed
  then have "\<not> spaceDot (hd (dropWhile spaceDot s))" by (rule hd_dropWhile)
  with trimRightDots_hd [OF d] show ?thesis by (simp add: trimDots_def)
qed

lemma trimDots_set: "set (trimDots s) \<subseteq> set s"
  using trimRightDots_set [of "dropWhile spaceDot s"] set_dropWhileD by (fastforce simp: trimDots_def)

definition portableName :: "string \<Rightarrow> bool" where
  "portableName n \<longleftrightarrow> n \<noteq> [] \<and> length n \<le> 180 \<and> list_all safeChar n \<and> \<not> spaceDot (hd n) \<and> \<not> spaceDot (last n)"

lemma Filename_portable: "portableName (Filename name)"
proof -
  define clean where "clean = (let name = map (\<lambda>c. if c = CHR 0x5C then CHR ''/'' else c) name;
          name = rev (takeWhile (\<lambda>c. c \<noteq> CHR ''/'') (rev name)) in concat (map safePiece (chunks name)))"
  define nm where "nm = (if trimDots clean = [] then ''photo'' else trimDots clean)"
  define full where "full = (if isDevice (toUpper (takeWhile (\<lambda>c. c \<noteq> CHR ''.'') nm)) then ''_'' @ nm else nm)"
  have F: "Filename name = trimRightDots (shorten full)"
    unfolding Filename_def full_def nm_def clean_def Let_def by simp
  have safe: "safeChar c" if "c \<in> set clean" for c
    using that unfolding clean_def Let_def by (rule safe_bytes)
  have "safeChar c" if "c \<in> set nm" for c
  proof (cases "trimDots clean = []")
    case True
    with that show ?thesis by (auto simp: nm_def safeChar_def unsafeRunes_list byteVal_def)
  next
    case False
    with that trimDots_set safe show ?thesis by (auto simp: nm_def)
  qed
  moreover have "safeChar CHR ''_''" by (simp add: safeChar_def unsafeRunes_list byteVal_def)
  ultimately have safeF: "safeChar c" if "c \<in> set full" for c
    using that by (auto simp: full_def split: if_splits)
  have "nm \<noteq> [] \<and> \<not> spaceDot (hd nm)" using trimDots_hd [of clean] by (auto simp: nm_def spaceDot_def)
  then have hdF: "full \<noteq> []" "\<not> spaceDot (hd full)" by (auto simp: full_def spaceDot_def)
  obtain n where n: "shorten full = take n full" "length (shorten full) \<le> 180" "0 < n"
    using shorten_prefix [of full] hdF by auto
  then have sh: "shorten full \<noteq> []" "hd (shorten full) = hd full" using hdF by auto
  have "set (trimRightDots (shorten full)) \<subseteq> set full"
    using trimRightDots_set [of "shorten full"] n set_take_subset [of n full] by auto
  moreover obtain t where "shorten full = trimRightDots (shorten full) @ t" using trimRightDots_prefix by blast
  then have "length (trimRightDots (shorten full)) \<le> 180" using n by (metis le_add1 length_append order.trans)
  ultimately show ?thesis
    using trimRightDots_hd [of "shorten full"] trimRightDots_last [of "shorten full"] sh hdF safeF
    by (auto simp: portableName_def F list_all_iff)
qed

text \<open>A safe ASCII name that starts and ends with something else than a space or a point is only cut.\<close>

lemma Filename_ascii:
  assumes ascii: "list_all (\<lambda>c. byteVal c < 128 \<and> safeChar c) s" and s: "s \<noteq> []" "\<not> spaceDot (hd s)" "\<not> spaceDot (last s)"
    and dev: "\<not> isDevice (toUpper (takeWhile (\<lambda>c. c \<noteq> CHR ''.'') s))"
  shows "Filename s = trimRightDots (take 180 s)"
proof -
  have a: "list_all (\<lambda>c. byteVal c < 128) s" using ascii by (simp add: list_all_iff)
  have ne: "c \<noteq> CHR 0x5C \<and> c \<noteq> CHR ''/''" if "c \<in> set s" for c
    using that ascii by (auto simp: list_all_iff safeChar_def unsafeRunes_list byteVal_def)
  have m: "map (\<lambda>c. if c = CHR 0x5C then CHR ''/'' else c) s = s" using ne by (simp add: map_idI)
  have t: "takeWhile (\<lambda>c. c \<noteq> CHR ''/'') (rev s) = rev s" using ne by (simp add: takeWhile_eq_all_conv)
  have piece: "safePiece [c] = [c]" if "c \<in> set s" for c
  proof -
    have r: "runeOf [c] = byteVal c" "decodeRune [c] = (byteVal c, 1)" "byteVal c < 128"
      using that a by (simp_all add: runeOf_def decodeRune_ascii list_all_iff)
    have "\<not> isControlRune (byteVal c)" "byteVal c \<notin> set unsafeRunes"
      using that ascii r(3) by (auto simp: list_all_iff safeChar_def isControlRune_def)
    then show ?thesis using r by (simp add: safePiece_def)
  qed
  then have "map safePiece (chunks s) = map (\<lambda>c. [c]) s" by (simp add: chunks_ascii [OF a])
  then have c: "concat (map safePiece (chunks s)) = s" by (simp add: concat_singletons)
  have "trimRightDots s = s"
    using s by (cases s rule: rev_cases) (simp_all add: trimRightDots_def)
  moreover have "dropWhile spaceDot s = s" using s by (cases s) auto
  ultimately have d: "trimDots s = s" by (simp add: trimDots_def)
  show ?thesis
    unfolding Filename_def by (simp add: m t c d s dev Let_def shorten_ascii [OF a])
qed

text \<open>The name is cut after it was compared with the device names, and trimmed after that.\<close>

lemma Filename_device: "Filename (''con'' @ replicate 200 CHR '' '' @ ''x'') = ''con''"
proof -
  let ?s = "''con'' @ replicate 200 CHR '' '' @ ''x''"
  have b: "list_all (\<lambda>c. byteVal c < 128 \<and> safeChar c) ?s"
    unfolding list_all_append by (simp add: safeChar_def unsafeRunes_list byteVal_def list_all_iff)
  have a: "list_all (\<lambda>c. byteVal c < 128) ?s" using b by (simp add: list_all_iff)
  have t: "takeWhile (\<lambda>c. c \<noteq> CHR ''.'') ?s = ?s" by (auto simp: takeWhile_eq_all_conv)
  have up: "upperPiece [c] = [if 97 \<le> byteVal c \<and> byteVal c \<le> 122 then char_of (byteVal c - 32) else c]"
    if "byteVal c < 128" for c
    using that by (auto simp: upperPiece_def Let_def runeOf_def decodeRune_ascii)
  have chars: "char_of (67 :: int) = CHR ''C''" "char_of (79 :: int) = CHR ''O''" "char_of (78 :: int) = CHR ''N''" "char_of (88 :: int) = CHR ''X''"
    by code_simp+
  have "toUpper ?s = ''CON'' @ replicate 200 CHR '' '' @ ''X''"
    using a by (simp add: toUpper_def chunks_ascii) (simp add: up byteVal_def comp_def concat_replicate_single chars)
  then have "\<not> isDevice (toUpper ?s)" by (simp add: isDevice_def hasPrefix_def)
  then have "Filename ?s = trimRightDots (take 180 ?s)"
    by (intro Filename_ascii [OF b]) (simp_all only: t, simp_all add: spaceDot_def)
  also have "\<dots> = ''con''"
    by (simp add: trimRightDots_def spaceDot_def dropWhile_append3 dropWhile_replicate)
  finally show ?thesis .
qed

section \<open>The names of one export are distinct\<close>

text \<open>What is used of \<open>strings.ToLower\<close>: it maps rune by rune, and an underscore and decimal digits to
themselves.\<close>

definition lowerOk :: "(string \<Rightarrow> string) \<Rightarrow> bool" where
  "lowerOk lower \<longleftrightarrow> (\<forall>stem ext n. 0 < n \<longrightarrow> lower (numbered stem ext n) = lower stem @ ''_'' @ decI n @ lower ext)"

lemma pickName_result:
  "pickName k lower used stem ext cand n nxt = Some (c, m) \<Longrightarrow>
     lower c \<notin> set used \<and> (c = cand \<or> (\<exists>j \<ge> n. c = numbered stem ext j))"
proof (induction k arbitrary: cand n nxt)
  case (Suc k)
  show ?case
  proof (cases "lower cand \<in> set used")
    case True
    with Suc.prems have "pickName k lower used stem ext (numbered stem ext n) (n + 1) (Some (n + 1)) = Some (c, m)" by simp
    from Suc.IH [OF this] show ?thesis by (metis add.commute le_add_same_cancel2 order.trans order_refl zero_le_one)
  qed (use Suc.prems in auto)
qed simp

lemma pickName_none:
  "pickName k lower used stem ext (numbered stem ext n) (n + 1) nxt = None \<Longrightarrow> j < k \<Longrightarrow>
     lower (numbered stem ext (n + int j)) \<in> set used"
proof (induction k arbitrary: n nxt j)
  case (Suc k)
  then have here: "lower (numbered stem ext n) \<in> set used"
    and later: "pickName k lower used stem ext (numbered stem ext (n + 1)) (n + 1 + 1) (Some (n + 1 + 1)) = None"
    by (auto split: if_splits)
  show ?case
  proof (cases j)
    case (Suc i)
    with Suc.prems Suc.IH [OF later, of i] show ?thesis by (simp add: algebra_simps)
  qed (use here in simp)
qed simp

lemma pickName_fuel:
  assumes ok: "lowerOk lower" and n: "0 < n"
  shows "pickName (Suc (Suc (length used))) lower used stem ext cand n nxt \<noteq> None"
proof
  let ?k = "Suc (length used)" and ?f = "\<lambda>j. lower (numbered stem ext (n + int j))"
  assume none: "pickName (Suc ?k) lower used stem ext cand n nxt = None"
  then have "pickName ?k lower used stem ext (numbered stem ext n) (n + 1) (Some (n + 1)) = None"
    by (auto split: if_splits)
  then have "?f ` {..<?k} \<subseteq> set used" using pickName_none by blast
  moreover have "inj_on ?f {..<?k}"
  proof (rule inj_onI)
    fix i j
    assume "?f i = ?f j"
    moreover have "0 < n + int i" "0 < n + int j" using n by simp_all
    ultimately have "decI (n + int i) = decI (n + int j)"
      using ok by (simp add: lowerOk_def)
    then show "i = j" using n decN_inj [of "n + int i" "n + int j"] by (simp add: decI_pos)
  qed
  ultimately have "card {..<?k} \<le> card (set used)" by (metis List.finite_set card_image card_mono)
  also have "\<dots> \<le> length used" by (rule card_length)
  finally show False by simp
qed

lemma addName_result:
  assumes "lowerOk lower"
  shows "\<exists>c nxt'. addName lower f (used, nxt) = Some (c, lower c # used, nxt') \<and> lower c \<notin> set used \<and>
    (c = Filename f \<or> (\<exists>j \<ge> 2. c = numbered (stemOf (Filename f)) (extOf (Filename f)) j))"
proof -
  let ?n = "max 2 (case nxt (lower (Filename f)) of None \<Rightarrow> 0 | Some m \<Rightarrow> m)"
  obtain c m where p: "pickName (Suc (Suc (length used))) lower used (stemOf (Filename f)) (extOf (Filename f)) (Filename f) ?n None = Some (c, m)"
    using pickName_fuel [OF assms, of ?n used "stemOf (Filename f)" "extOf (Filename f)" "Filename f" None] by fastforce
  from pickName_result [OF p] p show ?thesis
    unfolding addName_def Let_def prod.case
    by (auto split: option.splits)
qed

lemma addNames_result:
  assumes "lowerOk lower"
  shows "\<exists>names. addNames lower fs (used, nxt) = Some names \<and> length names = length fs \<and>
    distinct (map lower names) \<and> (\<forall>n \<in> set names. lower n \<notin> set used) \<and>
    list_all2 (\<lambda>f c. c = Filename f \<or> (\<exists>j \<ge> 2. c = numbered (stemOf (Filename f)) (extOf (Filename f)) j)) fs names"
proof (induction fs arbitrary: used nxt)
  case (Cons f fs)
  obtain c nxt' where c: "addName lower f (used, nxt) = Some (c, lower c # used, nxt')" "lower c \<notin> set used"
    "c = Filename f \<or> (\<exists>j \<ge> 2. c = numbered (stemOf (Filename f)) (extOf (Filename f)) j)"
    using addName_result [OF assms] by blast
  obtain names where n: "addNames lower fs (lower c # used, nxt') = Some names" "length names = length fs"
    "distinct (map lower names)" "\<forall>n \<in> set names. lower n \<notin> set (lower c # used)"
    "list_all2 (\<lambda>f c. c = Filename f \<or> (\<exists>j \<ge> 2. c = numbered (stemOf (Filename f)) (extOf (Filename f)) j)) fs names"
    using Cons.IH [of "lower c # used" nxt'] by blast
  from n(4) have "lower c \<notin> lower ` set names" by (metis image_iff list.set_intros(1))
  with c n show ?case by simp
qed simp

text \<open>Lower case of ASCII, as an instance of the parameter.\<close>

definition asciiLower :: "string \<Rightarrow> string" where
  "asciiLower = map (\<lambda>c. if byteIn 65 90 c then char_of (byteVal c + 32) else c)"

end
