(* ===== verification/ImmichClient.thy ===== *)
theory ImmichClient
  imports Reading ExportNames
begin

text \<open>
  \<open>internal/integrations/immich/client.go\<close>: the requests to an Immich server and what the client accepts
  of its answers. The server and the HTTP transport are the environment: an answer is the status, the
  length of the body, and what \<open>encoding/json\<close> decoded from it.
\<close>

section \<open>Requests\<close>

definition uuidOk :: "string \<Rightarrow> bool" where
  "uuidOk s \<longleftrightarrow> length s = 36 \<and>
     list_all (\<lambda>i. s ! i = CHR ''-'') [8, 13, 18, 23] \<and>
     list_all isHex (take 8 s @ slice s 9 13 @ slice s 14 18 @ slice s 19 23 @ drop 24 s) \<and>
     s ! 14 = CHR ''4'' \<and> s ! 19 \<in> set ''89abAB''"

text \<open>\<open>Client.request\<close>: every failure is one of a few fixed errors.\<close>

definition immichRequest :: "int \<Rightarrow> string \<Rightarrow> string \<Rightarrow> string list \<Rightarrow> int \<Rightarrow> json wop" where
  "immichRequest target verb path body limit =
     bindE (remote (CallImmich target verb path body) e_http) (\<lambda>a.
     if \<not> ha_done a then bindE cancelled (\<lambda>c. raise (if c then Canceled else ImmichUnavailable))
     else
       bindE (failIf (ha_status a = 401 \<or> ha_status a = 403) ImmichAuth) (\<lambda>_.
       bindE (failIf (ha_status a = 404) ImmichMissing) (\<lambda>_.
       bindE (failIf (ha_status a < 200 \<or> 300 \<le> ha_status a) ImmichUnavailable) (\<lambda>_.
       bindE (failIf (\<not> ha_read a \<or> limit < ha_length a) ImmichUnavailable) (\<lambda>_.
       ret (ha_json a))))))"

definition requiredPermissions :: "string list" where
  "requiredPermissions = [''album.create'', ''album.read'', ''asset.upload'', ''albumAsset.create'']"

text \<open>\<open>Validate\<close>: the key's permissions, then the server's version.\<close>

definition immichValidate :: "int \<Rightarrow> (int \<times> int \<times> int) wop" where
  "immichValidate target =
     bindE (immichRequest target ''GET'' ''/api-keys/me'' [] 65536) (\<lambda>j.
     case j of
       JPermissions ps \<Rightarrow>
         bindE (failIf (list_ex (\<lambda>p. p \<notin> set ps \<and> ''all'' \<notin> set ps) requiredPermissions) ImmichAuth) (\<lambda>_.
         bindE (immichRequest target ''GET'' ''/server/version'' [] 4096) (\<lambda>j.
         case j of
           JVersion major minor patch \<Rightarrow>
             bindE (failIf (major \<noteq> 3 \<or> minor < 0 \<or> patch < 0)
               (Failure ''Immich API compatibility requires version 3.x (validated with 3.2.1)'')) (\<lambda>_.
             ret (major, minor, patch))
         | _ \<Rightarrow> raise ImmichUnavailable))
     | _ \<Rightarrow> raise ImmichUnavailable)"

definition createAlbum :: "int \<Rightarrow> string \<Rightarrow> string \<Rightarrow> album wop" where
  "createAlbum target name marker =
     bindE (immichRequest target ''POST'' ''/albums'' [name, marker] 65536) (\<lambda>j.
     case j of
       JAlbum a \<Rightarrow> bindE (failIf (\<not> uuidOk (al_id a) \<or> al_description a \<noteq> marker) ImmichUnavailable) (\<lambda>_. ret a)
     | _ \<Rightarrow> raise ImmichUnavailable)"

definition getAlbum :: "int \<Rightarrow> string \<Rightarrow> album wop" where
  "getAlbum target i =
     bindE (failIf (\<not> uuidOk i) ImmichUnavailable) (\<lambda>_.
     bindE (immichRequest target ''GET'' (''/albums/'' @ i) [] 4194304) (\<lambda>j.
     case j of
       JAlbum a \<Rightarrow> bindE (failIf (al_id a \<noteq> i) ImmichUnavailable) (\<lambda>_. ret a)
     | _ \<Rightarrow> raise ImmichUnavailable))"

text \<open>The loop of \<open>FindAlbum\<close>: a second match, or one without a proper identifier, is an error.\<close>

fun findMarked :: "string \<Rightarrow> album list \<Rightarrow> album option \<Rightarrow> err + album" where
  "findMarked marker [] found =
     (case found of None \<Rightarrow> Inl ErrAlbumUncertain
      | Some a \<Rightarrow> if al_id a = [] then Inl ErrAlbumUncertain else Inr a)"
| "findMarked marker (a # as) found =
     (if al_description a = marker then
        (if (case found of Some b \<Rightarrow> al_id b \<noteq> [] | None \<Rightarrow> False) \<or> \<not> uuidOk (al_id a)
         then Inl ErrAlbumUncertain else findMarked marker as (Some a))
      else findMarked marker as found)"

definition findAlbum :: "int \<Rightarrow> string \<Rightarrow> album wop" where
  "findAlbum target marker =
     bindE (immichRequest target ''GET'' ''/albums'' [] 4194304) (\<lambda>j.
     case j of JAlbums as \<Rightarrow> liftE (findMarked marker as None) | _ \<Rightarrow> raise ImmichUnavailable)"

definition addToAlbum :: "int \<Rightarrow> string \<Rightarrow> string \<Rightarrow> unit wop" where
  "addToAlbum target albumID assetID =
     bindE (failIf (\<not> uuidOk albumID \<or> \<not> uuidOk assetID) ImmichUnavailable) (\<lambda>_.
     bindE (immichRequest target ''PUT'' (''/albums/'' @ albumID @ ''/assets'') [assetID] 65536) (\<lambda>j.
     case j of
       JAdded [(i, success, e)] \<Rightarrow> failIf (i \<noteq> assetID \<or> (\<not> success \<and> e \<noteq> ''duplicate'')) ImmichUnavailable
     | _ \<Rightarrow> raise ImmichUnavailable))"

text \<open>\<open>Upload\<close>: the copy into the request body runs beside the request; an error of the request comes first,
then a source that could not be read or did not have its size.\<close>

definition copyFails :: "int \<Rightarrow> reader \<Rightarrow> bool" where
  "copyFails sz source \<longleftrightarrow>
     (let src = limitReader (sz + 1) source in rd_broken src \<or> int (length (rd_data src)) \<noteq> sz)"

definition immichUpload :: "int \<Rightarrow> string \<Rightarrow> stamp \<Rightarrow> int \<Rightarrow> reader \<Rightarrow> (string \<times> string) wop" where
  "immichUpload target filename uploadedAt sz source =
     bindE (immichRequest target ''POST'' ''/assets'' [Filename filename] 65536) (\<lambda>j.
     case j of
       JUpload i status \<Rightarrow>
         bindE (failIf (copyFails sz source) ImmichUnavailable) (\<lambda>_.
         bindE (failIf (\<not> uuidOk i \<or> (status \<noteq> ''created'' \<and> status \<noteq> ''duplicate'')) ImmichUnavailable) (\<lambda>_.
         ret (i, status)))
     | _ \<Rightarrow> raise ImmichUnavailable)"

text \<open>What is stored and shown of an error. A statement that failed because the context was cancelled
counts as any other failed statement here.\<close>

definition immichMessage :: "err \<Rightarrow> string" where
  "immichMessage e =
     (if e = ImmichUnavailable then
        ''Immich is unavailable or returned an unsupported response; check the configured server and retry''
      else if e = ImmichAuth then ''Immich rejected the API key or its permissions''
      else if e = ImmichMissing then ''the mapped Immich album or asset is missing; restore it before retrying''
      else if e = ErrCredentials then
        ''this Immich target has no runtime credentials; restore its deployment configuration''
      else if e = ErrAlbumUncertain then
        ''album creation outcome is uncertain; inspect Immich and restore the PhotoDrop album marker before retrying''
      else if e = Canceled then ''Import interrupted or timed out; unfinished work is retryable''
      else ''Import failed; check source storage and target availability, then retry'')"

section \<open>What the client accepts\<close>

text \<open>Whatever the server answers, an error is one of the client's own.\<close>

definition clientErr :: "err \<Rightarrow> bool" where
  "clientErr e \<longleftrightarrow> e \<in> {ImmichUnavailable, ImmichAuth, ImmichMissing, ErrAlbumUncertain, Canceled, ECrashed,
     Failure ''Immich API compatibility requires version 3.x (validated with 3.2.1)''}"

definition clientPost :: "('a \<Rightarrow> bool) \<Rightarrow> err + 'a \<Rightarrow> world \<Rightarrow> bool" where
  "clientPost P r t \<longleftrightarrow> (case r of Inl e \<Rightarrow> clientErr e | Inr x \<Rightarrow> P x)"

lemma clientPost_simps [simp]: "clientPost P (Inl e) t = clientErr e" "clientPost P (Inr x) t = P x"
  by (simp_all add: clientPost_def)

lemma clientErrs [simp]: "clientErr ImmichUnavailable" "clientErr ImmichAuth" "clientErr ImmichMissing" "clientErr ErrAlbumUncertain"
  "clientErr Canceled" "clientErr ECrashed"
  "clientErr (Failure ''Immich API compatibility requires version 3.x (validated with 3.2.1)'')"
  by (simp_all add: clientErr_def)

lemma wp_remote:
  assumes "\<And>t. Q (Inl ECrashed) t" and "\<And>t. Q (Inr (answer (env w) (tick w))) t"
  shows "wp (remote c answer) Q w"
  using assms by (auto simp: wp_def remote_def Let_def split: fault.split)

lemma request_wp:
  assumes "\<And>e t. clientErr e \<Longrightarrow> Q (Inl e) t" and "\<And>j t. Q (Inr j) t"
  shows "wp (immichRequest target verb path body limit) Q w"
  unfolding immichRequest_def wp_simps
  by (auto simp: wp_simps cancelled_def wp_def [of cancelled] intro!: wp_remote assms)

lemma findMarked_unique:
  assumes "findMarked marker as found = Inr a" and "\<And>b. found = Some b \<Longrightarrow> uuidOk (al_id b) \<and> al_description b = marker"
  shows "uuidOk (al_id a) \<and> al_description a = marker \<and>
    (case found of None \<Rightarrow> filter (\<lambda>b. al_description b = marker) as = [a]
     | Some b \<Rightarrow> a = b \<and> filter (\<lambda>b. al_description b = marker) as = [])"
  using assms
proof (induction as arbitrary: found)
  case Nil
  then show ?case by (auto split: option.splits if_splits)
next
  case (Cons b as)
  show ?case
  proof (cases "al_description b = marker")
    case True
    with Cons.prems have u: "uuidOk (al_id b)" and rest: "findMarked marker as (Some b) = Inr a"
      and first: "\<And>c. found = Some c \<Longrightarrow> al_id c = []" by (auto split: if_splits option.splits)
    have "found = None"
    proof (cases found)
      case (Some c)
      with first Cons.prems(2) [of c] show ?thesis by (simp add: uuidOk_def)
    qed
    with Cons.IH [OF rest] u True show ?thesis by auto
  next
    case False
    with Cons.prems have "findMarked marker as found = Inr a" by simp
    from Cons.IH [OF this Cons.prems(2)] False show ?thesis by (simp split: option.splits)
  qed
qed

lemma client_posts:
  "wp (immichValidate target) (clientPost (\<lambda>(major, minor, patch). major = 3 \<and> 0 \<le> minor \<and> 0 \<le> patch)) w"
  "wp (createAlbum target name marker) (clientPost (\<lambda>a. uuidOk (al_id a) \<and> al_description a = marker)) w"
  "wp (getAlbum target i) (clientPost (\<lambda>a. uuidOk i \<and> al_id a = i)) w"
  "wp (findAlbum target marker) (clientPost (\<lambda>a. uuidOk (al_id a) \<and> al_description a = marker)) w"
  "wp (addToAlbum target i j) (clientPost (\<lambda>_. uuidOk i \<and> uuidOk j)) w"
  "wp (immichUpload target f made sz src) (clientPost (\<lambda>(i, s). uuidOk i \<and> (s = ''created'' \<or> s = ''duplicate'') \<and>
     \<not> rd_broken src \<and> int (length (rd_data src)) = sz)) w"
proof -
  show "wp (immichValidate target) (clientPost (\<lambda>(major, minor, patch). major = 3 \<and> 0 \<le> minor \<and> 0 \<le> patch)) w"
    unfolding immichValidate_def wp_simps
    by (auto simp: wp_simps intro!: request_wp split: json.splits)
  show "wp (createAlbum target name marker) (clientPost (\<lambda>a. uuidOk (al_id a) \<and> al_description a = marker)) w"
    unfolding createAlbum_def wp_simps by (auto simp: wp_simps intro!: request_wp split: json.splits)
  show "wp (getAlbum target i) (clientPost (\<lambda>a. uuidOk i \<and> al_id a = i)) w"
    unfolding getAlbum_def wp_simps by (auto simp: wp_simps intro!: request_wp split: json.splits)
  have fe: "findMarked marker as found = Inl e \<Longrightarrow> e = ErrAlbumUncertain" for marker as found e
    by (induction marker as found rule: findMarked.induct) (auto split: option.splits if_splits)
  have "clientPost (\<lambda>a. uuidOk (al_id a) \<and> al_description a = marker) (findMarked marker as None) t" for as t
    by (cases "findMarked marker as None") (auto dest: fe findMarked_unique)
  then show "wp (findAlbum target marker) (clientPost (\<lambda>a. uuidOk (al_id a) \<and> al_description a = marker)) w"
    unfolding findAlbum_def wp_simps by (auto simp: wp_simps intro!: request_wp split: json.splits)
  show "wp (addToAlbum target i j) (clientPost (\<lambda>_. uuidOk i \<and> uuidOk j)) w"
    unfolding addToAlbum_def wp_simps
    by (auto simp: wp_simps intro!: request_wp split: json.splits list.splits)
  have "\<not> rd_broken src \<and> int (length (rd_data src)) = sz" if "\<not> copyFails sz src"
  proof -
    have "limitReader (sz + 1) src = src" using that
      by (cases src) (auto simp: copyFails_def limitReader_def Let_def split: if_splits)
    with that show ?thesis by (simp add: copyFails_def Let_def)
  qed
  then show "wp (immichUpload target f made sz src) (clientPost (\<lambda>(i, s). uuidOk i \<and> (s = ''created'' \<or> s = ''duplicate'') \<and>
     \<not> rd_broken src \<and> int (length (rd_data src)) = sz)) w"
    unfolding immichUpload_def wp_simps by (auto simp: wp_simps intro!: request_wp split: json.splits)
qed

text \<open>Requests change nothing but the log of requests.\<close>

lemma onlyTrace_immich:
  "upholds onlyTrace (immichRequest target verb path body limit)" "upholds onlyTrace (immichValidate target)"
  "upholds onlyTrace (createAlbum target name marker)" "upholds onlyTrace (getAlbum target i)"
  "upholds onlyTrace (findAlbum target marker)" "upholds onlyTrace (addToAlbum target i j)"
  "upholds onlyTrace (immichUpload target f made sz src)"
proof -
  show r: "upholds onlyTrace (immichRequest target verb path body limit)" for verb path body limit
    unfolding immichRequest_def by (intro only_trace.up_rules only_trace.up_world onlyTrace_remote)
  have j: "upholds onlyTrace (case j of JPermissions ps \<Rightarrow> f1 ps | JVersion a b c \<Rightarrow> f2 a b c | JAlbum al \<Rightarrow> f3 al
      | JAlbums as \<Rightarrow> f4 as | JUpload i s \<Rightarrow> f5 i s | JAdded r \<Rightarrow> f6 r | JInvalid \<Rightarrow> f7)"
    if "\<And>ps. upholds onlyTrace (f1 ps)" "\<And>a b c. upholds onlyTrace (f2 a b c)" "\<And>al. upholds onlyTrace (f3 al)"
      "\<And>as. upholds onlyTrace (f4 as)" "\<And>i s. upholds onlyTrace (f5 i s)" "\<And>r. upholds onlyTrace (f6 r)" "upholds onlyTrace f7"
    for j f1 f2 f3 f4 f5 f6 and f7 :: "'b wop"
    using that by (cases j) auto
  show "upholds onlyTrace (immichValidate target)" unfolding immichValidate_def by (intro only_trace.up_rules r j)
  show "upholds onlyTrace (createAlbum target name marker)" unfolding createAlbum_def by (intro only_trace.up_rules r j)
  show "upholds onlyTrace (getAlbum target i)" unfolding getAlbum_def by (intro only_trace.up_rules r j)
  show "upholds onlyTrace (findAlbum target marker)" unfolding findAlbum_def by (intro only_trace.up_rules r j)
  have "upholds onlyTrace (case rs of [(i, success, e)] \<Rightarrow> failIf (P i success e) x | _ \<Rightarrow> raise ImmichUnavailable)" for rs P x
    by (auto split: list.splits intro: only_trace.up_rules)
  then show "upholds onlyTrace (addToAlbum target i j)" unfolding addToAlbum_def by (intro only_trace.up_rules r j)
  show "upholds onlyTrace (immichUpload target f made sz src)" unfolding immichUpload_def by (intro only_trace.up_rules r j)
qed

end
