(* ===== verification/ImmichJobs.thy ===== *)
theory ImmichJobs
  imports ImmichClient
begin

text \<open>
  \<open>internal/integrations/immich/targets.go\<close>, \<open>jobs.go\<close> and \<open>auto.go\<close>: the configured targets, the durable
  import jobs of an event, and the automatic reconciliation. Columns that no statement reads
  (\<open>created_at\<close>, \<open>updated_at\<close>, \<open>started_at\<close>, \<open>finished_at\<close>, \<open>imported_at\<close>) and the clock readings
  that fill them are left out. The context of a job is the environment's answer to \<open>cancelled\<close> at each
  step: a cancellation request, a lost event or a shutdown can show at any of them.
\<close>

section \<open>Targets\<close>

text \<open>\<open>Target\<close>; the client is told apart only by its target, so a flag says whether there is one.\<close>

record target =
  tg_id :: int
  tg_key :: string
  tg_available :: bool
  tg_public :: string
  tg_client :: bool

text \<open>\<open>Targets\<close>: the entries of the map, in the order of their identifiers.\<close>

record target_set =
  ts_active :: string
  ts_entries :: "target list"

definition byKey :: "target_set \<Rightarrow> string \<Rightarrow> err + target" where
  "byKey ts key =
     (let key = (if key = [] then ts_active ts else key)
      in case find (\<lambda>t. tg_key t = key) (ts_entries ts) of None \<Rightarrow> Inl ErrCredentials | Some t \<Rightarrow> Inr t)"

definition clientOf :: "target_set \<Rightarrow> int \<Rightarrow> err + int" where
  "clientOf ts i =
     (case find (\<lambda>t. tg_id t = i) (ts_entries ts) of
        None \<Rightarrow> Inl ErrCredentials
      | Some t \<Rightarrow> if tg_client t then Inr i else Inl ErrCredentials)"

definition targetCatalog :: "target_set \<Rightarrow> string \<times> target list" where
  "targetCatalog ts = (ts_active ts, sort_key tg_key (ts_entries ts))"

record import_service =
  im_targets :: target_set
  im_media :: service

section \<open>Statements\<close>

definition activeJob :: "job_row \<Rightarrow> bool" where
  "activeJob j \<longleftrightarrow> jb_status j = Queued \<or> jb_status j = Running"

definition hasActive :: "int \<Rightarrow> db \<Rightarrow> bool" where
  "hasActive b d \<longleftrightarrow> list_ex (\<lambda>j. jb_import j = b \<and> activeJob j) (jobs d)"

definition bindingOf :: "int \<Rightarrow> int \<Rightarrow> db \<Rightarrow> import_row option" where
  "bindingOf eventID targetID d = find (\<lambda>b. ei_event b = eventID \<and> ei_target b = targetID) (event_imports d)"

text \<open>\<open>INSERT INTO immich_event_imports\<close>: UNIQUE (event, target), UNIQUE marker, two foreign keys.\<close>

definition insertBinding :: "int \<Rightarrow> int \<Rightarrow> string \<Rightarrow> string \<Rightarrow> db \<Rightarrow> err + db \<times> int" where
  "insertBinding eventID targetID name marker d =
     (let n = nextId (map ei_id (event_imports d)) in
      if bindingOf eventID targetID d = None \<and> list_all (\<lambda>b. ei_marker b \<noteq> marker) (event_imports d) \<and>
         list_ex (\<lambda>e. ev_id e = eventID) (events d) \<and> list_ex (\<lambda>t. it_id t = targetID) (targets d)
      then Inr (d\<lparr>event_imports := event_imports d @
             [\<lparr>ei_id = n, ei_event = eventID, ei_target = targetID, ei_name = name, ei_marker = marker,
               ei_state = AlbumNew, ei_album = None, ei_auto = False\<rparr>]\<rparr>, n)
      else Inl EConstraint)"

text \<open>\<open>INSERT INTO integration_jobs\<close>: the foreign key and the partial unique index on active jobs.\<close>

definition insertJob :: "int \<Rightarrow> job_mode \<Rightarrow> db \<Rightarrow> err + db \<times> int" where
  "insertJob b mode d =
     (let n = nextId (map jb_id (jobs d)) in
      if list_ex (\<lambda>i. ei_id i = b) (event_imports d) \<and> \<not> hasActive b d
      then Inr (d\<lparr>jobs := jobs d @ [\<lparr>jb_id = n, jb_import = b, jb_status = Queued, jb_mode = mode,
             jb_cancel = False, jb_error = []\<rparr>]\<rparr>, n)
      else Inl EConstraint)"

definition selectionOf :: "int \<Rightarrow> string \<Rightarrow> db \<Rightarrow> asset_import_row option" where
  "selectionOf b a d = find (\<lambda>i. ai_import i = b \<and> ai_asset i = a) (asset_imports d)"

definition readyOf :: "int \<Rightarrow> db \<Rightarrow> asset_row list" where
  "readyOf eventID d = filter (\<lambda>a. as_event a = eventID \<and> as_status a = Ready) (assets d)"

definition newSelection :: "int \<Rightarrow> asset_row \<Rightarrow> asset_import_row" where
  "newSelection b a = \<lparr>ai_import = b, ai_asset = as_id a, ai_remote = None, ai_duplicate = False,
     ai_status = ImpPending, ai_attempts = 0, ai_error = []\<rparr>"

text \<open>The rows of an \<open>INSERT INTO immich_asset_imports ... SELECT\<close>; the foreign key needs the binding.\<close>

definition insertSelection :: "int \<Rightarrow> asset_row list \<Rightarrow> db \<Rightarrow> err + db \<times> int" where
  "insertSelection b new d =
     (if new \<noteq> [] \<and> \<not> list_ex (\<lambda>i. ei_id i = b) (event_imports d) then Inl EConstraint
      else Inr (d\<lparr>asset_imports := asset_imports d @ map (newSelection b) new\<rparr>, int (length new)))"

text \<open>\<open>INSERT OR IGNORE\<close>: assets that are selected already are left as they are.\<close>

definition selectReady :: "int \<Rightarrow> int \<Rightarrow> db \<Rightarrow> err + db \<times> int" where
  "selectReady b eventID d = insertSelection b (filter (\<lambda>a. selectionOf b (as_id a) d = None) (readyOf eventID d)) d"

definition setSelections :: "(asset_import_row \<Rightarrow> bool) \<Rightarrow> (asset_import_row \<Rightarrow> asset_import_row) \<Rightarrow> db \<Rightarrow> err + db \<times> unit" where
  "setSelections P f d = Inr (d\<lparr>asset_imports := updWhere P f (asset_imports d)\<rparr>, ())"

definition setBindings :: "(import_row \<Rightarrow> bool) \<Rightarrow> (import_row \<Rightarrow> import_row) \<Rightarrow> db \<Rightarrow> err + db \<times> unit" where
  "setBindings P f d = Inr (d\<lparr>event_imports := updWhere P f (event_imports d)\<rparr>, ())"

definition setJobs :: "(job_row \<Rightarrow> bool) \<Rightarrow> (job_row \<Rightarrow> job_row) \<Rightarrow> db \<Rightarrow> err + db \<times> unit" where
  "setJobs P f d = Inr (d\<lparr>jobs := updWhere P f (jobs d)\<rparr>, ())"

section \<open>Enqueueing\<close>

definition modeOf :: "string \<Rightarrow> job_mode option" where
  "modeOf s = (if s = ''new'' then Some ModeNew else if s = ''retry'' then Some ModeRetry else None)"

definition badAlbumName :: "string \<Rightarrow> bool" where
  "badAlbumName name \<longleftrightarrow> 200 < runeCount name \<or> \<not> validUTF8 name \<or> containsAny name nulCrLf"

definition markerOf :: "int list \<Rightarrow> string" where
  "markerOf bs = ''PhotoDrop import '' @ hexEncode (take 16 (bs @ replicate 16 0))"

definition retryRow :: "asset_import_row \<Rightarrow> asset_import_row" where
  "retryRow i = i\<lparr>ai_status := ImpPending, ai_error := []\<rparr>"

text \<open>What is selected by the job: nothing, every ready asset, or what failed or was interrupted.\<close>

definition selectFor :: "bool \<Rightarrow> job_mode \<Rightarrow> int \<Rightarrow> int \<Rightarrow> unit wop" where
  "selectFor albumOnly mode b eventID =
     (if albumOnly then
        bindE (query (\<lambda>d. Inr (list_ex (\<lambda>i. ai_import i = b) (asset_imports d)))) (\<lambda>selected.
        failIf selected ErrInput)
      else if mode = ModeNew then bindE (exec (selectReady b eventID)) (\<lambda>_. ret ())
      else exec (setSelections (\<lambda>i. ai_import i = b \<and> (ai_status i = ImpFailed \<or> ai_status i = ImpImporting)) retryRow))"

definition enqueueTx :: "import_service \<Rightarrow> int \<Rightarrow> string \<Rightarrow> string \<Rightarrow> string \<Rightarrow> bool \<Rightarrow> bool \<Rightarrow> int wop" where
  "enqueueTx im eventID key name mode albumOnly requireCredentials =
     (let name = trimSpace name in
      case modeOf mode of None \<Rightarrow> raise ErrInput | Some m \<Rightarrow>
      bindE (failIf (badAlbumName name) ErrInput) (\<lambda>_.
      bindE (liftE (byKey (im_targets im) key)) (\<lambda>t.
      bindE (if requireCredentials then liftE (clientOf (im_targets im) (tg_id t)) else ret 0) (\<lambda>_.
      bindE (getEvent eventID) (\<lambda>e.
      bindE (failIf (ev_deleting e) ErrDeleting) (\<lambda>_.
      tryE (queryRow (bindingOf eventID (tg_id t))) (\<lambda>r.
        let stored = (case r of Inl _ \<Rightarrow> [] | Inr b \<Rightarrow> ei_name b);
            name = (if name \<noteq> [] then name else if stored \<noteq> [] then stored else ev_name e)
        in bindE (failIf (containsAny name nulCrLf) ErrInput) (\<lambda>_.
           bindE (case r of
                    Inr b \<Rightarrow> ret (ei_id b)
                  | Inl x \<Rightarrow> if x = NoRows
                      then bindE randomBytes (\<lambda>bs. exec (insertBinding eventID (tg_id t) name (markerOf bs)))
                      else raise x) (\<lambda>b.
           bindE (query (\<lambda>d. Inr (hasActive b d))) (\<lambda>active.
           bindE (failIf active ErrActive) (\<lambda>_.
           bindE (exec (setBindings (\<lambda>i. ei_id i = b \<and> ei_state i = AlbumNew) (ei_name_update (\<lambda>_. name)))) (\<lambda>_.
           bindE (selectFor albumOnly m b eventID) (\<lambda>_.
           exec (insertJob b m))))))))))))))"

definition enqueue :: "import_service \<Rightarrow> int \<Rightarrow> string \<Rightarrow> string \<Rightarrow> string \<Rightarrow> bool \<Rightarrow> int wop" where
  "enqueue im eventID key name mode albumOnly = inTx (enqueueTx im eventID key name mode albumOnly True)"

definition Enqueue :: "import_service \<Rightarrow> int \<Rightarrow> string \<Rightarrow> string \<Rightarrow> string \<Rightarrow> int wop" where
  "Enqueue im eventID key name mode = enqueue im eventID key name mode False"

definition Provision :: "import_service \<Rightarrow> int \<Rightarrow> string \<Rightarrow> string \<Rightarrow> int wop" where
  "Provision im eventID key name = enqueue im eventID key name ''new'' True"

definition createBoundEvent :: "import_service \<Rightarrow> event_input \<Rightarrow> string \<Rightarrow> string \<Rightarrow> bool \<Rightarrow> event_row wop" where
  "createBoundEvent im inp key name autoImport =
     inTx (bindE (createEvent inp) (\<lambda>e.
           bindE (enqueueTx im (ev_id e) key name ''new'' True False) (\<lambda>_.
           bindE (exec (setBindings (\<lambda>b. ei_event b = ev_id e) (ei_auto_update (\<lambda>_. autoImport)))) (\<lambda>_.
           ret e))))"

definition Cancel :: "import_service \<Rightarrow> int \<Rightarrow> string \<Rightarrow> unit wop" where
  "Cancel im eventID key =
     bindE (liftE (byKey (im_targets im) key)) (\<lambda>t.
     exec (\<lambda>d. setJobs (\<lambda>j. activeJob j \<and> list_ex (\<lambda>b. ei_id b = jb_import j \<and> ei_event b = eventID \<and>
                  ei_target b = tg_id t) (event_imports d)) (jb_cancel_update (\<lambda>_. True)) d))"

section \<open>Recovery and claims\<close>

definition recover :: "unit wop" where
  "recover =
     inTx (bindE (exec (setSelections (\<lambda>i. ai_status i = ImpImporting) (ai_status_update (\<lambda>_. ImpPending)))) (\<lambda>_.
           exec (setJobs (\<lambda>j. jb_status j = Running) (\<lambda>j. j\<lparr>jb_status := Queued, jb_error := []\<rparr>))))"

record claimed =
  cj_id :: int
  cj_import :: int
  cj_event :: int
  cj_target :: int

text \<open>The oldest queued job, joined with its binding.\<close>

definition queuedJobs :: "db \<Rightarrow> claimed list" where
  "queuedJobs d =
     List.map_filter (\<lambda>j. map_option (\<lambda>b. \<lparr>cj_id = jb_id j, cj_import = jb_import j, cj_event = ei_event b, cj_target = ei_target b\<rparr>)
         (find (\<lambda>b. ei_id b = jb_import j) (event_imports d)))
       (sort_key jb_id (filter (\<lambda>j. jb_status j = Queued) (jobs d)))"

definition claim :: "claimed wop" where
  "claim =
     inTx (bindE (queryRow (\<lambda>d. case queuedJobs d of [] \<Rightarrow> None | c # _ \<Rightarrow> Some c)) (\<lambda>c.
           bindE (exec (setJobs (\<lambda>j. jb_id j = cj_id c \<and> jb_status j = Queued) (jb_status_update (\<lambda>_. Running)))) (\<lambda>_.
           ret c)))"

section \<open>The album of a binding\<close>

definition albumOf :: "int \<Rightarrow> int \<Rightarrow> string wop" where
  "albumOf client importID =
     bindE (queryRow (\<lambda>d. find (\<lambda>b. ei_id b = importID) (event_imports d))) (\<lambda>b.
     let i = (case ei_album b of None \<Rightarrow> [] | Some i \<Rightarrow> i) in
     if i \<noteq> [] then bindE (getAlbum client i) (\<lambda>_. ret i)
     else
       bindE (if ei_state b = AlbumCreating then findAlbum client (ei_marker b)
              else bindE (exec (setBindings (\<lambda>b. ei_id b = importID) (ei_state_update (\<lambda>_. AlbumCreating)))) (\<lambda>_.
                   createAlbum client (ei_name b) (ei_marker b))) (\<lambda>a.
       bindE (exec (setBindings (\<lambda>b. ei_id b = importID) (\<lambda>b. b\<lparr>ei_album := Some (al_id a), ei_state := AlbumReady\<rparr>))) (\<lambda>_.
       ret (al_id a))))"

section \<open>One asset\<close>

definition isSelection :: "int \<Rightarrow> string \<Rightarrow> asset_import_row \<Rightarrow> bool" where
  "isSelection b a i \<longleftrightarrow> ai_import i = b \<and> ai_asset i = a"

text \<open>The deferred function: a failed asset keeps its remote identifier; an interrupted one is pending again.\<close>

definition settleFailed :: "int \<Rightarrow> string \<Rightarrow> err \<Rightarrow> unit wop" where
  "settleFailed b a e =
     bindE cancelled (\<lambda>c.
     exec (setSelections (isSelection b a)
       (\<lambda>i. i\<lparr>ai_status := (if c then ImpPending else ImpFailed), ai_error := immichMessage e\<rparr>)))"

definition sendAsset :: "import_service \<Rightarrow> int \<Rightarrow> int \<Rightarrow> string \<Rightarrow> snapshot \<Rightarrow> ready_asset \<Rightarrow> asset_import_row \<Rightarrow> unit wop" where
  "sendAsset im b client albumID sn a row =
     bindE (if ai_remote row = None \<or> ai_remote row = Some []
            then bindE (openAsset (im_media im) sn a) (\<lambda>(stream, _).
                 bindE (immichUpload client (ra_filename a) (ra_uploaded a) (ra_size a) stream) (\<lambda>(i, status).
                 bindE (exec (setSelections (isSelection b (ra_id a))
                          (\<lambda>r. r\<lparr>ai_remote := Some i, ai_duplicate := (status = ''duplicate'')\<rparr>))) (\<lambda>_.
                 ret (i, status = ''duplicate''))))
            else ret (the (ai_remote row), ai_duplicate row)) (\<lambda>(i, duplicate).
     bindE (addToAlbum client albumID i) (\<lambda>_.
     exec (setSelections (isSelection b (ra_id a))
       (\<lambda>r. r\<lparr>ai_status := (if duplicate then ImpDuplicate else ImpImported), ai_error := []\<rparr>))))"

definition importAsset :: "import_service \<Rightarrow> int \<Rightarrow> int \<Rightarrow> string \<Rightarrow> snapshot \<Rightarrow> ready_asset \<Rightarrow> unit wop" where
  "importAsset im b client albumID sn a =
     tryE (queryRow (selectionOf b (ra_id a))) (\<lambda>r.
     case r of
       Inl e \<Rightarrow> if e = NoRows then ret () else raise e
     | Inr row \<Rightarrow>
         if ai_status row \<noteq> ImpPending then ret ()
         else bindE (exec (setSelections (isSelection b (ra_id a))
                (\<lambda>i. i\<lparr>ai_status := ImpImporting, ai_attempts := ai_attempts i + 1\<rparr>))) (\<lambda>_.
              tryE (sendAsset im b client albumID sn a row) (\<lambda>r.
              case r of
                Inr _ \<Rightarrow> ret ()
              | Inl e \<Rightarrow> tryE (settleFailed b (ra_id a) e) (\<lambda>_. raise e))))"

section \<open>One job\<close>

text \<open>
  The three workers take the assets of the snapshot from one channel. Each touches only the row of its own
  asset, and a snapshot has every asset once; the model runs them one after another. An asset taken when the
  context is done is skipped.
\<close>

fun importAll :: "import_service \<Rightarrow> int \<Rightarrow> int \<Rightarrow> string \<Rightarrow> snapshot \<Rightarrow> ready_asset list \<Rightarrow> bool \<Rightarrow> bool wop" where
  "importAll im b client albumID sn [] failed = ret failed"
| "importAll im b client albumID sn (a # as) failed =
     bindE cancelled (\<lambda>c.
     if c then importAll im b client albumID sn as failed
     else tryE (importAsset im b client albumID sn a) (\<lambda>r.
          case r of
            Inl e \<Rightarrow> if e = ECrashed then raise e else importAll im b client albumID sn as True
          | Inr _ \<Rightarrow> importAll im b client albumID sn as failed))"

definition importJob :: "import_service \<Rightarrow> claimed \<Rightarrow> unit wop" where
  "importJob im j =
     bindE (liftE (clientOf (im_targets im) (cj_target j))) (\<lambda>client.
     bindE (immichValidate client) (\<lambda>_.
     bindE (takeSnapshot (cj_event j)) (\<lambda>sn.
     finallyE (
       bindE (albumOf client (cj_import j)) (\<lambda>albumID.
       bindE (importAll im (cj_import j) client albumID sn (sn_assets sn) False) (\<lambda>failed.
       bindE cancelled (\<lambda>c.
       bindE (failIf c Canceled) (\<lambda>_.
       failIf failed (Failure ''one or more assets failed''))))))
       (closeSnapshot sn))))"

definition cancelNote :: string where
  "cancelNote = ''Unfinished media can be sent again''"

definition outcome :: "err + unit \<Rightarrow> bool \<Rightarrow> job_status \<times> string" where
  "outcome r requested =
     (if requested then (Cancelled, cancelNote)
      else case r of Inl e \<Rightarrow> (Failed, immichMessage e) | Inr _ \<Rightarrow> (Completed, []))"

definition jobRow :: "int \<Rightarrow> db \<Rightarrow> job_row option" where
  "jobRow i d = find (\<lambda>j. jb_id j = i) (jobs d)"

definition finishJob :: "claimed \<Rightarrow> err + unit \<Rightarrow> unit wop" where
  "finishJob j r =
     inTx (bindE (queryRow (jobRow (cj_id j))) (\<lambda>row.
           let (status, message) = outcome r (jb_cancel row) in
           bindE (if status = Failed
                  then exec (setSelections (\<lambda>i. ai_import i = cj_import j \<and> ai_status i = ImpPending)
                         (\<lambda>i. i\<lparr>ai_status := ImpFailed, ai_error := message\<rparr>))
                  else ret ()) (\<lambda>_.
           exec (setJobs (\<lambda>q. jb_id q = cj_id j) (\<lambda>q. q\<lparr>jb_status := status, jb_error := message\<rparr>)))))"

text \<open>
  \<open>execute\<close>: a job whose cancellation was requested before it started runs with a context that is already
  done, so the request of \<open>Validate\<close> fails before it is sent. Where the source returns early, the model
  returns the error, which \<open>Run\<close> does not see.
\<close>

definition executeJob :: "import_service \<Rightarrow> claimed \<Rightarrow> unit wop" where
  "executeJob im j =
     bindE (queryRow (jobRow (cj_id j))) (\<lambda>row.
     tryE (if jb_cancel row
           then bindE (liftE (clientOf (im_targets im) (cj_target j))) (\<lambda>_. raise Canceled)
           else importJob im j) (\<lambda>r.
     if r = Inl ECrashed then raise ECrashed
     else bindE cancelled (\<lambda>stopping. if stopping then ret () else finishJob j r)))"

section \<open>Automatic reconciliation\<close>

definition reconcileInterval :: int where
  "reconcileInterval = 5 * nanosPerSecond"

definition reconcileBindings :: int where
  "reconcileBindings = 32"

definition reconcileAssets :: int where
  "reconcileAssets = 256"

definition SetAutoImport :: "import_service \<Rightarrow> int \<Rightarrow> string \<Rightarrow> bool \<Rightarrow> unit wop" where
  "SetAutoImport im eventID key enabled =
     bindE (liftE (byKey (im_targets im) key)) (\<lambda>t.
     bindE (exec (\<lambda>d.
       let P = (\<lambda>b. ei_event b = eventID \<and> ei_target b = tg_id t \<and>
             list_ex (\<lambda>e. ev_id e = eventID \<and> \<not> ev_deleting e) (events d))
       in Inr (d\<lparr>event_imports := updWhere P (ei_auto_update (\<lambda>_. enabled)) (event_imports d)\<rparr>,
               countWhere P (event_imports d)))) (\<lambda>n.
     failIf (n \<noteq> 1) NoRows))"

text \<open>A binding is due when it imports by itself, has its album, and neither a job nor unfinished media.\<close>

definition dueBinding :: "int \<Rightarrow> db \<Rightarrow> int option" where
  "dueBinding i d =
     map_option ei_event (find (\<lambda>b. ei_id b = i \<and> ei_auto b \<and> ei_state b = AlbumReady \<and> ei_album b \<noteq> None \<and>
         list_ex (\<lambda>e. ev_id e = ei_event b \<and> \<not> ev_deleting e) (events d) \<and> \<not> hasActive i d \<and>
         \<not> list_ex (\<lambda>s. ai_import s = i \<and> (ai_status s = ImpPending \<or> ai_status s = ImpImporting)) (asset_imports d))
       (event_imports d))"

definition unselected :: "int \<Rightarrow> int \<Rightarrow> db \<Rightarrow> asset_row list" where
  "unselected b eventID d =
     limitTo reconcileAssets (sort_key (\<lambda>a. (as_created a, as_id a))
       (filter (\<lambda>a. selectionOf b (as_id a) d = None) (readyOf eventID d)))"

text \<open>Nothing due or nothing new: the transaction is rolled back and the call succeeds.\<close>

definition reconcileBinding :: "int \<Rightarrow> unit wop" where
  "reconcileBinding i =
     tryE (inTx (
       bindE (queryRow (dueBinding i)) (\<lambda>eventID.
       bindE (exec (\<lambda>d. insertSelection i (unselected i eventID d) d)) (\<lambda>n.
       bindE (failIf (n = 0) NoRows) (\<lambda>_.
       exec (insertJob i ModeNew)))))) (\<lambda>r.
     case r of Inr _ \<Rightarrow> ret () | Inl e \<Rightarrow> if e = NoRows then ret () else raise e)"

definition autoBindings :: "int \<Rightarrow> db \<Rightarrow> int list" where
  "autoBindings after d =
     limitTo reconcileBindings (sort (map ei_id
       (filter (\<lambda>b. ei_auto b \<and> ei_state b = AlbumReady \<and> after < ei_id b) (event_imports d))))"

definition reconcile :: "unit wop" where
  "reconcile =
     bindE (gets reconcileAfter) (\<lambda>after.
     bindE (query (\<lambda>d. Inr (autoBindings after d))) (\<lambda>ids.
     bindE (forE (\<lambda>i. bindE (reconcileBinding i) (\<lambda>_. modify (reconcileAfter_update (\<lambda>_. i)))) ids) (\<lambda>_.
     modify (\<lambda>w. if int (length ids) < reconcileBindings then w\<lparr>reconcileAfter := 0\<rparr> else w))))"

section \<open>The worker\<close>

text \<open>An error that is logged and not returned; the end of the process is not an error of the program.\<close>

definition logged :: "'a wop \<Rightarrow> bool wop" where
  "logged m = tryE m (\<lambda>r. case r of Inl e \<Rightarrow> if e = ECrashed then raise e else ret False | Inr _ \<Rightarrow> ret True)"

text \<open>
  One round of the loop of \<open>Run\<close>, with its two local variables: whether recovery has succeeded, and when to
  reconcile next (0 is the zero time). \<open>woken\<close> says whether the wait of an idle round ended by a wake-up.
\<close>

definition runRound :: "import_service \<Rightarrow> bool \<Rightarrow> bool \<times> int \<Rightarrow> (bool \<times> int) wop" where
  "runRound im woken = (\<lambda>(recovered, next).
     bindE (if recovered then ret True else logged recover) (\<lambda>ok.
     if \<not> ok then ret (False, next)
     else
       bindE now (\<lambda>t.
       bindE (if t < next then ret next
              else bindE (logged reconcile) (\<lambda>_. bindE now (\<lambda>t. ret (t + reconcileInterval)))) (\<lambda>next.
       tryE claim (\<lambda>r.
       case r of
         Inr j \<Rightarrow> bindE (logged (executeJob im j)) (\<lambda>_. ret (True, 0))
       | Inl e \<Rightarrow> if e = ECrashed then raise e else ret (True, if woken then 0 else next))))))"

section \<open>What the administrator sees\<close>

record status_view =
  sw_active :: string
  sw_targets :: "target list"
  sw_target :: "target option"
  sw_name :: string
  sw_album :: string
  sw_state :: "album_state option"
  sw_auto :: bool
  sw_url :: string
  sw_total :: int
  sw_imported :: int
  sw_duplicate :: int
  sw_failed :: int
  sw_pending :: int
  sw_new :: int
  sw_job :: "job_row option"

text \<open>The key of the event's latest binding: the join with the target's row, \<open>ORDER BY i.id DESC LIMIT 1\<close>.\<close>

definition latestKey :: "int \<Rightarrow> db \<Rightarrow> string option" where
  "latestKey eventID d =
     (case rev (sort_key ei_id (filter (\<lambda>b. ei_event b = eventID \<and> list_ex (\<lambda>t. it_id t = ei_target b) (targets d)) (event_imports d))) of
        [] \<Rightarrow> None
      | b # _ \<Rightarrow> map_option it_key (find (\<lambda>t. it_id t = ei_target b) (targets d)))"

text \<open>One term of the counting statement: the ready assets whose joined selection has the status.\<close>

definition countStatus :: "int \<Rightarrow> int \<Rightarrow> (import_status option \<Rightarrow> bool) \<Rightarrow> db \<Rightarrow> int" where
  "countStatus b eventID P d = countWhere (\<lambda>a. P (map_option ai_status (selectionOf b (as_id a) d))) (readyOf eventID d)"

definition lastJob :: "int \<Rightarrow> db \<Rightarrow> job_row option" where
  "lastJob b d = (case rev (sort_key jb_id (filter (\<lambda>j. jb_import j = b) (jobs d))) of [] \<Rightarrow> None | j # _ \<Rightarrow> Some j)"

definition albumURL :: "target \<Rightarrow> string \<Rightarrow> string" where
  "albumURL t i = (if i \<noteq> [] \<and> tg_public t \<noteq> [] \<and> uuidOk i then tg_public t @ ''/albums/'' @ i else [])"

text \<open>\<open>row, err := ...; if err != nil && !errors.Is(err, sql.ErrNoRows) { return err }\<close>\<close>

definition optionalRow :: "(db \<Rightarrow> 'a option) \<Rightarrow> 'a option wop" where
  "optionalRow q = query (\<lambda>d. Inr (q d))"

definition Status :: "import_service \<Rightarrow> int \<Rightarrow> string \<Rightarrow> status_view wop" where
  "Status im eventID key =
     bindE (getEvent eventID) (\<lambda>e.
     let empty = \<lparr>sw_active = ts_active (im_targets im), sw_targets = snd (targetCatalog (im_targets im)),
           sw_target = None, sw_name = ev_name e, sw_album = [], sw_state = None, sw_auto = False, sw_url = [],
           sw_total = 0, sw_imported = 0, sw_duplicate = 0, sw_failed = 0, sw_pending = 0, sw_new = 0, sw_job = None\<rparr>
     in
     bindE (if key = [] then bindE (optionalRow (latestKey eventID)) (\<lambda>k. ret (case k of None \<Rightarrow> [] | Some k \<Rightarrow> k))
            else ret key) (\<lambda>key.
     case byKey (im_targets im) key of
       Inl x \<Rightarrow> if key \<noteq> [] then raise x else ret empty
     | Inr t \<Rightarrow>
         bindE (optionalRow (bindingOf eventID (tg_id t))) (\<lambda>b.
         let i = (case b of None \<Rightarrow> 0 | Some b \<Rightarrow> ei_id b);
             known = (case b of
               None \<Rightarrow> empty\<lparr>sw_target := Some t\<rparr>
             | Some b \<Rightarrow> (let a = (case ei_album b of None \<Rightarrow> [] | Some a \<Rightarrow> a) in
                 empty\<lparr>sw_target := Some t, sw_name := ei_name b, sw_album := a, sw_state := Some (ei_state b),
                       sw_auto := ei_auto b, sw_url := albumURL t a\<rparr>))
         in
         bindE (query (\<lambda>d. Inr (known\<lparr>sw_total := int (length (readyOf eventID d)),
             sw_imported := countStatus i eventID (\<lambda>s. s = Some ImpImported) d,
             sw_duplicate := countStatus i eventID (\<lambda>s. s = Some ImpDuplicate) d,
             sw_failed := countStatus i eventID (\<lambda>s. s = Some ImpFailed) d,
             sw_pending := countStatus i eventID (\<lambda>s. s = Some ImpPending \<or> s = Some ImpImporting) d,
             sw_new := countStatus i eventID (\<lambda>s. s = None) d\<rparr>))) (\<lambda>counted.
         bindE (optionalRow (lastJob i)) (\<lambda>j.
         ret (counted\<lparr>sw_job := j\<rparr>))))))"

definition testTarget :: "import_service \<Rightarrow> string \<Rightarrow> (int \<times> int \<times> int) wop" where
  "testTarget im key =
     bindE (liftE (byKey (im_targets im) key)) (\<lambda>t.
     bindE (liftE (clientOf (im_targets im) (tg_id t))) immichValidate)"

end
