(* ===== verification/Http.thy ===== *)
theory Http
  imports Oidc Abuse Direct Cleanup ImmichJobs
begin

text \<open>
  The HTTP layer of \<open>internal/server\<close> below the handlers: requests as \<open>net/http\<close> and \<open>encoding/json\<close>
  hand them over, the table from errors to responses, the origin check, rate limits, and the guard of the
  administrator's routes. Log lines and the texts of messages are left out; the codes of the API are kept.
\<close>

section \<open>Requests and responses\<close>

text \<open>What a body decodes to in the variable the handler passes: a value of that type without unknown fields or
anything after it, a field of the wrong type, more bytes than the handler's limit, or no such JSON.\<close>

datatype input =
    InNothing
  | InPassword string
  | InSession string string                        \<comment> \<open>challenge token, contributor\<close>
  | InPreparation preparation
  | InEvent event_input "(string \<times> string \<times> bool) option"  \<comment> \<open>target, album, automatic import\<close>
  | InTarget string
  | InAuto string "bool option"
  | InAlbum string string
  | InJob string string string                     \<comment> \<open>target, album, mode\<close>

datatype decoded = Decoded input | WrongType string | TooLong | Malformed

record http_request =
  rq_method :: string
  rq_path :: "string list"          \<comment> \<open>the segments of the path\<close>
  rq_host :: string
  rq_tls :: bool
  rq_origin :: string
  rq_referer :: string
  rq_site :: string                 \<comment> \<open>\<open>Sec-Fetch-Site\<close>\<close>
  rq_csrf :: string
  rq_session :: string              \<comment> \<open>the session cookie, or nothing\<close>
  rq_binding :: string              \<comment> \<open>the cookie of an OpenID flow, or nothing\<close>
  rq_remote :: string
  rq_forwarded :: "string list"
  rq_type :: string
  rq_length :: int
  rq_body :: decoded
  rq_filename :: "string option"    \<comment> \<open>of an attachment's \<open>Content-Disposition\<close>, if it parses\<close>
  rq_source :: reader
  rq_target :: string               \<comment> \<open>the query parameter\<close>
  rq_query :: "(string \<times> string) list option"  \<comment> \<open>the query, if it parses\<close>
  rq_slot :: bool                   \<comment> \<open>a slot was free when it was asked for\<close>
  rq_swap :: bool                   \<comment> \<open>the order in which a two-element map was walked\<close>

datatype payload =
    Nothing
  | Page
  | Health
  | StaticFile string
  | Redirect string
  | GoTo auth_request
  | SessionInfo admin_session
  | Methods bool bool
  | UploadSession "string \<times> int" string
  | Prepared "asset_info \<times> upload_plan"
  | Asset asset_info
  | EventView event_row event_status string stats "(string option \<times> int) list"
  | EventList "(event_row \<times> event_status \<times> string \<times> stats) list"
  | Guest string bool "(string \<times> string option \<times> int \<times> int \<times> int \<times> string) option"
  | ImmichStatus status_view
  | Catalog "string \<times> target list"
  | JobID int
  | Version "int \<times> int \<times> int"

text \<open>A cookie that is set: its name, its value, and its age.\<close>

record response =
  rp_status :: int
  rp_code :: string
  rp_fields :: "string list"
  rp_body :: payload
  rp_cookies :: "(string \<times> string \<times> int) list"
  rp_retry :: "int option"

definition answer :: "int \<Rightarrow> payload \<Rightarrow> response" where
  "answer status body = \<lparr>rp_status = status, rp_code = [], rp_fields = [], rp_body = body, rp_cookies = [], rp_retry = None\<rparr>"

definition apiError :: "int \<Rightarrow> string \<Rightarrow> string list \<Rightarrow> response" where
  "apiError status code names =
     \<lparr>rp_status = status, rp_code = code, rp_fields = names, rp_body = Nothing, rp_cookies = [], rp_retry = None\<rparr>"

definition setCookie :: "string \<Rightarrow> string \<Rightarrow> int \<Rightarrow> response \<Rightarrow> response" where
  "setCookie name v age r = r\<lparr>rp_cookies := rp_cookies r @ [(name, v, age)]\<rparr>"

section \<open>fail\<close>

definition fail :: "err \<Rightarrow> response" where
  "fail e =
     (case e of
        QuotaError code file \<Rightarrow> apiError (if file then 413 else 409) code []
      | ErrContributor \<Rightarrow> apiError 422 ''contributor_name'' [''contributor_name'']
      | ErrExpired \<Rightarrow> apiError 409 ''session_expired'' []
      | ErrEventQuota \<Rightarrow> apiError 409 ''event_quota'' []
      | ErrSessionQuota \<Rightarrow> apiError 409 ''session_quota'' []
      | ErrChallengeUnavailable \<Rightarrow> apiError 503 ''verification_unavailable'' []
      | ErrChallenge \<Rightarrow> apiError 403 ''verification_failed'' []
      | ErrChallengeExpired \<Rightarrow> apiError 403 ''verification_failed'' []
      | ErrStrategy \<Rightarrow> apiError 409 ''upload_strategy'' []
      | ErrAsset \<Rightarrow> apiError 404 ''asset_not_found'' []
      | ErrReady \<Rightarrow> apiError 409 ''asset_ready'' []
      | ErrRequest \<Rightarrow> apiError 422 ''upload_metadata'' []
      | ErrMissing \<Rightarrow> apiError 409 ''object_missing'' []
      | ErrObjectChanged \<Rightarrow> apiError 409 ''object_changed'' []
      | ErrBackend \<Rightarrow> apiError 503 ''storage_unavailable'' []
      | ErrUnavailable \<Rightarrow> apiError 503 ''storage_unavailable'' []
      | ErrClosed \<Rightarrow> apiError 409 ''event_closed'' []
      | ErrSession \<Rightarrow> apiError 404 ''upload_session_not_found'' []
      | ErrFilename \<Rightarrow> apiError 422 ''invalid_filename'' []
      | ErrType \<Rightarrow> apiError 415 ''unsupported_image'' []
      | ErrEmpty \<Rightarrow> apiError 422 ''empty_file'' []
      | ErrTooLarge \<Rightarrow> apiError 413 ''file_too_large'' []
      | ErrSize \<Rightarrow> apiError 400 ''size_mismatch'' []
      | ErrBusy \<Rightarrow> apiError 409 ''uploads_active'' []
      | ErrDeleting \<Rightarrow> apiError 500 ''media_cleanup_failed'' []
      | NoRows \<Rightarrow> apiError 404 ''not_found'' []
      | ValidationError names \<Rightarrow> apiError 422 ''validation'' names
      | _ \<Rightarrow> apiError 500 ''internal_error'' [])"

definition immichFailure :: "err \<Rightarrow> response" where
  "immichFailure e =
     (if e = NoRows \<or> e = ErrDeleting then fail e
      else if e = ErrInput then apiError 422 ''immich_input'' []
      else if e = ErrActive then apiError 409 ''immich_active'' []
      else apiError 503 ''immich_unavailable'' [])"

text \<open>\<open>if err != nil { a.fail(w, err); return }\<close>. A crash is not an answer.\<close>

definition respond :: "(err \<Rightarrow> response) \<Rightarrow> 'a wop \<Rightarrow> ('a \<Rightarrow> response wop) \<Rightarrow> response wop" where
  "respond onErr m next =
     tryE m (\<lambda>r. case r of Inl e \<Rightarrow> if e = ECrashed then raise ECrashed else ret (onErr e) | Inr x \<Rightarrow> next x)"

section \<open>Bodies\<close>

definition limitFields :: "string list" where
  "limitFields = [''max_photos'', ''max_videos'', ''max_photo_file_bytes'', ''max_video_file_bytes'',
     ''max_photo_storage_bytes'', ''max_video_storage_bytes'']"

text \<open>The last part of a dotted field name.\<close>

definition lastField :: "string \<Rightarrow> string" where
  "lastField f = (case cutLast CHR ''.'' f of None \<Rightarrow> f | Some (_, r) \<Rightarrow> r)"

definition decodeJSON :: "http_request \<Rightarrow> (input \<Rightarrow> 'a option) \<Rightarrow> response + 'a" where
  "decodeJSON rq sel =
     (case parseMediaType (rq_type rq) of (kind, ok) \<Rightarrow>
        if \<not> ok \<or> kind \<noteq> ''application/json'' then Inl (apiError 415 ''content_type'' [])
        else (case rq_body rq of
                Decoded v \<Rightarrow> (case sel v of Some x \<Rightarrow> Inr x | None \<Rightarrow> Inl (apiError 400 ''invalid_json'' []))
              | WrongType f \<Rightarrow>
                  if lastField f \<in> set limitFields then Inl (apiError 422 ''validation'' [lastField f])
                  else Inl (apiError 400 ''invalid_json'' [])
              | TooLong \<Rightarrow> Inl (apiError 413 ''body_too_large'' [])
              | Malformed \<Rightarrow> Inl (apiError 400 ''invalid_json'' [])))"

definition withBody :: "http_request \<Rightarrow> (input \<Rightarrow> 'a option) \<Rightarrow> ('a \<Rightarrow> response wop) \<Rightarrow> response wop" where
  "withBody rq sel next = (case decodeJSON rq sel of Inl r \<Rightarrow> ret r | Inr x \<Rightarrow> next x)"

fun noInput :: "input \<Rightarrow> unit option" where
  "noInput InNothing = Some ()"
| "noInput _ = None"

definition emptyControl :: "http_request \<Rightarrow> response wop \<Rightarrow> response wop" where
  "emptyControl rq next = (if rq_length rq = 0 then next else withBody rq noInput (\<lambda>_. next))"

section \<open>The application\<close>

record application =
  ap_media :: service
  ap_imports :: import_service
  ap_manager :: string
  ap_bcrypt :: bcrypt
  ap_max_file :: int
  ap_base :: string
  ap_rate_off :: bool
  ap_multiplier :: int
  ap_trusted :: "prefix list"
  ap_site_key :: string
  ap_password :: bool
  ap_oidc :: "(oidc_provider \<times> oidc_config) option"
  ap_verify :: "nat \<Rightarrow> siteverify"

definition limiterCapacity :: int where
  "limiterCapacity = 10000"

definition sameOrigin :: "application \<Rightarrow> http_request \<Rightarrow> bool" where
  "sameOrigin a rq \<longleftrightarrow>
     (let expected = (if ap_base a = [] then (if rq_tls rq then ''https'' else ''http'') @ ''://'' @ rq_host rq else ap_base a);
          origin = (if rq_origin rq \<noteq> [] then rq_origin rq
            else (case parseURL (rq_referer rq) of
                    None \<Rightarrow> []
                  | Some u \<Rightarrow> if \<not> u_user u \<and> u_host u \<noteq> [] then u_scheme u @ ''://'' @ u_host u else []))
      in origin = expected \<and> rq_site rq \<noteq> ''cross-site'')"

definition foreignOrigin :: response where
  "foreignOrigin = apiError 403 ''csrf'' []"

definition rateFailure :: "int \<Rightarrow> response" where
  "rateFailure retry = (apiError 429 ''rate_limited'' [])\<lparr>rp_retry := Some retry\<rparr>"

section \<open>Rate limits\<close>

text \<open>\<open>netip.Addr.String\<close>: dotted bytes, or hexadecimal fields without leading zeros and the first longest run
of two or more zero fields as a double colon. A mapped address is not printed here, it was unmapped.\<close>

fun fieldsOf :: "int list \<Rightarrow> int list" where
  "fieldsOf (a # b # r) = (a * 256 + b) # fieldsOf r"
| "fieldsOf _ = []"

definition hexText :: "int \<Rightarrow> string" where
  "hexText n =
     (let s = [hexChar (n div 4096 mod 16), hexChar (n div 256 mod 16), hexChar (n div 16 mod 16), hexChar (n mod 16)]
      in case dropWhile (\<lambda>c. c = CHR ''0'') s of [] \<Rightarrow> ''0'' | r \<Rightarrow> r)"

fun joinWith :: "char \<Rightarrow> string list \<Rightarrow> string" where
  "joinWith c [] = []"
| "joinWith c [s] = s"
| "joinWith c (s # ss) = s @ c # joinWith c ss"

definition zeroRun :: "int list \<Rightarrow> nat" where
  "zeroRun fs = length (takeWhile (\<lambda>f. f = 0) fs)"

definition longestRun :: "int list \<Rightarrow> nat \<times> nat" where
  "longestRun fs =
     fold (\<lambda>i best. if snd best < zeroRun (drop i fs) then (i, zeroRun (drop i fs)) else best) [0..<length fs] (0, 1)"

fun addrText :: "addr option \<Rightarrow> string" where
  "addrText None = ''invalid IP''"
| "addrText (Some (V4 ip)) = joinWith CHR ''.'' (map decI ip)"
| "addrText (Some (V6 ip z)) =
     (let fs = fieldsOf ip; (i, n) = longestRun fs in
      (if n < 2 then joinWith CHR '':'' (map hexText fs)
       else joinWith CHR '':'' (map hexText (take i fs)) @ ''::'' @ joinWith CHR '':'' (map hexText (drop (i + n) fs)))
      @ (if z = [] then [] else CHR ''%'' # z))"

text \<open>Take a token of every bucket in turn; the first refusal is the answer.\<close>

fun limited :: "application \<Rightarrow> (string \<times> int) list \<Rightarrow> response wop \<Rightarrow> response wop" where
  "limited a [] next = next"
| "limited a ((key, rate) # ks) next =
     bindE (Allow limiterCapacity key (rate * ap_multiplier a)) (\<lambda>(ok, retry).
       if ok then limited a ks next else ret (rateFailure retry))"

datatype rate_scope = ForSession | ForLocal | ForPrepare | ForAuthorize | ForComplete | ForLogin

fun scopeName :: "rate_scope \<Rightarrow> string" where
  "scopeName ForSession = ''session''"
| "scopeName ForLocal = ''local''"
| "scopeName ForPrepare = ''prepare''"
| "scopeName ForAuthorize = ''authorize''"
| "scopeName ForComplete = ''complete''"
| "scopeName ForLogin = ''login''"

definition scopeLimits :: "rate_scope \<Rightarrow> string \<Rightarrow> string \<Rightarrow> addr option \<Rightarrow> (string \<times> int) list" where
  "scopeLimits scope public sessionID ip =
     (case scope of
        ForLogin \<Rightarrow> [(''global:login'', 60), (''login:'' @ addrText ip, 10)]
      | ForSession \<Rightarrow> [(''global:session'', 600), (''session:'' @ public @ '':'' @ addrText ip, 120)]
      | _ \<Rightarrow> [(''global:control'', 6000),
          (scopeName scope @ '':'' @ public @ '':'' @ sessionID, if scope = ForComplete then 300 else 120)])"

definition guarded ::
    "application \<Rightarrow> rate_scope \<Rightarrow> string \<Rightarrow> string \<Rightarrow> http_request \<Rightarrow> response wop \<Rightarrow> response wop" where
  "guarded a scope public sessionID rq next =
     (if \<not> sameOrigin a rq then ret foreignOrigin
      else if ap_rate_off a then next
      else limited a (scopeLimits scope public sessionID (fst (ClientIP (rq_remote rq) (rq_forwarded rq) (ap_trusted a)))) next)"

section \<open>The guard of the administrator's routes\<close>

definition safeMethod :: "http_request \<Rightarrow> bool" where
  "safeMethod rq \<longleftrightarrow> rq_method rq = ''GET'' \<or> rq_method rq = ''HEAD''"

definition protected :: "application \<Rightarrow> http_request \<Rightarrow> (admin_session \<Rightarrow> response wop) \<Rightarrow> response wop" where
  "protected a rq next =
     respond (\<lambda>e. if e = ErrUnauthorized then apiError 401 ''unauthorized'' [] else fail e)
       (Lookup (rq_session rq)) (\<lambda>s.
         if \<not> safeMethod rq \<and> \<not> sameOrigin a rq then ret foreignOrigin
         else if \<not> safeMethod rq \<and> rq_csrf rq \<noteq> se_csrf s then ret (apiError 403 ''csrf'' [])
         else next s)"

end
