(* ===== verification/Handlers.thy ===== *)
theory Handlers
  imports Http
begin

text \<open>
  The handlers of \<open>internal/server\<close> (application.go, uploads.go, immich.go, oidc.go) and the routes of
  \<open>application.routes\<close> under \<open>/api/\<close>.
\<close>

section \<open>Signing in\<close>

definition sessionCookie :: string where
  "sessionCookie = ''photodrop_session''"

definition oidcCookie :: string where
  "oidcCookie = ''photodrop_oidc''"

fun passwordInput :: "input \<Rightarrow> string option" where
  "passwordInput (InPassword p) = Some p"
| "passwordInput _ = None"

definition login :: "application \<Rightarrow> http_request \<Rightarrow> response wop" where
  "login a rq =
     (if \<not> ap_password a then ret (apiError 403 ''login_disabled'' [])
      else if \<not> sameOrigin a rq then ret foreignOrigin
      else withBody rq passwordInput (\<lambda>password.
        if \<not> rq_slot rq then ret (rateFailure 1)
        else respond (\<lambda>e. if e = ErrUnauthorized then apiError 401 ''invalid_password'' [] else fail e)
          (Login (ap_bcrypt a) (ap_manager a) password (rq_session rq)) (\<lambda>(token, s).
            ret (setCookie sessionCookie token sessionLifetime (answer 200 (SessionInfo s))))))"

definition logout :: "http_request \<Rightarrow> response wop" where
  "logout rq =
     emptyControl rq (respond fail (Logout (rq_session rq)) (\<lambda>_.
       ret (setCookie sessionCookie [] (- 1) (answer 204 Nothing))))"

definition authMethods :: "application \<Rightarrow> response wop" where
  "authMethods a = ret (answer 200 (Methods (ap_password a) (ap_oidc a \<noteq> None)))"

definition oidcFailure :: response where
  "oidcFailure = setCookie oidcCookie [] (- 1) (answer 303 (Redirect ''/admin/login?error=oidc''))"

definition oidcRoute ::
    "application \<Rightarrow> http_request \<Rightarrow> (oidc_provider \<Rightarrow> oidc_config \<Rightarrow> response wop) \<Rightarrow> response wop" where
  "oidcRoute a rq next =
     (if rq_method rq \<noteq> ''GET'' then ret (apiError 405 ''method_not_allowed'' [])
      else (case ap_oidc a of
              None \<Rightarrow> ret (apiError 404 ''not_found'' [])
            | Some (op, cfg) \<Rightarrow>
                let ip = fst (ClientIP (rq_remote rq) (rq_forwarded rq) (ap_trusted a));
                    limits = [(''global:oidc'', 60), (''oidc:'' @ addrText ip, 20)];
                    inner = (if rq_slot rq then next op cfg else ret oidcFailure)
                in if ap_rate_off a then inner else limited a (if rq_swap rq then rev limits else limits) inner))"

definition oidcLogin :: "http_request \<Rightarrow> oidc_provider \<Rightarrow> response wop" where
  "oidcLogin rq op =
     respond (\<lambda>_. oidcFailure) (Begin op (rq_binding rq)) (\<lambda>(location, secret).
       ret (setCookie oidcCookie secret oidcLifetime (answer 303 (GoTo location))))"

definition queryGet :: "string \<Rightarrow> (string \<times> string) list \<Rightarrow> string" where
  "queryGet k q = (case map_of q k of None \<Rightarrow> [] | Some v \<Rightarrow> v)"

text \<open>The checks of the query string before a flow is completed.\<close>

definition callbackOk :: "oidc_config \<Rightarrow> (string \<times> string) list \<Rightarrow> bool" where
  "callbackOk cfg q \<longleftrightarrow>
     list_all (\<lambda>k. length (filter (\<lambda>p. fst p = k) q) \<le> 1) [''state'', ''code'', ''error'', ''iss''] \<and>
     (queryGet ''iss'' q = [] \<or> MatchesIssuer cfg (queryGet ''iss'' q))"

definition oidcCallback :: "application \<Rightarrow> http_request \<Rightarrow> oidc_provider \<Rightarrow> oidc_config \<Rightarrow> response wop" where
  "oidcCallback a rq op cfg =
     (case rq_query rq of
        None \<Rightarrow> ret oidcFailure
      | Some q \<Rightarrow>
          if \<not> callbackOk cfg q then ret oidcFailure
          else respond (\<lambda>_. oidcFailure)
            (CompleteOIDC op cfg (queryGet ''state'' q) (rq_binding rq) (queryGet ''code'' q) (map_of q ''error'' \<noteq> None)) (\<lambda>_.
            respond (\<lambda>_. oidcFailure) (CreateSession (ap_manager a) (rq_session rq)) (\<lambda>(token, s).
              ret (setCookie sessionCookie token sessionLifetime (setCookie oidcCookie [] (- 1)
                (answer 303 (Redirect ''/admin'')))))))"

section \<open>Events\<close>

text \<open>\<open>strconv.ParseInt\<close> of the path's identifier; 0 stands for every other text, and no row has it.\<close>

definition internalID :: "string \<Rightarrow> int" where
  "internalID s = (case parseInt64 s of None \<Rightarrow> 0 | Some i \<Rightarrow> if i < 1 then 0 else i)"

definition publicURL :: "application \<Rightarrow> event_row \<Rightarrow> string" where
  "publicURL a e = ap_base a @ ''/e/'' @ ev_public e"

definition statsOf :: "(int \<Rightarrow> stats option) \<Rightarrow> int \<Rightarrow> stats" where
  "statsOf m i = (case m i of None \<Rightarrow> noStats | Some s \<Rightarrow> s)"

fun eventViews ::
    "application \<Rightarrow> (int \<Rightarrow> stats option) \<Rightarrow> event_row list \<Rightarrow> (event_row \<times> event_status \<times> string \<times> stats) list wop" where
  "eventViews a m [] = ret []"
| "eventViews a m (e # es) =
     bindE now (\<lambda>t. bindE (eventViews a m es) (\<lambda>vs. ret ((e, eventStatus e t, publicURL a e, statsOf m (ev_id e)) # vs)))"

definition listAllEvents :: "application \<Rightarrow> response wop" where
  "listAllEvents a =
     respond fail listEvents (\<lambda>es.
     respond fail Stats (\<lambda>m.
     bindE (eventViews a m es) (\<lambda>vs. ret (answer 200 (EventList vs)))))"

definition writeAdminEvent :: "application \<Rightarrow> event_row \<Rightarrow> response wop" where
  "writeAdminEvent a e =
     respond fail Stats (\<lambda>m.
     bindE now (\<lambda>t.
     respond fail (Contributors (ev_id e)) (\<lambda>cs.
       ret (answer 200 (EventView e (eventStatus e t) (publicURL a e) (statsOf m (ev_id e)) cs)))))"

definition getOneEvent :: "application \<Rightarrow> string \<Rightarrow> response wop" where
  "getOneEvent a i = respond fail (getEvent (internalID i)) (writeAdminEvent a)"

definition exceeds :: "int \<Rightarrow> int option \<Rightarrow> bool" where
  "exceeds most v = (case v of None \<Rightarrow> False | Some n \<Rightarrow> most < n)"

definition validateFileLimits :: "event_input \<Rightarrow> int \<Rightarrow> err + unit" where
  "validateFileLimits i most =
     (let bad = fieldIf (exceeds most (in_max_photo_file i)) ''max_photo_file_bytes'' @
                fieldIf (exceeds most (in_max_video_file i)) ''max_video_file_bytes''
      in if bad \<noteq> [] then Inl (ValidationError bad) else Inr ())"

fun eventInput :: "input \<Rightarrow> (event_input \<times> (string \<times> string \<times> bool) option) option" where
  "eventInput (InEvent i b) = Some (i, b)"
| "eventInput _ = None"

fun plainEventInput :: "input \<Rightarrow> event_input option" where
  "plainEventInput (InEvent i None) = Some i"
| "plainEventInput _ = None"

definition createOneEvent :: "application \<Rightarrow> http_request \<Rightarrow> response wop" where
  "createOneEvent a rq =
     withBody rq eventInput (\<lambda>(i, binding).
     respond fail (liftE (validateFileLimits i (ap_max_file a))) (\<lambda>_.
     respond (\<lambda>e. if e = ErrInput \<or> e = ErrCredentials then immichFailure e else fail e)
       (case binding of
          None \<Rightarrow> createEvent i
        | Some (key, name, auto) \<Rightarrow> createBoundEvent (ap_imports a) i key name auto) (\<lambda>e.
     bindE now (\<lambda>t. ret (answer 201 (EventView e (eventStatus e t) (publicURL a e) noStats []))))))"

definition updateOneEvent :: "application \<Rightarrow> string \<Rightarrow> http_request \<Rightarrow> response wop" where
  "updateOneEvent a i rq =
     withBody rq plainEventInput (\<lambda>inp.
     respond fail (liftE (validateFileLimits inp (ap_max_file a))) (\<lambda>_.
     respond fail (updateEvent (internalID i) inp) (writeAdminEvent a)))"

definition deleteOneEvent :: "application \<Rightarrow> string \<Rightarrow> http_request \<Rightarrow> response wop" where
  "deleteOneEvent a i rq =
     emptyControl rq (respond fail (DeleteEvent (ap_media a) (internalID i)) (\<lambda>_. ret (answer 204 Nothing)))"

text \<open>What a guest sees: nothing but the name of an event that is not open.\<close>

definition publicEvent :: "application \<Rightarrow> string \<Rightarrow> response wop" where
  "publicEvent a public =
     respond fail (getPublic public) (\<lambda>e.
     bindE now (\<lambda>t.
       ret (answer 200 (Guest (ev_name e) (eventStatus e t = Open)
         (if eventStatus e t = Open then
            Some (ev_description e, ev_date e, ap_max_file a, EffectiveFileLimit (ap_max_file a) (ev_max_photo_file e),
                  EffectiveFileLimit (ap_max_file a) (ev_max_video_file e), ap_site_key a)
          else None)))))"

section \<open>Uploads\<close>

fun sessionInput :: "input \<Rightarrow> (string \<times> string) option" where
  "sessionInput (InSession token name) = Some (token, name)"
| "sessionInput _ = None"

fun preparationInput :: "input \<Rightarrow> preparation option" where
  "preparationInput (InPreparation p) = Some p"
| "preparationInput _ = None"

text \<open>The host that a challenge must have been solved on.\<close>

definition challengeHost :: "application \<Rightarrow> string" where
  "challengeHost a = (case parseURL (ap_base a) of None \<Rightarrow> [] | Some u \<Rightarrow> hostname u)"

text \<open>\<open>if err != nil && !errors.Is(err, ErrChallenge) { err = ErrChallengeUnavailable }\<close>\<close>

definition challengeFailure :: "err \<Rightarrow> response" where
  "challengeFailure e = fail (if e = ErrChallenge then e else ErrChallengeUnavailable)"

definition challenged :: "application \<Rightarrow> http_request \<Rightarrow> string \<Rightarrow> string \<Rightarrow> response wop \<Rightarrow> response wop" where
  "challenged a rq public token next =
     (if token = [] \<or> 2048 < length token then ret (fail ErrChallenge)
      else respond fail (getPublic public) (\<lambda>e.
        bindE now (\<lambda>t.
        if eventStatus e t \<noteq> Open then ret (fail ErrClosed)
        else if \<not> rq_slot rq then ret (rateFailure 1)
        else respond challengeFailure (VerifyChallenge (ap_verify a) token) (\<lambda>v.
          case ValidateChallenge v (challengeHost a) of Some x \<Rightarrow> ret (fail x) | None \<Rightarrow> next))))"

definition storeSession :: "application \<Rightarrow> string \<Rightarrow> bool \<Rightarrow> string \<Rightarrow> response wop" where
  "storeSession a public checked name =
     respond fail (CreateAttributedSession (ap_media a) public checked name) (\<lambda>s.
       ret (answer 201 (UploadSession s (Strategy (ap_media a)))))"

definition createUploadSession :: "application \<Rightarrow> string \<Rightarrow> http_request \<Rightarrow> response wop" where
  "createUploadSession a public rq =
     (if \<not> sameOrigin a rq then ret foreignOrigin
      else withBody rq sessionInput (\<lambda>(token, name).
        respond fail (liftE (NormalizeContributor name)) (\<lambda>_.
        if ap_site_key a \<noteq> [] then challenged a rq public token (storeSession a public True name)
        else storeSession a public False name)))"

definition prepareAsset :: "application \<Rightarrow> string \<Rightarrow> string \<Rightarrow> http_request \<Rightarrow> response wop" where
  "prepareAsset a public sessionID rq =
     (if \<not> sameOrigin a rq then ret foreignOrigin
      else withBody rq preparationInput (\<lambda>p.
        respond fail (Prepare (ap_media a) public sessionID p (ap_max_file a)) (\<lambda>x. ret (answer 201 (Prepared x)))))"

definition authorizeAsset :: "application \<Rightarrow> string \<Rightarrow> string \<Rightarrow> string \<Rightarrow> http_request \<Rightarrow> response wop" where
  "authorizeAsset a public sessionID assetID rq =
     (if \<not> sameOrigin a rq then ret foreignOrigin
      else withBody rq noInput (\<lambda>_.
        respond fail (Authorize (ap_media a) public sessionID assetID) (\<lambda>x. ret (answer 200 (Prepared x)))))"

definition completeAsset :: "application \<Rightarrow> string \<Rightarrow> string \<Rightarrow> string \<Rightarrow> http_request \<Rightarrow> response wop" where
  "completeAsset a public sessionID assetID rq =
     (if \<not> sameOrigin a rq then ret foreignOrigin
      else withBody rq noInput (\<lambda>_.
        respond fail (Complete (ap_media a) public sessionID assetID) (\<lambda>x. ret (answer 200 (Asset x)))))"

text \<open>The body is read through \<open>MaxBytesReader\<close>, one byte past the limit, after which reading fails.\<close>

definition maxBytes :: "int \<Rightarrow> reader \<Rightarrow> reader" where
  "maxBytes n r =
     (if n < int (length (rd_data r)) then \<lparr>rd_data = take (nat n) (rd_data r), rd_broken = True\<rparr> else r)"

definition uploadAsset :: "application \<Rightarrow> string \<Rightarrow> string \<Rightarrow> http_request \<Rightarrow> response wop" where
  "uploadAsset a public sessionID rq =
     (if \<not> sameOrigin a rq then ret foreignOrigin
      else (case rq_filename rq of
              None \<Rightarrow> ret (fail ErrFilename)
            | Some name \<Rightarrow>
                respond fail (Upload (ap_media a) public sessionID name (rq_type rq)
                  (maxBytes (ap_max_file a + 1) (rq_source rq)) (rq_length rq) (ap_max_file a)) (\<lambda>x.
                    ret (answer 201 (Asset x)))))"

section \<open>Immich\<close>

fun targetInput :: "input \<Rightarrow> string option" where
  "targetInput (InTarget t) = Some t"
| "targetInput _ = None"

fun autoInput :: "input \<Rightarrow> (string \<times> bool option) option" where
  "autoInput (InAuto t b) = Some (t, b)"
| "autoInput _ = None"

fun albumInput :: "input \<Rightarrow> (string \<times> string) option" where
  "albumInput (InAlbum t n) = Some (t, n)"
| "albumInput _ = None"

fun jobInput :: "input \<Rightarrow> (string \<times> string \<times> string) option" where
  "jobInput (InJob t n m) = Some (t, n, m)"
| "jobInput _ = None"

definition immichStatus :: "application \<Rightarrow> string \<Rightarrow> http_request \<Rightarrow> response wop" where
  "immichStatus a i rq =
     respond immichFailure (Status (ap_imports a) (internalID i) (rq_target rq)) (\<lambda>s. ret (answer 200 (ImmichStatus s)))"

definition immichTargets :: "application \<Rightarrow> response wop" where
  "immichTargets a = ret (answer 200 (Catalog (targetCatalog (im_targets (ap_imports a)))))"

definition immichAutoImport :: "application \<Rightarrow> string \<Rightarrow> http_request \<Rightarrow> response wop" where
  "immichAutoImport a i rq =
     withBody rq autoInput (\<lambda>(key, auto). case auto of
         None \<Rightarrow> ret (immichFailure ErrInput)
       | Some x \<Rightarrow> respond immichFailure (SetAutoImport (ap_imports a) (internalID i) key x) (\<lambda>_. ret (answer 204 Nothing)))"

definition immichProvision :: "application \<Rightarrow> string \<Rightarrow> http_request \<Rightarrow> response wop" where
  "immichProvision a i rq =
     withBody rq albumInput (\<lambda>(key, name).
     respond immichFailure (Provision (ap_imports a) (internalID i) key name) (\<lambda>j. ret (answer 202 (JobID j))))"

definition immichTest :: "application \<Rightarrow> string \<Rightarrow> http_request \<Rightarrow> response wop" where
  "immichTest a i rq =
     withBody rq targetInput (\<lambda>key.
     respond fail (getEvent (internalID i)) (\<lambda>_.
     respond immichFailure (testTarget (ap_imports a) key) (\<lambda>v. ret (answer 200 (Version v)))))"

definition immichStart :: "application \<Rightarrow> string \<Rightarrow> http_request \<Rightarrow> response wop" where
  "immichStart a i rq =
     withBody rq jobInput (\<lambda>(key, name, mode).
     respond immichFailure (Enqueue (ap_imports a) (internalID i) key name mode) (\<lambda>j. ret (answer 202 (JobID j))))"

definition immichCancel :: "application \<Rightarrow> string \<Rightarrow> http_request \<Rightarrow> response wop" where
  "immichCancel a i rq =
     withBody rq targetInput (\<lambda>key.
     respond immichFailure (Cancel (ap_imports a) (internalID i) key) (\<lambda>_. ret (answer 204 Nothing)))"

end
