(* ===== verification/Routes.thy ===== *)
theory Routes
  imports Handlers
begin

text \<open>
  The routes of \<open>application.routes\<close> under \<open>/api/\<close>: which handler answers which path and method, behind which
  guard. A path is the list of its segments; a placeholder takes one segment that is not empty.
\<close>

datatype route =
    RLogin | RMethods | ROidcLogin | ROidcCallback | RLogout | RSession | REvents | RTargets
  | REvent string | RImmich string | RAlbum string | RAuto string | RTest string | RJobs string | RCancel string
  | RPublic string | RSessions string | RAssets string string | RPrepare string string
  | RAuthorize string string string | RComplete string string string
  | RUnknown

definition below :: "string list \<Rightarrow> string list \<Rightarrow> string list option" where
  "below pre p = (if take (length pre) p = pre \<and> [] \<notin> set p then Some (drop (length pre) p) else None)"

definition eventRoute :: "string \<Rightarrow> string list \<Rightarrow> route" where
  "eventRoute i rest =
     (if rest = [] then REvent i
      else if rest = [''immich''] then RImmich i
      else if rest = [''immich'', ''album''] then RAlbum i
      else if rest = [''immich'', ''auto-import''] then RAuto i
      else if rest = [''immich'', ''test''] then RTest i
      else if rest = [''immich'', ''jobs''] then RJobs i
      else if rest = [''immich'', ''cancel''] then RCancel i
      else RUnknown)"

definition adminRoute :: "string list \<Rightarrow> route" where
  "adminRoute p =
     (if p = [''login''] then RLogin
      else if p = [''auth'', ''methods''] then RMethods
      else if p = [''oidc'', ''login''] then ROidcLogin
      else if p = [''oidc'', ''callback''] then ROidcCallback
      else if p = [''logout''] then RLogout
      else if p = [''session''] then RSession
      else if p = [''events''] then REvents
      else if p = [''immich'', ''targets''] then RTargets
      else (case p of
              a # i # rest \<Rightarrow> if a = ''events'' then eventRoute i rest else RUnknown
            | _ \<Rightarrow> RUnknown))"

definition guestRoute :: "string list \<Rightarrow> route" where
  "guestRoute p =
     (case p of
        [e] \<Rightarrow> RPublic e
      | [e, a] \<Rightarrow> if a = ''upload-sessions'' then RSessions e else RUnknown
      | [e, a, s, b] \<Rightarrow> if a = ''upload-sessions'' \<and> b = ''assets'' then RAssets e s else RUnknown
      | [e, a, s, b, c] \<Rightarrow>
          if a = ''upload-sessions'' \<and> b = ''assets'' \<and> c = ''prepare'' then RPrepare e s else RUnknown
      | [e, a, s, b, i, c] \<Rightarrow>
          if a = ''upload-sessions'' \<and> b = ''assets'' \<and> c = ''authorize'' then RAuthorize e s i
          else if a = ''upload-sessions'' \<and> b = ''assets'' \<and> c = ''complete'' then RComplete e s i
          else RUnknown
      | _ \<Rightarrow> RUnknown)"

definition routeOf :: "string list \<Rightarrow> route" where
  "routeOf p =
     (case below [''api'', ''admin''] p of
        Some r \<Rightarrow> adminRoute r
      | None \<Rightarrow>
          (case below [''api'', ''public'', ''events''] p of Some r \<Rightarrow> guestRoute r | None \<Rightarrow> RUnknown))"

text \<open>The methods of a path, as its \<open>Allow\<close> header names them.\<close>

fun methodsOf :: "route \<Rightarrow> string list" where
  "methodsOf ROidcLogin = [''GET'']"
| "methodsOf ROidcCallback = [''GET'']"
| "methodsOf RMethods = [''GET'', ''HEAD'']"
| "methodsOf RSession = [''GET'', ''HEAD'']"
| "methodsOf RTargets = [''GET'', ''HEAD'']"
| "methodsOf (RImmich i) = [''GET'', ''HEAD'']"
| "methodsOf (RPublic e) = [''GET'', ''HEAD'']"
| "methodsOf REvents = [''GET'', ''HEAD'', ''POST'']"
| "methodsOf (REvent i) = [''GET'', ''HEAD'', ''PUT'', ''DELETE'']"
| "methodsOf (RAuto i) = [''PUT'']"
| "methodsOf RUnknown = []"
| "methodsOf _ = [''POST'']"

text \<open>What answers an administrator's route once the session is accepted.\<close>

fun adminHandler :: "application \<Rightarrow> http_request \<Rightarrow> admin_session \<Rightarrow> route \<Rightarrow> response wop" where
  "adminHandler a rq s RLogout = logout rq"
| "adminHandler a rq s RSession = ret (answer 200 (SessionInfo s))"
| "adminHandler a rq s REvents = (if safeMethod rq then listAllEvents a else createOneEvent a rq)"
| "adminHandler a rq s (REvent i) =
     (if safeMethod rq then getOneEvent a i
      else if rq_method rq = ''PUT'' then updateOneEvent a i rq else deleteOneEvent a i rq)"
| "adminHandler a rq s (RImmich i) = immichStatus a i rq"
| "adminHandler a rq s RTargets = immichTargets a"
| "adminHandler a rq s (RAlbum i) = immichProvision a i rq"
| "adminHandler a rq s (RAuto i) = immichAutoImport a i rq"
| "adminHandler a rq s (RTest i) = immichTest a i rq"
| "adminHandler a rq s (RJobs i) = immichStart a i rq"
| "adminHandler a rq s (RCancel i) = immichCancel a i rq"
| "adminHandler a rq s _ = ret (apiError 404 ''not_found'' [])"

text \<open>The routes that are not behind the administrator's session.\<close>

fun openHandler :: "application \<Rightarrow> http_request \<Rightarrow> route \<Rightarrow> response wop option" where
  "openHandler a rq RLogin = Some (guarded a ForLogin [] [] rq (login a rq))"
| "openHandler a rq RMethods = Some (authMethods a)"
| "openHandler a rq ROidcLogin = Some (oidcRoute a rq (\<lambda>op cfg. oidcLogin rq op))"
| "openHandler a rq ROidcCallback = Some (oidcRoute a rq (oidcCallback a rq))"
| "openHandler a rq (RPublic e) = Some (publicEvent a e)"
| "openHandler a rq (RSessions e) = Some (guarded a ForSession e [] rq (createUploadSession a e rq))"
| "openHandler a rq (RAssets e s) = Some (guarded a ForLocal e s rq (uploadAsset a e s rq))"
| "openHandler a rq (RPrepare e s) = Some (guarded a ForPrepare e s rq (prepareAsset a e s rq))"
| "openHandler a rq (RAuthorize e s i) = Some (guarded a ForAuthorize e s rq (authorizeAsset a e s i rq))"
| "openHandler a rq (RComplete e s i) = Some (guarded a ForComplete e s rq (completeAsset a e s i rq))"
| "openHandler a rq _ = None"

text \<open>The OpenID routes are registered for \<open>GET\<close>, which also matches \<open>HEAD\<close>; their guard refuses it.\<close>

definition dispatch :: "application \<Rightarrow> http_request \<Rightarrow> response wop" where
  "dispatch a rq =
     (let r = routeOf (rq_path rq) in
      if r = RUnknown then ret (apiError 404 ''not_found'' [])
      else if rq_method rq \<notin> set (methodsOf r) then ret (apiError 405 ''method_not_allowed'' [])
      else (case openHandler a rq r of
              Some h \<Rightarrow> h
            | None \<Rightarrow> protected a rq (\<lambda>s. adminHandler a rq s r)))"

section \<open>Pages\<close>

definition adminPage :: "http_request \<Rightarrow> response wop" where
  "adminPage rq =
     respond (\<lambda>e. if e = ErrUnauthorized then answer 303 (Redirect ''/admin/login'') else answer 500 Nothing)
       (Lookup (rq_session rq)) (\<lambda>_. ret (answer 200 Page))"

definition publicPage :: "string \<Rightarrow> response wop" where
  "publicPage public =
     respond (\<lambda>e. if e = NoRows then answer 404 Page else answer 500 Nothing) (getPublic public) (\<lambda>_. ret (answer 200 Page))"

end
