(* ===== verification/Startup.thy ===== *)
theory Startup
  imports Sha256 Config ImmichJobs
begin

text \<open>
  Start-up: \<open>storage.Reconcile\<close> (storage/backends.go) and \<open>immich.Reconcile\<close> (immich/targets.go) bind the
  names of the configuration to rows of the database, which keep the address each name had first. A NULL
  \<open>storage_backend_id\<close>, which only rows from before migration 006 have, is 0 here. The columns \<open>created_at\<close>
  and the log are left out.
\<close>

section \<open>Configured destinations\<close>

text \<open>\<open>NewS3\<close>: the fingerprint of the address, and what requests need.\<close>

definition targetOf :: "s3_settings \<Rightarrow> string" where
  "targetOf c = hexEncode (sha256 (sc_endpoint c @ [CHR 0x0A] @ sc_region c @ [CHR 0x0A] @ sc_bucket c @ [CHR 0x0A] @ sc_prefix c))"

definition newS3 :: "int \<Rightarrow> s3_settings \<Rightarrow> s3cfg" where
  "newS3 i c = \<lparr>s3_id = i, s3_prefix = sc_prefix c, s3_target = targetOf c, s3_ttl = sc_ttl c\<rparr>"

definition sameAddress :: "s3_settings \<Rightarrow> backend_row \<Rightarrow> bool" where
  "sameAddress c b \<longleftrightarrow> sb_type b = ''s3'' \<and> sb_endpoint b = sc_endpoint c \<and> sb_bucket b = sc_bucket c \<and>
     sb_region b = sc_region c \<and> sb_path_style b = sc_style c \<and> sb_prefix b = sc_prefix c"

definition backendOf :: "string \<Rightarrow> db \<Rightarrow> backend_row option" where
  "backendOf key d = find (\<lambda>b. sb_key b = key) (backends d)"

definition insertBackend :: "string \<Rightarrow> s3_settings \<Rightarrow> db \<Rightarrow> err + db \<times> int" where
  "insertBackend key c d =
     (let i = nextId (map sb_id (backends d)) in
      if list_ex (\<lambda>b. sb_key b = key) (backends d) then Inl EConstraint
      else Inr (d\<lparr>backends := backends d @ [\<lparr>sb_id = i, sb_key = key, sb_type = ''s3'', sb_endpoint = sc_endpoint c,
             sb_bucket = sc_bucket c, sb_region = sc_region c, sb_path_style = sc_style c, sb_prefix = sc_prefix c\<rparr>]\<rparr>, i))"

section \<open>storage.Reconcile\<close>

definition registerBackend :: "string \<times> s3_settings \<Rightarrow> (string \<times> s3cfg) wop" where
  "registerBackend kc =
     (case kc of (key, c) \<Rightarrow>
        bindE (failIf (\<not> ValidBackendKey key \<or> key = localBackendKey) (Failure ''invalid S3 backend key'')) (\<lambda>_.
        bindE (failIf (\<not> configured c) (Failure ''storage backend requires runtime credentials'')) (\<lambda>_.
        bindE (tryE (queryRow (backendOf key)) (\<lambda>r. case r of
            Inr b \<Rightarrow> if sameAddress c b then ret (sb_id b) else raise (Failure ''storage backend addressing differs'')
          | Inl e \<Rightarrow> if e = NoRows then exec (insertBackend key c) else raise e)) (\<lambda>i.
        ret (key, newS3 i c)))))"

fun registerAll :: "(string \<times> s3_settings) list \<Rightarrow> (string \<times> s3cfg) list wop" where
  "registerAll [] = ret []"
| "registerAll (kc # kcs) = bindE (registerBackend kc) (\<lambda>r. bindE (registerAll kcs) (\<lambda>rs. ret (r # rs)))"

text \<open>The targets of rows without a backend, each once and in order.\<close>

definition legacyTargets :: "db \<Rightarrow> string list" where
  "legacyTargets d = sorted_list_of_set
     (as_target ` set (filter (\<lambda>a. as_backend a = 0 \<and> as_provider a = ''s3'') (assets d)) \<union>
      cl_target ` set (filter (\<lambda>c. cl_backend c = 0) (retired d)))"

definition bindAssets :: "int \<Rightarrow> string \<Rightarrow> db \<Rightarrow> err + db \<times> unit" where
  "bindAssets i target d =
     Inr (d\<lparr>assets := updWhere (\<lambda>a. as_backend a = 0 \<and> as_target a = target) (as_backend_update (\<lambda>_. i)) (assets d)\<rparr>, ())"

definition bindRetired :: "int \<Rightarrow> string \<Rightarrow> db \<Rightarrow> err + db \<times> unit" where
  "bindRetired i target d =
     Inr (d\<lparr>retired := updWhere (\<lambda>c. cl_backend c = 0 \<and> cl_target c = target) (cl_backend_update (\<lambda>_. i)) (retired d)\<rparr>, ())"

definition bindLegacy :: "(string \<times> s3cfg) list \<Rightarrow> string \<Rightarrow> unit wop" where
  "bindLegacy runtime target =
     (case filter (\<lambda>s. s3_target s = target) (map snd runtime) of
        [s] \<Rightarrow> bindE (exec (bindAssets (s3_id s) target)) (\<lambda>_. exec (bindRetired (s3_id s) target))
      | _ \<Rightarrow> raise (Failure ''cannot identify legacy S3 storage safely''))"

definition unresolved :: "db \<Rightarrow> int" where
  "unresolved d = countWhere (\<lambda>a. as_backend a = 0) (assets d) + countWhere (\<lambda>c. cl_backend c = 0) (retired d)"

definition entryOf :: "(string \<times> s3cfg) list \<Rightarrow> backend_row \<Rightarrow> backend" where
  "entryOf runtime b = \<lparr>be_id = sb_id b, be_key = sb_key b, be_type = sb_type b, be_direct = map_of runtime (sb_key b)\<rparr>"

definition backendSet :: "storage_config \<Rightarrow> (string \<times> s3cfg) list \<Rightarrow> backend_row list \<Rightarrow> backend_set" where
  "backendSet cfg runtime rows =
     \<lparr>bs_active = (case filter (\<lambda>b. cs_provider cfg = ''s3'' \<and> sb_key b = cs_active cfg) rows of [] \<Rightarrow> 1 | bs \<Rightarrow> sb_id (last bs)),
      bs_entries = (\<lambda>i. map_option (entryOf runtime) (find (\<lambda>b. sb_id b = i) rows))\<rparr>"

definition reconcileTx :: "storage_config \<Rightarrow> backend_set wop" where
  "reconcileTx cfg =
     bindE (registerAll (sort_key fst (cs_backends cfg))) (\<lambda>runtime.
     bindE (query (\<lambda>d. Inr (legacyTargets d))) (\<lambda>ts.
     bindE (forE (bindLegacy runtime) ts) (\<lambda>_.
     bindE (query (\<lambda>d. Inr (unresolved d))) (\<lambda>n.
     bindE (failIf (n \<noteq> 0) (Failure ''unresolved legacy asset storage backend'')) (\<lambda>_.
     bindE (query (\<lambda>d. Inr (backends d))) (\<lambda>rows.
     let bs = backendSet cfg runtime rows in
     bindE (liftE (resolve bs (bs_active bs))) (\<lambda>active.
     bindE (failIf (cs_provider cfg = ''s3'' \<and> be_type active \<noteq> ''s3'')
       (Failure ''PHOTODROP_STORAGE_BACKEND_KEY must select a configured S3 backend'')) (\<lambda>_.
     ret bs))))))))"

definition ReconcileBackends :: "storage_config \<Rightarrow> backend_set wop" where
  "ReconcileBackends cfg = inTx (reconcileTx cfg)"

section \<open>immich.Reconcile\<close>

definition noSettings :: immich_settings where
  "noSettings = \<lparr>ic_url = [], ic_public = [], ic_key = []\<rparr>"

definition settingsOf :: "immich_config \<Rightarrow> string \<Rightarrow> immich_settings" where
  "settingsOf cfg key = (case map_of (cm_targets cfg) key of None \<Rightarrow> noSettings | Some s \<Rightarrow> s)"

definition targetRowOf :: "string \<Rightarrow> db \<Rightarrow> target_row option" where
  "targetRowOf key d = find (\<lambda>t. it_key t = key) (targets d)"

definition insertTarget :: "string \<Rightarrow> string \<Rightarrow> db \<Rightarrow> err + db \<times> unit" where
  "insertTarget key url d =
     (if list_ex (\<lambda>t. it_key t = key) (targets d) then Inl EConstraint
      else Inr (d\<lparr>targets := targets d @ [\<lparr>it_id = nextId (map it_id (targets d)), it_key = key, it_url = url\<rparr>]\<rparr>, ()))"

definition registerTarget :: "string \<times> immich_settings \<Rightarrow> unit wop" where
  "registerTarget ks =
     (case ks of (key, one) \<Rightarrow>
        if ic_url one = [] then ret ()
        else bindE (liftE (NormalizeImmichURL (ic_url one))) (\<lambda>normalized.
          tryE (queryRow (targetRowOf key)) (\<lambda>r. case r of
              Inr t \<Rightarrow> failIf (it_url t \<noteq> normalized) (Failure ''Immich target changed server identity'')
            | Inl e \<Rightarrow> if e = NoRows then exec (insertTarget key normalized) else raise e)))"

text \<open>One entry. \<open>NewClient\<close> fails only for an URL that is not an origin, or without a key.\<close>

definition loadTarget :: "immich_config \<Rightarrow> target_row \<Rightarrow> err + target" where
  "loadTarget cfg t =
     (let one = settingsOf cfg (it_key t); used = (ic_key one \<noteq> [] \<and> ic_url one \<noteq> []) in
      case (if ic_public one = [] then Inr [] else NormalizeImmichURL (ic_public one)) of
        Inl e \<Rightarrow> Inl e
      | Inr public \<Rightarrow>
          if used \<and> isl (NormalizeImmichURL (it_url t)) then Inl ErrCredentials
          else Inr \<lparr>tg_id = it_id t, tg_key = it_key t, tg_available = used, tg_public = public, tg_client = used\<rparr>)"

fun loadTargets :: "immich_config \<Rightarrow> target_row list \<Rightarrow> err + target list" where
  "loadTargets cfg [] = Inr []"
| "loadTargets cfg (t # ts) =
     (case loadTarget cfg t of
        Inl e \<Rightarrow> Inl e
      | Inr x \<Rightarrow> (case loadTargets cfg ts of Inl e \<Rightarrow> Inl e | Inr xs \<Rightarrow> Inr (x # xs)))"

definition ReconcileTargets :: "immich_config \<Rightarrow> target_set wop" where
  "ReconcileTargets cfg =
     inTx (
       bindE (forE registerTarget (sort_key fst (cm_targets cfg))) (\<lambda>_.
       bindE (query (\<lambda>d. Inr (sort_key it_id (targets d)))) (\<lambda>rows.
       bindE (liftE (loadTargets cfg rows)) (\<lambda>ts.
       ret \<lparr>ts_active = cm_active cfg, ts_entries = ts\<rparr>))))"

end
