(* ===== verification/Server.thy ===== *)
theory Server
  imports Routes Startup LocalStore
begin

text \<open>
  \<open>internal/server/server.go\<close> and what it calls at start-up: how the parts are put together, and what answers a
  request before and around the API. The embedded frontend is a generated directory: which of its names are
  regular files is a parameter. A path is clean, as the request multiplexer makes it before it chooses a
  handler; the redirect to a subtree with a missing slash (\<open>/api\<close>) is the multiplexer's own and is left out.
\<close>

section \<open>The origins of the destinations\<close>

text \<open>\<open>UploadOrigin\<close>: where a presigned upload of a probe key would go.\<close>

definition uploadOrigin :: "s3cfg \<Rightarrow> string wop" where
  "uploadOrigin s =
     bindE (s3Authorize s (s3Key s 1 (replicate 32 CHR ''0'')) ''image/png'') (\<lambda>p.
     case parseURL (up_url p) of
       None \<Rightarrow> raise ErrUnavailable
     | Some u \<Rightarrow> ret (u_scheme u @ ''://'' @ u_host u))"

text \<open>\<open>Origins\<close>: the entries in the order in which the map is walked, the origins once each and sorted.\<close>

fun collectOrigins :: "backend_set \<Rightarrow> int list \<Rightarrow> string list wop" where
  "collectOrigins bs [] = ret []"
| "collectOrigins bs (i # is) =
     (case bs_entries bs i of
        None \<Rightarrow> collectOrigins bs is
      | Some b \<Rightarrow>
          (case be_direct b of
             None \<Rightarrow> collectOrigins bs is
           | Some s \<Rightarrow> bindE (uploadOrigin s) (\<lambda>o1. bindE (collectOrigins bs is) (\<lambda>os. ret (o1 # os)))))"

definition Origins :: "int list \<Rightarrow> backend_set \<Rightarrow> string list wop" where
  "Origins order bs = bindE (collectOrigins bs order) (\<lambda>os. ret (sort (remdups os)))"

section \<open>newServer\<close>

text \<open>
  What the process finds outside: the frontend's index and its files, whether the upload path is a real directory,
  the order in which the map of destinations is walked, and the libraries.
\<close>

record outside =
  ou_index :: bool
  ou_asset :: "string \<Rightarrow> bool"
  ou_real :: bool
  ou_order :: "int list"
  ou_bcrypt :: bcrypt
  ou_oidc :: oidc_provider
  ou_verify :: "nat \<Rightarrow> siteverify"

text \<open>\<open>NewLocal\<close>: the directory is made, and must not be a link.\<close>

definition newLocal :: "bool \<Rightarrow> unit wop" where
  "newLocal isReal =
     bindE (effect (\<lambda>w. (Inr (), w))) (\<lambda>_.
     bindE (effect (\<lambda>w. (Inr (), w))) (\<lambda>_.
     failIf (\<not> isReal) (Failure ''upload storage must be a real directory'')))"

text \<open>The cleanup of start-up has two seconds: when they are over, the server starts all the same.\<close>

definition startupCleanup :: "service \<Rightarrow> unit wop" where
  "startupCleanup sv = tryE (runCleanup sv) (\<lambda>r. case r of Inl e \<Rightarrow> if e = Canceled then ret () else raise e | Inr _ \<Rightarrow> ret ())"

definition mediaService :: "backend_set \<Rightarrow> security \<Rightarrow> int \<Rightarrow> service" where
  "mediaService bs s limit =
     \<lparr>sv_backends = bs, sv_store = localStore, sv_ceiling = limit, sv_ttl = sy_ttl s, sv_max_assets = sy_max_assets s,
      sv_max_bytes = sy_max_bytes s\<rparr>"

definition applicationOf :: "outside \<Rightarrow> config \<Rightarrow> string \<Rightarrow> backend_set \<Rightarrow> target_set \<Rightarrow> application" where
  "applicationOf ou cfg hash bs ts =
     (let s = Defaults (cf_security cfg);
          limit = (if cf_max_file cfg = 0 then DefaultMaxFileSize else cf_max_file cfg);
          sv = mediaService bs s limit in
      \<lparr>ap_media = sv, ap_imports = \<lparr>im_targets = ts, im_media = sv\<rparr>, ap_manager = hash, ap_bcrypt = ou_bcrypt ou,
       ap_max_file = limit, ap_base = cf_base cfg, ap_rate_off = sy_rate_off s, ap_multiplier = sy_multiplier s,
       ap_trusted = sy_trusted s, ap_site_key = sy_site_key s, ap_password = PasswordEnabled (cf_auth cfg),
       ap_oidc = (if OIDCEnabled (cf_auth cfg) then Some (ou_oidc ou, cf_oidc cfg) else None), ap_verify = ou_verify ou\<rparr>)"

definition newServer :: "outside \<Rightarrow> config \<Rightarrow> (application \<times> string list) wop" where
  "newServer ou cfg =
     bindE (failIf (\<not> ou_index ou) (Failure ''read embedded frontend'')) (\<lambda>_.
     bindE (if PasswordEnabled (cf_auth cfg) then NewManager (ou_bcrypt ou) (cf_password cfg) else ret []) (\<lambda>hash.
     bindE (newLocal (ou_real ou)) (\<lambda>_.
     bindE (ReconcileBackends (cf_storage cfg)) (\<lambda>bs.
     bindE (ReconcileTargets (cf_immich cfg)) (\<lambda>ts.
     bindE (Origins (ou_order ou) bs) (\<lambda>origins.
     bindE (startupCleanup (mediaService bs (Defaults (cf_security cfg)) DefaultMaxFileSize)) (\<lambda>_.
     ret (applicationOf ou cfg hash bs ts, origins))))))))"

section \<open>The headers of every response\<close>

type_synonym headers = "(string \<times> string) list"

definition setHeader :: "string \<Rightarrow> string \<Rightarrow> headers \<Rightarrow> headers" where
  "setHeader n v hs = filter (\<lambda>h. fst h \<noteq> n) hs @ [(n, v)]"

definition spaced :: "string list \<Rightarrow> string" where
  "spaced ss = concat (map (\<lambda>s. CHR '' '' # s) ss)"

definition challengeOrigin :: string where
  "challengeOrigin = ''https://challenges.cloudflare.com''"

definition contentPolicy :: "application \<Rightarrow> string list \<Rightarrow> string" where
  "contentPolicy a origins =
     (let scripts = [CHR 0x27] @ ''self'' @ [CHR 0x27] @ (if ap_site_key a \<noteq> [] then CHR '' '' # challengeOrigin else []);
          frames = (if ap_site_key a \<noteq> [] then challengeOrigin else [CHR 0x27] @ ''none'' @ [CHR 0x27]);
          quoted = (\<lambda>s. [CHR 0x27] @ s @ [CHR 0x27]) in
      ''default-src '' @ quoted ''self'' @ ''; connect-src '' @ quoted ''self'' @ spaced origins @ ''; script-src '' @ scripts @
      ''; frame-src '' @ frames @ ''; style-src '' @ quoted ''self'' @ ''; img-src '' @ quoted ''self'' @ ''; object-src '' @
      quoted ''none'' @ ''; base-uri '' @ quoted ''none'' @ ''; frame-ancestors '' @ quoted ''none'' @ ''; form-action '' @
      quoted ''self'')"

definition pathText :: "string list \<Rightarrow> string" where
  "pathText p = CHR ''/'' # joinWith CHR ''/'' p"

definition overTLS :: "application \<Rightarrow> http_request \<Rightarrow> bool" where
  "overTLS a rq \<longleftrightarrow> hasPrefix (ap_base a) ''https://'' \<or> rq_tls rq"

definition privatePath :: "http_request \<Rightarrow> bool" where
  "privatePath rq \<longleftrightarrow> hasPrefix (pathText (rq_path rq)) ''/api/'' \<or> hasPrefix (pathText (rq_path rq)) ''/admin'' \<or>
     hasPrefix (pathText (rq_path rq)) ''/e/''"

definition commonHeaders :: "application \<Rightarrow> string list \<Rightarrow> http_request \<Rightarrow> headers" where
  "commonHeaders a origins rq =
     [(''X-Content-Type-Options'', ''nosniff''), (''Referrer-Policy'', ''no-referrer''), (''X-Frame-Options'', ''DENY''),
      (''Content-Security-Policy'', contentPolicy a origins),
      (''Permissions-Policy'', ''camera=(), microphone=(), geolocation=(), payment=()'')] @
     (if overTLS a rq then [(''Strict-Transport-Security'', ''max-age=31536000'')] else []) @
     (if privatePath rq then [(''Cache-Control'', ''no-store''), (''X-Robots-Tag'', ''noindex, nofollow'')] else [])"

section \<open>The handlers outside the API\<close>

text \<open>The file server: a name of the frontend, or a plain 404; \<open>index.html\<close> is only served as its directory.\<close>

definition fileName :: "http_request \<Rightarrow> string" where
  "fileName rq = (let n = joinWith CHR ''/'' (rq_path rq) in if n = [] then ''index.html'' else n)"

definition staticFile :: "(string \<Rightarrow> bool) \<Rightarrow> http_request \<Rightarrow> headers \<Rightarrow> headers \<times> response" where
  "staticFile asset rq hs =
     (if rq_method rq \<noteq> ''GET'' \<and> rq_method rq \<noteq> ''HEAD'' then (setHeader ''Allow'' ''GET, HEAD'' hs, answer 405 Nothing)
      else if \<not> asset (fileName rq) then (hs, answer 404 Nothing)
      else let hs = setHeader ''Cache-Control'' ''no-cache'' hs in
        if hasSuffix (pathText (rq_path rq)) ''/index.html'' then (hs, answer 301 (Redirect ''./''))
        else (hs, answer 200 (StaticFile (fileName rq))))"

datatype page = LoginPage | AdminPage | GuestPage string | HealthPage | ApiPath | OtherPath

definition pageOf :: "http_request \<Rightarrow> page" where
  "pageOf rq =
     (let p = rq_path rq in
      if (case p of a # b # r \<Rightarrow> a = ''api'' | _ \<Rightarrow> False) then ApiPath
      else if \<not> safeMethod rq then OtherPath
      else if p = [''healthz''] then HealthPage
      else if p = [''admin'', ''login''] then LoginPage
      else if p = [''admin''] \<or> p = [''admin'', []] \<or>
          (case p of [a, b, c] \<Rightarrow> a = ''admin'' \<and> b = ''events'' \<and> c \<noteq> [] | _ \<Rightarrow> False) then AdminPage
      else (case p of [a, i] \<Rightarrow> if a = ''e'' \<and> i \<noteq> [] then GuestPage i else OtherPath | _ \<Rightarrow> OtherPath))"

definition serve :: "(string \<Rightarrow> bool) \<Rightarrow> application \<Rightarrow> string list \<Rightarrow> http_request \<Rightarrow> (headers \<times> response) wop" where
  "serve asset a origins rq =
     (let hs = commonHeaders a origins rq in
      case pageOf rq of
        ApiPath \<Rightarrow> bindE (dispatch a rq) (\<lambda>r. ret (hs, r))
      | HealthPage \<Rightarrow> ret (setHeader ''Cache-Control'' ''no-store'' hs, answer 200 Health)
      | LoginPage \<Rightarrow> ret (hs, answer 200 Page)
      | AdminPage \<Rightarrow> bindE (adminPage rq) (\<lambda>r. ret (hs, r))
      | GuestPage i \<Rightarrow> bindE (publicPage i) (\<lambda>r. ret (hs, r))
      | OtherPath \<Rightarrow> ret (staticFile asset rq hs))"

text \<open>\<open>setCookie\<close> and \<open>bindingCookie\<close>: a cookie as it is sent.\<close>

record cookie =
  ck_name :: string
  ck_value :: string
  ck_path :: string
  ck_http_only :: bool
  ck_secure :: bool
  ck_lax :: bool
  ck_age :: int

definition cookieOf :: "application \<Rightarrow> http_request \<Rightarrow> string \<times> string \<times> int \<Rightarrow> cookie" where
  "cookieOf a rq c =
     (case c of (name, v, age) \<Rightarrow>
        \<lparr>ck_name = name, ck_value = v, ck_path = (if name = oidcCookie then ''/api/admin/oidc'' else ''/''),
         ck_http_only = True, ck_secure = overTLS a rq, ck_lax = True, ck_age = age\<rparr>)"

end
