(* ===== verification/FakeS3.thy ===== *)
theory FakeS3
  imports Server ExportNames "HOL-Library.Monad_Syntax"
begin

text \<open>
  \<open>internal/testutil/s3test/server.go\<close>: the object store that the tests of the whole system run against. Signatures are
  made again by the SDK's signer: building its request, signing it and reading the signature is a parameter.
\<close>

section \<open>State\<close>

record fake_object =
  fo_data :: string
  fo_type :: string
  fo_etag :: string

record fake_store =
  fs_objects :: "string \<Rightarrow> fake_object option"
  fs_requests :: "(string \<times> string \<times> string \<times> int) list"
  fs_faults :: "string \<Rightarrow> int"
  fs_drops :: int
  fs_delay :: int
  fs_ignore :: bool
  fs_origin :: string

definition newStore :: "string \<Rightarrow> fake_store" where
  "newStore origin =
     \<lparr>fs_objects = Map.empty, fs_requests = [], fs_faults = (\<lambda>_. 0), fs_drops = 0, fs_delay = 0, fs_ignore = False, fs_origin = origin\<rparr>"

definition objectOf :: "string \<Rightarrow> string \<Rightarrow> fake_object" where
  "objectOf d kind = \<lparr>fo_data = d, fo_type = kind, fo_etag = CHR 0x22 # hexEncode (sha256 d) @ [CHR 0x22]\<rparr>"

definition Seed :: "string \<Rightarrow> string \<Rightarrow> string \<Rightarrow> fake_store \<Rightarrow> fake_store" where
  "Seed path d kind s = s\<lparr>fs_objects := (fs_objects s)(path \<mapsto> objectOf d kind)\<rparr>"

definition Fault :: "string \<Rightarrow> int \<Rightarrow> fake_store \<Rightarrow> fake_store" where
  "Fault m status s = s\<lparr>fs_faults := (fs_faults s)(m := status)\<rparr>"

text \<open>A request: its headers and query with the values of each name, its body, whether the client outlives the delay, and
whether the connection can be taken from the server.\<close>

record fake_request =
  fr_method :: string
  fr_path :: string
  fr_raw_path :: string
  fr_host :: string
  fr_headers :: "(string \<times> string list) list"
  fr_query :: "(string \<times> string list) list"
  fr_length :: int
  fr_body :: reader
  fr_patient :: bool
  fr_hijack :: bool

text \<open>A request may get no answer: the client is gone, or its connection was closed. The list of the recorded
requests is kept as the value that is encoded.\<close>

datatype fake_answer = NoAnswer | Reply int headers string | Recorded "(string \<times> string \<times> string \<times> int) list"

section \<open>validSignature\<close>

record signing =
  sg_headers :: string
  sg_date :: string
  sg_credential :: string
  sg_expected :: string

fun splitCommaSpace :: "string \<Rightarrow> string list" where
  "splitCommaSpace [] = [[]]"
| "splitCommaSpace (c # s) =
     (case s of
        d # r \<Rightarrow> if c = CHR '','' \<and> d = CHR '' '' then [] # splitCommaSpace r
                else (case splitCommaSpace s of p # ps \<Rightarrow> (c # p) # ps | [] \<Rightarrow> [[c]])
      | [] \<Rightarrow> [[c]])"

text \<open>The fields of an Authorization header; a later field of the same name wins.\<close>

definition authField :: "string \<Rightarrow> string \<Rightarrow> string" where
  "authField auth name =
     (let pairs = map (cutAt CHR ''='') (splitCommaSpace (trimPrefix auth ''AWS4-HMAC-SHA256 '')) in
      case filter (\<lambda>p. fst p = name \<and> snd p \<noteq> None) pairs of
        [] \<Rightarrow> []
      | ps \<Rightarrow> the (snd (last ps)))"

definition presigned :: "fake_request \<Rightarrow> bool" where
  "presigned r \<longleftrightarrow> headerGet ''X-Amz-Signature'' (fr_query r) \<noteq> []"

definition signingOf :: "fake_request \<Rightarrow> signing" where
  "signingOf r =
     (if presigned r
      then \<lparr>sg_headers = headerGet ''X-Amz-SignedHeaders'' (fr_query r), sg_date = headerGet ''X-Amz-Date'' (fr_query r),
            sg_credential = headerGet ''X-Amz-Credential'' (fr_query r), sg_expected = headerGet ''X-Amz-Signature'' (fr_query r)\<rparr>
      else let auth = headerGet ''Authorization'' (fr_headers r) in
        \<lparr>sg_headers = authField auth ''SignedHeaders'', sg_date = headerGet ''X-Amz-Date'' (fr_headers r),
         sg_credential = authField auth ''Credential'', sg_expected = authField auth ''Signature''\<rparr>)"

definition AccessKey :: string where
  "AccessKey = ''test-s3-access''"

definition credentialOk :: "string \<Rightarrow> bool" where
  "credentialOk c \<longleftrightarrow> (let parts = splitAt CHR ''/'' c in
     length parts = 5 \<and> parts ! 0 = AccessKey \<and> parts ! 2 = ''auto'' \<and> parts ! 3 = ''s3'')"

text \<open>\<open>time.Parse("20060102T150405Z", s)\<close>.\<close>

definition parseBasic :: "string \<Rightarrow> int option" where
  "parseBasic s = do {
     (y, s) \<leftarrow> parseYear s;
     (mo, s) \<leftarrow> getnum True s; guardO (1 \<le> mo \<and> mo \<le> 12);
     (d, s) \<leftarrow> getnum True s; s \<leftarrow> skipChar CHR ''T'' s;
     (h, s) \<leftarrow> getnum False s; guardO (h < 24);
     (mi, s) \<leftarrow> getnum True s; guardO (mi < 60);
     (sec, s) \<leftarrow> getnum True s; guardO (sec < 60);
     (ns, s) \<leftarrow> Some (parseFraction s);
     guardO (s = ''Z'' \<and> 1 \<le> d \<and> d \<le> daysIn mo y);
     Some (instantOf y mo d h mi sec ns 0) }"

definition inTime :: "(nat \<Rightarrow> int) \<Rightarrow> fake_request \<Rightarrow> int \<Rightarrow> bool" where
  "inTime clock r date \<longleftrightarrow>
     (case parseInt64 (headerGet ''X-Amz-Expires'' (fr_query r)) of
        None \<Rightarrow> False
      | Some ttl \<Rightarrow> clock 0 \<le> date + wrap64 (ttl * nanosPerSecond) \<and> date \<le> clock 1 + 60 * nanosPerSecond)"

text \<open>\<open>http.CanonicalHeaderKey\<close>: a name with a byte that no name has stays as it is.\<close>

definition tokenByte :: "char \<Rightarrow> bool" where
  "tokenByte c \<longleftrightarrow> isLetter c \<or> isDigit c \<or> c \<in> set ''!#$%&*+-.^_`|~'' \<or> c = CHR 0x27"

fun canonicalFrom :: "bool \<Rightarrow> string \<Rightarrow> string" where
  "canonicalFrom up [] = []"
| "canonicalFrom up (c # s) =
     (if up \<and> byteIn 97 122 c then char_of (byteVal c - 32)
      else if \<not> up \<and> byteIn 65 90 c then char_of (byteVal c + 32) else c) # canonicalFrom (c = CHR ''-'') s"

definition canonicalKey :: "string \<Rightarrow> string" where
  "canonicalKey s = (if list_all tokenByte s then canonicalFrom True s else s)"

text \<open>What is signed again: the request without its signature, with the headers that were signed.\<close>

record to_sign =
  ts_method :: string
  ts_host :: string
  ts_path :: string
  ts_raw_path :: string
  ts_query :: "(string \<times> string list) list"
  ts_headers :: "(string \<times> string list) list"
  ts_length :: int
  ts_presigned :: bool
  ts_hash :: string
  ts_date :: int

definition valuesOf :: "fake_request \<Rightarrow> string \<Rightarrow> string list" where
  "valuesOf r name = (case map_of (fr_headers r) name of None \<Rightarrow> [] | Some vs \<Rightarrow> vs)"

definition toSign :: "fake_request \<Rightarrow> signing \<Rightarrow> int \<Rightarrow> to_sign" where
  "toSign r g date =
     (let names = map canonicalKey (filter (\<lambda>k. k \<noteq> ''host'' \<and> k \<noteq> ''content-length'') (splitAt CHR '';'' (sg_headers g)));
          hash = headerGet ''X-Amz-Content-Sha256'' (fr_headers r) in
      \<lparr>ts_method = fr_method r, ts_host = fr_host r, ts_path = fr_path r, ts_raw_path = fr_raw_path r,
       ts_query = filter (\<lambda>q. fst q \<noteq> ''X-Amz-Signature'') (fr_query r),
       ts_headers = map (\<lambda>n. (n, valuesOf r n)) (remdups names),
       ts_length = (if containsStr (sg_headers g) ''content-length'' then fr_length r else 0), ts_presigned = presigned r,
       ts_hash = (if presigned r then ''UNSIGNED-PAYLOAD'' else if hash = [] then hexEncode (sha256 []) else hash), ts_date = date\<rparr>)"

definition validSignature :: "(to_sign \<Rightarrow> string option) \<Rightarrow> (nat \<Rightarrow> int) \<Rightarrow> fake_request \<Rightarrow> bool" where
  "validSignature sign clock r \<longleftrightarrow>
     (let g = signingOf r in
      credentialOk (sg_credential g) \<and>
      (case parseBasic (sg_date g) of
         None \<Rightarrow> False
       | Some date \<Rightarrow>
           (presigned r \<longrightarrow> inTime clock r date) \<and>
           (case sign (toSign r g date) of None \<Rightarrow> False | Some actual \<Rightarrow> sg_expected g \<noteq> [] \<and> actual = sg_expected g)))"

section \<open>ServeHTTP\<close>

definition corsHeaders :: "fake_store \<Rightarrow> fake_request \<Rightarrow> headers" where
  "corsHeaders s r =
     (if headerGet ''Origin'' (fr_headers r) = fs_origin s \<and> fs_origin s \<noteq> [] then
        [(''Access-Control-Allow-Origin'', fs_origin s), (''Vary'', ''Origin''), (''Access-Control-Allow-Methods'', ''PUT''),
         (''Access-Control-Allow-Headers'', ''Content-Type, If-None-Match''), (''Access-Control-Expose-Headers'', ''ETag'')]
      else [])"

definition failWith :: "headers \<Rightarrow> int \<Rightarrow> string \<Rightarrow> fake_answer" where
  "failWith hs status code =
     Reply status (hs @ [(''Content-Type'', ''application/xml'')])
       (''<Error><Code>'' @ code @ ''</Code><Message>test provider failure</Message></Error>'')"

definition bodyLimit :: int where
  "bodyLimit = 2 * 1024 * 1024"

definition putObject :: "headers \<Rightarrow> fake_request \<Rightarrow> fake_store \<Rightarrow> fake_answer \<times> fake_store" where
  "putObject hs r s =
     (if headerGet ''If-None-Match'' (fr_headers r) \<noteq> ''*'' then (failWith hs 400 ''MissingConditionalWrite'', s)
      else if fs_objects s (fr_path r) \<noteq> None then (failWith hs 412 ''PreconditionFailed'', s)
      else let ob = objectOf (rd_data (fr_body r)) (headerGet ''Content-Type'' (fr_headers r));
               s = s\<lparr>fs_objects := (fs_objects s)(fr_path r \<mapsto> ob)\<rparr>;
               s' = (if 0 < fs_drops s then s\<lparr>fs_drops := fs_drops s - 1\<rparr> else s) in
        if 0 < fs_drops s \<and> fr_hijack r then (NoAnswer, s')
        else (Reply 200 (hs @ [(''ETag'', fo_etag ob)]) [], s'))"

definition getObject :: "bool \<Rightarrow> headers \<Rightarrow> fake_request \<Rightarrow> fake_store \<Rightarrow> fake_answer" where
  "getObject ignoreRange hs r s =
     (case fs_objects s (fr_path r) of
        None \<Rightarrow> failWith hs 404 ''NoSuchKey''
      | Some ob \<Rightarrow>
          let match = headerGet ''If-Match'' (fr_headers r); size = int (length (fo_data ob)); n = min 512 size;
              described = hs @ [(''ETag'', fo_etag ob), (''Content-Type'', fo_type ob)] in
          if match \<noteq> [] \<and> match \<noteq> fo_etag ob then failWith hs 412 ''PreconditionFailed''
          else if fr_method r = ''HEAD'' then Reply 200 (described @ [(''Content-Length'', decI size)]) []
          else if \<not> ignoreRange \<and> headerGet ''Range'' (fr_headers r) = ''bytes=0-511'' \<and> fo_data ob \<noteq> [] then
            Reply 206 (described @ [(''Content-Range'', contentRange n size), (''Content-Length'', decI n)])
              (take (nat n) (fo_data ob))
          else Reply 200 (described @ [(''Content-Length'', decI size)]) (fo_data ob))"

text \<open>What is decided before the lock is taken for the second time: an answer without an effect, or the
request goes on with the flag that was read.\<close>

definition admitFake :: "(to_sign \<Rightarrow> string option) \<Rightarrow> (nat \<Rightarrow> int) \<Rightarrow> fake_request \<Rightarrow> fake_store \<Rightarrow> fake_answer + bool" where
  "admitFake sign clock r s =
     (let hs = corsHeaders s r; m = fr_method r in
      if fr_path r = ''/__test/requests'' \<and> m = ''GET'' then Inl (Recorded (fs_requests s))
      else if m = ''OPTIONS'' then Inl (Reply 204 hs [])
      else if \<not> validSignature sign clock r then Inl (failWith hs 403 ''SignatureDoesNotMatch'')
      else if fs_faults s m \<noteq> 0 then Inl (failWith hs (fs_faults s m) ''InjectedProviderError'')
      else if m = ''PUT'' \<and> 0 < fs_delay s \<and> \<not> fr_patient r then Inl NoAnswer
      else if m = ''PUT'' \<and> (bodyLimit < int (length (rd_data (fr_body r))) \<or> rd_broken (fr_body r))
        then Inl (failWith hs 400 ''InvalidRequest'')
      else Inr (fs_ignore s))"

text \<open>What happens under the lock.\<close>

definition execute :: "bool \<Rightarrow> fake_request \<Rightarrow> fake_store \<Rightarrow> fake_answer \<times> fake_store" where
  "execute ignoreRange r s =
     (let hs = corsHeaders s r; m = fr_method r;
          entry = (m, fr_path r, headerGet ''Range'' (fr_headers r), if m = ''PUT'' then int (length (rd_data (fr_body r))) else 0);
          s = s\<lparr>fs_requests := fs_requests s @ [entry]\<rparr> in
      if m = ''PUT'' then putObject hs r s
      else if m = ''HEAD'' \<or> m = ''GET'' then (getObject ignoreRange hs r s, s)
      else if m = ''DELETE'' then (Reply 204 hs [], s\<lparr>fs_objects := (fs_objects s)(fr_path r := None)\<rparr>)
      else (failWith hs 405 ''MethodNotAllowed'', s))"

definition fakeServe :: "(to_sign \<Rightarrow> string option) \<Rightarrow> (nat \<Rightarrow> int) \<Rightarrow> fake_request \<Rightarrow> fake_store \<Rightarrow> fake_answer \<times> fake_store" where
  "fakeServe sign clock r s =
     (case admitFake sign clock r s of Inl a \<Rightarrow> (a, s) | Inr ignoreRange \<Rightarrow> execute ignoreRange r s)"

section \<open>What the tests rely on\<close>

text \<open>The objects change in two ways only, and a request that is refused changes nothing. The same holds for
\<open>execute\<close> alone, so it holds however the two parts of concurrent requests are interleaved.\<close>

lemma execute_objects:
  assumes "execute i r s = (a, t)"
  shows "fs_objects t = fs_objects s \<or>
    (fr_method r = ''DELETE'' \<and> fs_objects t = (fs_objects s)(fr_path r := None)) \<or>
    (fr_method r = ''PUT'' \<and> headerGet ''If-None-Match'' (fr_headers r) = ''*'' \<and> fs_objects s (fr_path r) = None \<and>
     fs_objects t = (fs_objects s)(fr_path r \<mapsto> objectOf (rd_data (fr_body r)) (headerGet ''Content-Type'' (fr_headers r))))"
  using assms by (auto simp: execute_def putObject_def Let_def split: if_splits)

lemma execute_keeps:
  assumes "execute i r s = (a, t)" "fs_objects s p = Some ob" "fr_method r \<noteq> ''DELETE'' \<or> fr_path r \<noteq> p"
  shows "fs_objects t p = Some ob"
  using execute_objects [OF assms(1)] assms(2,3) by auto

lemma fakeServe_cases:
  assumes "fakeServe sign clock r s = (a, t)"
  shows "t = s \<or> (validSignature sign clock r \<and> fs_faults s (fr_method r) = 0 \<and>
    (fr_method r = ''PUT'' \<longrightarrow> int (length (rd_data (fr_body r))) \<le> bodyLimit \<and> \<not> rd_broken (fr_body r)) \<and>
    execute (fs_ignore s) r s = (a, t))"
proof (cases "admitFake sign clock r s")
  case (Inl x)
  with assms show ?thesis by (simp add: fakeServe_def)
next
  case (Inr i)
  then have "validSignature sign clock r" "fs_faults s (fr_method r) = 0" "i = fs_ignore s"
    "fr_method r = ''PUT'' \<longrightarrow> int (length (rd_data (fr_body r))) \<le> bodyLimit \<and> \<not> rd_broken (fr_body r)"
    by (auto simp: admitFake_def Let_def not_less split: if_splits)
  with assms Inr show ?thesis by (simp add: fakeServe_def)
qed

text \<open>An object that is there stays as it is until it is deleted.\<close>

lemma fakeServe_keeps:
  assumes "fakeServe sign clock r s = (a, t)" "fs_objects s p = Some ob" "fr_method r \<noteq> ''DELETE'' \<or> fr_path r \<noteq> p"
  shows "fs_objects t p = Some ob"
  using fakeServe_cases [OF assms(1)] execute_keeps assms(2,3) by metis

fun served :: "(to_sign \<Rightarrow> string option) \<Rightarrow> (nat \<Rightarrow> int) \<Rightarrow> fake_request list \<Rightarrow> fake_store \<Rightarrow> fake_store" where
  "served sign clock [] s = s"
| "served sign clock (r # rs) s = served sign clock rs (snd (fakeServe sign clock r s))"

lemma served_keeps:
  assumes "fs_objects s p = Some ob" "\<forall>r\<in>set rs. fr_method r \<noteq> ''DELETE'' \<or> fr_path r \<noteq> p"
  shows "fs_objects (served sign clock rs s) p = Some ob"
  using assms
proof (induction rs arbitrary: s)
  case (Cons r rs)
  then have "fs_objects (snd (fakeServe sign clock r s)) p = Some ob"
    using fakeServe_keeps [of sign clock r s "fst (fakeServe sign clock r s)" "snd (fakeServe sign clock r s)" p ob] by simp
  with Cons show ?case by simp
qed simp

text \<open>Every object is described by the digest of its bytes: the invariant of the store.\<close>

definition digested :: "fake_store \<Rightarrow> bool" where
  "digested s \<longleftrightarrow> (\<forall>p ob. fs_objects s p = Some ob \<longrightarrow> ob = objectOf (fo_data ob) (fo_type ob))"

lemma newStore_digested: "digested (newStore origin)"
  by (simp add: digested_def newStore_def)

lemma Seed_digested: "digested s \<Longrightarrow> digested (Seed path d kind s)"
  by (auto simp: digested_def Seed_def objectOf_def)

lemma fakeServe_digested:
  assumes "digested s" "fakeServe sign clock r s = (a, t)"
  shows "digested t"
  using fakeServe_cases [OF assms(2)] execute_objects assms(1)
  by (auto simp: digested_def objectOf_def split: if_splits dest!: execute_objects)

text \<open>The answer to the ranged read that \<open>ReadPrefix\<close> makes is the one that \<open>ReadPrefix\<close> accepts.\<close>

lemma ranged_read:
  assumes "fs_objects s (fr_path r) = Some ob" "fo_data ob \<noteq> []" "fr_method r = ''GET''"
    "headerGet ''Range'' (fr_headers r) = ''bytes=0-511''" "headerGet ''If-Match'' (fr_headers r) = fo_etag ob"
  shows "\<exists>hs. fst (execute False r s) = Reply 206 hs (take 512 (fo_data ob)) \<and>
    (''ETag'', fo_etag ob) \<in> set hs \<and>
    (''Content-Range'', contentRange (min 512 (int (length (fo_data ob)))) (int (length (fo_data ob)))) \<in> set hs \<and>
    (''Content-Length'', decI (min 512 (int (length (fo_data ob))))) \<in> set hs"
proof -
  have "take (nat (min 512 (int (length (fo_data ob))))) (fo_data ob) = take 512 (fo_data ob)"
    by (simp add: min_def)
  with assms show ?thesis by (simp add: execute_def getObject_def Let_def)
qed

text \<open>A version that was replaced in the meantime is refused.\<close>

lemma changed_refused:
  assumes "fs_objects s (fr_path r) = Some ob" "fr_method r \<in> {''GET'', ''HEAD''}"
    "headerGet ''If-Match'' (fr_headers r) \<noteq> []" "headerGet ''If-Match'' (fr_headers r) \<noteq> fo_etag ob"
  shows "\<exists>hs b. fst (execute i r s) = Reply 412 hs b"
  using assms by (auto simp: execute_def getObject_def failWith_def Let_def)

text \<open>Of two uploads to one path the second is refused, whatever happened in between but a deletion.\<close>

lemma second_put_refused:
  assumes "fs_objects s (fr_path r) \<noteq> None" "fr_method r = ''PUT''" "headerGet ''If-None-Match'' (fr_headers r) = ''*''"
  shows "\<exists>hs b. fst (execute i r s) = Reply 412 hs b \<and> fs_objects (snd (execute i r s)) = fs_objects s"
  using assms by (auto simp: execute_def putObject_def failWith_def Let_def)

text \<open>Without a signature that the signer makes again nothing is changed and nothing recorded.\<close>

lemma unsigned_ignored:
  assumes "\<not> validSignature sign clock r"
  shows "snd (fakeServe sign clock r s) = s"
  using fakeServe_cases [of sign clock r s "fst (fakeServe sign clock r s)" "snd (fakeServe sign clock r s)"] assms by simp

end
