(* ===== verification/FakeOidc.thy ===== *)
theory FakeOidc
  imports Oidc ExportNames S3Store
begin

text \<open>
  \<open>internal/testutil/oidctest/provider.go\<close>: the OpenID provider that the tests sign in with. The signature of a
  token (go-jose) is a parameter, and so is the text that net/url prints of a redirect address that it can parse
  and that names a host. JSON is kept as the value that is encoded.
\<close>

section \<open>State\<close>

record oidc_faults =
  ff_unavailable :: bool
  ff_discovery :: string
  ff_issuer :: string
  ff_audience :: string
  ff_nonce :: string
  ff_subject :: string
  ff_no_subject :: bool
  ff_expired :: bool
  ff_bad_signature :: bool
  ff_no_token :: bool
  ff_failure :: bool
  ff_groups :: "claim_value option"
  ff_groups_claim :: string

definition noFaults :: oidc_faults where
  "noFaults = \<lparr>ff_unavailable = False, ff_discovery = [], ff_issuer = [], ff_audience = [], ff_nonce = [], ff_subject = [],
     ff_no_subject = False, ff_expired = False, ff_bad_signature = False, ff_no_token = False, ff_failure = False,
     ff_groups = None, ff_groups_claim = []\<rparr>"

record code_flow =
  cf_nonce :: string
  cf_challenge :: string
  cf_redirect :: string

record fake_provider =
  fp_issuer :: string
  fp_key :: string
  fp_bad_key :: string
  fp_kid :: string
  fp_faults :: oidc_faults
  fp_codes :: "string \<Rightarrow> code_flow option"
  fp_requests :: int
  fp_exchanges :: int
  fp_jwks :: int

text \<open>\<open>New\<close>, with the keys that are drawn; \<open>None\<close> is a failure to draw one.\<close>

definition newProvider :: "string \<Rightarrow> string option \<Rightarrow> string option \<Rightarrow> fake_provider option" where
  "newProvider issuer key bad =
     (case (key, bad) of
        (Some k, Some b) \<Rightarrow>
          Some \<lparr>fp_issuer = issuer, fp_key = k, fp_bad_key = b, fp_kid = ''first'', fp_faults = noFaults,
                fp_codes = Map.empty, fp_requests = 0, fp_exchanges = 0, fp_jwks = 0\<rparr>
      | _ \<Rightarrow> None)"

definition SetFaults :: "oidc_faults \<Rightarrow> fake_provider \<Rightarrow> fake_provider" where
  "SetFaults f p = p\<lparr>fp_faults := f\<rparr>"

definition Rotate :: "string option \<Rightarrow> fake_provider \<Rightarrow> bool \<times> fake_provider" where
  "Rotate key p = (case key of None \<Rightarrow> (False, p) | Some k \<Rightarrow> (True, p\<lparr>fp_key := k, fp_kid := ''rotated''\<rparr>))"

text \<open>A request: its query, its form if it can be parsed, and the basic credentials if there are any.\<close>

record oidc_request =
  or_path :: string
  or_query :: "(string \<times> string list) list"
  or_form :: "(string \<times> string list) list option"
  or_basic :: "(string \<times> string) option"

datatype token_claim = ClaimString string | ClaimTime int | ClaimGroups claim_value

type_synonym token_claims = "string \<Rightarrow> token_claim option"

datatype oidc_answer =
    Declined int string
  | Discovery string string string string
  | SeeOther string "(string \<times> string) list"
  | Keys string string
  | Tokens "string option"

definition ClientID :: string where
  "ClientID = ''photodrop-test''"

definition ClientSecret :: string where
  "ClientSecret = ''disposable-oidc-client-secret''"

section \<open>The endpoints\<close>

definition orElse :: "string \<Rightarrow> string \<Rightarrow> string" where
  "orElse s other = (if s \<noteq> [] then s else other)"

definition authorizationOk :: "(string \<times> string list) list \<Rightarrow> bool" where
  "authorizationOk q \<longleftrightarrow>
     headerGet ''client_id'' q = ClientID \<and> headerGet ''response_type'' q = ''code'' \<and>
     headerGet ''code_challenge_method'' q = ''S256'' \<and> length (headerGet ''code_challenge'' q) = 43 \<and>
     headerGet ''nonce'' q \<noteq> [] \<and> headerGet ''state'' q \<noteq> [] \<and>
     containsStr ('' '' @ headerGet ''scope'' q @ '' '') '' openid ''"

definition authorizeEnd ::
  "(string \<Rightarrow> string option) \<Rightarrow> int list \<Rightarrow> oidc_request \<Rightarrow> fake_provider \<Rightarrow> oidc_answer \<times> fake_provider" where
  "authorizeEnd urlText bs r p =
     (let q = or_query r in
      if \<not> authorizationOk q then (Declined 400 ''invalid authorization'', p)
      else (case urlText (headerGet ''redirect_uri'' q) of
              None \<Rightarrow> (Declined 400 ''invalid redirect'', p)
            | Some redirect \<Rightarrow>
                let code = base64Url (take 32 (bs @ replicate 32 0));
                    flow = \<lparr>cf_nonce = headerGet ''nonce'' q, cf_challenge = headerGet ''code_challenge'' q, cf_redirect = redirect\<rparr> in
                (SeeOther redirect [(''code'', code), (''state'', headerGet ''state'' q), (''iss'', fp_issuer p)],
                 p\<lparr>fp_codes := (fp_codes p)(code \<mapsto> flow)\<rparr>)))"

text \<open>The claims of a token; the clock is read for its end, again if it is to be expired, and for its beginning.\<close>

definition claimsOf :: "(nat \<Rightarrow> int) \<Rightarrow> code_flow \<Rightarrow> fake_provider \<Rightarrow> token_claims" where
  "claimsOf clock flow p =
     (let f = fp_faults p; secondsAt = (\<lambda>t. t div nanosPerSecond);
          expiry = (if ff_expired f then secondsAt (clock 1 - 60 * nanosPerSecond) else secondsAt (clock 0 + 60 * nanosPerSecond)) in
      [''iss'' \<mapsto> ClaimString (orElse (ff_issuer f) (fp_issuer p)),
       ''aud'' \<mapsto> ClaimString (orElse (ff_audience f) ClientID),
       ''sub'' \<mapsto> ClaimString (if ff_no_subject f then [] else orElse (ff_subject f) ''stable-admin-subject''),
       ''iat'' \<mapsto> ClaimTime (secondsAt (clock 2)),
       ''exp'' \<mapsto> ClaimTime expiry,
       ''nonce'' \<mapsto> ClaimString (orElse (ff_nonce f) (cf_nonce flow)),
       orElse (ff_groups_claim f) ''groups'' \<mapsto>
         ClaimGroups (case ff_groups f of None \<Rightarrow> ClaimList [ClaimText ''photodrop-admins''] | Some g \<Rightarrow> g)])"

definition grantOk :: "(string \<times> string list) list \<Rightarrow> code_flow \<Rightarrow> bool" where
  "grantOk form flow \<longleftrightarrow>
     headerGet ''grant_type'' form = ''authorization_code'' \<and> headerGet ''redirect_uri'' form = cf_redirect flow \<and>
     base64Url (sha256 (headerGet ''code_verifier'' form)) = cf_challenge flow"

text \<open>The code is gone before anything else about the grant is looked at.\<close>

definition tokenEnd ::
  "(string \<Rightarrow> string \<Rightarrow> token_claims \<Rightarrow> string) \<Rightarrow> (nat \<Rightarrow> int) \<Rightarrow> oidc_request \<Rightarrow> fake_provider \<Rightarrow> oidc_answer \<times> fake_provider" where
  "tokenEnd sign clock r p =
     (let p = p\<lparr>fp_exchanges := fp_exchanges p + 1\<rparr>; f = fp_faults p in
      if ff_failure f then (Declined 503 ''test secret upstream response'', p)
      else (case or_form r of
        None \<Rightarrow> (Declined 400 ''bad request'', p)
      | Some form \<Rightarrow>
          if or_basic r \<noteq> Some (ClientID, ClientSecret) then (Declined 401 ''invalid client'', p)
          else let code = headerGet ''code'' form; p' = p\<lparr>fp_codes := (fp_codes p)(code := None)\<rparr> in
            (case fp_codes p code of
               None \<Rightarrow> (Declined 400 ''invalid grant or PKCE'', p')
             | Some flow \<Rightarrow>
                 if \<not> grantOk form flow then (Declined 400 ''invalid grant or PKCE'', p')
                 else let raw = sign (if ff_bad_signature f then fp_bad_key p else fp_key p) (fp_kid p) (claimsOf clock flow p) in
                   (Tokens (if ff_no_token f then None else Some raw), p'))))"

text \<open>\<open>ServeHTTP\<close>, which holds the lock from the beginning to the end.\<close>

definition providerServe ::
  "(string \<Rightarrow> string option) \<Rightarrow> (string \<Rightarrow> string \<Rightarrow> token_claims \<Rightarrow> string) \<Rightarrow> (nat \<Rightarrow> int) \<Rightarrow> int list \<Rightarrow>
   oidc_request \<Rightarrow> fake_provider \<Rightarrow> oidc_answer \<times> fake_provider" where
  "providerServe urlText sign clock bs r p =
     (let p = p\<lparr>fp_requests := fp_requests p + 1\<rparr>; f = fp_faults p; at_end = hasSuffix (or_path r) in
      if ff_unavailable f then (Declined 503 ''test provider unavailable'', p)
      else if at_end ''/.well-known/openid-configuration'' then
        (Discovery (orElse (ff_discovery f) (fp_issuer p)) (fp_issuer p @ ''authorize'') (fp_issuer p @ ''token'')
           (fp_issuer p @ ''jwks''), p)
      else if at_end ''/authorize'' then authorizeEnd urlText bs r p
      else if at_end ''/jwks'' then (Keys (fp_key p) (fp_kid p), p\<lparr>fp_jwks := fp_jwks p + 1\<rparr>)
      else if at_end ''/token'' then tokenEnd sign clock r p
      else (Declined 404 ''unknown test endpoint'', p))"

section \<open>What the tests rely on\<close>

text \<open>A token request ends its code, whatever the answer, once the client is known.\<close>

lemma tokenEnd_ends_code:
  assumes "tokenEnd sign clock r p = (a, t)" "or_form r = Some form" "or_basic r = Some (ClientID, ClientSecret)"
    "\<not> ff_failure (fp_faults p)"
  shows "fp_codes t = (fp_codes p)(headerGet ''code'' form := None)"
  using assms by (auto simp: tokenEnd_def Let_def split: option.splits if_splits)

text \<open>A token is given only to the client, for a code that was handed out, with the redirect of that time and the
verifier of its challenge; its nonce is the one of that sign-in.\<close>

lemma tokenEnd_token:
  assumes "tokenEnd sign clock r p = (Tokens raw, t)"
  shows "or_basic r = Some (ClientID, ClientSecret) \<and>
    (\<exists>form flow. or_form r = Some form \<and> fp_codes p (headerGet ''code'' form) = Some flow \<and> grantOk form flow \<and>
       fp_codes t (headerGet ''code'' form) = None \<and>
       (\<forall>x. raw = Some x \<longrightarrow> (\<exists>key. x = sign key (fp_kid p) (claimsOf clock flow p))))"
  using assms by (auto simp: tokenEnd_def Let_def claimsOf_def split: option.splits if_splits)

lemma code_used_once:
  assumes "tokenEnd sign clock r p = (Tokens raw, t)" "or_form r' = or_form r"
  shows "\<exists>status text. fst (tokenEnd sign clock' r' t) = Declined status text"
proof -
  from tokenEnd_token [OF assms(1)] obtain form where "or_form r = Some form" "fp_codes t (headerGet ''code'' form) = None"
    by blast
  with assms(2) show ?thesis by (simp add: tokenEnd_def Let_def split: option.splits)
qed

text \<open>The flows that wait for their code hold a nonce and a challenge of the right length.\<close>

definition flowsReady :: "fake_provider \<Rightarrow> bool" where
  "flowsReady p \<longleftrightarrow> (\<forall>c flow. fp_codes p c = Some flow \<longrightarrow> length (cf_challenge flow) = 43 \<and> cf_nonce flow \<noteq> [])"

lemma newProvider_ready: "newProvider issuer key bad = Some p \<Longrightarrow> flowsReady p"
  by (auto simp: newProvider_def flowsReady_def split: option.splits)

lemma authorizeEnd_ready: "flowsReady p \<Longrightarrow> flowsReady (snd (authorizeEnd urlText bs r p))"
  by (auto simp: authorizeEnd_def authorizationOk_def flowsReady_def Let_def split: option.splits)

lemma tokenEnd_ready: "flowsReady p \<Longrightarrow> flowsReady (snd (tokenEnd sign clock r p))"
  by (auto simp: tokenEnd_def flowsReady_def Let_def split: option.splits)

lemma providerServe_ready:
  assumes "flowsReady p"
  shows "flowsReady (snd (providerServe urlText sign clock bs r p))"
proof -
  have "flowsReady (p\<lparr>fp_requests := n\<rparr>)" "flowsReady (p\<lparr>fp_requests := n, fp_jwks := m\<rparr>)" for n m
    using assms by (simp_all add: flowsReady_def)
  then show ?thesis
    by (simp add: providerServe_def Let_def authorizeEnd_ready tokenEnd_ready)
qed

text \<open>Without faults the token names the provider, the client and the nonce of the sign-in.\<close>

lemma claimsOf_honest:
  assumes "fp_faults p = noFaults"
  shows "claimsOf clock flow p ''iss'' = Some (ClaimString (fp_issuer p))"
    "claimsOf clock flow p ''aud'' = Some (ClaimString ClientID)"
    "claimsOf clock flow p ''nonce'' = Some (ClaimString (cf_nonce flow))"
    "claimsOf clock flow p ''exp'' = Some (ClaimTime ((clock 0 + 60 * nanosPerSecond) div nanosPerSecond))"
  using assms by (simp_all add: claimsOf_def noFaults_def orElse_def Let_def)

text \<open>A sign-in from its beginning: what \<open>Begin\<close> asks for is granted, and the verifier that it kept redeems the code.\<close>

definition beginQuery :: "auth_request \<Rightarrow> string \<Rightarrow> string \<Rightarrow> (string \<times> string list) list" where
  "beginQuery a scope redirect =
     [(''client_id'', [ClientID]), (''response_type'', [''code'']), (''code_challenge_method'', [''S256'']),
      (''code_challenge'', [base64Url (sha256 (ar_verifier a))]), (''nonce'', [ar_nonce a]), (''state'', [ar_state a]),
      (''scope'', [scope]), (''redirect_uri'', [redirect])]"

lemma length_bytesOf [simp]: "length (bytesOf k n) = k"
  by (induction k n rule: bytesOf.induct) auto

lemma length_sha256: "length (sha256 s) = 32"
  by (cases "sha256Blocks (length (padding (map byteVal s)) div 64) (padding (map byteVal s)) initialDigest")
    (simp add: sha256_def Let_def)

lemma sign_in_granted:
  assumes "ar_nonce a \<noteq> []" "ar_state a \<noteq> []" "containsStr ('' '' @ scope @ '' '') '' openid ''"
    "urlText redirect = Some redirect" "or_query r = beginQuery a scope redirect" "authorizeEnd urlText bs r p = (ans, t)"
  shows "\<exists>code. ans = SeeOther redirect [(''code'', code), (''state'', ar_state a), (''iss'', fp_issuer p)] \<and>
    fp_codes t code = Some \<lparr>cf_nonce = ar_nonce a, cf_challenge = base64Url (sha256 (ar_verifier a)), cf_redirect = redirect\<rparr>"
proof -
  have "length (base64Url (sha256 (ar_verifier a))) = 43"
    by (simp add: length_base64Url length_sha256)
  with assms show ?thesis
    by (auto simp: authorizeEnd_def authorizationOk_def beginQuery_def headerGet_def Let_def)
qed

end
