(* ===== verification/FaultProxy.thy ===== *)
theory FaultProxy
  imports LocalStore
begin

text \<open>
  \<open>scripts/immichtest/main.go\<close>: the proxy in front of a real Immich that the release tests inject faults with. The
  handlers run concurrently and share the state under a mutex, so each part between two waits is one step. What
  encoding/json reads of a body is a parameter; the reverse proxy itself is net/http/httputil.
\<close>

section \<open>State\<close>

record fault_state =
  hold_uploads :: bool
  hold_albums :: bool
  fail_validate :: bool
  lose_album :: bool
  album_delay_ms :: int
  album_creates :: int
  fail_next :: bool
  lose_next :: bool
  delay_ms :: int
  upload_count :: int
  created_count :: int
  duplicate_count :: int

text \<open>A gate is a channel: the number of its creation. The channels that were closed are remembered for those who
still hold them.\<close>

record proxy =
  px_state :: fault_state
  px_uploads :: "nat option"
  px_albums :: "nat option"
  px_next :: nat
  px_closed :: "nat list"

definition newProxy :: proxy where
  "newProxy =
     \<lparr>px_state = \<lparr>hold_uploads = False, hold_albums = False, fail_validate = False, lose_album = False, album_delay_ms = 0,
        album_creates = 0, fail_next = False, lose_next = False, delay_ms = 0, upload_count = 0, created_count = 0, duplicate_count = 0\<rparr>,
      px_uploads = None, px_albums = None, px_next = 0, px_closed = []\<rparr>"

section \<open>The control request\<close>

text \<open>A gate after the flag goes from \<open>held\<close> to \<open>hold\<close>: made, closed, or as it is. \<open>None\<close> is the panic of closing no
channel.\<close>

definition turnGate :: "bool \<Rightarrow> bool \<Rightarrow> nat option \<Rightarrow> nat \<Rightarrow> nat list \<Rightarrow> (nat option \<times> nat \<times> nat list) option" where
  "turnGate held hold gate fresh shut =
     (if hold \<and> \<not> held then Some (Some fresh, Suc fresh, shut)
      else if \<not> hold \<and> held then (case gate of None \<Rightarrow> None | Some g \<Rightarrow> Some (None, fresh, g # shut))
      else Some (gate, fresh, shut))"

text \<open>The answer is the state: its counters are kept, everything else is the input.\<close>

definition control :: "fault_state \<Rightarrow> proxy \<Rightarrow> proxy option" where
  "control input p =
     (let s = px_state p in
      case turnGate (hold_uploads s) (hold_uploads input) (px_uploads p) (px_next p) (px_closed p) of
        None \<Rightarrow> None
      | Some (ug, n, shut) \<Rightarrow>
          (case turnGate (hold_albums s) (hold_albums input) (px_albums p) n shut of
             None \<Rightarrow> None
           | Some (ag, n, shut) \<Rightarrow>
               Some \<lparr>px_state = input\<lparr>album_creates := album_creates s, upload_count := upload_count s, created_count := created_count s,
                        duplicate_count := duplicate_count s\<rparr>,
                     px_uploads = ug, px_albums = ag, px_next = n, px_closed = shut\<rparr>))"

text \<open>\<open>/__test/control\<close>: the body of a POST, if it can be decoded.\<close>

definition controlRequest :: "bool \<Rightarrow> fault_state option \<Rightarrow> proxy \<Rightarrow> ((int + fault_state) \<times> proxy) option" where
  "controlRequest post body p =
     (if post then (case body of
        None \<Rightarrow> Some (Inl 400, p)
      | Some input \<Rightarrow> map_option (\<lambda>t. (Inr (px_state t), t)) (control input p))
      else Some (Inr (px_state p), p))"

section \<open>A request on its way to Immich\<close>

text \<open>What an upload takes with it when it comes in.\<close>

record ticket =
  tk_fail :: bool
  tk_delay :: int
  tk_gate :: "nat option"

datatype verdict = Waits | GoneAway | Refuse | Forward

definition uploadComes :: "proxy \<Rightarrow> ticket \<times> proxy" where
  "uploadComes p =
     (let s = px_state p in
      (\<lparr>tk_fail = fail_next s, tk_delay = delay_ms s, tk_gate = px_uploads p\<rparr>,
       p\<lparr>px_state := s\<lparr>upload_count := upload_count s + 1, fail_next := False\<rparr>\<rparr>))"

definition blocked :: "ticket \<Rightarrow> proxy \<Rightarrow> bool" where
  "blocked k p \<longleftrightarrow> (case tk_gate k of None \<Rightarrow> False | Some g \<Rightarrow> g \<notin> set (px_closed p))"

text \<open>Whether it is sent on: \<open>left\<close> and \<open>late\<close> say that the client is gone at the gate and during the delay.\<close>

definition uploadGoes :: "bool \<Rightarrow> bool \<Rightarrow> ticket \<Rightarrow> proxy \<Rightarrow> verdict" where
  "uploadGoes left late k p =
     (if tk_gate k \<noteq> None \<and> left then GoneAway
      else if blocked k p then Waits
      else if tk_fail k then Refuse
      else if 0 < tk_delay k \<and> late then GoneAway
      else Forward)"

definition validates :: "string \<Rightarrow> proxy \<Rightarrow> bool" where
  "validates path p \<longleftrightarrow> \<not> (fail_validate (px_state p) \<and> path = ''/api/api-keys/me'')"

section \<open>An answer of Immich\<close>

definition albumComes :: "proxy \<Rightarrow> ticket \<times> proxy" where
  "albumComes p =
     (let s = px_state p in
      (\<lparr>tk_fail = lose_album s, tk_delay = album_delay_ms s, tk_gate = px_albums p\<rparr>,
       p\<lparr>px_state := s\<lparr>album_creates := album_creates s + 1, lose_album := False\<rparr>\<rparr>))"

text \<open>Here the delay comes before the loss, and losing the answer is an error of the proxy.\<close>

definition albumGoes :: "bool \<Rightarrow> bool \<Rightarrow> ticket \<Rightarrow> proxy \<Rightarrow> verdict" where
  "albumGoes left late k p =
     (if tk_gate k \<noteq> None \<and> left then GoneAway
      else if blocked k p then Waits
      else if 0 < tk_delay k \<and> late then GoneAway
      else if tk_fail k then Refuse
      else Forward)"

text \<open>The answer to an upload; \<open>None\<close> is an error of the proxy. The body is cut at 64 KiB.\<close>

definition assetComes :: "(string \<Rightarrow> string) \<Rightarrow> reader \<Rightarrow> proxy \<Rightarrow> string option \<times> proxy" where
  "assetComes statusOf body p =
     (let b = limitReader (64 * 1024) body; s = px_state p in
      if rd_broken b then (None, p)
      else
        let status = statusOf (rd_data b);
            s = (if status = ''created'' then s\<lparr>created_count := created_count s + 1\<rparr> else s);
            s = (if status = ''duplicate'' then s\<lparr>duplicate_count := duplicate_count s + 1\<rparr> else s) in
        if lose_next s then (None, p\<lparr>px_state := s\<lparr>lose_next := False\<rparr>\<rparr>)
        else (Some (rd_data b), p\<lparr>px_state := s\<rparr>))"

section \<open>The gates\<close>

text \<open>A flag holds exactly as long as its gate is an open channel, and every number in use was given out.\<close>

definition gateOk :: "bool \<Rightarrow> nat option \<Rightarrow> nat \<Rightarrow> nat list \<Rightarrow> bool" where
  "gateOk held gate n shut \<longleftrightarrow>
     (case gate of None \<Rightarrow> \<not> held | Some g \<Rightarrow> held \<and> g < n \<and> g \<notin> set shut) \<and> (\<forall>c\<in>set shut. c < n)"

definition gatesOk :: "proxy \<Rightarrow> bool" where
  "gatesOk p \<longleftrightarrow>
     gateOk (hold_uploads (px_state p)) (px_uploads p) (px_next p) (px_closed p) \<and>
     gateOk (hold_albums (px_state p)) (px_albums p) (px_next p) (px_closed p) \<and>
     (px_uploads p = None \<or> px_uploads p \<noteq> px_albums p)"

lemma newProxy_ok: "gatesOk newProxy"
  by (simp add: gatesOk_def gateOk_def newProxy_def)

lemma turnGate_ok:
  assumes "gateOk held gate n shut" "gateOk held' other n shut" "gate = None \<or> gate \<noteq> other"
  shows "\<exists>gate' n' shut'. turnGate held hold gate n shut = Some (gate', n', shut') \<and> gateOk hold gate' n' shut' \<and>
    gateOk held' other n' shut' \<and> (gate' = None \<or> gate' \<noteq> other) \<and> set shut \<subseteq> set shut' \<and>
    (\<forall>g. gate = Some g \<longrightarrow> \<not> hold \<longrightarrow> g \<in> set shut')"
  using assms by (auto simp: turnGate_def gateOk_def split: option.splits)

text \<open>A control request never closes a channel twice or no channel, and keeps the gates in order.\<close>

lemma control_ok:
  assumes "gatesOk p"
  shows "\<exists>t. control input p = Some t \<and> gatesOk t \<and> set (px_closed p) \<subseteq> set (px_closed t) \<and>
    (\<forall>g. px_uploads p = Some g \<longrightarrow> \<not> hold_uploads input \<longrightarrow> g \<in> set (px_closed t)) \<and>
    (\<forall>g. px_albums p = Some g \<longrightarrow> \<not> hold_albums input \<longrightarrow> g \<in> set (px_closed t))"
proof -
  from assms turnGate_ok [of "hold_uploads (px_state p)" "px_uploads p" "px_next p" "px_closed p"
      "hold_albums (px_state p)" "px_albums p" "hold_uploads input"]
  obtain ug n cl where u: "turnGate (hold_uploads (px_state p)) (hold_uploads input) (px_uploads p) (px_next p) (px_closed p) = Some (ug, n, cl)"
    "gateOk (hold_uploads input) ug n cl" "gateOk (hold_albums (px_state p)) (px_albums p) n cl" "ug = None \<or> ug \<noteq> px_albums p"
    "set (px_closed p) \<subseteq> set cl" "\<forall>g. px_uploads p = Some g \<longrightarrow> \<not> hold_uploads input \<longrightarrow> g \<in> set cl"
    by (auto simp: gatesOk_def)
  from turnGate_ok [OF u(3,2), of "hold_albums input"] u(4)
  obtain ag n' cl' where a: "turnGate (hold_albums (px_state p)) (hold_albums input) (px_albums p) n cl = Some (ag, n', cl')"
    "gateOk (hold_albums input) ag n' cl'" "gateOk (hold_uploads input) ug n' cl'" "ag = None \<or> ag \<noteq> ug" "set cl \<subseteq> set cl'"
    "\<forall>g. px_albums p = Some g \<longrightarrow> \<not> hold_albums input \<longrightarrow> g \<in> set cl'"
    by (metis (no_types, lifting))
  from u a show ?thesis by (auto simp: control_def gatesOk_def Let_def)
qed

lemma steps_ok:
  assumes "gatesOk p"
  shows "gatesOk (snd (uploadComes p))" "gatesOk (snd (albumComes p))" "gatesOk (snd (assetComes statusOf body p))"
  using assms by (simp_all add: gatesOk_def uploadComes_def albumComes_def assetComes_def Let_def)

text \<open>An upload that came in while uploads were held goes on as soon as a control request releases them.\<close>

lemma released:
  assumes "gatesOk p" "uploadComes p = (k, q)" "control input q = Some t" "\<not> hold_uploads input"
  shows "\<not> blocked k t"
proof -
  have "gatesOk q" "px_uploads q = tk_gate k" using assms(1,2) steps_ok(1) [OF assms(1)] by (auto simp: uploadComes_def Let_def)
  with control_ok [of q input] assms(3,4) show ?thesis by (auto simp: blocked_def split: option.split)
qed

text \<open>A fault is injected once.\<close>

lemma fault_once:
  "uploadComes p = (k, q) \<Longrightarrow> uploadComes q = (k', q') \<Longrightarrow> \<not> tk_fail k'"
  "albumComes p = (k, q) \<Longrightarrow> albumComes q = (k', q') \<Longrightarrow> \<not> tk_fail k'"
  by (auto simp: uploadComes_def albumComes_def Let_def)

end
