(* ===== verification/Locks.thy ===== *)
theory Locks
  imports Deletion
begin

text \<open>
  Every lock is given back: whatever an operation returns and whatever fails in it, the shared holders of
  each event's lock are the ones it found, so no failed upload can block a later deletion.
\<close>

lemma sameReaders_quiet: "quiet s t \<Longrightarrow> sameReaders s t"
  and sameReaders_onlyTrace: "onlyTrace s t \<Longrightarrow> sameReaders s t"
  and sameReaders_sameRest: "sameRest s t \<Longrightarrow> sameReaders s t"
  by (simp_all add: quiet_def onlyTrace_def sameRest_def sameReaders_def)

lemma readers_exec: "upholds sameReaders (exec x)"
  by (rule same_readers.up_exec) (simp add: sameReaders_def)

lemmas readers_rules = same_readers.up_rules same_readers.up_world same_readers.up_inTx readers_exec sameReaders_withRLock
  quiet_reads [THEN upholds_mono, OF sameReaders_quiet] quiet_checks [THEN upholds_mono, OF sameReaders_quiet]
  onlyTrace_requests [THEN upholds_mono, OF sameReaders_onlyTrace]
  quiet_loadDirect [THEN upholds_mono, OF sameReaders_quiet] ctxErr_quiet [THEN upholds_mono, OF sameReaders_quiet]

lemma readers_cursors:
  "upholds sameReaders (modify (cleanupAfter_update f))" "upholds sameReaders (modify (retiredAfter_update f))"
  "upholds sameReaders (modify (\<lambda>w. if b then w\<lparr>cleanupAfter := []\<rparr> else w))"
  "upholds sameReaders (modify (\<lambda>w. if b then w\<lparr>retiredAfter := []\<rparr> else w))"
  by (rule same_readers.up_modify, simp add: sameReaders_def)+

lemma readers_session: "upholds sameReaders (CreateAttributedSession sv p v n)"
  unfolding CreateAttributedSession_def Let_def by (intro readers_rules)

lemma readers_direct:
  "upholds sameReaders (Authorize sv p s i)" "upholds sameReaders (Complete sv p s i)"
  "upholds sameReaders (Prepare sv p s r limit)"
proof -
  show a: "upholds sameReaders (Authorize sv p s i)" for i
    unfolding Authorize_def directLock_def Let_def by (intro readers_rules)
  have "upholds sameReaders (completeTx sv p s row k c z)" for row k c z
    unfolding completeTx_def by (intro readers_rules)
  then show "upholds sameReaders (Complete sv p s i)"
    unfolding Complete_def directLock_def verifyObject_def rejectIf_def rejectObject_def Let_def
    by (intro readers_rules)
  show "upholds sameReaders (Prepare sv p s r limit)"
    unfolding Prepare_def prepareTx_def prepareNew_def by (intro readers_rules a)
qed

context object_store
begin

lemma readers_removal:
  assumes "sv_store sv = st"
  shows "upholds sameReaders (removeAttempt sv n i key)"
proof -
  have "upholds sameReaders (st_delete st k)" for k
    by (rule upholdsI) (auto intro!: sameReaders_sameRest dest: delete_rest)
  then show ?thesis
    unfolding removeAttempt_def removeObject_def assms by (intro readers_rules)
qed

lemma readers_Upload:
  assumes "sv_store sv = st"
  shows "upholds sameReaders (Upload sv p s f declared source claimed limit)"
proof -
  have put: "upholds sameReaders (st_put st k src l)" for k src l
    by (rule upholdsI) (auto intro!: sameReaders_sameRest dest: put_rest)
  have "upholds sameReaders (admit n p s f i t c k claimed limit)" for n i t c k limit
    unfolding admit_def Let_def by (intro readers_rules)
  moreover have "upholds sameReaders (transfer sv n p s f i source prefix kind claimed e l)" for n i prefix kind e l
    unfolding transfer_def finish_def Let_def assms by (intro readers_rules put)
  ultimately show ?thesis
    unfolding Upload_def uploadLocked_def Let_def by (intro readers_rules readers_removal [OF assms])
qed

lemma readers_cleanup:
  assumes "sv_store sv = st"
  shows "upholds sameReaders (runCleanup sv)"
  unfolding runCleanup_def cleanAttempt_def cleanupRetired_def cleanRetired_def Let_def
  by (intro readers_rules readers_cursors readers_removal [OF assms])

lemma readers_DeleteEvent:
  assumes "sv_store sv = st"
  shows "upholds sameReaders (DeleteEvent sv i)"
proof -
  have "upholds sameReaders (deleteLoop k sv i)" for k
  proof (induction k)
    case (Suc k)
    then show ?case unfolding deleteLoop.simps by (intro readers_rules readers_removal [OF assms])
  qed (simp add: same_readers.up_raise)
  then show ?thesis
    unfolding DeleteEvent_def removeEvent_def by (intro readers_rules)
qed

end

end
