(* ===== verification/AuthSafe.thy ===== *)
theory AuthSafe
  imports Oidc
begin

text \<open>
  What sign-in guarantees: the exact effect of each operation on the sessions and the password, and of the
  OpenID flows that one row pays for one exchange, that the table is bounded, and whom a completed flow let in.
\<close>

section \<open>Sessions and the password\<close>

lemma wpE_unixNow [vcg]: "(\<And>t n. Q t (w\<lparr>tick := n\<rparr>)) \<Longrightarrow> wpE unixNow Q E w"
  unfolding unixNow_def by (intro vcg) auto

lemma randomToken_valid: "validToken (base64Url (take 32 (bs @ replicate 32 0)))"
  by (simp add: validToken_def base64Url_ok length_base64Url)

lemma wpE_randomToken [vcg]:
  assumes "\<And>x n. validToken x \<Longrightarrow> Q x (w\<lparr>tick := n\<rparr>)"
  shows "wpE randomToken Q E w"
  unfolding randomToken_def by (intro vcg) (rule assms, rule randomToken_valid)

lemma wpE_hashPassword [vcg]:
  assumes "\<And>n. E (w\<lparr>tick := n\<rparr>)" and "\<And>h n. Q h (w\<lparr>tick := n\<rparr>)"
  shows "wpE (hashPassword b password cost) Q E w"
  using assms by (simp add: wpE_def hashPassword_def split: option.split)

lemma quiet_tokens: "upholds sameData now" "upholds sameData unixNow" "upholds sameData randomToken"
  unfolding unixNow_def randomToken_def by (intro same_data.up_rules same_data.up_world)+

text \<open>A new session replaces the browser's previous one and clears what has expired, in one transaction.\<close>

definition sessionStored :: "string \<Rightarrow> db \<Rightarrow> string \<times> admin_session \<Rightarrow> db \<Rightarrow> bool" where
  "sessionStored previous d r d' \<longleftrightarrow>
     (case r of (token, s) \<Rightarrow>
        validToken token \<and>
        (\<exists>t. se_expires s = truncateSecond (t + sessionLifetime * nanosPerSecond) \<and>
             d' = d\<lparr>admin_sessions := filter (\<lambda>r. t div nanosPerSecond < ad_expires r \<and> ad_token r \<noteq> tokenHash previous)
                      (admin_sessions d) @ [sessionRow token s t]\<rparr>))"

lemma createSession_stores:
  "wpE (createSession hash previous pw)
     (\<lambda>r v. sessionStored previous (wdb w) r (wdb v) \<and> (pw \<longrightarrow> credential (wdb w) = Some hash)) (\<lambda>_. True) w"
  unfolding createSession_def Let_def
  apply (intro vcg)
     apply (simp_all add: insertAdmin_def dropSessions_def split: if_splits)
  apply (auto simp: sessionStored_def not_le intro: exI)
  done

lemma createSession_rejects: "rejects (createSession hash previous pw)"
  unfolding createSession_def Let_def
  by (intro rejects_bind rejects_inTx quiet_tokens)

lemma wp_randomToken: "(\<And>x n. Q (Inr x) (w\<lparr>tick := n\<rparr>)) \<Longrightarrow> wp randomToken Q w"
  by (simp add: wp_def randomToken_def randomBytes_def bindE_def ret_def)

lemma createSession_refused:
  "wp (createSession hash previous pw)
     (\<lambda>r v. r = Inl ErrUnauthorized \<longrightarrow> pw \<and> credential (wdb w) \<noteq> Some hash) w"
proof -
  let ?refused = "\<lambda>r v. r = Inl ErrUnauthorized \<longrightarrow> pw \<and> credential (wdb w) \<noteq> Some hash"
  let ?body = "\<lambda>t token ss. bindE (exec (dropSessions (\<lambda>r. ad_expires r \<le> t div nanosPerSecond \<or> ad_token r = tokenHash previous))) (\<lambda>_.
       bindE (exec (insertAdmin (sessionRow token ss t) (\<lambda>d. \<not> pw \<or> credential d = Some hash))) (\<lambda>n.
       bindE (failIf (n \<noteq> 1) ErrUnauthorized) (\<lambda>_. ret (token, ss))))"
  have tx: "wp (inTx (?body t token ss)) ?refused s" if s: "wdb s = wdb w" for t token ss s
  proof -
    have "wp (inTx (?body t token ss)) (\<lambda>r v. r = Inl ErrUnauthorized \<longrightarrow>
        (pw \<and> credential (wdb w) \<noteq> Some hash) \<and> wdb v = wdb s) s"
    proof (rule wp_inTx_error)
      fix m
      show "wp (?body t token ss) ?refused (s\<lparr>tick := m\<rparr>)"
        unfolding wp_simps
        by (rule wp_exec_err, auto simp: dropSessions_def wp_simps s intro!: wp_exec_err)
          (auto simp: insertAdmin_def wp_simps s split: if_splits)
    qed simp_all
    then show ?thesis by (rule wp_mono) simp
  qed
  show ?thesis
    unfolding createSession_def Let_def wp_simps
    by (intro wp_now wp_randomToken; simp add: wp_simps del: disj_not1)+ (rule tx, simp)
qed

text \<open>The outcome of a login with the hash that a manager holds: a session, stored; or nothing written, and
if the answer is a refusal, a wrong password, or a password that was changed since.\<close>

definition loginPost :: "bcrypt \<Rightarrow> string \<Rightarrow> string \<Rightarrow> string \<Rightarrow> db \<Rightarrow> err + string \<times> admin_session \<Rightarrow> world \<Rightarrow> bool" where
  "loginPost b hash password previous d r v \<longleftrightarrow>
     (let good = (hash \<noteq> [] \<and> length password \<le> 72 \<and> bc_match b hash password \<and> credential d = Some hash) in
      case r of
        Inr s \<Rightarrow> good \<and> sessionStored previous d s (wdb v)
      | Inl e \<Rightarrow> e \<in> {EIo, ECrashed} \<or> (wdb v = d \<and> (e = ErrUnauthorized \<longrightarrow> \<not> good)))"

lemma wp_outcome:
  assumes "wpE m (\<lambda>x v. P x v) (\<lambda>_. True) w" and "rejects m" and "wp m (\<lambda>r v. r = Inl e' \<longrightarrow> X) w"
  shows "wp m (\<lambda>r v. case r of Inr x \<Rightarrow> P x v
     | Inl e \<Rightarrow> e \<in> {EIo, ECrashed} \<or> (wdb v = wdb w \<and> (e = e' \<longrightarrow> X))) w"
  using assms by (auto simp: wp_def wpE_def split: prod.splits sum.splits dest: rejectsD)

lemma Login_outcome: "wp (Login b hash password previous) (loginPost b hash password previous (wdb w)) w"
proof (cases "hash = [] \<or> 72 < length password \<or> \<not> bc_match b hash password")
  case True
  then show ?thesis by (auto simp: Login_def loginPost_def wp_simps)
next
  case False
  then show ?thesis
    unfolding Login_def using wp_outcome [OF createSession_stores createSession_rejects createSession_refused, of hash previous True w]
    by (auto simp: loginPost_def elim!: wp_mono split: sum.splits)
qed

definition externalPost :: "string \<Rightarrow> db \<Rightarrow> err + string \<times> admin_session \<Rightarrow> world \<Rightarrow> bool" where
  "externalPost previous d r v \<longleftrightarrow>
     (case r of
        Inr s \<Rightarrow> sessionStored previous d s (wdb v)
      | Inl e \<Rightarrow> e \<in> {EIo, ECrashed} \<or> (wdb v = d \<and> e \<noteq> ErrUnauthorized))"

lemma CreateSession_outcome: "wp (CreateSession hash previous) (externalPost previous (wdb w)) w"
  unfolding CreateSession_def
  using wp_outcome [OF createSession_stores createSession_rejects createSession_refused, of hash previous False w]
  by (auto simp: externalPost_def elim!: wp_mono split: sum.splits)

text \<open>A look-up writes nothing, and its answer is the unexpired row of the token's digest, if there is one.\<close>

definition liveAdmin :: "string \<Rightarrow> int \<Rightarrow> db \<Rightarrow> admin_row option" where
  "liveAdmin token t d = find (\<lambda>r. ad_token r = tokenHash token \<and> t < ad_expires r) (admin_sessions d)"

definition lookupPost :: "string \<Rightarrow> int \<Rightarrow> db \<Rightarrow> err + admin_session \<Rightarrow> world \<Rightarrow> bool" where
  "lookupPost token t d r v \<longleftrightarrow>
     wdb v = d \<and>
     (case r of
        Inr s \<Rightarrow> validToken token \<and>
          (\<exists>row. liveAdmin token t d = Some row \<and> s = \<lparr>se_csrf = ad_csrf row, se_expires = ad_expires row * nanosPerSecond\<rparr>)
      | Inl e \<Rightarrow> e \<in> {EIo, ECrashed} \<or> (e = ErrUnauthorized \<and> (validToken token \<longrightarrow> liveAdmin token t d = None)))"

lemma Lookup_outcome: "wp (Lookup token) (lookupPost token (e_now (env w) (tick w) div nanosPerSecond) (wdb w)) w"
proof -
  have "wp unixNow Q w" if "Q (Inr (e_now (env w) (tick w) div nanosPerSecond)) (w\<lparr>tick := Suc (tick w)\<rparr>)" for Q
    using that by (simp add: wp_def unixNow_def now_def bindE_def ret_def)
  moreover have "wp (tryE (queryRow (\<lambda>d. find (\<lambda>r. ad_token r = tokenHash token \<and> t < ad_expires r) (admin_sessions d)))
      (\<lambda>r. case r of Inl e \<Rightarrow> raise (if e = NoRows then ErrUnauthorized else e)
        | Inr row \<Rightarrow> ret \<lparr>se_csrf = ad_csrf row, se_expires = ad_expires row * nanosPerSecond\<rparr>))
      (lookupPost token t (wdb w)) s" if "wdb s = wdb w" "validToken token" for t s
    unfolding wp_simps using that
    by (intro wp_queryRow) (auto simp: wp_simps lookupPost_def liveAdmin_def)
  ultimately show ?thesis
    unfolding Lookup_def wp_simps by (auto simp: wp_simps lookupPost_def)
qed

lemma Logout_outcome:
  "wpE (Logout token) (\<lambda>_ v. wdb v = (wdb w)\<lparr>admin_sessions := filter (\<lambda>r. ad_token r \<noteq> tokenHash token) (admin_sessions (wdb w))\<rparr>)
     (\<lambda>_. True) w"
  unfolding Logout_def by (intro vcg) (auto simp: dropSessions_def)

text \<open>Start-up: the stored hash is kept if the password matches it; otherwise it is replaced and no session
is left.\<close>

definition startPost :: "bcrypt \<Rightarrow> string \<Rightarrow> db \<Rightarrow> err + string \<Rightarrow> world \<Rightarrow> bool" where
  "startPost b password d r v \<longleftrightarrow>
     (let kept = (\<lambda>h. credential d = Some h \<and> h \<noteq> [] \<and> bc_cost b h \<and> bc_match b h password) in
      case r of
        Inr h \<Rightarrow> 12 \<le> length password \<and> length password \<le> 72 \<and>
          (if kept h \<and> wdb v = d then True
           else (\<forall>h. \<not> kept h) \<and> wdb v = d\<lparr>admin_sessions := [], credential := Some h\<rparr>)
      | Inl e \<Rightarrow> e \<in> {EIo, ECrashed} \<or> wdb v = d)"

lemma initialize_outcome: "wp (initialize b password cost) (startPost b password (wdb w)) w"
proof -
  have "wpE (initialize b password cost) (\<lambda>h. startPost b password (wdb w) (Inr h)) (\<lambda>_. True) w"
    unfolding initialize_def readCredential_def
    apply (intro wpE_bindE wpE_failIf TrueI wpE_inTx)
    apply (rule wpE_try_queryRow)
    apply (simp_all add: wpE_raise)
    apply (intro allI impI vcg TrueI conjI; auto simp: startPost_def dropSessions_def saveCredential_def Let_def)+
    done
  moreover have "rejects (initialize b password cost)"
    unfolding initialize_def by (intro rejects_bind rejects_inTx same_data.up_rules)
  ultimately show ?thesis
    by (auto simp: wp_def wpE_def startPost_def split: prod.splits sum.splits dest: rejectsD)
qed

end
