(* ===== verification/OidcSafe.thy ===== *)
theory OidcSafe
  imports AuthSafe
begin

text \<open>
  OpenID flows: the table is bounded and has one row per state; a row pays for at most one authorization code
  that is sent, and is gone by then; and a callback succeeds only for a token that the configuration allows.
\<close>

definition isExchange :: "call \<Rightarrow> bool" where
  "isExchange c \<longleftrightarrow> (case c of CallOIDC code \<Rightarrow> code \<noteq> [] | _ \<Rightarrow> False)"

definition exchanges :: "world \<Rightarrow> nat" where
  "exchanges w = length (filter isExchange (trace w))"

definition flowsOk :: "db \<Rightarrow> bool" where
  "flowsOk d \<longleftrightarrow> distinct (map oi_state (oidc_flows d)) \<and> length (oidc_flows d) \<le> 512"

section \<open>Begin\<close>

text \<open>No code is sent, and the database changes in the flows only.\<close>

definition flowsOnly :: "world \<Rightarrow> world \<Rightarrow> bool" where
  "flowsOnly s t \<longleftrightarrow> exchanges t = exchanges s \<and> (wdb t)\<lparr>oidc_flows := []\<rparr> = (wdb s)\<lparr>oidc_flows := []\<rparr>"

interpretation flows_only: tx_order flowsOnly
  by unfold_locales (auto simp: flowsOnly_def exchanges_def)

lemma flowsOnly_sends: "flowsOnly w (w\<lparr>trace := trace w @ [CallOIDC []]\<rparr>)"
  and flowsOnly_known: "flowsOnly w (w\<lparr>provider := p\<rparr>)"
  by (auto simp: flowsOnly_def exchanges_def isExchange_def)

lemma discover_flows: "upholds flowsOnly (discover op)"
  unfolding discover_def
  by (intro flows_only.up_rules flows_only.up_remote flows_only.up_modify flowsOnly_sends flowsOnly_known)

lemma Begin_flows: "upholds flowsOnly (Begin op previous)"
proof -
  have "flowsOnly w (w\<lparr>wdb := d\<rparr>)" if "dropFlows t p (wdb w) = Inr (d, r)" for w t p d r
    using that by (auto simp: dropFlows_def flowsOnly_def exchanges_def)
  moreover have "flowsOnly w (w\<lparr>wdb := d\<rparr>)" if "insertFlow row (wdb w) = Inr (d, r)" for w row d r
    using that by (auto simp: insertFlow_def flowsOnly_def exchanges_def split: if_splits)
  ultimately show ?thesis
    unfolding Begin_def beginTx_def unixNow_def randomToken_def
    by (intro flows_only.up_rules flows_only.up_world flows_only.up_inTx flows_only.up_exec discover_flows)
qed

lemma flowsOk_drop: "flowsOk d \<Longrightarrow> dropFlows t p d = Inr (d', r) \<Longrightarrow> flowsOk d'"
  by (auto simp: dropFlows_def flowsOk_def intro: distinct_map_filter' order_trans [OF length_filter_le])

lemma flowsOk_insert: "flowsOk d \<Longrightarrow> \<not> 512 \<le> length (oidc_flows d) \<Longrightarrow> insertFlow row d = Inr (d', r) \<Longrightarrow> flowsOk d'"
  by (auto simp: insertFlow_def flowsOk_def list_ex_iff split: if_splits) metis

lemma beginTx_bounded: "upholds (keepsDB flowsOk) (beginTx state nonce verifier browser previous)"
proof (rule upholdsI)
  fix s r t
  assume run: "beginTx state nonce verifier browser previous s = (r, t)"
  have "wpE (beginTx state nonce verifier browser previous)
      (\<lambda>_ t. flowsOk (wdb t)) (\<lambda>t. flowsOk (wdb t)) s" if "flowsOk (wdb s)"
    unfolding beginTx_def
    by (intro vcg; use that in \<open>auto intro: flowsOk_insert flowsOk_drop\<close>)
  with run show "keepsDB flowsOk s t" by (cases r) (auto simp: keepsDB_def dest: wpE_D1 wpE_D2)
qed

lemma Begin_bounded: "upholds (keepsDB flowsOk) (Begin op previous)"
proof -
  have "keepsDB flowsOk w (w\<lparr>trace := x\<rparr>)" "keepsDB flowsOk w (w\<lparr>provider := p\<rparr>)" for w x p
    by (simp_all add: keepsDB_def)
  then show ?thesis
    unfolding Begin_def discover_def randomToken_def
    by (intro keeps.up_rules keeps.up_world keeps.up_remote keeps.up_modify beginTx_bounded)
qed

section \<open>Complete\<close>

text \<open>What the state of the table pays for: one code sent for each row that is gone.\<close>

definition paid :: "nat \<Rightarrow> world \<Rightarrow> world \<Rightarrow> bool" where
  "paid k s t \<longleftrightarrow> exchanges t + length (oidc_flows (wdb t)) + k \<le> exchanges s + length (oidc_flows (wdb s))"

definition flowTaken :: "string \<Rightarrow> string \<Rightarrow> oidc_row \<Rightarrow> db \<Rightarrow> db \<Rightarrow> bool" where
  "flowTaken state browser row d d' \<longleftrightarrow>
     (\<exists>t. row \<in> set (oidc_flows d) \<and> isFlow state browser t row \<and>
          d' = d\<lparr>oidc_flows := filter (\<lambda>r. \<not> isFlow state browser t r) (oidc_flows d)\<rparr>)"

lemma takeFlow_taken: "takeFlow state browser t d = Inr (d', row) \<Longrightarrow> flowTaken state browser row d d'"
  by (auto simp: takeFlow_def flowTaken_def split: option.splits dest: find_SomeD)

lemma flowTaken_fewer: "flowTaken state browser row d d' \<Longrightarrow> length (oidc_flows d') < length (oidc_flows d)"
  by (auto simp: flowTaken_def intro: length_filter_less)

text \<open>Whom a token that was accepted speaks for.\<close>

definition letIn :: "oidc_config \<Rightarrow> id_token \<Rightarrow> bool" where
  "letIn cfg tok \<longleftrightarrow> tok_issuer tok = oc_issuer cfg \<and>
     (tok_subject tok \<in> set (oc_subjects cfg) \<or>
      (\<exists>claims vs g. tok_claims tok = Some claims \<and> map_of claims (oc_claim cfg) = Some (ClaimList vs) \<and>
        ClaimText g \<in> set vs \<and> g \<in> set (oc_groups cfg)))"

lemma acceptToken_letIn: "acceptToken cfg nonceHash tok \<Longrightarrow> letIn cfg tok \<and> tokenHash (tok_nonce tok) = nonceHash"
  by (auto simp: acceptToken_def letIn_def allowedBy_def Let_def list_ex_iff
      split: option.splits claim_value.splits if_splits)

text \<open>Once the flow is taken: at most one code is sent, and the database stays.\<close>

definition idle :: "world \<Rightarrow> world \<Rightarrow> bool" where
  "idle s t \<longleftrightarrow> wdb t = wdb s \<and> exchanges t = exchanges s"

interpretation idle: world_order idle
  by unfold_locales (auto simp: idle_def exchanges_def)

lemma discover_idle: "upholds idle (discover op)"
  unfolding discover_def
  by (intro idle.up_rules idle.up_remote idle.up_modify) (auto simp: idle_def exchanges_def isExchange_def)

definition redeemed :: "world \<Rightarrow> world \<Rightarrow> bool" where
  "redeemed s t \<longleftrightarrow> wdb t = wdb s \<and> exchanges t \<le> exchanges s + 1"

text \<open>The libraries verified a token for this client, of this flow's nonce, for someone who is let in.\<close>

definition vouched :: "oidc_provider \<Rightarrow> oidc_config \<Rightarrow> oidc_row \<Rightarrow> bool" where
  "vouched op cfg row \<longleftrightarrow>
     (\<exists>raw k tok. op_verify op (oc_client cfg) raw k = Some tok \<and> tokenHash (tok_nonce tok) = oi_nonce row \<and> letIn cfg tok)"

lemma vouchedI: "Some tok = op_verify op (oc_client cfg) raw k \<Longrightarrow> acceptToken cfg (oi_nonce row) tok \<Longrightarrow> vouched op cfg row"
  unfolding vouched_def by (metis acceptToken_letIn)

lemma redeem_result:
  "wpE (redeem op cfg flow code)
     (\<lambda>_ v. redeemed w v \<and> vouched op cfg flow) (redeemed w) w"
  unfolding redeem_def
proof (rule wpE_step [where Q = "\<lambda>_. idle w"], goal_cases)
  case 1
  show ?case by (rule wpE_mono [OF wpE_upholds [OF discover_idle]]) (auto simp: redeemed_def idle_def)
next
  case (2 m s)
  then show ?case
    by (intro vcg) (auto simp: redeemed_def idle_def exchanges_def isExchange_def split: call.splits intro: vouchedI)
qed

text \<open>The outcome of a callback. Success: a flow of this state and browser, not expired, was taken, and the
provider vouched for a subject that the configuration allows. In any case at most one code was sent, and then the
flow was taken first.\<close>

definition completePost :: "oidc_provider \<Rightarrow> oidc_config \<Rightarrow> string \<Rightarrow> string \<Rightarrow> world \<Rightarrow> err + unit \<Rightarrow> world \<Rightarrow> bool" where
  "completePost op cfg state browser w r v \<longleftrightarrow>
     (if wdb v = wdb w then exchanges v = exchanges w \<and> r \<noteq> Inr ()
      else exchanges v \<le> exchanges w + 1 \<and>
        (\<exists>row. flowTaken state browser row (wdb w) (wdb v) \<and>
          (r = Inr () \<longrightarrow> vouched op cfg row)))"

lemma flowTaken_other: "flowTaken state browser row d d' \<Longrightarrow> d' \<noteq> d"
  using flowTaken_fewer by fastforce

lemma wpE_both: "wpE m (\<lambda>x t. P (Inr x) t) (\<lambda>t. \<forall>e. P (Inl e) t) w \<Longrightarrow> wp m P w"
  by (auto simp: wp_def wpE_def split: prod.splits sum.splits)

lemma CompleteOIDC_outcome: "wp (CompleteOIDC op cfg state browser code err) (completePost op cfg state browser w) w"
proof (rule wpE_both)
  let ?Q = "\<lambda>x. completePost op cfg state browser w (Inr x)"
  let ?E = "\<lambda>t. \<forall>e. completePost op cfg state browser w (Inl e) t"
  have same: "completePost op cfg state browser w (Inl e) v" if "wdb v = wdb w" "exchanges v = exchanges w" for v e
    using that by (simp add: completePost_def)
  have after: "wpE (redeem op cfg row code) (\<lambda>_. completePost op cfg state browser w (Inr ())) ?E s"
    if taken: "flowTaken state browser row (wdb w) (wdb s)" and sent: "exchanges s = exchanges w" for row s
    by (rule wpE_mono [OF redeem_result])
      (use taken sent flowTaken_other [OF taken] in \<open>auto simp: completePost_def redeemed_def\<close>)
  have gone: "completePost op cfg state browser w (Inl e) s"
    if "flowTaken state browser row (wdb w) (wdb s)" "exchanges s = exchanges w" for row s e
    using that flowTaken_other [OF that(1)] by (auto simp: completePost_def)
  show "wpE (CompleteOIDC op cfg state browser code err) ?Q ?E w"
    unfolding CompleteOIDC_def
    by (intro vcg; (simp; fail)?) (auto simp: exchanges_def intro: same gone after dest!: takeFlow_taken)
qed

end
