(* ===== verification/AbuseSafe.thy ===== *)
theory AbuseSafe
  imports Abuse
begin

text \<open>
  What the admission controls guarantee: a client cannot choose the address it is counted under by sending
  forwarding headers, and the limiter's memory is bounded without forgetting a key that is in use.
\<close>

section \<open>The address of a client\<close>

lemma splitAt_append: "splitAt c (f @ c # s) = splitAt c f @ splitAt c s"
proof (induction f)
  case (Cons x f)
  then show ?case by (auto split: list.split simp: neq_Nil_conv)
qed simp

lemma joinComma_append: "fs \<noteq> [] \<Longrightarrow> ss \<noteq> [] \<Longrightarrow> joinComma (fs @ ss) = joinComma fs @ CHR '','' # joinComma ss"
proof (induction fs rule: joinComma.induct)
  case (2 s)
  then show ?case by (cases ss) auto
qed auto

lemma parseHops_append:
  "parseHops (fs @ ss) = Option.bind (parseHops fs) (\<lambda>f. map_option (\<lambda>s. f @ s) (parseHops ss))"
proof (induction fs)
  case Nil
  then show ?case by (cases "parseHops ss") simp_all
next
  case (Cons p fs)
  then show ?case by (cases "parseHops fs"; cases "parseHops ss") (auto split: option.split)
qed

lemma resolveHop_append:
  "\<not> isTrusted trusted (resolveHop trusted peer ips) \<Longrightarrow> resolveHop trusted peer (ips @ far) = resolveHop trusted peer ips"
proof (induction trusted peer ips rule: resolveHop.induct)
  case (1 trusted resolved)
  then show ?case by (cases far) simp_all
qed auto

text \<open>Forged values come before the ones that trusted proxies append. If the honest header led to an untrusted
address, the forged one leads to the same, or is refused as malformed and counted under the proxy itself.\<close>

definition sameOrPeer :: "addr option \<times> bool \<Rightarrow> addr option \<times> bool \<Rightarrow> addr option \<times> bool \<Rightarrow> bool" where
  "sameOrPeer expected peer r \<longleftrightarrow> r = expected \<or> r = (fst peer, True)"

lemma forwardedFor_forged:
  assumes "forwardedFor trusted peer honest = (Some a, False)" and "\<not> isTrusted trusted a" and "honest \<noteq> []"
  shows "forwardedFor trusted peer (forged @ honest) = (Some a, False) \<or> forwardedFor trusted peer (forged @ honest) = (Some peer, True)"
proof (cases "isTrusted trusted peer \<and> forged \<noteq> []")
  case True
  with assms have hops: "\<exists>ips. parseHops (splitAt CHR '','' (joinComma honest)) = Some ips \<and> a = resolveHop trusted peer (rev ips)"
    by (auto simp: forwardedFor_def Let_def split: if_splits option.splits)
  then obtain ips where ips: "parseHops (splitAt CHR '','' (joinComma honest)) = Some ips" "a = resolveHop trusted peer (rev ips)"
    by auto
  have far: "resolveHop trusted peer (rev ips @ more) = a" for more
    using resolveHop_append [of trusted peer "rev ips"] ips assms(2) by simp
  with ips(1) True assms show ?thesis
    by (cases "parseHops (splitAt CHR '','' (joinComma forged))") (auto simp: forwardedFor_def Let_def joinComma_append splitAt_append parseHops_append split: option.splits)
next
  case False
  with assms show ?thesis by (auto simp: forwardedFor_def split: if_splits)
qed

lemma ClientIP_forged:
  assumes "ClientIP remoteAddr honest trusted = (Some a, False)" and "\<not> isTrusted trusted a" and "honest \<noteq> []"
  shows "sameOrPeer (Some a, False) (ClientIP remoteAddr [] trusted) (ClientIP remoteAddr (forged @ honest) trusted)"
  using assms forwardedFor_forged [OF _ assms(2,3), where forged = forged]
  by (auto simp: ClientIP_def Let_def sameOrPeer_def forwardedFor_def [of _ _ "[]"] split: option.splits if_splits prod.splits)

section \<open>The limiter's memory\<close>

definition limiterOk :: "int \<Rightarrow> limiter \<Rightarrow> bool" where
  "limiterOk capacity l \<longleftrightarrow> distinct (map fst (lm_entries l)) \<and> int (length (lm_entries l)) \<le> capacity
     \<and> (\<forall>(k, b) \<in> set (lm_entries l). 0 \<le> bk_tokens b)"

lemma elapsed_nonneg: "0 \<le> elapsedSeconds d"
  by (auto simp: elapsedSeconds_def nanosPerSecond_def intro!: fl_nonneg add_nonneg_nonneg)

lemma refill_nonneg: "0 < rate \<Longrightarrow> 0 \<le> bk_tokens b \<Longrightarrow> 0 \<le> refill rate t b"
  by (auto simp: refill_def intro!: fl_nonneg add_nonneg_nonneg mult_nonneg_nonneg elapsed_nonneg)

lemma sweep_ok: "limiterOk c l \<Longrightarrow> limiterOk c (sweep t l)"
  by (auto simp: sweep_def limiterOk_def distinct_map_filter' split: option.splits
      intro: order_trans [OF of_nat_mono [OF length_filter_le]])

lemma keys_update: "distinct (map fst es) \<Longrightarrow> distinct (map fst (AList.update k v es))"
  by (simp add: distinct_update)

lemma length_update: "length (AList.update k v es) = length es + (if k \<in> fst ` set es then 0 else 1)"
  by (induction es) auto

lemma set_update: "x \<in> set (AList.update k v es) \<Longrightarrow> x = (k, v) \<or> x \<in> set es"
  by (induction es) (auto split: if_splits)

lemma spend_ok:
  assumes "limiterOk c l" and "k \<in> fst ` set (lm_entries l) \<or> int (length (lm_entries l)) < c"
    and "0 < rate" and "0 \<le> bk_tokens b"
  shows "limiterOk c (snd (spend k rate t b l))"
  using assms refill_nonneg [OF assms(3,4), of t]
  by (auto simp: spend_def Let_def limiterOk_def keys_update length_update dest!: set_update intro!: fl_nonneg)

lemma allowAt_ok:
  assumes ok: "limiterOk c l" and rate: "0 < rate"
  shows "limiterOk c (snd (allowAt c k rate t l))"
proof (cases "map_of (lm_entries (sweep t l)) k")
  case None
  with sweep_ok [OF ok] rate show ?thesis
    by (auto simp: allowAt_def Let_def intro!: spend_ok)
next
  case (Some b)
  then have "(k, b) \<in> set (lm_entries (sweep t l))" by (rule map_of_SomeD)
  then have "k \<in> fst ` set (lm_entries (sweep t l))" and "0 \<le> bk_tokens b"
    using sweep_ok [OF ok, of t] by (force simp: limiterOk_def)+
  with Some sweep_ok [OF ok] rate show ?thesis
    by (auto simp: allowAt_def Let_def intro!: spend_ok)
qed

end
