(* ===== verification/HttpSafe.thy ===== *)
theory HttpSafe
  imports Routes OidcSafe AbuseSafe MediaSafe
begin

text \<open>
  What the HTTP layer guarantees, for every request: without a live session, the origin and the CSRF token, no
  administrator's route does anything; a read changes nothing; and, when challenges are on, an upload session is
  created only after a challenge was solved for this site.
\<close>

section \<open>Reads\<close>

context world_order
begin

lemma up_respond: "upholds R m \<Longrightarrow> (\<And>x. upholds R (next x)) \<Longrightarrow> upholds R (respond f m next)"
  unfolding respond_def by (intro up_tryE up_sum up_if up_raise up_ret)

lemma up_withBody: "(\<And>x. upholds R (next x)) \<Longrightarrow> upholds R (withBody rq sel next)"
  unfolding withBody_def by (intro up_sum up_ret)

lemma up_emptyControl: "upholds R next \<Longrightarrow> upholds R (emptyControl rq next)"
  unfolding emptyControl_def by (intro up_if up_withBody)

end

lemma Lookup_quiet: "upholds quiet (Lookup token)"
  unfolding Lookup_def unixNow_def by (intro quiet.up_rules quiet.up_world)

lemma eventViews_quiet: "upholds quiet (eventViews a m es)"
  by (induction es) (auto intro!: quiet.up_rules quiet.up_world)

lemma getPublic_quiet: "upholds quiet (getPublic e)"
  unfolding getPublic_def by (intro quiet.up_rules quiet.up_world)

lemma writeAdminEvent_quiet: "upholds quiet (writeAdminEvent a e)"
  unfolding writeAdminEvent_def Stats_def Contributors_def
  by (intro quiet.up_rules quiet.up_world quiet.up_respond)

lemma immichStatus_quiet: "upholds quiet (Status im i key)"
  unfolding Status_def optionalRow_def getEvent_def Let_def
  by (intro quiet.up_rules quiet.up_world)

lemma reads_quiet:
  "upholds quiet (listAllEvents a)" "upholds quiet (getOneEvent a i)" "upholds quiet (publicEvent a e)"
  "upholds quiet (immichStatus a i rq)" "upholds quiet (immichTargets a)" "upholds quiet (authMethods a)"
  unfolding listAllEvents_def getOneEvent_def publicEvent_def immichStatus_def immichTargets_def authMethods_def
    listEvents_def Stats_def getEvent_def
  by (intro quiet.up_rules quiet.up_world quiet.up_respond eventViews_quiet getPublic_quiet writeAdminEvent_quiet immichStatus_quiet)+

text \<open>Whatever a request with a safe method does, unless it is for an OpenID route, nothing is different after it:
no row, no file, no request to another system.\<close>

definition readsOnly :: "http_request \<Rightarrow> bool" where
  "readsOnly rq \<longleftrightarrow> safeMethod rq \<and> routeOf (rq_path rq) \<noteq> ROidcLogin \<and> routeOf (rq_path rq) \<noteq> ROidcCallback"

lemma adminHandler_quiet:
  "safeMethod rq \<Longrightarrow> rq_method rq \<in> set (methodsOf r) \<Longrightarrow> upholds quiet (adminHandler a rq s r)"
  by (cases r) (auto simp: safeMethod_def intro: reads_quiet quiet.up_ret)

lemma openHandler_quiet:
  "safeMethod rq \<Longrightarrow> rq_method rq \<in> set (methodsOf r) \<Longrightarrow> r \<noteq> ROidcLogin \<Longrightarrow> r \<noteq> ROidcCallback \<Longrightarrow>
   openHandler a rq r = Some h \<Longrightarrow> upholds quiet h"
  by (cases r) (auto simp: safeMethod_def intro: reads_quiet)

lemma dispatch_quiet:
  assumes "readsOnly rq"
  shows "upholds quiet (dispatch a rq)"
  using assms unfolding dispatch_def protected_def Let_def readsOnly_def
  by (auto intro!: quiet.up_if quiet.up_ret quiet.up_option quiet.up_respond Lookup_quiet
      intro: adminHandler_quiet openHandler_quiet)

section \<open>The administrator's routes\<close>

definition guardedRoute :: "route \<Rightarrow> bool" where
  "guardedRoute r \<longleftrightarrow> r \<notin> {RLogin, RMethods, ROidcLogin, ROidcCallback, RUnknown} \<and>
     (case r of RPublic _ \<Rightarrow> False | RSessions _ \<Rightarrow> False | RAssets _ _ \<Rightarrow> False | RPrepare _ _ \<Rightarrow> False
      | RAuthorize _ _ _ \<Rightarrow> False | RComplete _ _ _ \<Rightarrow> False | _ \<Rightarrow> True)"

lemma openHandler_guarded: "guardedRoute r \<Longrightarrow> openHandler a rq r = None"
  by (cases r) (auto simp: guardedRoute_def)

text \<open>Whoever asks has a live session at this instant and, to change something, its CSRF token and the site's
own origin.\<close>

definition authorised :: "application \<Rightarrow> http_request \<Rightarrow> world \<Rightarrow> bool" where
  "authorised a rq w \<longleftrightarrow>
     validToken (rq_session rq) \<and>
     (case liveAdmin (rq_session rq) (e_now (env w) (tick w) div nanosPerSecond) (wdb w) of
        None \<Rightarrow> False
      | Some row \<Rightarrow> safeMethod rq \<or> (sameOrigin a rq \<and> rq_csrf rq = ad_csrf row))"

definition refusedBy :: "world \<Rightarrow> err + response \<Rightarrow> world \<Rightarrow> bool" where
  "refusedBy w r v \<longleftrightarrow> quiet w v \<and>
     (case r of Inl e \<Rightarrow> e = ECrashed | Inr x \<Rightarrow> rp_status x \<in> {401, 403, 404, 405, 500} \<and> rp_body x = Nothing \<and> rp_cookies x = [])"

lemma protected_refuses:
  assumes "\<not> authorised a rq w"
  shows "wp (protected a rq next) (refusedBy w) w"
proof -
  have q: "wp (Lookup (rq_session rq)) (\<lambda>r v. quiet w v) w"
    using Lookup_quiet by (simp add: upholds_wp)
  have "wp (Lookup (rq_session rq)) (\<lambda>r v. wp ((\<lambda>r. case r of
        Inl e \<Rightarrow> if e = ECrashed then raise ECrashed else ret (if e = ErrUnauthorized then apiError 401 ''unauthorized'' [] else fail e)
      | Inr s \<Rightarrow> if \<not> safeMethod rq \<and> \<not> sameOrigin a rq then ret foreignOrigin
         else if \<not> safeMethod rq \<and> rq_csrf rq \<noteq> se_csrf s then ret (apiError 403 ''csrf'' []) else next s) r) (refusedBy w) v) w"
    using wp_conj [OF Lookup_outcome q] assms
    by (elim wp_mono)
      (auto simp: wp_simps lookupPost_def refusedBy_def apiError_def foreignOrigin_def fail_def authorised_def
        split: sum.splits option.splits)
  then show ?thesis by (simp add: protected_def respond_def wp_simps)
qed

lemma dispatch_refuses:
  assumes "guardedRoute (routeOf (rq_path rq))" and "\<not> authorised a rq w"
  shows "wp (dispatch a rq) (refusedBy w) w"
  using assms protected_refuses [OF assms(2)]
  by (auto simp: dispatch_def Let_def openHandler_guarded wp_simps refusedBy_def apiError_def quiet.refl)

section \<open>Upload sessions behind a challenge\<close>

lemma wpE_respond [vcg]:
  assumes "wpE m (\<lambda>x. wpE (next x) Q E) (\<lambda>t. (\<forall>e. Q (f e) t) \<and> E t) w"
  shows "wpE (respond f m next) Q E w"
proof -
  have "wp m (\<lambda>r. case r of Inl e \<Rightarrow> (\<lambda>t. (\<forall>e. Q (f e) t) \<and> E t) | Inr x \<Rightarrow> wpE (next x) Q E) w"
    using assms by (auto simp: wp_def wpE_def split: prod.splits sum.splits)
  then show ?thesis
    by (auto simp: respond_def wp_def wpE_def tryE_def raise_def ret_def split: prod.splits sum.splits)
qed

definition sameTrace :: "world \<Rightarrow> world \<Rightarrow> bool" where
  "sameTrace s t \<longleftrightarrow> trace t = trace s"

interpretation same_trace: tx_order sameTrace
  by unfold_locales (auto simp: sameTrace_def)

lemma CreateAttributedSession_trace: "upholds sameTrace (CreateAttributedSession sv public checked name)"
proof -
  have lock: "upholds sameTrace (withRLock i m)" if "upholds sameTrace m" for i and m :: "'b wop"
    using that by (rule same_trace.up_withRLock [rotated 2]) (simp_all add: sameTrace_def rlock_def runlock_def)
  show ?thesis
    unfolding CreateAttributedSession_def openEvent_def getPublic_def checkOpen_def Let_def
    by (intro lock same_trace.up_rules same_trace.up_world same_trace.up_inTx same_trace.up_exec) (simp add: sameTrace_def)
qed

text \<open>The service vouched for the token, for this host and this action.\<close>

definition solved :: "application \<Rightarrow> bool" where
  "solved a \<longleftrightarrow> (\<exists>k vf. vr_result (ap_verify a k) = Some vf \<and> vr_status (ap_verify a k) = 200 \<and> vf_success vf \<and>
     equalFold (vf_hostname vf) (challengeHost a) \<and> vf_action vf = challengeAction)"

text \<open>At most one token is redeemed; and if a row was written, it was, and the service vouched for it.\<close>

definition gatePost :: "application \<Rightarrow> http_request \<Rightarrow> world \<Rightarrow> world \<Rightarrow> bool" where
  "gatePost a rq w v \<longleftrightarrow>
     (wdb v = wdb w \<and> (trace v = trace w \<or> (\<exists>token. trace v = trace w @ [CallChallenge token]))) \<or>
     (solved a \<and> (\<exists>token name. rq_body rq = Decoded (InSession token name) \<and> trace v = trace w @ [CallChallenge token]))"

lemma ValidateChallenge_solved:
  "ValidateChallenge vf host = None \<Longrightarrow> vf_success vf \<and> equalFold (vf_hostname vf) host \<and> vf_action vf = challengeAction"
  by (auto simp: ValidateChallenge_def split: if_splits)

lemma gate_untouched: "wdb v = wdb w \<Longrightarrow> trace v = trace w \<Longrightarrow> gatePost a rq w v"
  and gate_asked: "wdb v = wdb w \<Longrightarrow> trace v = trace w @ [CallChallenge token] \<Longrightarrow> gatePost a rq w v"
  by (auto simp: gatePost_def)

lemma storeSession_gate:
  assumes "trace s = trace w @ [CallChallenge token]" and "solved a" and "rq_body rq = Decoded (InSession token name)"
  shows "wpE (storeSession a public True name) (\<lambda>_. gatePost a rq w) (gatePost a rq w) s"
proof -
  have kept: "gatePost a rq w t" if "sameTrace s t" for t
    using that assms by (auto simp: gatePost_def sameTrace_def)
  have "wpE (CreateAttributedSession (ap_media a) public True name) (\<lambda>_. sameTrace s) (sameTrace s) s"
    using CreateAttributedSession_trace by (rule wpE_upholds)
  then show ?thesis
    unfolding storeSession_def
    by (intro wpE_respond) (auto elim!: wpE_mono intro!: wpE_ret kept)
qed

lemma challenged_gate:
  assumes "rq_body rq = Decoded (InSession token name)" and "wdb s = wdb w" "trace s = trace w"
  shows "wpE (challenged a rq public token (storeSession a public True name)) (\<lambda>_. gatePost a rq w) (gatePost a rq w) s"
  unfolding challenged_def VerifyChallenge_def getPublic_def using assms
  apply (intro vcg; (auto simp: gate_untouched gate_asked; fail)?)
  apply (rule storeSession_gate)
    apply (auto simp: solved_def dest!: ValidateChallenge_solved)
  done

lemma createUploadSession_gate:
  assumes "ap_site_key a \<noteq> []" and "wdb s = wdb w" "trace s = trace w"
  shows "wpE (createUploadSession a public rq) (\<lambda>_. gatePost a rq w) (gatePost a rq w) s"
proof -
  have input: "rq_body rq = Decoded (InSession token name)" if "decodeJSON rq sessionInput = Inr (token, name)" for token name
    using that by (auto simp: decodeJSON_def split: prod.splits if_splits decoded.splits option.splits elim!: sessionInput.elims)
  show ?thesis
    unfolding createUploadSession_def withBody_def using assms
    by (intro vcg) (auto simp: gate_untouched split: sum.splits intro!: challenged_gate dest!: input)
qed

lemma wpE_limited:
  assumes "\<And>s. wdb s = wdb w \<Longrightarrow> trace s = trace w \<Longrightarrow> wpE next Q E s"
    and "\<And>s x. wdb s = wdb w \<Longrightarrow> trace s = trace w \<Longrightarrow> Q x s"
    and "\<And>s. wdb s = wdb w \<Longrightarrow> trace s = trace w \<Longrightarrow> E s"
  shows "wdb s = wdb w \<Longrightarrow> trace s = trace w \<Longrightarrow> wpE (limited a ks next) Q E s"
proof (induction ks arbitrary: s)
  case Nil
  then show ?case using assms by simp
next
  case (Cons k ks)
  then show ?case
    by (cases k) (auto simp: Allow_def intro!: vcg Cons.IH assms(2))
qed

lemma guarded_gate:
  assumes "ap_site_key a \<noteq> []"
  shows "wpE (guarded a scope public sessionID rq (createUploadSession a public rq)) (\<lambda>_. gatePost a rq w) (gatePost a rq w) w"
  unfolding guarded_def
  by (intro wpE_if wpE_ret wpE_limited createUploadSession_gate assms) (simp_all add: gate_untouched)

lemma dispatch_gate:
  assumes "ap_site_key a \<noteq> []" and "routeOf (rq_path rq) = RSessions public"
  shows "gatePost a rq w (snd (dispatch a rq w))"
proof -
  have "wpE (dispatch a rq) (\<lambda>_. gatePost a rq w) (gatePost a rq w) w"
    using assms guarded_gate [OF assms(1), where w = w and rq = rq] by (auto simp: dispatch_def Let_def intro!: wpE_ret gate_untouched)
  then show ?thesis by (rule wpE_state)
qed

end
