(* ===== verification/StartupSafe.thy ===== *)
theory StartupSafe
  imports Startup
begin

text \<open>
  What start-up guarantees: a name that was bound once keeps its address, every stored object's backend is known
  afterwards, and starting again with the same configuration writes nothing.
\<close>

section \<open>Names of backends\<close>

definition knownAs :: "db \<Rightarrow> string \<times> s3_settings \<Rightarrow> bool" where
  "knownAs d kc \<longleftrightarrow> (\<exists>b \<in> set (backends d). sb_key b = fst kc \<and> sameAddress (snd kc) b)"

definition boundTo :: "db \<Rightarrow> string \<times> s3_settings \<Rightarrow> string \<times> s3cfg \<Rightarrow> bool" where
  "boundTo d kc ks \<longleftrightarrow> fst ks = fst kc \<and>
     (\<exists>b \<in> set (backends d). sb_key b = fst kc \<and> sameAddress (snd kc) b \<and> snd ks = newS3 (sb_id b) (snd kc))"

text \<open>New rows come after the old ones, under configured names that had none.\<close>

definition extends :: "string set \<Rightarrow> db \<Rightarrow> db \<Rightarrow> bool" where
  "extends names d d' \<longleftrightarrow>
     (\<exists>new. d' = d\<lparr>backends := backends d @ new\<rparr> \<and>
        (\<forall>b \<in> set new. sb_key b \<in> names \<and> sb_type b = ''s3'' \<and> backendOf (sb_key b) d = None))"

lemma extends_refl: "extends names d d"
  by (auto simp: extends_def intro: exI [of _ "[]"])

lemma backendOf_None: "backendOf key d = None \<longleftrightarrow> key \<notin> sb_key ` set (backends d)"
  by (auto simp: backendOf_def find_None)

lemma extends_trans:
  assumes "extends names d d'" and "extends names d' d''"
  shows "extends names d d''"
proof -
  from assms(1) obtain xs where xs: "d' = d\<lparr>backends := backends d @ xs\<rparr>"
    "\<forall>b \<in> set xs. sb_key b \<in> names \<and> sb_type b = ''s3'' \<and> backendOf (sb_key b) d = None" by (auto simp: extends_def)
  from assms(2) obtain ys where ys: "d'' = d'\<lparr>backends := backends d' @ ys\<rparr>"
    "\<forall>b \<in> set ys. sb_key b \<in> names \<and> sb_type b = ''s3'' \<and> backendOf (sb_key b) d' = None" by (auto simp: extends_def)
  have "d'' = d\<lparr>backends := backends d @ xs @ ys\<rparr>" using xs ys by simp
  moreover have "\<forall>b \<in> set (xs @ ys). sb_key b \<in> names \<and> sb_type b = ''s3'' \<and> backendOf (sb_key b) d = None"
    using xs ys by (auto simp: backendOf_None)
  ultimately show ?thesis unfolding extends_def by blast
qed

lemma extends_mono: "extends names d d' \<Longrightarrow> names \<subseteq> names' \<Longrightarrow> extends names' d d'"
  by (fastforce simp: extends_def)

lemma boundTo_extends: "boundTo d kc ks \<Longrightarrow> extends names d d' \<Longrightarrow> boundTo d' kc ks"
  by (auto simp: boundTo_def extends_def)

lemma extends_snoc:
  "sb_key b \<in> names \<Longrightarrow> sb_type b = ''s3'' \<Longrightarrow> backendOf (sb_key b) d = None \<Longrightarrow>
   extends names d (d\<lparr>backends := backends d @ [b]\<rparr>)"
  unfolding extends_def by (intro exI [of _ "[b]"]) simp

lemma insertBackend_bound:
  "insertBackend key c d = Inr (d', i) \<Longrightarrow> extends {key} d d' \<and> boundTo d' (key, c) (key, newS3 i c)"
  by (auto simp: insertBackend_def Let_def boundTo_def sameAddress_def backendOf_None list_ex_iff split: if_splits intro!: extends_snoc)

lemma registerBackend_result:
  "wpE (registerBackend kc) (\<lambda>r v. extends {fst kc} (wdb w) (wdb v) \<and> boundTo (wdb v) kc r) (\<lambda>_. True) w"
proof (cases kc)
  case (Pair key c)
  have "wpE (tryE (queryRow (backendOf key)) (\<lambda>r. case r of
            Inr b \<Rightarrow> if sameAddress c b then ret (sb_id b) else raise (Failure ''storage backend addressing differs'')
          | Inl e \<Rightarrow> if e = NoRows then exec (insertBackend key c) else raise e))
      (\<lambda>i v. extends {key} (wdb w) (wdb v) \<and> boundTo (wdb v) kc (key, newS3 i c)) (\<lambda>_. True) s" if "wdb s = wdb w" for s
    using that Pair
    by (intro wpE_try_queryRow)
      (auto intro!: vcg simp: extends_refl dest: insertBackend_bound simp: boundTo_def backendOf_def dest!: find_SomeD)
  note this [OF refl]
  then show ?thesis
    unfolding registerBackend_def Pair prod.case
    by (intro wpE_bindE wpE_failIf TrueI) (rule wpE_mono, assumption, auto simp: wpE_ret)
qed

lemma registerAll_result:
  "wpE (registerAll kcs) (\<lambda>rs v. extends (fst ` set kcs) (wdb w) (wdb v) \<and> list_all2 (boundTo (wdb v)) kcs rs) (\<lambda>_. True) w"
proof (induction kcs arbitrary: w)
  case Nil
  then show ?case by (simp add: wpE_ret extends_refl)
next
  case (Cons kc kcs)
  show ?case
    unfolding registerAll.simps
  proof (rule wpE_step [OF registerBackend_result], rule wpE_step [OF Cons.IH], rule wpE_ret, goal_cases)
    case (1 r s rs t)
    then show ?case
      by (auto intro: boundTo_extends extends_trans [OF extends_mono extends_mono])
  qed
qed

lemma extends_known:
  assumes "extends (fst ` set kcs) d d'" and "\<forall>kc \<in> set kcs. knownAs d kc"
  shows "d' = d"
proof -
  from assms(1) obtain new where new: "d' = d\<lparr>backends := backends d @ new\<rparr>"
    and b: "\<forall>b \<in> set new. sb_key b \<in> fst ` set kcs \<and> backendOf (sb_key b) d = None"
    by (auto simp: extends_def)
  have "new = []"
  proof (rule ccontr)
    assume "new \<noteq> []"
    with b obtain x where "x \<in> set new" "sb_key x \<in> fst ` set kcs" "backendOf (sb_key x) d = None" by (cases new) auto
    then obtain kc where "kc \<in> set kcs" "fst kc = sb_key x" by auto
    with assms(2) obtain y where "y \<in> set (backends d)" "sb_key y = sb_key x" by (auto simp: knownAs_def)
    with \<open>backendOf (sb_key x) d = None\<close> show False by (auto simp: backendOf_None image_iff)
  qed
  with new show ?thesis by simp
qed

section \<open>Rows from before backends had names\<close>

definition reboundTo :: "s3cfg set \<Rightarrow> asset_row \<Rightarrow> asset_row \<Rightarrow> bool" where
  "reboundTo ss a a' \<longleftrightarrow> a' = a \<or>
     (as_backend a = 0 \<and> (\<exists>s \<in> ss. s3_target s = as_target a \<and> a' = a\<lparr>as_backend := s3_id s\<rparr>))"

definition reboundKey :: "s3cfg set \<Rightarrow> cleanup_row \<Rightarrow> cleanup_row \<Rightarrow> bool" where
  "reboundKey ss c c' \<longleftrightarrow> c' = c \<or>
     (cl_backend c = 0 \<and> (\<exists>s \<in> ss. s3_target s = cl_target c \<and> c' = c\<lparr>cl_backend := s3_id s\<rparr>))"

definition rebound :: "s3cfg set \<Rightarrow> db \<Rightarrow> db \<Rightarrow> bool" where
  "rebound ss d d' \<longleftrightarrow> list_all2 (reboundTo ss) (assets d) (assets d') \<and> list_all2 (reboundKey ss) (retired d) (retired d') \<and>
     d'\<lparr>assets := [], retired := []\<rparr> = d\<lparr>assets := [], retired := []\<rparr>"

lemma rebound_refl: "rebound ss d d"
  by (auto simp: rebound_def reboundTo_def reboundKey_def list_all2_same)

lemma reboundTo_trans: "reboundTo ss a b \<Longrightarrow> reboundTo ss b c \<Longrightarrow> reboundTo ss a c"
  and reboundKey_trans: "reboundKey ss x y \<Longrightarrow> reboundKey ss y z \<Longrightarrow> reboundKey ss x z"
  by (auto simp: reboundTo_def reboundKey_def)

lemma rebound_trans: "rebound ss d d' \<Longrightarrow> rebound ss d' d'' \<Longrightarrow> rebound ss d d''"
  unfolding rebound_def by (auto intro: list_all2_trans [OF reboundTo_trans] list_all2_trans [OF reboundKey_trans])

lemma bindAssets_rebound: "bindAssets (s3_id s) (s3_target s) d = Inr (d', u) \<Longrightarrow> s \<in> ss \<Longrightarrow> rebound ss d d'"
  and bindRetired_rebound: "bindRetired (s3_id s) (s3_target s) d = Inr (d', u) \<Longrightarrow> s \<in> ss \<Longrightarrow> rebound ss d d'"
  by (auto simp: bindAssets_def bindRetired_def rebound_def updWhere_def list_all2_same list_all2_map2 reboundTo_def reboundKey_def)

lemma bindLegacy_rebound:
  "wpE (bindLegacy runtime t) (\<lambda>_ v. rebound (snd ` set runtime) (wdb w) (wdb v)) (\<lambda>_. True) w"
proof -
  have "wpE (bindE (exec (bindAssets (s3_id s) t)) (\<lambda>_. exec (bindRetired (s3_id s) t)))
      (\<lambda>_ v. rebound (snd ` set runtime) (wdb w) (wdb v)) (\<lambda>_. True) w"
    if "filter (\<lambda>s. s3_target s = t) (map snd runtime) = [s]" for s
  proof -
    from that have "s \<in> set (filter (\<lambda>s. s3_target s = t) (map snd runtime))" by simp
    then have "s \<in> snd ` set runtime" "s3_target s = t" by auto
    then show ?thesis
      by (intro vcg) (auto intro: rebound_trans bindAssets_rebound bindRetired_rebound)
  qed
  then show ?thesis
    unfolding bindLegacy_def by (auto split: list.split intro!: wpE_raise)
qed

section \<open>Start-up as a whole\<close>

text \<open>Every configured name has a row with its address, and every stored object has a backend.\<close>

definition settled :: "storage_config \<Rightarrow> db \<Rightarrow> bool" where
  "settled cfg d \<longleftrightarrow> (\<forall>kc \<in> set (cs_backends cfg). knownAs d kc) \<and> unresolved d = 0"

definition startedPost :: "storage_config \<Rightarrow> db \<Rightarrow> err + backend_set \<Rightarrow> world \<Rightarrow> bool" where
  "startedPost cfg d r v \<longleftrightarrow>
     (case r of
        Inl e \<Rightarrow> e \<in> {EIo, ECrashed} \<or> wdb v = d
      | Inr bs \<Rightarrow>
          settled cfg (wdb v) \<and> (settled cfg d \<longrightarrow> wdb v = d) \<and>
          (\<exists>m ss. extends (fst ` set (cs_backends cfg)) d m \<and> rebound ss m (wdb v) \<and>
             (\<forall>s \<in> ss. \<exists>kc \<in> set (cs_backends cfg). \<exists>b \<in> set (backends (wdb v)).
                sb_key b = fst kc \<and> sameAddress (snd kc) b \<and> s = newS3 (sb_id b) (snd kc))) \<and>
          (\<exists>runtime. bs = backendSet cfg runtime (backends (wdb v)) \<and>
             list_all2 (boundTo (wdb v)) (sort_key fst (cs_backends cfg)) runtime) \<and>
          (\<exists>active. resolve bs (bs_active bs) = Inr active \<and> (cs_provider cfg = ''s3'' \<longrightarrow> be_type active = ''s3'')))"

lemma unresolved_0: "unresolved d = 0 \<Longrightarrow> legacyTargets d = []"
proof -
  assume "unresolved d = 0"
  then have "countWhere (\<lambda>a. as_backend a = 0) (assets d) = 0" "countWhere (\<lambda>c. cl_backend c = 0) (retired d) = 0"
    using countWhere_nonneg [of "\<lambda>a. as_backend a = 0" "assets d"] countWhere_nonneg [of "\<lambda>c. cl_backend c = 0" "retired d"]
    unfolding unresolved_def by linarith+
  then show "legacyTargets d = []"
    by (auto simp: legacyTargets_def countWhere_def filter_empty_conv)
qed

lemma boundTo_rebound: "boundTo d kc ks \<Longrightarrow> rebound ss d d' \<Longrightarrow> boundTo d' kc ks"
proof -
  assume "boundTo d kc ks" and "rebound ss d d'"
  moreover from this(2) have "backends (d'\<lparr>assets := [], retired := []\<rparr>) = backends (d\<lparr>assets := [], retired := []\<rparr>)"
    unfolding rebound_def by metis
  ultimately show ?thesis by (simp add: boundTo_def)
qed

lemma boundTo_sources:
  assumes "list_all2 (boundTo d) kcs rs" and "s \<in> snd ` set rs"
  shows "\<exists>kc \<in> set kcs. \<exists>b \<in> set (backends d). sb_key b = fst kc \<and> sameAddress (snd kc) b \<and> s = newS3 (sb_id b) (snd kc)"
  using assms by (induction rule: list_all2_induct) (auto simp: boundTo_def)

lemma bound_known: "list_all2 (boundTo d) kcs rs \<Longrightarrow> kc \<in> set kcs \<Longrightarrow> knownAs d kc"
  by (induction rule: list_all2_induct) (auto simp: boundTo_def knownAs_def)

lemma startedI:
  assumes bound: "list_all2 (boundTo m) (sort_key fst (cs_backends cfg)) runtime"
    and ext: "extends (fst ` set (cs_backends cfg)) d m"
    and reb: "rebound (snd ` set runtime) m (wdb v)" and none: "legacyTargets m = [] \<longrightarrow> wdb v = m"
    and all: "unresolved (wdb v) = 0"
    and res: "bs = backendSet cfg runtime (backends (wdb v))" "resolve bs (bs_active bs) = Inr active"
      "cs_provider cfg = ''s3'' \<longrightarrow> be_type active = ''s3''"
  shows "startedPost cfg d (Inr bs) v"
proof -
  have b: "list_all2 (boundTo (wdb v)) (sort_key fst (cs_backends cfg)) runtime"
    using bound by (rule list_all2_mono) (rule boundTo_rebound [OF _ reb])
  then have settled: "settled cfg (wdb v)"
    using all by (auto simp: settled_def dest: bound_known)
  have same: "wdb v = d" if "settled cfg d"
  proof -
    have "m = d" using ext that by (auto simp: settled_def dest: extends_known)
    with that none show ?thesis by (auto simp: settled_def dest: unresolved_0)
  qed
  have "\<forall>s \<in> snd ` set runtime. \<exists>kc \<in> set (cs_backends cfg). \<exists>b \<in> set (backends (wdb v)).
      sb_key b = fst kc \<and> sameAddress (snd kc) b \<and> s = newS3 (sb_id b) (snd kc)"
    using boundTo_sources [OF b] by auto
  with ext reb have "\<exists>m ss. extends (fst ` set (cs_backends cfg)) d m \<and> rebound ss m (wdb v) \<and>
      (\<forall>s \<in> ss. \<exists>kc \<in> set (cs_backends cfg). \<exists>b \<in> set (backends (wdb v)).
         sb_key b = fst kc \<and> sameAddress (snd kc) b \<and> s = newS3 (sb_id b) (snd kc))" by blast
  with settled same b res show ?thesis
    unfolding startedPost_def sum.case by blast
qed

lemma reconcileTx_result:
  "wpE (reconcileTx cfg) (\<lambda>bs. startedPost cfg (wdb w) (Inr bs)) (\<lambda>_. True) w"
  unfolding reconcileTx_def Let_def
proof (intro wpE_step [OF registerAll_result], goal_cases)
  case (1 runtime s)
  then have bound: "list_all2 (boundTo (wdb s)) (sort_key fst (cs_backends cfg)) runtime"
    and ext: "extends (fst ` set (cs_backends cfg)) (wdb w) (wdb s)" by simp_all
  show ?case
  proof (intro wpE_bindE wpE_query TrueI, goal_cases)
    case (1 ts m)
    have loop: "wpE (forE (bindLegacy runtime) ts)
        (\<lambda>_ t. rebound (snd ` set runtime) (wdb s) (wdb t)) (\<lambda>_. True) (s\<lparr>tick := m\<rparr>)"
      by (rule wpE_forE [where I = "\<lambda>t. rebound (snd ` set runtime) (wdb s) (wdb t)"])
        (auto simp: rebound_refl intro: wpE_mono [OF bindLegacy_rebound] rebound_trans)
    have none: "wpE (forE (bindLegacy runtime) ts) (\<lambda>_ t. ts = [] \<longrightarrow> wdb t = wdb s) (\<lambda>_. True) (s\<lparr>tick := m\<rparr>)"
      by (cases ts) (auto simp: wpE_ret wpE_triv)
    from 1 have ts: "ts = legacyTargets (wdb s)" by simp
    show ?case
    proof (rule wpE_mono [OF wpE_conj [OF loop none]], goal_cases)
      case (1 u t)
      then show ?case using bound ext
        by (intro vcg TrueI) (auto intro!: startedI simp: ts)
    qed simp
  qed
qed

lemma ReconcileBackends_result:
  "wpE (ReconcileBackends cfg) (\<lambda>bs. startedPost cfg (wdb w) (Inr bs))
     (\<lambda>t. wdb t = wdb w \<or> (\<exists>bs. startedPost cfg (wdb w) (Inr bs) t)) w"
  unfolding ReconcileBackends_def
proof (rule wpE_inTx)
  let ?E = "\<lambda>t. wdb t = wdb w \<or> (\<exists>bs. startedPost cfg (wdb w) (Inr bs) t)"
  fix n
  show "wpE (reconcileTx cfg)
      (\<lambda>bs t. (\<forall>n b. ?E (t\<lparr>wdb := wdb w, tick := n, dead := b\<rparr>)) \<and> (\<forall>n b. ?E (t\<lparr>tick := n, dead := b\<rparr>)) \<and>
         (\<forall>n. startedPost cfg (wdb w) (Inr bs) (t\<lparr>tick := n\<rparr>)))
      (\<lambda>t. ?E (t\<lparr>wdb := wdb w\<rparr>)) (w\<lparr>tick := n\<rparr>)"
    by (rule wpE_mono [OF reconcileTx_result]) (auto simp: startedPost_def)
qed simp

lemma ReconcileBackends_outcome: "wp (ReconcileBackends cfg) (startedPost cfg (wdb w)) w"
proof -
  have "rejects (ReconcileBackends cfg)" unfolding ReconcileBackends_def by (rule rejects_inTx)
  with ReconcileBackends_result [of cfg w] show ?thesis
    by (auto simp: wp_def wpE_def startedPost_def split: prod.splits sum.splits dest: rejectsD)
qed

section \<open>What start-up leaves alone\<close>

definition onlyTables :: "world \<Rightarrow> world \<Rightarrow> bool" where
  "onlyTables s t \<longleftrightarrow> files t = files s \<and> readers t = readers s \<and> outputDir t = outputDir s \<and> trace t = trace s"

interpretation only_tables: tx_order onlyTables
  by unfold_locales (auto simp: onlyTables_def)

lemma onlyTables_exec: "upholds onlyTables (exec f)"
  by (rule only_tables.up_exec) (simp add: onlyTables_def)

lemma reconcileTx_onlyTables: "upholds onlyTables (reconcileTx cfg)"
proof -
  have "upholds onlyTables (registerBackend kc)" for kc
    unfolding registerBackend_def by (intro only_tables.up_rules only_tables.up_world onlyTables_exec)
  then have "upholds onlyTables (registerAll kcs)" for kcs
    by (induction kcs) (auto intro!: only_tables.up_rules)
  moreover have "upholds onlyTables (bindLegacy runtime t)" for runtime t
    unfolding bindLegacy_def by (auto split: list.splits intro!: only_tables.up_rules onlyTables_exec)
  ultimately show ?thesis
    unfolding reconcileTx_def Let_def by (intro only_tables.up_rules only_tables.up_world)
qed

lemma ReconcileBackends_onlyTables: "upholds onlyTables (ReconcileBackends cfg)"
  unfolding ReconcileBackends_def by (rule only_tables.up_inTx [OF reconcileTx_onlyTables])

end
