(* ===== verification/ReadingSafe.thy ===== *)
theory ReadingSafe
  imports Reading
begin

text \<open>
  What the reads return: the statistics are the counts and sums of the event's rows, the contributor
  summary counts every ready row under its label, a snapshot lists exactly the ready rows and blocks
  deletion while it is open, and a stream is only handed out when it is the object that the row describes.
\<close>

section \<open>Statistics\<close>

lemma sumWhere_disj:
  "(\<And>r. r \<in> set rows \<Longrightarrow> \<not> (P r \<and> Q r)) \<Longrightarrow> sumWhere (\<lambda>r. P r \<or> Q r) f rows = sumWhere P f rows + sumWhere Q f rows"
  by (induction rows) auto

lemma countWhere_sum: "countWhere P rows = sumWhere P (\<lambda>_. 1) rows"
  by (induction rows) auto

lemma wrap64_add: "wrap64 (wrap64 a + b) = wrap64 (a + b)"
  by (simp add: wrap64_def mod_simps algebra_simps)

lemma wrap64_id: "int64 i \<Longrightarrow> wrap64 i = i"
  by (simp add: wrap64_def int64_def)

definition ofGroups :: "(int \<times> string option) list \<Rightarrow> int \<Rightarrow> asset_row \<Rightarrow> bool" where
  "ofGroups gs e a \<longleftrightarrow> as_event a = e \<and> (as_event a, as_class a) \<in> set gs"

lemma ofGroups_snoc:
  assumes "g \<notin> set gs"
  shows "sumWhere (\<lambda>a. ofGroups (gs @ [g]) e a \<and> K a) f rows =
    sumWhere (\<lambda>a. ofGroups gs e a \<and> K a) f rows + (if fst g = e then sumWhere (\<lambda>a. groupOf g a \<and> K a) f rows else 0)"
proof -
  have "sumWhere (\<lambda>a. ofGroups (gs @ [g]) e a \<and> K a) f rows =
      sumWhere (\<lambda>a. (ofGroups gs e a \<and> K a) \<or> (fst g = e \<and> groupOf g a \<and> K a)) f rows"
    by (rule sumWhere_cong) (auto simp: ofGroups_def groupOf_def)
  also have "\<dots> = sumWhere (\<lambda>a. ofGroups gs e a \<and> K a) f rows + sumWhere (\<lambda>a. fst g = e \<and> groupOf g a \<and> K a) f rows"
    using assms by (intro sumWhere_disj) (auto simp: ofGroups_def groupOf_def)
  finally show ?thesis by (auto simp: sumWhere_def)
qed

text \<open>The statistics of the rows that some of the groups hold.\<close>

definition groupStats :: "(int \<times> string option) list \<Rightarrow> int \<Rightarrow> asset_row list \<Rightarrow> stats" where
  "groupStats gs e rows =
     (let t = typeStats (ofGroups gs e) rows;
          cls = (\<lambda>c. if (e, Some c) \<in> set gs then typeStats (groupOf (e, Some c)) rows else noTypeStats)
      in \<lparr>st_photo_count = wrap64 (ts_ready t), st_ready_count = wrap64 (ts_ready t),
          st_storage_bytes = wrap64 (ts_bytes t), st_pending_count = wrap64 (ts_pending t),
          st_reserved_bytes = wrap64 (ts_reserved t), st_photos = cls ''photo'', st_videos = cls ''video''\<rparr>)"

lemma readyIn_eq: "readyIn P = (\<lambda>a. P a \<and> as_status a = Ready)"
  and pendingIn_eq: "pendingIn P = (\<lambda>a. P a \<and> as_status a = Pending)"
  by (simp_all add: readyIn_def pendingIn_def fun_eq_iff)

lemma typeStats_snoc:
  assumes "g \<notin> set gs" and "fst g = e"
  shows "ts_ready (typeStats (ofGroups (gs @ [g]) e) rows) = ts_ready (typeStats (ofGroups gs e) rows) + ts_ready (typeStats (groupOf g) rows)"
    "ts_bytes (typeStats (ofGroups (gs @ [g]) e) rows) = ts_bytes (typeStats (ofGroups gs e) rows) + ts_bytes (typeStats (groupOf g) rows)"
    "ts_pending (typeStats (ofGroups (gs @ [g]) e) rows) = ts_pending (typeStats (ofGroups gs e) rows) + ts_pending (typeStats (groupOf g) rows)"
    "ts_reserved (typeStats (ofGroups (gs @ [g]) e) rows) = ts_reserved (typeStats (ofGroups gs e) rows) + ts_reserved (typeStats (groupOf g) rows)"
  using assms ofGroups_snoc [OF assms(1), of e "\<lambda>a. as_status a = Ready"] ofGroups_snoc [OF assms(1), of e "\<lambda>a. as_status a = Pending"]
  by (simp_all add: typeStats_def readyIn_eq pendingIn_eq countWhere_sum)

lemma addTyped_snoc:
  assumes "g \<notin> set gs" and "fst g = e"
  shows "addTyped (snd g) (typeStats (groupOf g) rows) (groupStats gs e rows) = groupStats (gs @ [g]) e rows"
proof -
  have g: "g = (e, snd g)" using assms by (cases g) simp
  have "(e, Some c) \<in> set (gs @ [g]) \<longleftrightarrow> (e, Some c) \<in> set gs \<or> snd g = Some c" for c
    using g by (cases g) auto
  moreover have "(e, Some c) \<notin> set gs" "g = (e, Some c)" if "snd g = Some c" for c
    using that g assms by auto
  ultimately show ?thesis
    using typeStats_snoc [OF assms, of rows]
    by (auto simp: addTyped_def groupStats_def Let_def wrap64_add)
qed

lemma groupStats_other: "fst g \<noteq> e \<Longrightarrow> groupStats (gs @ [g]) e rows = groupStats gs e rows"
proof -
  assume "fst g \<noteq> e"
  then have "ofGroups (gs @ [g]) e = ofGroups gs e" "(e, Some c) \<in> set (gs @ [g]) \<longleftrightarrow> (e, Some c) \<in> set gs" for c
    by (auto simp: ofGroups_def fun_eq_iff)
  then show ?thesis by (simp add: groupStats_def)
qed

lemma groupStats_none:
  assumes "\<forall>g \<in> set gs. fst g \<noteq> e"
  shows "groupStats gs e rows = noStats"
proof -
  have "ofGroups gs e a = False" for a using assms by (force simp: ofGroups_def)
  then have "typeStats (ofGroups gs e) rows = noTypeStats"
    by (simp add: typeStats_def noTypeStats_def readyIn_def pendingIn_def countWhere_def sumWhere_def)
  moreover have "(e, Some c) \<notin> set gs" for c using assms by force
  ultimately show ?thesis by (simp add: groupStats_def noStats_def Let_def noTypeStats_def wrap64_id int64_def)
qed

lemma addGroup_at:
  "addGroup rows g m e =
     (if fst g = e then Some (addTyped (snd g) (typeStats (groupOf g) rows) (case m e of None \<Rightarrow> noStats | Some s \<Rightarrow> s))
      else m e)"
  by (auto simp: addGroup_def)

lemma fold_groups:
  "distinct gs \<Longrightarrow> fold (addGroup rows) gs Map.empty e =
     (if \<exists>g \<in> set gs. fst g = e then Some (groupStats gs e rows) else None)"
proof (induction gs rule: rev_induct)
  case (snoc g gs)
  then have g: "g \<notin> set gs" and IH: "fold (addGroup rows) gs Map.empty e =
     (if \<exists>g \<in> set gs. fst g = e then Some (groupStats gs e rows) else None)" by auto
  show ?case
  proof (cases "fst g = e")
    case True
    have "(case fold (addGroup rows) gs Map.empty e of None \<Rightarrow> noStats | Some s \<Rightarrow> s) = groupStats gs e rows"
      using IH groupStats_none [of gs e rows] by (auto split: if_splits)
    then show ?thesis using True addTyped_snoc [OF g True] addGroup_at [of rows g] by simp
  next
    case False
    with IH groupStats_other [OF False] addGroup_at [of rows g] show ?thesis by auto
  qed
qed simp

text \<open>What the statistics of an event should be.\<close>

definition eventStats :: "int \<Rightarrow> asset_row list \<Rightarrow> stats" where
  "eventStats e rows =
     (let t = typeStats (ofEvent e) rows
      in \<lparr>st_photo_count = wrap64 (ts_ready t), st_ready_count = wrap64 (ts_ready t),
          st_storage_bytes = wrap64 (ts_bytes t), st_pending_count = wrap64 (ts_pending t),
          st_reserved_bytes = wrap64 (ts_reserved t), st_photos = typeStats (ofClass e ''photo'') rows,
          st_videos = typeStats (ofClass e ''video'') rows\<rparr>)"

lemma typeStats_cong: "(\<And>a. a \<in> set rows \<Longrightarrow> P a = Q a) \<Longrightarrow> typeStats P rows = typeStats Q rows"
  by (auto simp: typeStats_def readyIn_def pendingIn_def countWhere_sum intro!: sumWhere_cong)

lemma typeStats_empty: "(\<And>a. a \<in> set rows \<Longrightarrow> \<not> P a) \<Longrightarrow> typeStats P rows = noTypeStats"
  by (auto simp: typeStats_def noTypeStats_def readyIn_def pendingIn_def countWhere_def sumWhere_def filter_empty_conv)

lemma groupStats_all: "groupStats (statGroups rows) e rows = eventStats e rows"
proof -
  have mem: "(as_event a, as_class a) \<in> set (statGroups rows)" if "a \<in> set rows" for a
    using that by (auto simp: statGroups_def)
  have all: "typeStats (ofGroups (statGroups rows) e) rows = typeStats (ofEvent e) rows"
    by (rule typeStats_cong) (auto simp: ofGroups_def ofEvent_def dest: mem)
  have cls: "(if (e, Some c) \<in> set (statGroups rows) then typeStats (groupOf (e, Some c)) rows else noTypeStats)
      = typeStats (ofClass e c) rows" for c
  proof -
    have g: "groupOf (e, Some c) = ofClass e c" by (auto simp: groupOf_def ofClass_def fun_eq_iff)
    have "typeStats (ofClass e c) rows = noTypeStats" if "(e, Some c) \<notin> set (statGroups rows)"
      by (rule typeStats_empty) (use that in \<open>auto simp: ofClass_def dest: mem\<close>)
    with g show ?thesis by simp
  qed
  show ?thesis by (simp add: groupStats_def eventStats_def all cls)
qed

lemma Stats_result:
  "wpE Stats (\<lambda>m t. wdb t = wdb w \<and> (\<forall>e. m e =
      (if list_ex (ofEvent e) (assets (wdb w)) then Some (eventStats e (assets (wdb w))) else None))) (\<lambda>_. True) w"
proof -
  let ?rows = "assets (wdb w)"
  have "(\<exists>g \<in> set (statGroups ?rows). fst g = e) \<longleftrightarrow> list_ex (ofEvent e) ?rows" for e
    by (auto simp: statGroups_def list_ex_iff ofEvent_def)
  then have "fold (addGroup ?rows) (statGroups ?rows) Map.empty e =
      (if list_ex (ofEvent e) ?rows then Some (eventStats e ?rows) else None)" for e
    using fold_groups [of "statGroups ?rows" ?rows e] groupStats_all by (simp add: statGroups_def)
  then show ?thesis
    unfolding Stats_def by (intro wpE_query) (auto split: if_splits)
qed

section \<open>Contributors\<close>

text \<open>The summary is exact: each listed label with the number of its ready rows, in order, and a label is
left out only when a hundred others come first.\<close>

definition summaryOk :: "int \<Rightarrow> asset_row list \<Rightarrow> (string option \<times> int) list \<Rightarrow> bool" where
  "summaryOk e rows l \<longleftrightarrow> length l \<le> 100 \<and> distinct (map fst l) \<and> sorted (map (\<lambda>g. (- snd g, fst g)) l) \<and>
     (\<forall>(c, n) \<in> set l. n = countWhere (labelled e c) rows \<and> 0 < n) \<and>
     (\<forall>a \<in> set rows. labelled e (as_contributor a) a \<longrightarrow> as_contributor a \<in> fst ` set l \<or> length l = 100)"

lemma limitTo_cases: "0 \<le> n \<Longrightarrow> limitTo n xs = xs \<or> int (length (limitTo n xs)) = n"
proof (induction n xs rule: limitTo.induct)
  case (2 n x xs)
  show ?case
  proof (cases "n \<le> 0")
    case False
    with 2 have "limitTo (n - 1) xs = xs \<or> int (length (limitTo (n - 1) xs)) = n - 1" by auto
    with False show ?thesis by auto
  qed (use 2 in auto)
qed simp

lemma limitTo_take: "limitTo n xs = take (nat n) xs"
proof (induction n xs rule: limitTo.induct)
  case (2 n x xs)
  then show ?case by (cases "nat n") (auto simp: nat_diff_distrib)
qed simp

lemma contributorGroups_ok:
  "distinct (map fst (contributorGroups e rows))"
  "(c, n) \<in> set (contributorGroups e rows) \<Longrightarrow> n = countWhere (labelled e c) rows \<and> 0 < n"
  "a \<in> set rows \<Longrightarrow> labelled e (as_contributor a) a \<Longrightarrow> as_contributor a \<in> fst ` set (contributorGroups e rows)"
proof -
  show "distinct (map fst (contributorGroups e rows))" by (simp add: contributorGroups_def comp_def)
  have pos: "0 < countWhere (labelled e (as_contributor a)) rows"
    if "a \<in> set rows" "as_event a = e" "as_status a = Ready" for a
    using that by (auto simp: countWhere_def labelled_def filter_empty_conv)
  show "n = countWhere (labelled e c) rows \<and> 0 < n" if "(c, n) \<in> set (contributorGroups e rows)"
    using that pos by (auto simp: contributorGroups_def)
  show "as_contributor a \<in> fst ` set (contributorGroups e rows)" if "a \<in> set rows" "labelled e (as_contributor a) a"
    using that by (force simp: contributorGroups_def labelled_def)
qed

lemma contributors_summary:
  "summaryOk e rows (limitTo 100 (sort_key (\<lambda>g. (- snd g, fst g)) (contributorGroups e rows)))"
proof -
  let ?key = "\<lambda>g :: string option \<times> int. (- snd g, fst g)"
  let ?all = "sort_key ?key (contributorGroups e rows)"
  let ?l = "limitTo 100 ?all"
  have sub: "set ?l \<subseteq> set (contributorGroups e rows)" using set_limitTo by fastforce
  have dist: "distinct (map fst ?all)"
    using contributorGroups_ok(1) [of e rows] by (simp add: distinct_map inj_on_def)
  have "int (length ?l) \<le> 100" by (rule length_limitTo) simp
  moreover have "distinct (map fst ?l)" using dist by (simp add: limitTo_take flip: take_map)
  moreover have "sorted (map ?key ?l)" by (simp add: limitTo_take flip: take_map)
  moreover have "\<forall>(c, n) \<in> set ?l. n = countWhere (labelled e c) rows \<and> 0 < n"
    using sub contributorGroups_ok(2) by fastforce
  moreover have "as_contributor a \<in> fst ` set ?l \<or> length ?l = 100" if "a \<in> set rows" "labelled e (as_contributor a) a" for a
    using limitTo_cases [of 100 ?all] contributorGroups_ok(3) [OF that] by auto
  ultimately show ?thesis by (simp add: summaryOk_def)
qed

lemma Contributors_result:
  "wpE (Contributors e) (\<lambda>l t. wdb t = wdb w \<and> summaryOk e (assets (wdb w)) l) (\<lambda>_. True) w"
  unfolding Contributors_def by (intro wpE_query) (auto intro: contributors_summary)

section \<open>Snapshots\<close>

lemma getEvent_wpE:
  assumes "quiet w v"
  shows "wpE (getEvent i) (\<lambda>e t. quiet w t \<and> e \<in> set (events (wdb w)) \<and> ev_id e = i) (quiet w) v"
proof -
  have "wpE (getEvent i) (\<lambda>e _. e \<in> set (events (wdb w)) \<and> ev_id e = i) (\<lambda>_. True) v"
    using getEvent_row [of i v] assms by (auto simp: wpE_def quiet_def split: prod.splits sum.splits)
  moreover have "wpE (getEvent i) (\<lambda>_ t. quiet w t) (quiet w) v"
    by (rule wpE_mono [OF wpE_upholds [OF quiet_reads(2)]]) (auto intro: quiet.trans [OF assms])
  ultimately show ?thesis using wpE_conj by fastforce
qed

definition snapshotOf :: "int \<Rightarrow> db \<Rightarrow> snapshot \<Rightarrow> bool" where
  "snapshotOf i d s \<longleftrightarrow> sn_event s \<in> set (events d) \<and> ev_id (sn_event s) = i \<and> \<not> ev_deleting (sn_event s) \<and>
     \<not> sn_closed s \<and> map Some (sn_assets s) = map scanReady (readyRows i d)"

lemma scanAll_result: "scanAll rows = Inr items \<Longrightarrow> map Some items = map scanReady rows"
  by (auto simp: scanAll_def list_all_iff split: if_splits)

lemma takeSnapshot_result:
  "wpE (takeSnapshot i) (\<lambda>s t. snapshotOf i (wdb w) s \<and> quiet (rlock i w) t) (\<lambda>t. quiet w t) w"
proof -
  let ?R = "\<lambda>u. rlock i u"
  have items: "wpE (bindE (query (\<lambda>d. scanAll (readyRows i d)))
        (\<lambda>items. ret \<lparr>sn_event = e, sn_assets = items, sn_closed = False\<rparr>))
      (\<lambda>s t. snapshotOf i (wdb w) s \<and> quiet (rlock i w) t) (quiet (rlock i w)) v"
    if "quiet (rlock i w) v" "e \<in> set (events (wdb w))" "ev_id e = i" "\<not> ev_deleting e" for e v
    using that
    by (intro wpE_bindE wpE_query wpE_ret) (auto simp: snapshotOf_def quiet_def rlock_def dest!: scanAll_result)
  have body: "wpE (bindE (getEvent i) (\<lambda>e. bindE (failIf (ev_deleting e) ErrDeleting) (\<lambda>_.
           bindE (query (\<lambda>d. scanAll (readyRows i d))) (\<lambda>items.
           ret \<lparr>sn_event = e, sn_assets = items, sn_closed = False\<rparr>))))
      (\<lambda>s t. snapshotOf i (wdb w) s \<and> quiet (rlock i w) t) (quiet (rlock i w)) v"
    if "quiet (rlock i w) v" for v
    apply (rule wpE_bindE, rule wpE_mono, rule getEvent_wpE [OF that])
     apply (rule wpE_bindE, rule wpE_failIf, simp, rule items)
    by (auto simp: rlock_def)
  have given: "quiet w (runlock i t)" if "quiet (rlock i w) t" for t
    using that by (auto simp: quiet_def rlock_def runlock_def)
  have lock: "quiet (rlock i w) (rlock i v)" if "quiet w v" for v
    using that by (simp add: quiet_def rlock_def)
  show ?thesis
    unfolding takeSnapshot_def
    apply (rule wpE_bindE, rule wpE_mono [OF wpE_upholds [OF quiet_reads(2)]])
     apply (rule wpE_bindE, rule wpE_modify, rule wpE_tryE, rule wpE_mono, rule body, erule lock)
      apply (simp add: wpE_ret)
     apply (auto intro!: wpE_bindE wpE_modify wpE_raise given)
    done
qed

text \<open>Closing gives the lock back, and closing again does nothing.\<close>

lemma closeSnapshot_twice: "bindE (closeSnapshot s) closeSnapshot = closeSnapshot s"
  by (auto simp: closeSnapshot_def bindE_def modify_def ret_def fun_eq_iff)

lemma snapshot_balanced: "upholds sameReaders (bindE (takeSnapshot i) closeSnapshot)"
proof -
  have "wpE (bindE (takeSnapshot i) closeSnapshot) (\<lambda>_. sameReaders w) (sameReaders w) w" for w
    apply (rule wpE_bindE, rule wpE_mono, rule takeSnapshot_result)
     apply (auto simp: closeSnapshot_def snapshotOf_def sameReaders_def quiet_def rlock_def runlock_def intro!: wpE_bindE wpE_modify wpE_ret)
    done
  then show ?thesis by (auto simp: upholds_def intro: wpE_state)
qed

text \<open>While anyone holds the lock, a deletion of the event fails and writes nothing.\<close>

lemma DeleteEvent_busy:
  "wpE (DeleteEvent sv i) (\<lambda>_ _. readers w i = 0) (\<lambda>t. readers w i = 0 \<or> wdb t = wdb w) w"
proof -
  have "wpE (DeleteEvent sv i) (\<lambda>_ _. False) (\<lambda>t. wdb t = wdb w) w" if "readers w i \<noteq> 0"
    unfolding DeleteEvent_def
    apply (rule wpE_bindE, rule wpE_mono [OF wpE_upholds [OF quiet_reads(2)]])
     apply (rule wpE_bindE, rule wpE_tryLock, rule wpE_bindE, rule wpE_failIf)
    using that by (auto simp: quiet_def)
  then show ?thesis by (cases "readers w i = 0") (auto intro: wpE_triv wpE_mono)
qed

section \<open>Streams\<close>

text \<open>A stream that is handed out has the recorded size and is announced with the recorded type; the
object comes from the backend of the row, whatever the active one is.\<close>

definition openedAs :: "service \<Rightarrow> ready_asset \<Rightarrow> world \<Rightarrow> reader \<times> object_info \<Rightarrow> world \<Rightarrow> bool" where
  "openedAs sv a w r t \<longleftrightarrow>
     oi_size (snd r) = ra_size a \<and> oi_type (snd r) = ra_mime a \<and> wdb t = wdb w \<and> files t = files w \<and>
     (\<exists>b. resolve (sv_backends sv) (ra_backend a) = Inr b \<and>
        (if be_type b = ''local'' then files w (ra_key a) = Some (rd_data (fst r)) \<and> int (length (rd_data (fst r))) = ra_size a
         else \<exists>c. be_direct b = Some c \<and> trace t = trace w @ [CallGet (s3_id c) (ra_key a)]))"

lemma wp_sys:
  assumes "\<And>n b e. e \<in> {EIo, ECrashed} \<Longrightarrow> Q (Inl e) (w\<lparr>tick := n, dead := b\<rparr>)" and "\<And>n. Q (Inr ()) (w\<lparr>tick := n\<rparr>)"
  shows "wp sysCall Q w" "wp ctxErr Q w"
  unfolding sysCall_def ctxErr_def
  by (rule wp_effect; use assms assms(1) [where e = EIo and n = "Suc (tick w)" and b = "dead w"] in auto)+

lemma wp_lstat:
  assumes "\<And>n b e. e \<in> {EIo, ECrashed} \<Longrightarrow> Q (Inl e) (w\<lparr>tick := n, dead := b\<rparr>)" and "\<And>n. Q (Inr (files w name)) (w\<lparr>tick := n\<rparr>)"
  shows "wp (lstat name) Q w"
  unfolding lstat_def
  by (rule wp_effect) (use assms assms(1) [where e = EIo and n = "Suc (tick w)" and b = "dead w"] in auto)

lemma wp_or:
  assumes "wp m (\<lambda>r. case r of Inl e \<Rightarrow> Q (Inl (if e = ECrashed then ECrashed else other)) | Inr x \<Rightarrow> Q (Inr x)) w"
  shows "wp (orErr m other) Q w"
  using assms by (auto simp: orErr_def wp_def tryE_def raise_def ret_def split: prod.splits sum.splits)

text \<open>A file that is there opens, unless a call fails.\<close>

lemma localOpen_there:
  assumes "validKey key" and "files w key = Some c"
  shows "wp (localOpen key) (\<lambda>r t. quiet w t \<and>
    (case r of Inr x \<Rightarrow> x = c | Inl e \<Rightarrow> e \<in> {EIo, ECrashed, ErrUnavailable, ErrObjectChanged})) w"
proof -
  have q: "quiet w (w\<lparr>tick := n, dead := b\<rparr>)" "quiet w (w\<lparr>tick := n\<rparr>)" for n b by (simp_all add: quiet_def)
  show ?thesis
    unfolding localOpen_def wp_simps
    by (auto simp: assms q wp_simps intro!: wp_sys wp_or wp_lstat)
qed

lemma localOpen_result:
  "wpE (localOpen key) (\<lambda>c t. quiet w t \<and> files w key = Some c) (quiet w) w"
proof -
  have "wpE (localOpen key) (\<lambda>c t. dirIs w (files w) t \<and> files w key = Some c) (fsPost w (\<lambda>F. F = files w)) w"
    unfolding localOpen_def
    apply (rule wpE_bindE, rule wpE_failIf, simp add: fsPost_def sameRest_def)
    apply (rule wpE_bindE, rule wpE_mono, rule fs_sysCall(2) [of w "files w" w "\<lambda>F. F = files w"], simp_all add: dirIs_def sameRest_def)
    apply (rule wpE_bindE, rule wpE_orErr, rule wpE_mono, rule fs_sysCall(1) [of w "files w" _ "\<lambda>F. F = files w"], simp_all add: dirIs_def sameRest_def)
    apply (rule wpE_bindE, rule wpE_orErr, rule wpE_mono, rule fs_lstat [of w "files w" _ "\<lambda>F. F = files w"], simp_all add: dirIs_def sameRest_def)
    apply (rule wpE_option, rule wpE_raise, simp add: fsPost_def sameRest_def)
    apply (rule wpE_bindE, rule wpE_orErr, rule wpE_mono, rule fs_sysCall(1) [of w "files w" _ "\<lambda>F. F = files w"], simp_all add: dirIs_def sameRest_def)
    apply (rule wpE_bindE, rule wpE_orErr, rule wpE_mono, rule fs_sysCall(1) [of w "files w" _ "\<lambda>F. F = files w"], simp_all add: dirIs_def sameRest_def)
    apply (rule wpE_ret, simp)
    done
  then show ?thesis
    by (rule wpE_mono) (auto simp: quiet_def dirIs_def fsPost_def sameRest_def)
qed

lemma s3Open_result:
  "wpE (s3Open c key) (\<lambda>r t. onlyTrace w t \<and> trace t = trace w @ [CallGet (s3_id c) key]) (\<lambda>_. True) w"
  unfolding s3Open_def safely_def
  by (intro vcg TrueI) (auto simp: onlyTrace_def)

lemma openAsset_result: "wpE (openAsset sv s a) (openedAs sv a w) (\<lambda>_. True) w"
proof -
  have local: "wpE (openLocal (ra_key a)) (\<lambda>r t. quiet w t \<and> files w (ra_key a) = Some (rd_data (fst r)) \<and>
      oi_size (snd r) = int (length (rd_data (fst r)))) (\<lambda>_. True) w"
    unfolding openLocal_def by (rule wpE_bindE, rule wpE_mono, rule localOpen_result) (auto intro: wpE_ret)
  have dir: "\<exists>b. resolve (sv_backends sv) i = Inr b \<and> be_direct b = Some c"
    if "checkDirectKey (sv_backends sv) n j k i = Inr c" for n j k i c
    using that by (auto simp: checkDirectKey_def split: sum.splits option.splits if_splits)
  show ?thesis
    unfolding openAsset_def
    apply (rule wpE_bindE, rule wpE_liftE, rule TrueI)
    apply (rule wpE_step [where Q = "\<lambda>r t. wdb t = wdb w \<and> files t = files w \<and> (\<exists>b. resolve (sv_backends sv) (ra_backend a) = Inr b \<and>
        (if be_type b = ''local'' then files w (ra_key a) = Some (rd_data (fst r)) \<and> oi_size (snd r) = int (length (rd_data (fst r)))
         else \<exists>c. be_direct b = Some c \<and> trace t = trace w @ [CallGet (s3_id c) (ra_key a)]))"])
     apply (rule wpE_if)
      apply (rule wpE_bindE, rule wpE_failIf, rule TrueI)
      apply (rule wpE_mono [OF local])
       apply (auto simp: quiet_def)[2]
     apply (rule wpE_bindE, rule wpE_liftE, rule TrueI)
     apply (rule wpE_mono [OF s3Open_result])
      apply (auto simp: onlyTrace_def dest!: dir)[2]
    apply (clarsimp simp: split_beta)
    apply (intro wpE_bindE wpE_failIf wpE_ret TrueI)
    apply (auto simp: openedAs_def split: if_splits)
    done
qed

text \<open>While the tie between rows and files holds, the ready media of a snapshot can be read: opening one
fails only if a system call does, and the stream has every byte.\<close>

lemma openAsset_stored:
  assumes st: "stored (wdb w) (files w)" and bs: "bs_entries (sv_backends sv) 1 = Some b" "be_type b = ''local''"
    and a: "row \<in> set (assets (wdb w))" "isReady row" "as_backend row = 1" "as_key row = objectKey (ev_id (sn_event s)) (as_id row)"
    and scan: "scanReady row = Some a"
  shows "wp (openAsset sv s a) (\<lambda>r t. case r of
      Inr (stream, info) \<Rightarrow> files w (as_key row) = Some (rd_data stream) \<and> oi_size info = as_size row \<and> \<not> rd_broken stream
    | Inl e \<Rightarrow> e \<in> {EIo, ECrashed, ErrUnavailable, ErrObjectChanged}) w"
proof -
  from st a obtain c where c: "validKey (as_key row)" "files w (as_key row) = Some c" "int (length c) = as_size row"
    by (auto simp: stored_def hasFile_def)
  from scan have f: "ra_id a = as_id row" "ra_key a = as_key row" "ra_backend a = 1" "ra_size a = as_size row"
    using a by (auto simp: scanReady_def)
  have res: "resolve (sv_backends sv) 1 = Inr b" using bs by (simp add: resolve_def)
  have "openAsset sv s a = bindE (openLocal (as_key row)) (\<lambda>(stream, info).
      bindE (failIf (oi_size info \<noteq> ra_size a \<or> (oi_type info \<noteq> [] \<and> oi_type info \<noteq> ra_mime a)) ErrObjectChanged) (\<lambda>_.
      ret (stream, info\<lparr>oi_type := ra_mime a\<rparr>)))"
    by (simp add: openAsset_def f res bs a)
  then show ?thesis
    unfolding openLocal_def wp_simps
    by (auto simp: wp_simps c f split: sum.splits intro!: wp_mono [OF localOpen_there [OF c(1,2)]])
qed

end
