(* ===== verification/Examples.thy ===== *)
theory Examples
  imports ReadingSafe
begin

text \<open>
  One small concrete world for the closed instances of the properties: an open event, a live upload
  session, a PNG, and environments in which nothing fails, or one chosen step does.
\<close>

definition exID :: "char \<Rightarrow> string" where
  "exID c = replicate 32 c"

definition exPublic :: string where
  "exPublic = replicate 24 CHR ''A''"

definition exEvent :: event_row where
  "exEvent = zeroEvent\<lparr>ev_id := 7, ev_public := exPublic, ev_name := ''party'', ev_enabled := True,
     ev_max_photos := Some 2\<rparr>"

definition exSession :: session_row where
  "exSession = \<lparr>us_id = exID CHR ''a'', us_event = 7, us_created = Stamp 0, us_updated = Stamp 0,
     us_expires = Stamp (10 ^ 15), us_max_assets = 3, us_max_bytes = 1000, us_verified = None,
     us_contributor = Some ''Ann''\<rparr>"

definition exDB :: db where
  "exDB = \<lparr>events = [exEvent], sessions = [exSession], assets = [], retired = [],
     backends = [\<lparr>sb_id = 1, sb_key = ''local-default'', sb_type = ''local'',
                   sb_endpoint = [], sb_bucket = [], sb_region = [], sb_path_style = False, sb_prefix = []\<rparr>,
                 \<lparr>sb_id = 2, sb_key = ''bucket'', sb_type = ''s3'',
                   sb_endpoint = ''https://s3.test'', sb_bucket = ''b'', sb_region = ''r'', sb_path_style = True, sb_prefix = []\<rparr>],
     targets = [], event_imports = [], asset_imports = [], jobs = [],
     credential = None, admin_sessions = [], oidc_flows = []\<rparr>"

text \<open>Step \<open>n\<close> of the run meets the fault \<open>f\<close>; every other step is fine.\<close>

definition exEnv :: "nat \<Rightarrow> fault \<Rightarrow> env" where
  "exEnv n f = \<lparr>e_now = (\<lambda>_. 10 ^ 12), e_fault = (\<lambda>k. if k = n then f else Fine),
     e_rand = (\<lambda>k. [int k]), e_head = (\<lambda>_. Inl (ApiError ''NotFound'')), e_get = (\<lambda>_. Inl TransportError),
     e_delete = (\<lambda>_. Inr ()), e_presign = (\<lambda>_. Inl TransportError),
     e_http = (\<lambda>_. \<lparr>ha_done = False, ha_status = 0, ha_length = 0, ha_read = False, ha_json = JInvalid\<rparr>),
     e_cancelled = (\<lambda>_. False)\<rparr>"

definition exWorld :: "db \<Rightarrow> env \<Rightarrow> world" where
  "exWorld d e = \<lparr>wdb = d, files = (\<lambda>_. None), readers = (\<lambda>_. 0), cleanupAfter = [], retiredAfter = [], reconcileAfter = 0,
     provider = None, buckets = \<lparr>lm_entries = [], lm_swept = None\<rparr>, outputDir = None, trace = [], tick = 0, dead = False, env = e\<rparr>"

definition exService :: service where
  "exService = \<lparr>sv_backends = localBackends, sv_store = localStore, sv_ceiling = 1000, sv_ttl = 10 ^ 9,
     sv_max_assets = 100, sv_max_bytes = 10 ^ 9\<rparr>"

definition exPNG :: string where
  "exPNG = sigPNG @ ''data''"

definition exUpload :: "world \<Rightarrow> (err + asset_info) \<times> world" where
  "exUpload = Upload exService exPublic (exID CHR ''a'') ''a.png'' ''image/png''
     \<lparr>rd_data = exPNG, rd_broken = False\<rparr> 12 1000"

lemma exUpload_ok: "map_sum id am_size (fst (exUpload (exWorld exDB (exEnv 0 Fine)))) = Inr 12"
  by code_simp

section \<open>Object storage and a direct upload\<close>

definition exS3 :: s3cfg where
  "exS3 = \<lparr>s3_id = 2, s3_prefix = ''p/'', s3_target = ''target'', s3_ttl = 600 * nanosPerSecond\<rparr>"

definition exBackends :: backend_set where
  "exBackends = \<lparr>bs_active = 2, bs_entries = (\<lambda>_. None)
     (1 := Some \<lparr>be_id = 1, be_key = ''local-default'', be_type = ''local'', be_direct = None\<rparr>,
      2 := Some \<lparr>be_id = 2, be_key = ''bucket'', be_type = ''s3'', be_direct = Some exS3\<rparr>)\<rparr>"

definition exDirectService :: service where
  "exDirectService = exService\<lparr>sv_backends := exBackends\<rparr>"

lemma exBackends_ok: "backendsOk exBackends"
  by (auto simp: backendsOk_def exBackends_def split: if_splits)

definition exPreparation :: preparation where
  "exPreparation = \<lparr>pr_filename = ''a.png'', pr_size = 12, pr_type = ''image/png'', pr_request = exID CHR ''c'',
     pr_class = ''photo''\<rparr>"

definition exPending :: asset_row where
  "exPending = pendingDirect exS3 2 (exID CHR ''b'') 7 (exID CHR ''a'') exPreparation (Stamp 0) (Some ''Ann'')"

definition exDirectDB :: db where
  "exDirectDB = exDB\<lparr>assets := [exPending]\<rparr>"

text \<open>Storage holds the PNG, under one entity tag, with the type that was declared.\<close>

definition exStorage :: "env \<Rightarrow> env" where
  "exStorage v = v\<lparr>e_head := (\<lambda>_. Inr \<lparr>ho_size = 12, ho_type = ''image/png'', ho_etag = ''v1''\<rparr>),
     e_get := (\<lambda>_. Inr \<lparr>go_range = ''bytes 0-11/12'', go_length = 12, go_etag = ''v1'', go_type = ''image/png'',
       go_body = exPNG, go_broken = False\<rparr>)\<rparr>"

definition exComplete :: "world \<Rightarrow> (err + asset_info) \<times> world" where
  "exComplete = Complete exDirectService exPublic (exID CHR ''a'') (exID CHR ''b'')"

lemma exComplete_ok: "map_sum id am_size (fst (exComplete (exWorld exDirectDB (exStorage (exEnv 0 Fine))))) = Inr 12"
  by code_simp

section \<open>A stored photo\<close>

definition exReady :: asset_row where
  "exReady = completed ''image/png'' 12 (Stamp 5)
     (pendingLocal (exID CHR ''d'') 7 (exID CHR ''a'') ''a.png'' (Stamp 0) 12 (Some ''Ann'') ''photo'')"

definition exStoredWorld :: "env \<Rightarrow> world" where
  "exStoredWorld v = (exWorld (exDB\<lparr>assets := [exReady]\<rparr>) v)\<lparr>files := (\<lambda>_. None)(objectKey 7 (exID CHR ''d'') := Some exPNG)\<rparr>"

end
