(* ===== verification/ImmichSafe.thy ===== *)
theory ImmichSafe
  imports ImmichJobs ReadingSafe
begin

text \<open>
  What every operation of the import jobs keeps, whatever fails: the tables' invariant, the identity of a
  binding and the order of its album states, the remote identifiers that are known, and what has been sent.
  The request that creates an album is counted against the state that was written before it.
\<close>

section \<open>Album states only go forward\<close>

fun albumRank :: "album_state \<Rightarrow> nat" where
  "albumRank AlbumNew = 0" | "albumRank AlbumCreating = 1" | "albumRank AlbumReady = 2"

lemma albumRank_inj: "albumRank a = albumRank b \<Longrightarrow> a = b"
  by (cases a; cases b) auto

instantiation album_state :: linorder
begin

definition less_eq_album_state :: "album_state \<Rightarrow> album_state \<Rightarrow> bool" where
  "less_eq_album_state a b \<longleftrightarrow> albumRank a \<le> albumRank b"

definition less_album_state :: "album_state \<Rightarrow> album_state \<Rightarrow> bool" where
  "less_album_state a b \<longleftrightarrow> albumRank a < albumRank b"

instance
  by standard (auto simp: less_eq_album_state_def less_album_state_def dest: albumRank_inj)

end

lemma album_state_le [simp]:
  "AlbumNew \<le> a" "a \<le> AlbumReady" "a \<le> AlbumNew \<longleftrightarrow> a = AlbumNew" "AlbumReady \<le> a \<longleftrightarrow> a = AlbumReady"
  "AlbumCreating \<le> a \<longleftrightarrow> a \<noteq> AlbumNew"
  by (cases a; simp add: less_eq_album_state_def)+

section \<open>The invariant\<close>

definition selectionKey :: "asset_import_row \<Rightarrow> int \<times> string" where
  "selectionKey i = (ai_import i, ai_asset i)"

definition albumKnown :: "import_row \<Rightarrow> bool" where
  "albumKnown b \<longleftrightarrow> ei_album b \<noteq> None \<and> ei_album b \<noteq> Some []"

definition bindingsOk :: "import_row list \<Rightarrow> bool" where
  "bindingsOk bs \<longleftrightarrow> distinct (map ei_id bs) \<and> distinct (map ei_marker bs) \<and>
     distinct (map (\<lambda>b. (ei_event b, ei_target b)) bs) \<and>
     (\<forall>b \<in> set bs. (ei_state b = AlbumReady) = albumKnown b)"

definition jobsOk :: "job_row list \<Rightarrow> bool" where
  "jobsOk js \<longleftrightarrow> distinct (map jb_id js) \<and> distinct (map jb_import (filter activeJob js))"

definition immichOk :: "db \<Rightarrow> bool" where
  "immichOk d \<longleftrightarrow> distinct (map as_id (assets d)) \<and> bindingsOk (event_imports d) \<and> distinct (map selectionKey (asset_imports d)) \<and> jobsOk (jobs d)"

section \<open>What is kept\<close>

definition isSent :: "asset_import_row \<Rightarrow> bool" where
  "isSent i \<longleftrightarrow> ai_status i = ImpImported \<or> ai_status i = ImpDuplicate"

definition remoteKnown :: "asset_import_row \<Rightarrow> bool" where
  "remoteKnown i \<longleftrightarrow> ai_remote i \<noteq> None \<and> ai_remote i \<noteq> Some []"

definition sameBinding :: "import_row \<Rightarrow> import_row \<Rightarrow> bool" where
  "sameBinding b b' \<longleftrightarrow> ei_id b' = ei_id b \<and> ei_event b' = ei_event b \<and> ei_target b' = ei_target b \<and>
     ei_marker b' = ei_marker b \<and> ei_state b \<le> ei_state b' \<and> (ei_state b \<noteq> AlbumNew \<longrightarrow> ei_name b' = ei_name b) \<and>
     (albumKnown b \<longrightarrow> ei_album b' = ei_album b)"

definition sameSelection :: "asset_import_row \<Rightarrow> asset_import_row \<Rightarrow> bool" where
  "sameSelection i i' \<longleftrightarrow> selectionKey i' = selectionKey i \<and> (isSent i \<longrightarrow> i' = i) \<and>
     (remoteKnown i \<longrightarrow> ai_remote i' = ai_remote i \<and> ai_duplicate i' = ai_duplicate i)"

definition matched :: "('r \<Rightarrow> 'r \<Rightarrow> bool) \<Rightarrow> 'r list \<Rightarrow> 'r list \<Rightarrow> bool" where
  "matched R rows rows' \<longleftrightarrow> (\<forall>r \<in> set rows. \<exists>r' \<in> set rows'. R r r')"

lemma matched_refl: "(\<And>r. R r r) \<Longrightarrow> matched R rows rows"
  by (auto simp: matched_def)

lemma matched_trans:
  assumes "matched R xs ys" and "matched R' ys zs" and "\<And>a b c. R a b \<Longrightarrow> R' b c \<Longrightarrow> R'' a c"
  shows "matched R'' xs zs"
  unfolding matched_def
proof
  fix a assume "a \<in> set xs"
  with assms(1) obtain b where b: "b \<in> set ys" "R a b" by (auto simp: matched_def)
  with assms(2) obtain c where "c \<in> set zs" "R' b c" by (auto simp: matched_def)
  with b assms(3) show "\<exists>c \<in> set zs. R'' a c" by blast
qed

lemma matched_mono: "matched R xs ys \<Longrightarrow> (\<And>a b. R a b \<Longrightarrow> R' a b) \<Longrightarrow> matched R' xs ys"
  unfolding matched_def by blast

lemma matched_append: "(\<And>r. R r r) \<Longrightarrow> matched R rows (rows @ new)"
  by (auto simp: matched_def)

lemma matched_updWhere:
  assumes "\<And>r. R r r" and "\<And>r. r \<in> set rows \<Longrightarrow> P r \<Longrightarrow> R r (f r)"
  shows "matched R rows (updWhere P f rows)"
  unfolding matched_def
proof
  fix r assume r: "r \<in> set rows"
  then have "(if P r then f r else r) \<in> set (updWhere P f rows)" by (auto simp: updWhere_def)
  moreover have "R r (if P r then f r else r)" using assms r by simp
  ultimately show "\<exists>r' \<in> set (updWhere P f rows). R r r'" by blast
qed

lemma sameBinding_refl [simp]: "sameBinding b b"
  by (simp add: sameBinding_def)

lemma sameBinding_trans: "sameBinding a b \<Longrightarrow> sameBinding b c \<Longrightarrow> sameBinding a c"
  by (auto simp: sameBinding_def albumKnown_def)

lemma sameSelection_refl [simp]: "sameSelection i i"
  by (simp add: sameSelection_def)

lemma sameSelection_trans: "sameSelection a b \<Longrightarrow> sameSelection b c \<Longrightarrow> sameSelection a c"
  by (auto simp: sameSelection_def remoteKnown_def)

text \<open>A statement, from one database to the next.\<close>

definition advances :: "db \<Rightarrow> db \<Rightarrow> bool" where
  "advances d d' \<longleftrightarrow> (immichOk d \<longrightarrow> immichOk d' \<and> matched sameBinding (event_imports d) (event_imports d') \<and>
     matched sameSelection (asset_imports d) (asset_imports d'))"

lemma advances_refl: "advances d d"
  by (simp add: advances_def matched_refl)

lemma advances_trans: "advances a b \<Longrightarrow> advances b c \<Longrightarrow> advances a c"
  unfolding advances_def
  by (auto intro: matched_trans [OF _ _ sameBinding_trans] matched_trans [OF _ _ sameSelection_trans])

definition isAlbumPost :: "string \<Rightarrow> call \<Rightarrow> bool" where
  "isAlbumPost m c \<longleftrightarrow> (case c of CallImmich _ verb path body \<Rightarrow> verb = ''POST'' \<and> path = ''/albums'' \<and> drop 1 body = [m] | _ \<Rightarrow> False)"

definition albumPosts :: "string \<Rightarrow> call list \<Rightarrow> nat" where
  "albumPosts m tr = length (filter (isAlbumPost m) tr)"

text \<open>Requests to create the album that were sent, or can still be sent.\<close>

definition albumBudget :: "call list \<Rightarrow> import_row \<Rightarrow> nat" where
  "albumBudget tr b = albumPosts (ei_marker b) tr + (if ei_state b = AlbumNew then 1 else 0)"

definition withinBudget :: "call list \<Rightarrow> call list \<Rightarrow> import_row \<Rightarrow> import_row \<Rightarrow> bool" where
  "withinBudget tr tr' b b' \<longleftrightarrow> sameBinding b b' \<and> albumBudget tr' b' \<le> albumBudget tr b"

definition samePosts :: "world \<Rightarrow> world \<Rightarrow> bool" where
  "samePosts s t \<longleftrightarrow> (\<forall>m. albumPosts m (trace t) = albumPosts m (trace s))"

definition durable :: "world \<Rightarrow> world \<Rightarrow> bool" where
  "durable s t \<longleftrightarrow> advances (wdb s) (wdb t) \<and> samePosts s t"

definition careful :: "world \<Rightarrow> world \<Rightarrow> bool" where
  "careful s t \<longleftrightarrow> advances (wdb s) (wdb t) \<and>
     (immichOk (wdb s) \<longrightarrow> matched (withinBudget (trace s) (trace t)) (event_imports (wdb s)) (event_imports (wdb t)))"

interpretation durable: tx_order durable
  by unfold_locales (auto simp: durable_def samePosts_def advances_refl intro: advances_trans)

lemma careful_trans:
  assumes "careful s t" and "careful t u"
  shows "careful s u"
proof -
  have adv: "advances (wdb s) (wdb u)"
    using assms by (auto simp: careful_def intro: advances_trans)
  have "matched (withinBudget (trace s) (trace u)) (event_imports (wdb s)) (event_imports (wdb u))"
    if ok: "immichOk (wdb s)"
  proof -
    from ok assms(1) have "immichOk (wdb t)" by (simp add: careful_def advances_def)
    with ok assms have "matched (withinBudget (trace s) (trace t)) (event_imports (wdb s)) (event_imports (wdb t))"
      "matched (withinBudget (trace t) (trace u)) (event_imports (wdb t)) (event_imports (wdb u))"
      by (auto simp: careful_def)
    then show ?thesis
      by (rule matched_trans) (auto simp: withinBudget_def intro: sameBinding_trans)
  qed
  with adv show ?thesis by (simp add: careful_def)
qed

interpretation careful: world_order careful
proof unfold_locales
  show "careful s s" for s
    by (simp add: careful_def advances_refl withinBudget_def matched_refl)
  show "careful s t \<Longrightarrow> careful t u \<Longrightarrow> careful s u" for s t u by (rule careful_trans)
  show "careful w (w\<lparr>tick := n, dead := b\<rparr>)" for w n b
    by (simp add: careful_def advances_refl withinBudget_def matched_refl)
qed

lemma durable_careful:
  assumes "durable s t"
  shows "careful s t"
proof -
  have "withinBudget (trace s) (trace t) b b'" if "sameBinding b b'" for b b'
    using that assms by (auto simp: withinBudget_def albumBudget_def durable_def samePosts_def sameBinding_def)
  with assms show ?thesis
    by (auto simp: careful_def durable_def advances_def intro: matched_mono)
qed

lemma up_durable_careful: "upholds durable m \<Longrightarrow> upholds careful m"
  by (erule upholds_mono) (rule durable_careful)

lemma quiet_durable: "quiet s t \<Longrightarrow> durable s t"
  by (simp add: quiet_def durable_def samePosts_def advances_refl)

section \<open>Statements\<close>

lemma distinct_filter_updWhere:
  assumes "distinct (map g (filter Q rows))" and "\<And>r. P r \<Longrightarrow> g (f r) = g r" and "\<And>r. P r \<Longrightarrow> Q (f r) \<Longrightarrow> Q r"
  shows "distinct (map g (filter Q (updWhere P f rows)))"
proof -
  have sub: "set (map g (filter Q (updWhere P f rows))) \<subseteq> set (map g (filter Q rows))" for rows
    using assms(2,3) by (force simp: updWhere_def image_iff split: if_splits)
  from assms(1) show ?thesis
  proof (induction rows)
    case Nil
    then show ?case by (simp add: updWhere_def)
  next
    case (Cons r rows)
    let ?r = "if P r then f r else r" and ?rest = "filter Q (updWhere P f rows)"
    have cons: "filter Q (updWhere P f (r # rows)) = (if Q ?r then ?r # ?rest else ?rest)"
      by (simp add: updWhere_def)
    have rest: "distinct (map g ?rest)" using Cons by (auto split: if_splits)
    show ?case
    proof (cases "Q ?r")
      case True
      with assms(3) have "Q r" by (auto split: if_splits)
      with Cons.prems have "g r \<notin> set (map g (filter Q rows))" by simp
      with sub have "g r \<notin> set (map g ?rest)" by blast
      moreover have "g ?r = g r" using assms(2) by simp
      ultimately show ?thesis using cons True rest by simp
    next
      case False
      with cons rest show ?thesis by simp
    qed
  qed
qed

lemma advances_setJobs:
  assumes "\<And>j. P j \<Longrightarrow> jb_id (f j) = jb_id j \<and> jb_import (f j) = jb_import j \<and> (activeJob (f j) \<longrightarrow> activeJob j)"
  shows "advances d (d\<lparr>jobs := updWhere P f (jobs d)\<rparr>)"
  using assms unfolding advances_def immichOk_def jobsOk_def
  by (auto intro!: matched_refl distinct_filter_updWhere simp: map_updWhere)

lemma advances_setSelections:
  assumes "\<And>i. i \<in> set (asset_imports d) \<Longrightarrow> P i \<Longrightarrow> sameSelection i (f i)" and "\<And>i. P i \<Longrightarrow> selectionKey (f i) = selectionKey i"
  shows "advances d (d\<lparr>asset_imports := updWhere P f (asset_imports d)\<rparr>)"
  using assms unfolding advances_def immichOk_def
  by (auto intro!: matched_refl matched_updWhere simp: map_updWhere)

lemma advances_setBindings:
  assumes "\<And>b. b \<in> set (event_imports d) \<Longrightarrow> P b \<Longrightarrow> sameBinding b (f b) \<and> (ei_state (f b) = AlbumReady) = albumKnown (f b)"
  shows "advances d (d\<lparr>event_imports := updWhere P f (event_imports d)\<rparr>)"
proof -
  let ?u = "updWhere P f (event_imports d)"
  have same: "map g ?u = map g (event_imports d)" if "\<And>b. b \<in> set (event_imports d) \<Longrightarrow> P b \<Longrightarrow> g (f b) = g b" for g :: "import_row \<Rightarrow> 'x"
    using that by (simp add: updWhere_def)
  have "map ei_id ?u = map ei_id (event_imports d)" "map ei_marker ?u = map ei_marker (event_imports d)"
    "map (\<lambda>b. (ei_event b, ei_target b)) ?u = map (\<lambda>b. (ei_event b, ei_target b)) (event_imports d)"
    using assms by (auto intro!: same simp: sameBinding_def)
  moreover have "\<forall>b \<in> set ?u. (ei_state b = AlbumReady) = albumKnown b" if "bindingsOk (event_imports d)"
    using that assms by (intro updWhere_ball) (auto simp: bindingsOk_def)
  moreover have "matched sameBinding (event_imports d) ?u"
    using assms by (intro matched_updWhere) auto
  ultimately show ?thesis
    by (auto simp: advances_def immichOk_def bindingsOk_def matched_refl)
qed

lemma advances_insertBinding:
  assumes "insertBinding e t n m d = Inr (d', r)"
  shows "advances d d'"
proof -
  let ?new = "\<lparr>ei_id = r, ei_event = e, ei_target = t, ei_name = n, ei_marker = m, ei_state = AlbumNew, ei_album = None, ei_auto = False\<rparr>"
  from assms have d': "d' = d\<lparr>event_imports := event_imports d @ [?new]\<rparr>" and r: "r = nextId (map ei_id (event_imports d))"
    and new: "bindingOf e t d = None" "\<forall>b \<in> set (event_imports d). ei_marker b \<noteq> m"
    by (auto simp: insertBinding_def Let_def list_all_iff split: if_splits)
  from new(1) have "(e, t) \<notin> set (map (\<lambda>b. (ei_event b, ei_target b)) (event_imports d))"
    by (auto simp: bindingOf_def find_None)
  moreover have "r \<notin> set (map ei_id (event_imports d))" unfolding r by (rule nextId_fresh)
  ultimately show ?thesis
    using new(2) by (auto simp: advances_def immichOk_def bindingsOk_def albumKnown_def d' matched_refl intro!: matched_append)
qed

lemma advances_insertJob:
  assumes "insertJob b m d = Inr (d', r)"
  shows "advances d d'"
proof -
  from assms have "assets d' = assets d" "jobs d' = jobs d @ [\<lparr>jb_id = r, jb_import = b, jb_status = Queued, jb_mode = m, jb_cancel = False, jb_error = []\<rparr>]"
    and r: "r = nextId (map jb_id (jobs d))" and new: "\<not> hasActive b d"
    and other: "event_imports d' = event_imports d" "asset_imports d' = asset_imports d"
    by (auto simp: insertJob_def Let_def split: if_splits)
  moreover have "b \<notin> set (map jb_import (filter activeJob (jobs d)))"
    using new by (auto simp: hasActive_def list_ex_iff)
  moreover have "r \<notin> set (map jb_id (jobs d))" unfolding r by (rule nextId_fresh)
  ultimately show ?thesis
    by (auto simp: advances_def immichOk_def jobsOk_def matched_refl)
qed

lemma advances_insertSelection:
  assumes "insertSelection b new d = Inr (d', r)" and "distinct (map as_id new)"
    and "\<And>a. a \<in> set new \<Longrightarrow> selectionOf b (as_id a) d = None"
  shows "advances d d'"
proof -
  from assms(1) have d': "d' = d\<lparr>asset_imports := asset_imports d @ map (newSelection b) new\<rparr>"
    by (auto simp: insertSelection_def split: if_splits)
  have "distinct (map selectionKey (map (newSelection b) new))"
    using assms(2) by (auto simp: selectionKey_def newSelection_def o_def distinct_map inj_on_def)
  moreover have "set (map selectionKey (asset_imports d)) \<inter> set (map selectionKey (map (newSelection b) new)) = {}"
    using assms(3) by (fastforce simp: selectionOf_def find_None selectionKey_def newSelection_def)
  ultimately show ?thesis
    by (auto simp: advances_def immichOk_def d' matched_refl intro!: matched_append)
qed

section \<open>Operations inside one transaction\<close>

lemma durable_exec:
  assumes "\<And>d d' r. x d = Inr (d', r) \<Longrightarrow> advances d d'"
  shows "upholds durable (exec x)"
  by (rule durable.up_exec) (auto simp: durable_def samePosts_def intro: assms)

lemma durable_setJobs:
  assumes "\<And>j. P j \<Longrightarrow> jb_id (f j) = jb_id j \<and> jb_import (f j) = jb_import j \<and> (activeJob (f j) \<longrightarrow> activeJob j)"
  shows "upholds durable (exec (setJobs P f))"
  by (rule durable_exec) (auto simp: setJobs_def intro!: advances_setJobs assms)

lemma durable_setSelections:
  assumes "\<And>i. P i \<Longrightarrow> sameSelection i (f i)"
  shows "upholds durable (exec (setSelections P f))"
  by (rule durable_exec) (use assms in \<open>auto simp: setSelections_def sameSelection_def intro!: advances_setSelections\<close>)

lemma durable_setBindings:
  assumes "\<And>b. P b \<Longrightarrow> (ei_state b = AlbumReady) = albumKnown b \<Longrightarrow> sameBinding b (f b) \<and> (ei_state (f b) = AlbumReady) = albumKnown (f b)"
  shows "upholds durable (exec (setBindings P f))"
proof (rule durable_exec)
  fix d d' r
  assume run: "setBindings P f d = Inr (d', r)"
  show "advances d d'"
  proof (cases "bindingsOk (event_imports d)")
    case True
    with run assms show ?thesis
      by (auto simp: setBindings_def bindingsOk_def intro!: advances_setBindings)
  next
    case False
    then show ?thesis by (simp add: advances_def immichOk_def)
  qed
qed

lemma readyOf_distinct: "distinct (map as_id (assets d)) \<Longrightarrow> distinct (map as_id (filter P (readyOf e d)))"
  by (simp add: readyOf_def distinct_map_filter')

lemma durable_selectReady: "upholds durable (exec (selectReady b e))"
proof (rule durable_exec)
  fix d d' r
  assume run: "selectReady b e d = Inr (d', r)"
  show "advances d d'"
  proof (cases "distinct (map as_id (assets d))")
    case True
    with run show ?thesis
      unfolding selectReady_def by (elim advances_insertSelection) (auto intro: readyOf_distinct)
  next
    case False
    then show ?thesis by (simp add: advances_def immichOk_def)
  qed
qed

lemma durable_selectFor: "upholds durable (selectFor albumOnly mode b e)"
  unfolding selectFor_def
  by (intro durable.up_rules durable.up_world durable_selectReady durable_setSelections)
    (auto simp: sameSelection_def retryRow_def selectionKey_def isSent_def remoteKnown_def)

lemma durable_enqueueTx: "upholds durable (enqueueTx im e key name mode albumOnly req)"
proof -
  have b: "upholds durable (exec (insertBinding e' t n m))" for e' t n m
    by (rule durable_exec) (rule advances_insertBinding)
  have j: "upholds durable (exec (insertJob i m))" for i m
    by (rule durable_exec) (rule advances_insertJob)
  have n: "upholds durable (exec (setBindings (\<lambda>i. ei_id i = k \<and> ei_state i = AlbumNew) (ei_name_update (\<lambda>_. n))))" for k n
    by (rule durable_setBindings) (auto simp: sameBinding_def albumKnown_def)
  show ?thesis
    unfolding enqueueTx_def getEvent_def
    by (intro durable.up_rules durable.up_world durable_selectFor b j n)
qed

lemma durable_createEvent: "upholds durable (createEvent i)"
proof -
  have "upholds durable (exec (insertEvent p e t))" for p e t
    by (rule durable_exec) (auto simp: insertEvent_def Let_def advances_def immichOk_def matched_refl split: if_splits)
  then have "upholds durable (tryCreate k e t)" for k e t
    by (induction k) (auto intro!: durable.up_rules durable.up_world)
  then show ?thesis unfolding createEvent_def by (intro durable.up_rules durable.up_world)
qed

lemma durable_auto: "upholds durable (exec (setBindings P (ei_auto_update (\<lambda>_. x))))"
  by (rule durable_setBindings) (auto simp: sameBinding_def albumKnown_def)

lemma durable_createBound: "upholds durable (createBoundEvent im inp key name auto)"
  unfolding createBoundEvent_def
  by (intro durable.up_inTx durable.up_rules durable_createEvent durable_enqueueTx durable_auto)

lemma durable_enqueue: "upholds durable (enqueue im e key name mode albumOnly)"
  unfolding enqueue_def by (intro durable.up_inTx durable_enqueueTx)

lemma durable_Cancel: "upholds durable (Cancel im e key)"
proof -
  have "upholds durable (exec (\<lambda>d. setJobs (\<lambda>j. activeJob j \<and> Q d j) (jb_cancel_update (\<lambda>_. True)) d))" for Q
    by (rule durable_exec) (auto simp: setJobs_def activeJob_def intro!: advances_setJobs)
  then show ?thesis unfolding Cancel_def by (intro durable.up_rules)
qed

lemma durable_recover: "upholds durable recover"
  unfolding recover_def
  by (intro durable.up_inTx durable.up_rules durable_setSelections durable_setJobs)
    (auto simp: sameSelection_def selectionKey_def isSent_def activeJob_def)

lemma durable_claim: "upholds durable claim"
  unfolding claim_def
  by (intro durable.up_inTx durable.up_rules durable.up_world durable_setJobs) (auto simp: activeJob_def)

lemma outcome_done: "outcome r b = (st, m) \<Longrightarrow> st \<noteq> Queued \<and> st \<noteq> Running"
  by (auto simp: outcome_def split: if_splits sum.splits)

lemma durable_finishJob: "upholds durable (finishJob j r)"
  unfolding finishJob_def
  by (intro durable.up_inTx durable.up_rules durable.up_world durable_setJobs durable_setSelections)
    (auto simp: sameSelection_def selectionKey_def isSent_def activeJob_def dest: outcome_done)

lemma durable_SetAutoImport: "upholds durable (SetAutoImport im e key x)"
proof -
  have "upholds durable (exec (\<lambda>d. Inr (d\<lparr>event_imports := updWhere (P d) (ei_auto_update (\<lambda>_. x)) (event_imports d)\<rparr>, n d)))"
    for P and n :: "db \<Rightarrow> int"
  proof (rule durable_exec)
    fix d d' r
    assume run: "Inr (d\<lparr>event_imports := updWhere (P d) (ei_auto_update (\<lambda>_. x)) (event_imports d)\<rparr>, n d) = Inr (d', r)"
    show "advances d d'"
    proof (cases "bindingsOk (event_imports d)")
      case True
      with run show ?thesis
        by (auto simp: sameBinding_def bindingsOk_def albumKnown_def intro!: advances_setBindings)
    next
      case False
      then show ?thesis by (simp add: advances_def immichOk_def)
    qed
  qed
  then show ?thesis unfolding SetAutoImport_def Let_def by (intro durable.up_rules)
qed

lemma set_unselected: "a \<in> set (unselected b e d) \<Longrightarrow> a \<in> set (readyOf e d) \<and> selectionOf b (as_id a) d = None"
  unfolding unselected_def by (drule subsetD [OF set_limitTo]) simp

lemma unselected_distinct: "distinct (map as_id (assets d)) \<Longrightarrow> distinct (map as_id (unselected b e d))"
  unfolding unselected_def limitTo_take take_map [symmetric]
  by (intro distinct_take) (auto simp: distinct_map readyOf_def intro: inj_on_subset)

lemma durable_reconcileBinding: "upholds durable (reconcileBinding i)"
proof -
  have sel: "upholds durable (exec (\<lambda>d. insertSelection i (unselected i e d) d))" for e
  proof (rule durable_exec)
    fix d d' r
    assume run: "insertSelection i (unselected i e d) d = Inr (d', r)"
    show "advances d d'"
    proof (cases "distinct (map as_id (assets d))")
      case True
      with run show ?thesis
        by (elim advances_insertSelection) (auto simp: unselected_distinct dest: set_unselected)
    next
      case False
      then show ?thesis by (simp add: advances_def immichOk_def)
    qed
  qed
  have job: "upholds durable (exec (insertJob b m))" for b m
    by (rule durable_exec) (rule advances_insertJob)
  show ?thesis
    unfolding reconcileBinding_def by (intro durable.up_inTx durable.up_rules durable.up_world sel job)
qed

lemma durable_modify: "(\<And>w. wdb (g w) = wdb w \<and> trace (g w) = trace w) \<Longrightarrow> upholds durable (modify g)"
  by (rule durable.up_modify) (simp add: durable_def samePosts_def advances_refl)

lemma durable_reconcile: "upholds durable reconcile"
  unfolding reconcile_def
  by (intro durable.up_rules durable.up_world durable_reconcileBinding durable_modify) (auto split: if_splits)

section \<open>Requests\<close>

text \<open>An operation that writes no row and asks for no album.\<close>

definition calm :: "world \<Rightarrow> world \<Rightarrow> bool" where
  "calm s t \<longleftrightarrow> wdb t = wdb s \<and> samePosts s t"

interpretation calm: tx_order calm
  by unfold_locales (auto simp: calm_def samePosts_def)

lemma calm_durable: "calm s t \<Longrightarrow> durable s t"
  by (simp add: calm_def durable_def advances_refl)

lemma quiet_calm: "quiet s t \<Longrightarrow> calm s t"
  by (simp add: quiet_def calm_def samePosts_def)

lemma calm_remote: "(\<And>m. \<not> isAlbumPost m c) \<Longrightarrow> upholds calm (remote c a)"
  by (rule calm.up_remote) (simp add: calm_def samePosts_def albumPosts_def)

lemma calm_request: "verb \<noteq> ''POST'' \<or> path \<noteq> ''/albums'' \<Longrightarrow> upholds calm (immichRequest target verb path body limit)"
  unfolding immichRequest_def by (intro calm.up_rules calm.up_world calm_remote) (auto simp: isAlbumPost_def)

lemma up_json: "(\<And>ps. upholds R (f1 ps)) \<Longrightarrow> (\<And>a b c. upholds R (f2 a b c)) \<Longrightarrow> (\<And>al. upholds R (f3 al)) \<Longrightarrow>
  (\<And>as. upholds R (f4 as)) \<Longrightarrow> (\<And>i s. upholds R (f5 i s)) \<Longrightarrow> (\<And>r. upholds R (f6 r)) \<Longrightarrow> upholds R f7 \<Longrightarrow>
  upholds R (case j of JPermissions ps \<Rightarrow> f1 ps | JVersion a b c \<Rightarrow> f2 a b c | JAlbum al \<Rightarrow> f3 al
    | JAlbums as \<Rightarrow> f4 as | JUpload i s \<Rightarrow> f5 i s | JAdded r \<Rightarrow> f6 r | JInvalid \<Rightarrow> f7)"
  by (cases j) auto

lemma calm_client:
  "upholds calm (immichValidate target)" "upholds calm (getAlbum target i)" "upholds calm (findAlbum target marker)"
  "upholds calm (addToAlbum target i j)" "upholds calm (immichUpload target f made sz src)"
proof -
  show "upholds calm (immichValidate target)"
    unfolding immichValidate_def by (intro calm.up_rules calm_request up_json; simp)
  show "upholds calm (getAlbum target i)"
    unfolding getAlbum_def by (intro calm.up_rules calm_request up_json; simp)
  show "upholds calm (findAlbum target marker)"
    unfolding findAlbum_def by (intro calm.up_rules calm_request up_json; simp)
  have "upholds calm (case rs of [(i, success, e)] \<Rightarrow> failIf (P i success e) x | _ \<Rightarrow> raise ImmichUnavailable)" for rs P x
    by (auto split: list.splits intro: calm.up_rules)
  then show "upholds calm (addToAlbum target i j)"
    unfolding addToAlbum_def by (intro calm.up_rules calm_request up_json; simp)
  show "upholds calm (immichUpload target f made sz src)"
    unfolding immichUpload_def by (intro calm.up_rules calm_request up_json; simp)
qed

lemma calm_openAsset: "upholds calm (openAsset sv sn a)"
proof -
  have "wpE (localOpen key) (\<lambda>_ t. quiet w t) (quiet w) w" for key w
    by (rule wpE_mono [OF localOpen_result]) auto
  then have "upholds quiet (localOpen key)" for key unfolding upholds_def by (blast intro: wpE_state)
  then have l: "upholds calm (localOpen key)" for key by (rule upholds_mono) (rule quiet_calm)
  show ?thesis
    unfolding openAsset_def openLocal_def s3Open_def safely_def
    by (intro calm.up_rules l calm_remote) (auto simp: isAlbumPost_def)
qed

lemma calm_snapshot: "upholds calm (takeSnapshot e)" "upholds calm (closeSnapshot sn)"
proof -
  have lock: "upholds calm (modify (rlock i))" "upholds calm (modify (runlock i))" for i
    by (rule calm.up_modify; simp add: calm_def samePosts_def rlock_def runlock_def)+
  show "upholds calm (takeSnapshot e)" unfolding takeSnapshot_def getEvent_def
    by (intro calm.up_rules calm.up_world lock)
  show "upholds calm (closeSnapshot sn)" unfolding closeSnapshot_def
    by (intro calm.up_rules lock)
qed

section \<open>One asset\<close>

text \<open>
  An update of the selection \<open>row\<close> of the world in which the work began: whatever was written since, the new
  row only has to be a successor of that one. So an update that took effect without a reply may be
  followed by the one that settles the failure.
\<close>

definition begunWith :: "world \<Rightarrow> int \<Rightarrow> string \<Rightarrow> asset_import_row \<Rightarrow> bool" where
  "begunWith w b a row \<longleftrightarrow> (immichOk (wdb w) \<longrightarrow> selectionOf b a (wdb w) = Some row)"

lemma selection_unique:
  assumes "immichOk d" and "selectionOf b a d = Some row" and "i \<in> set (asset_imports d)" and "isSelection b a i"
  shows "i = row"
proof -
  from assms(2) have "row \<in> set (asset_imports d)" "selectionKey row = selectionKey i"
    using find_SomeD assms(4) by (fastforce simp: selectionOf_def selectionKey_def isSelection_def)+
  with assms(1,3) show ?thesis by (auto simp: immichOk_def dest: distinct_map_eq)
qed

lemma begun_update:
  assumes w: "durable w s" and b: "begunWith w b a row"
    and f: "\<And>i. sameSelection row i \<Longrightarrow> sameSelection row (f i)" and k: "\<And>i. selectionKey (f i) = selectionKey i"
  shows "durable w (s\<lparr>wdb := (wdb s)\<lparr>asset_imports := updWhere (isSelection b a) f (asset_imports (wdb s))\<rparr>, tick := n, dead := x\<rparr>)"
proof (cases "immichOk (wdb w)")
  case False
  with w show ?thesis by (auto simp: durable_def advances_def samePosts_def)
next
  case True
  let ?u = "updWhere (isSelection b a) f (asset_imports (wdb s))"
  have "matched sameSelection (asset_imports (wdb w)) ?u"
    unfolding matched_def
  proof
    fix r assume r: "r \<in> set (asset_imports (wdb w))"
    with w True obtain i where i: "i \<in> set (asset_imports (wdb s))" "sameSelection r i"
      by (auto simp: durable_def advances_def matched_def)
    let ?i = "if isSelection b a i then f i else i"
    have "?i \<in> set ?u" using i by (auto simp: updWhere_def)
    moreover have "sameSelection r ?i"
    proof (cases "isSelection b a i")
      case sel: True
      with i(2) have "isSelection b a r" by (auto simp: sameSelection_def selectionKey_def isSelection_def)
      with r True b have "r = row" by (auto simp: begunWith_def dest: selection_unique)
      with i(2) f sel show ?thesis by simp
    qed (use i in simp)
    ultimately show "\<exists>i \<in> set ?u. sameSelection r i" by blast
  qed
  moreover have "map selectionKey ?u = map selectionKey (asset_imports (wdb s))" by (rule map_updWhere) (rule k)
  ultimately show ?thesis
    using w True by (auto simp: durable_def advances_def immichOk_def samePosts_def)
qed

lemma begun_exec:
  assumes "durable w s" and "begunWith w b a row"
    and "\<And>i. sameSelection row i \<Longrightarrow> sameSelection row (f i)" and "\<And>i. selectionKey (f i) = selectionKey i"
  shows "wpE (exec (setSelections (isSelection b a) f)) (\<lambda>_. durable w) (durable w) s"
proof (rule wpE_exec)
  show "durable w (s\<lparr>tick := n, dead := d\<rparr>)" for n d by (rule durable.trans [OF assms(1) durable.admin])
  show "durable w (s\<lparr>wdb := d', tick := n, dead := x\<rparr>)" if "setSelections (isSelection b a) f (wdb s) = Inr (d', r)" for d' r n x
    using that begun_update [OF assms, where n = n and x = x] by (simp add: setSelections_def)
  show "durable w (s\<lparr>wdb := d', tick := n\<rparr>)" if "setSelections (isSelection b a) f (wdb s) = Inr (d', r)" for d' r n
    using that begun_update [OF assms, where n = n and x = "dead s"] by (simp add: setSelections_def)
qed

lemma durable_on:
  assumes "upholds durable m" and "durable w s"
  shows "wpE m (\<lambda>_. durable w) (durable w) s"
  by (rule wpE_mono [OF wpE_upholds [OF assms(1)]]) (auto intro: durable.trans [OF assms(2)])

lemma durable_calm: "upholds calm m \<Longrightarrow> upholds durable m"
  by (erule upholds_mono) (rule calm_durable)

lemma durable_importAsset: "upholds durable (importAsset im b client albumID sn a)"
proof -
  have settle: "wpE (settleFailed b i e) (\<lambda>_. durable w) (durable w) s"
    if "durable w s" "begunWith w b i row" "\<not> isSent row" for w s i e row
    unfolding settleFailed_def
    apply (rule wpE_step, rule durable_on [OF durable.up_cancelled that(1)])
    apply (rule begun_exec [OF _ that(2)])
    using that(3) by (auto simp: sameSelection_def selectionKey_def)
  have send: "wpE (sendAsset im b client albumID sn a row) (\<lambda>_. durable w) (durable w) s"
    if "durable w s" "begunWith w b (ra_id a) row" "\<not> isSent row" for w s row
    unfolding sendAsset_def
    apply (rule wpE_step [where Q = "\<lambda>_. durable w"])
     apply (rule wpE_if)
      apply (rule wpE_step, rule durable_on [OF durable_calm [OF calm_openAsset] that(1)], rule wpE_prod)
      apply (rule wpE_step, erule durable_on [OF durable_calm [OF calm_client(5)]], rule wpE_prod)
      apply (rule wpE_step, erule begun_exec [OF _ that(2)])
    using that(3) apply (auto simp: sameSelection_def selectionKey_def remoteKnown_def) [2]
      apply (erule wpE_ret)
     apply (rule wpE_ret, rule that(1))
    apply (rule wpE_prod)
    apply (rule wpE_step, erule durable_on [OF durable_calm [OF calm_client(4)]])
    apply (erule begun_exec [OF _ that(2)])
    using that(3) by (auto simp: sameSelection_def selectionKey_def)
  have "wpE (importAsset im b client albumID sn a) (\<lambda>_. durable w) (durable w) w" for w
    unfolding importAsset_def
  proof (rule wpE_try_queryRow)
    fix n x e
    assume "e \<in> {EIo, ECrashed}"
    then show "wpE (case Inl e of Inl e \<Rightarrow> if e = NoRows then ret () else raise e
        | Inr row \<Rightarrow> m row) (\<lambda>_. durable w) (durable w) (w\<lparr>tick := n, dead := x\<rparr>)" for m
      by (auto intro!: wpE_ret wpE_raise durable.admin)
  next
    fix n
    show "wpE (case Inl NoRows of Inl e \<Rightarrow> if e = NoRows then ret () else raise e
        | Inr row \<Rightarrow> m row) (\<lambda>_. durable w) (durable w) (w\<lparr>tick := n\<rparr>)" for m
      by (auto intro!: wpE_ret durable.tick_only)
  next
    fix n row
    assume row: "selectionOf b (ra_id a) (wdb w) = Some row"
    then have begun: "begunWith w b (ra_id a) row" by (simp add: begunWith_def)
    show "wpE (case Inr row of Inl e \<Rightarrow> if e = NoRows then ret () else raise e | Inr row \<Rightarrow>
         if ai_status row \<noteq> ImpPending then ret ()
         else bindE (exec (setSelections (isSelection b (ra_id a))
                (\<lambda>i. i\<lparr>ai_status := ImpImporting, ai_attempts := ai_attempts i + 1\<rparr>))) (\<lambda>_.
              tryE (sendAsset im b client albumID sn a row) (\<lambda>r.
              case r of Inr _ \<Rightarrow> ret () | Inl e \<Rightarrow> tryE (settleFailed b (ra_id a) e) (\<lambda>_. raise e))))
        (\<lambda>_. durable w) (durable w) (w\<lparr>tick := n\<rparr>)"
    proof (cases "ai_status row = ImpPending")
      case True
      then have todo: "\<not> isSent row" by (simp add: isSent_def)
      show ?thesis
        apply (simp add: True, rule wpE_step, rule begun_exec [OF durable.tick_only begun])
        using todo apply (auto simp: sameSelection_def selectionKey_def) [2]
        apply (rule wpE_tryE, rule wpE_mono, erule send [OF _ begun todo])
         apply (simp add: wpE_ret)
        apply (clarsimp, rule wpE_tryE, rule wpE_mono, erule settle [OF _ begun todo])
         apply (simp_all add: wpE_raise)
        done
    qed (auto intro!: wpE_ret durable.tick_only)
  qed
  then show ?thesis unfolding upholds_def by (blast intro: wpE_state)
qed

section \<open>The album\<close>

definition oneCall :: "world \<Rightarrow> call \<Rightarrow> world \<Rightarrow> bool" where
  "oneCall s c t \<longleftrightarrow> wdb t = wdb s \<and> (trace t = trace s \<or> trace t = trace s @ [c])"

lemma request_oneCall:
  "wpE (immichRequest target verb path body limit)
     (\<lambda>_. oneCall w (CallImmich target verb path body)) (oneCall w (CallImmich target verb path body)) w"
  unfolding immichRequest_def by (intro vcg) (auto simp: oneCall_def)

lemma createAlbum_post:
  "wpE (createAlbum target name marker)
     (\<lambda>a t. oneCall w (CallImmich target ''POST'' ''/albums'' [name, marker]) t \<and> al_id a \<noteq> [])
     (oneCall w (CallImmich target ''POST'' ''/albums'' [name, marker])) w"
  unfolding createAlbum_def
  apply (rule wpE_step, rule request_oneCall)
  subgoal for j t by (cases j) (auto intro!: wpE_raise wpE_bindE wpE_failIf wpE_ret simp: uuidOk_def)
  done

lemma oneCall_posts:
  assumes "oneCall s (CallImmich target ''POST'' ''/albums'' [name, marker]) t"
  shows "wdb t = wdb s" "albumPosts m (trace t) \<le> albumPosts m (trace s) + (if m = marker then 1 else 0)"
  using assms by (auto simp: oneCall_def albumPosts_def isAlbumPost_def)

lemma binding_unique: "bindingsOk bs \<Longrightarrow> b \<in> set bs \<Longrightarrow> q \<in> set bs \<Longrightarrow> ei_id q = ei_id b \<or> ei_marker q = ei_marker b \<Longrightarrow> q = b"
  by (auto simp: bindingsOk_def dest: distinct_map_eq)

text \<open>From the same row, either only the intent is written, or the intent and the album.\<close>

lemma careful_binding:
  assumes b: "b \<in> set (event_imports (wdb w))" "\<not> albumKnown b" and k: "k \<le> (if ei_state b = AlbumNew then 1 else 0)"
    and g: "g = (\<lambda>q. q) \<and> k = 0 \<or> g = ei_state_update (\<lambda>_. AlbumCreating) \<or> (\<exists>a. a \<noteq> [] \<and> g = (\<lambda>q. q\<lparr>ei_album := Some a, ei_state := AlbumReady\<rparr>))"
    and t: "wdb t = (wdb w)\<lparr>event_imports := updWhere (\<lambda>q. ei_id q = ei_id b) g (event_imports (wdb w))\<rparr>"
      "\<And>m. albumPosts m (trace t) \<le> albumPosts m (trace w) + (if m = ei_marker b then k else 0)"
  shows "careful w t"
proof (cases "immichOk (wdb w)")
  case False
  then show ?thesis by (simp add: careful_def advances_def)
next
  case True
  then have bs: "bindingsOk (event_imports (wdb w))" by (simp add: immichOk_def)
  have only: "q = b" if "q \<in> set (event_imports (wdb w))" "ei_id q = ei_id b \<or> ei_marker q = ei_marker b" for q
    using bs b(1) that by (blast intro: binding_unique)
  have "ei_state b \<noteq> AlbumReady" using bs b by (auto simp: bindingsOk_def)
  then have le: "ei_state b \<le> AlbumCreating" by (cases "ei_state b") (simp_all add: less_eq_album_state_def)
  have step: "sameBinding b (g b) \<and> (ei_state (g b) = AlbumReady) = albumKnown (g b) \<and> (ei_state (g b) = AlbumNew \<longrightarrow> ei_state b = AlbumNew \<and> k = 0)"
    using g
  proof (elim disjE)
    assume "g = (\<lambda>q. q) \<and> k = 0"
    with \<open>ei_state b \<noteq> AlbumReady\<close> b(2) show ?thesis by simp
  next
    assume "g = ei_state_update (\<lambda>_. AlbumCreating)"
    with le b(2) show ?thesis by (simp add: sameBinding_def albumKnown_def)
  next
    assume "\<exists>a. a \<noteq> [] \<and> g = (\<lambda>q. q\<lparr>ei_album := Some a, ei_state := AlbumReady\<rparr>)"
    with b(2) show ?thesis by (auto simp: sameBinding_def albumKnown_def)
  qed
  have "advances (wdb w) (wdb t)"
    unfolding t(1) by (rule advances_setBindings) (use only step in blast)
  moreover have "matched (withinBudget (trace w) (trace t)) (event_imports (wdb w)) (event_imports (wdb t))"
    unfolding matched_def
  proof
    fix q assume q: "q \<in> set (event_imports (wdb w))"
    let ?q = "if ei_id q = ei_id b then g q else q"
    have "?q \<in> set (event_imports (wdb t))" using q by (auto simp: t(1) updWhere_def)
    moreover have "withinBudget (trace w) (trace t) q ?q"
    proof (cases "ei_id q = ei_id b")
      case True
      with q only have "q = b" by blast
      with step t(2) [of "ei_marker b"] k show ?thesis
        by (auto simp: withinBudget_def albumBudget_def sameBinding_def split: if_splits)
    next
      case False
      with q only have "ei_marker q \<noteq> ei_marker b" by blast
      with False t(2) [of "ei_marker q"] show ?thesis by (simp add: withinBudget_def albumBudget_def)
    qed
    ultimately show "\<exists>r \<in> set (event_imports (wdb t)). withinBudget (trace w) (trace t) q r" by blast
  qed
  ultimately show ?thesis by (simp add: careful_def)
qed

lemma updWhere_twice:
  "(\<And>r. P r \<Longrightarrow> P (f r)) \<Longrightarrow> updWhere P g (updWhere P f rows) = updWhere P (\<lambda>r. g (f r)) rows"
  by (simp add: updWhere_def)

lemma careful_on:
  assumes "upholds careful m" and "careful w s"
  shows "wpE m (\<lambda>_. careful w) (careful w) s"
  by (rule wpE_mono [OF wpE_upholds [OF assms(1)]]) (auto intro: careful_trans [OF assms(2)])

lemma calm_careful: "upholds calm m \<Longrightarrow> upholds careful m"
  by (intro up_durable_careful durable_calm)

lemma posts_admin [simp]: "albumPosts m (trace (w\<lparr>tick := n, dead := x\<rparr>)) = albumPosts m (trace w)"
  by simp

text \<open>What has been written of the binding \<open>b\<close>, and how many requests that took.\<close>

definition atBinding :: "world \<Rightarrow> import_row \<Rightarrow> nat \<Rightarrow> (import_row \<Rightarrow> import_row) \<Rightarrow> world \<Rightarrow> bool" where
  "atBinding w b k g t \<longleftrightarrow>
     wdb t = (wdb w)\<lparr>event_imports := updWhere (\<lambda>q. ei_id q = ei_id b) g (event_imports (wdb w))\<rparr> \<and>
     (\<forall>m. albumPosts m (trace t) \<le> albumPosts m (trace w) + (if m = ei_marker b then k else 0))"

lemma atBinding_tick: "atBinding w b k f s \<Longrightarrow> atBinding w b k f (s\<lparr>tick := n, dead := x\<rparr>)"
  by (simp add: atBinding_def)

lemma atBinding_set:
  assumes "atBinding w b k f s" and "\<And>q. ei_id (f q) = ei_id q"
    and "setBindings (\<lambda>q. ei_id q = ei_id b) g (wdb s) = Inr (d, r)"
  shows "atBinding w b k (\<lambda>q. g (f q)) (s\<lparr>wdb := d, tick := n, dead := x\<rparr>)"
proof -
  from assms have "d = (wdb w)\<lparr>event_imports := updWhere (\<lambda>q. ei_id q = ei_id b) g (updWhere (\<lambda>q. ei_id q = ei_id b) f (event_imports (wdb w)))\<rparr>"
    by (simp add: setBindings_def atBinding_def)
  with assms(1,2) show ?thesis by (simp add: atBinding_def updWhere_twice)
qed

lemma atBinding_exec:
  assumes s: "atBinding w b k f s" "\<And>q. ei_id (f q) = ei_id q"
    and E: "\<And>t. atBinding w b k f t \<Longrightarrow> E t" and Q: "\<And>t. atBinding w b k (\<lambda>q. g (f q)) t \<Longrightarrow> E t \<and> Q () t"
  shows "wpE (exec (setBindings (\<lambda>q. ei_id q = ei_id b) g)) Q E s"
proof (rule wpE_exec)
  show "E (s\<lparr>tick := n, dead := x\<rparr>)" for n x by (rule E [OF atBinding_tick [OF s(1)]])
  fix d r n
  assume run: "setBindings (\<lambda>q. ei_id q = ei_id b) g (wdb s) = Inr (d, r)"
  note t = atBinding_set [OF s run]
  show "E (s\<lparr>wdb := d, tick := n, dead := x\<rparr>)" for x using Q [OF t] by blast
  show "Q r (s\<lparr>wdb := d, tick := n\<rparr>)" using Q [OF t [where n = n and x = "dead s"]] by simp
qed

lemma atBinding_start: "wdb s = wdb w \<Longrightarrow> samePosts w s \<Longrightarrow> atBinding w b k (\<lambda>q. q) s"
  by (simp add: atBinding_def samePosts_def updWhere_def)

lemma atBinding_calm: "atBinding w b k f s \<Longrightarrow> calm s t \<Longrightarrow> atBinding w b k f t"
  by (simp add: atBinding_def calm_def samePosts_def)

lemma atBinding_post:
  assumes s: "atBinding w b 0 g s" and t: "oneCall s (CallImmich target ''POST'' ''/albums'' [name, ei_marker b]) t"
  shows "atBinding w b 1 g t"
proof -
  have "albumPosts m (trace t) \<le> albumPosts m (trace w) + (if m = ei_marker b then 1 else 0)" for m
    using oneCall_posts(2) [OF t, of m] s by (simp add: atBinding_def le_trans split: if_splits)
  with s oneCall_posts(1) [OF t] show ?thesis unfolding atBinding_def by auto
qed

lemma atBinding_careful:
  assumes "b \<in> set (event_imports (wdb w))" "\<not> albumKnown b" "k \<le> (if ei_state b = AlbumNew then 1 else 0)"
    and "atBinding w b k g t"
    and "g = (\<lambda>q. q) \<and> k = 0 \<or> g = ei_state_update (\<lambda>_. AlbumCreating) \<or>
      (\<exists>a. a \<noteq> [] \<and> g = (\<lambda>q. q\<lparr>ei_album := Some a, ei_state := AlbumReady\<rparr>))"
  shows "careful w t"
  using assms(4) by (intro careful_binding [OF assms(1,2,3,5)]) (simp_all add: atBinding_def)

lemma saveAlbum_careful:
  assumes b: "b \<in> set (event_imports (wdb w))" "\<not> albumKnown b" "k \<le> (if ei_state b = AlbumNew then 1 else 0)"
    and s: "atBinding w b k f s" "f = (\<lambda>q. q) \<and> k = 0 \<or> f = ei_state_update (\<lambda>_. AlbumCreating)" "a \<noteq> []"
  shows "wpE (bindE (exec (setBindings (\<lambda>q. ei_id q = ei_id b) (\<lambda>q. q\<lparr>ei_album := Some a, ei_state := AlbumReady\<rparr>))) (\<lambda>_. ret a))
    (\<lambda>_. careful w) (careful w) s"
proof (rule wpE_bindE, rule atBinding_exec [OF s(1)])
  show "ei_id (f q) = ei_id q" for q using s(2) by auto
  show "careful w t" if "atBinding w b k f t" for t
    by (rule atBinding_careful [OF b that]) (use s(2) in auto)
  show "careful w t \<and> wpE (ret a) (\<lambda>_. careful w) (careful w) t"
    if "atBinding w b k (\<lambda>q. f q\<lparr>ei_album := Some a, ei_state := AlbumReady\<rparr>) t" for t
  proof -
    have "careful w t"
      by (rule atBinding_careful [OF b that]) (use s(2,3) in \<open>auto simp: fun_eq_iff\<close>)
    then show ?thesis by (simp add: wpE_ret)
  qed
qed

lemma careful_albumOf: "upholds careful (albumOf client i)"
proof -
  have "wpE (albumOf client i) (\<lambda>_. careful w) (careful w) w" for w
  proof (cases "immichOk (wdb w)")
    case False
    then show ?thesis by (intro wpE_mono [OF wpE_triv]) (simp_all add: careful_def advances_def)
  next
    case True
    have row: "wpE (let i = (case ei_album b of None \<Rightarrow> [] | Some i \<Rightarrow> i) in
       if i \<noteq> [] then bindE (getAlbum client i) (\<lambda>_. ret i)
       else
         bindE (if ei_state b = AlbumCreating then findAlbum client (ei_marker b)
                else bindE (exec (setBindings (\<lambda>q. ei_id q = ei_id b) (ei_state_update (\<lambda>_. AlbumCreating)))) (\<lambda>_.
                     createAlbum client (ei_name b) (ei_marker b))) (\<lambda>a.
         bindE (exec (setBindings (\<lambda>q. ei_id q = ei_id b) (\<lambda>b. b\<lparr>ei_album := Some (al_id a), ei_state := AlbumReady\<rparr>))) (\<lambda>_.
         ret (al_id a)))) (\<lambda>_. careful w) (careful w) s"
      if b: "b \<in> set (event_imports (wdb w))" and s: "wdb s = wdb w" "trace s = trace w" for b s
    proof (cases "albumKnown b")
      case True
      have "calm w s" using s by (simp add: calm_def samePosts_def)
      then have cs: "careful w s" by (intro durable_careful calm_durable)
      from True obtain j where "ei_album b = Some j" "j \<noteq> []" by (auto simp: albumKnown_def)
      then show ?thesis
        by (auto intro!: wpE_step [OF careful_on [OF calm_careful [OF calm_client(2)] cs]] wpE_ret)
    next
      case False
      have start: "atBinding w b 0 (\<lambda>q. q) s" using s by (intro atBinding_start) (simp_all add: samePosts_def)
      have none: "(case ei_album b of None \<Rightarrow> [] | Some i \<Rightarrow> i) = []"
        using False by (auto simp: albumKnown_def split: option.splits)
      have state: "ei_state b = AlbumNew \<or> ei_state b = AlbumCreating"
        using True b False by (cases "ei_state b") (auto simp: immichOk_def bindingsOk_def)
      show ?thesis
      proof (cases "ei_state b = AlbumCreating")
        case creating: True
        have found: "wpE (findAlbum client (ei_marker b)) (\<lambda>a t. atBinding w b 0 (\<lambda>q. q) t \<and> al_id a \<noteq> []) (careful w) s"
        proof -
          have "wpE (findAlbum client (ei_marker b)) (\<lambda>a _. al_id a \<noteq> []) (\<lambda>_. True) s"
            using client_posts(4) [of client "ei_marker b" s]
            by (auto simp: wpE_def wp_def clientPost_def uuidOk_def split: prod.splits sum.splits)
          moreover have "wpE (findAlbum client (ei_marker b)) (\<lambda>_ t. calm s t) (calm s) s"
            by (rule wpE_upholds [OF calm_client(3)])
          ultimately show ?thesis
          proof (rule wpE_mono [OF wpE_conj], goal_cases)
            case (1 x t)
            with start show ?case by (auto intro: atBinding_calm)
          next
            case (2 t)
            then have "atBinding w b 0 (\<lambda>q. q) t" using start by (auto intro: atBinding_calm)
            then show ?case by (rule atBinding_careful [OF b False, rotated]) (use creating in auto)
          qed
        qed
        show ?thesis
          apply (simp add: none creating, rule wpE_step, rule found)
          apply (erule conjE, rule saveAlbum_careful [OF b False])
          using creating by auto
      next
        case new: False
        with state have new: "ei_state b = AlbumNew" by simp
        let ?g = "ei_state_update (\<lambda>_. AlbumCreating)"
        have created: "wpE (bindE (exec (setBindings (\<lambda>q. ei_id q = ei_id b) ?g)) (\<lambda>_. createAlbum client (ei_name b) (ei_marker b)))
            (\<lambda>a t. atBinding w b 1 ?g t \<and> al_id a \<noteq> []) (careful w) s"
        proof (rule wpE_bindE, rule atBinding_exec [OF start])
          show "careful w t" if "atBinding w b 0 (\<lambda>q. q) t" for t
            by (rule atBinding_careful [OF b False _ that]) auto
          show "careful w t \<and> wpE (createAlbum client (ei_name b) (ei_marker b))
              (\<lambda>a t. atBinding w b 1 ?g t \<and> al_id a \<noteq> []) (careful w) t" if t: "atBinding w b 0 ?g t" for t
          proof
            show "careful w t" by (rule atBinding_careful [OF b False _ t]) auto
            show "wpE (createAlbum client (ei_name b) (ei_marker b))
                (\<lambda>a t. atBinding w b 1 ?g t \<and> al_id a \<noteq> []) (careful w) t"
            proof (rule wpE_mono [OF createAlbum_post])
              fix u assume "oneCall t (CallImmich client ''POST'' ''/albums'' [ei_name b, ei_marker b]) u"
              then have "atBinding w b 1 ?g u" by (rule atBinding_post [OF t])
              then show "careful w u" by (rule atBinding_careful [OF b False, rotated]) (use new in auto)
            qed (use atBinding_post [OF t] in auto)
          qed
        qed simp
        show ?thesis
          apply (simp add: none new, rule wpE_step, rule created)
          apply (erule conjE, rule saveAlbum_careful [OF b False])
          using new by auto
      qed
    qed
    show ?thesis
      unfolding albumOf_def
      apply (rule wpE_bindE, rule wpE_queryRow)
       apply (rule careful.admin)
      subgoal premises found for b n
      proof -
        from find_SomeD [OF found] have b: "b \<in> set (event_imports (wdb w))" and i: "ei_id b = i" by auto
        show ?thesis by (rule row [OF b, where s = "w\<lparr>tick := n\<rparr>", unfolded i]) simp_all
      qed
      done
  qed
  then show ?thesis unfolding upholds_def by (blast intro: wpE_state)
qed

section \<open>Jobs and the worker\<close>

lemma durable_importAll: "upholds durable (importAll im b client albumID sn as failed)"
  by (induction as arbitrary: failed) (auto intro!: durable.up_rules durable.up_world durable_importAsset)

lemma careful_importJob: "upholds careful (importJob im j)"
  unfolding importJob_def
  by (intro careful.up_rules careful.up_world calm_careful [OF calm_client(1)] calm_careful [OF calm_snapshot(1)]
      calm_careful [OF calm_snapshot(2)] careful_albumOf up_durable_careful [OF durable_importAll])

lemma careful_executeJob: "upholds careful (executeJob im j)"
  unfolding executeJob_def
  by (intro careful.up_rules careful.up_world careful_importJob up_durable_careful [OF durable_finishJob])

lemma careful_logged: "upholds careful m \<Longrightarrow> upholds careful (logged m)"
  unfolding logged_def by (intro careful.up_rules)

lemma careful_runRound: "upholds careful (runRound im woken st)"
  unfolding runRound_def
  by (intro careful.up_rules careful.up_world careful_logged careful_executeJob
      up_durable_careful durable_recover durable_reconcile durable_claim)

text \<open>Every operation of the service.\<close>

lemmas careful_operations =
  up_durable_careful [OF durable_enqueue] up_durable_careful [OF durable_createBound] up_durable_careful [OF durable_Cancel]
  up_durable_careful [OF durable_SetAutoImport] careful_runRound

end
