(* ===== verification/ImmichResults.thy ===== *)
theory ImmichResults
  imports ImmichSafe
begin

text \<open>
  What the operations of the import jobs achieve: recovery, enqueueing, the end of a job, one asset, one
  reconciled binding, the round robin of the reconciliation, and the counts of the status.
\<close>

section \<open>Look-ups after updates\<close>

lemma find_updWhere:
  assumes "\<And>r. P r \<Longrightarrow> K (f r) = K r"
  shows "find K (updWhere P f rows) = map_option (\<lambda>r. if P r then f r else r) (find K rows)"
  using assms by (induction rows) (auto simp: updWhere_def)

lemma selectionOf_set:
  assumes "setSelections P f d = Inr (d', r)" and "\<And>i. P i \<Longrightarrow> selectionKey (f i) = selectionKey i"
  shows "selectionOf b a d' = map_option (\<lambda>i. if P i then f i else i) (selectionOf b a d)"
  using assms unfolding selectionOf_def setSelections_def
  by (auto simp: selectionKey_def intro!: find_updWhere)

lemma selectionOf_key: "selectionOf b a d = Some i \<Longrightarrow> isSelection b a i"
  by (auto simp: selectionOf_def isSelection_def dest: find_SomeD)

section \<open>Recovery\<close>

text \<open>Nothing is in progress any more, the same bindings have a job, and no remote identifier changed.\<close>

definition recoveredFrom :: "db \<Rightarrow> db \<Rightarrow> bool" where
  "recoveredFrom d d' \<longleftrightarrow>
     (\<forall>i \<in> set (asset_imports d'). ai_status i \<noteq> ImpImporting) \<and> (\<forall>j \<in> set (jobs d'). jb_status j \<noteq> Running) \<and>
     map jb_import (filter activeJob (jobs d')) = map jb_import (filter activeJob (jobs d)) \<and>
     map (\<lambda>i. (ai_import i, ai_asset i, ai_remote i, ai_duplicate i)) (asset_imports d') =
       map (\<lambda>i. (ai_import i, ai_asset i, ai_remote i, ai_duplicate i)) (asset_imports d) \<and>
     event_imports d' = event_imports d"

lemma active_updWhere:
  assumes "\<And>j. P j \<Longrightarrow> activeJob (f j) = activeJob j \<and> jb_import (f j) = jb_import j"
  shows "map jb_import (filter activeJob (updWhere P f js)) = map jb_import (filter activeJob js)"
  using assms by (induction js) (auto simp: updWhere_def)

lemma recover_result:
  "wpE recover (\<lambda>_ t. recoveredFrom (wdb w) (wdb t)) (\<lambda>_. True) w"
  unfolding recover_def
proof (intro vcg TrueI conjI allI)
  fix n d r m d' r' k
  assume s: "setSelections (\<lambda>i. ai_status i = ImpImporting) (ai_status_update (\<lambda>_. ImpPending)) (wdb (w\<lparr>tick := n\<rparr>)) = Inr (d, r)"
    and j: "setJobs (\<lambda>j. jb_status j = Running) (\<lambda>j. j\<lparr>jb_status := Queued, jb_error := []\<rparr>)
      (wdb (w\<lparr>tick := n\<rparr>\<lparr>wdb := d, tick := m\<rparr>)) = Inr (d', r')"
  from s have d: "d = (wdb w)\<lparr>asset_imports := updWhere (\<lambda>i. ai_status i = ImpImporting) (ai_status_update (\<lambda>_. ImpPending)) (asset_imports (wdb w))\<rparr>"
    by (simp add: setSelections_def)
  from j have d': "d' = d\<lparr>jobs := updWhere (\<lambda>j. jb_status j = Running) (\<lambda>j. j\<lparr>jb_status := Queued, jb_error := []\<rparr>) (jobs d)\<rparr>"
    by (simp add: setJobs_def)
  have "recoveredFrom (wdb w) d'"
    unfolding recoveredFrom_def d' d
    by (simp add: map_updWhere active_updWhere activeJob_def) (auto simp: updWhere_def)
  then show "recoveredFrom (wdb w) (wdb (w\<lparr>tick := n\<rparr>\<lparr>wdb := d, tick := m\<rparr>\<lparr>wdb := d', tick := k\<rparr>\<lparr>tick := l\<rparr>))" for l
    by simp
qed

section \<open>One asset\<close>

definition isUploadPost :: "call \<Rightarrow> bool" where
  "isUploadPost c \<longleftrightarrow> (case c of CallImmich _ verb path _ \<Rightarrow> verb = ''POST'' \<and> path = ''/assets'' | _ \<Rightarrow> False)"

definition uploadPosts :: "call list \<Rightarrow> nat" where
  "uploadPosts tr = length (filter isUploadPost tr)"

definition sameUploads :: "world \<Rightarrow> world \<Rightarrow> bool" where
  "sameUploads s t \<longleftrightarrow> uploadPosts (trace t) = uploadPosts (trace s)"

interpretation same_uploads: tx_order sameUploads
  by unfold_locales (auto simp: sameUploads_def)

lemma uploads_exec: "upholds sameUploads (exec x)"
  by (rule same_uploads.up_exec) (simp add: sameUploads_def)

lemma uploads_remote: "\<not> isUploadPost c \<Longrightarrow> upholds sameUploads (remote c a)"
  by (rule same_uploads.up_remote) (simp add: sameUploads_def uploadPosts_def)

lemma uploads_request: "verb \<noteq> ''POST'' \<or> path \<noteq> ''/assets'' \<Longrightarrow> upholds sameUploads (immichRequest target verb path body limit)"
  unfolding immichRequest_def by (intro same_uploads.up_rules same_uploads.up_world uploads_remote) (auto simp: isUploadPost_def)

lemma uploads_addToAlbum: "upholds sameUploads (addToAlbum target i j)"
proof -
  have "upholds sameUploads (case rs of [(i, success, e)] \<Rightarrow> failIf (P i success e) x | _ \<Rightarrow> raise ImmichUnavailable)" for rs P x
    by (auto split: list.splits intro: same_uploads.up_rules)
  then have "upholds sameUploads (case j of JAdded [(i, success, e)] \<Rightarrow> failIf (P i success e) x | _ \<Rightarrow> raise ImmichUnavailable)" for j P x
    by (cases j) (auto intro: same_uploads.up_rules)
  then show ?thesis unfolding addToAlbum_def by (intro same_uploads.up_rules uploads_request) auto
qed

lemma uploads_openAsset: "upholds sameUploads (openAsset sv sn a)"
proof -
  have "wpE (localOpen key) (\<lambda>_ t. quiet w t) (quiet w) w" for key w
    by (rule wpE_mono [OF localOpen_result]) auto
  then have "upholds quiet (localOpen key)" for key unfolding upholds_def by (blast intro: wpE_state)
  then have l: "upholds sameUploads (localOpen key)" for key
    by (rule upholds_mono) (simp add: quiet_def sameUploads_def)
  show ?thesis
    unfolding openAsset_def openLocal_def s3Open_def safely_def
    by (intro same_uploads.up_rules l uploads_remote) (auto simp: isUploadPost_def)
qed

definition atMostUploads :: "nat \<Rightarrow> world \<Rightarrow> world \<Rightarrow> bool" where
  "atMostUploads k s t \<longleftrightarrow> uploadPosts (trace t) \<le> uploadPosts (trace s) + k"

lemma atMost_on: "upholds sameUploads m \<Longrightarrow> atMostUploads k w s \<Longrightarrow> wpE m (\<lambda>_. atMostUploads k w) (atMostUploads k w) s"
  by (rule wpE_mono [OF wpE_upholds [where R = sameUploads]]) (auto simp: atMostUploads_def sameUploads_def)

lemma upload_posts:
  assumes "atMostUploads 0 w s"
  shows "wpE (immichUpload target f made sz src) (\<lambda>_. atMostUploads 1 w) (atMostUploads 1 w) s"
proof -
  have "atMostUploads 1 w t" if "oneCall s c t" for c t
    using that assms by (auto simp: oneCall_def atMostUploads_def uploadPosts_def)
  then show ?thesis
    unfolding immichUpload_def
    apply (rule_tac wpE_step, rule_tac wpE_mono [OF request_oneCall], assumption, blast)
    subgoal for j t by (cases j) (auto intro!: wpE_raise wpE_bindE wpE_failIf wpE_ret)
    done
qed

lemma atMost_mono: "atMostUploads 0 w t \<Longrightarrow> atMostUploads k w t"
  by (simp add: atMostUploads_def)

lemma sendAsset_posts:
  assumes "atMostUploads 0 w s"
  shows "wpE (sendAsset im b client albumID sn a row) (\<lambda>_. atMostUploads (if remoteKnown row then 0 else 1) w)
    (atMostUploads (if remoteKnown row then 0 else 1) w) s"
proof -
  let ?k = "if remoteKnown row then 0 else 1 :: nat"
  have up: "wpE (if ai_remote row = None \<or> ai_remote row = Some []
            then bindE (openAsset (im_media im) sn a) (\<lambda>(stream, _).
                 bindE (immichUpload client (ra_filename a) (ra_uploaded a) (ra_size a) stream) (\<lambda>(i, status).
                 bindE (exec (setSelections (isSelection b (ra_id a))
                          (\<lambda>r. r\<lparr>ai_remote := Some i, ai_duplicate := (status = ''duplicate'')\<rparr>))) (\<lambda>_.
                 ret (i, status = ''duplicate''))))
            else ret (the (ai_remote row), ai_duplicate row)) (\<lambda>_. atMostUploads ?k w) (atMostUploads ?k w) s"
  proof (cases "remoteKnown row")
    case True
    with assms show ?thesis by (auto simp: remoteKnown_def intro!: wpE_ret)
  next
    case False
    show ?thesis
      apply (rule wpE_if)
       apply (rule wpE_step, rule wpE_mono [OF atMost_on [OF uploads_openAsset assms]])
         prefer 3
         apply (rule wpE_prod, rule wpE_step, erule upload_posts [THEN wpE_mono])
           prefer 3
           apply (rule wpE_prod, rule wpE_step, erule atMost_on [OF uploads_exec], erule wpE_ret)
      using False by (auto simp: remoteKnown_def intro: atMost_mono)
  qed
  show ?thesis
    unfolding sendAsset_def
    apply (rule wpE_step, rule up, rule wpE_prod)
    apply (rule wpE_step, erule atMost_on [OF uploads_addToAlbum])
    apply (erule atMost_on [OF uploads_exec])
    done
qed

text \<open>An import of one asset uploads it at most once, and not at all when its remote identifier is known.\<close>

definition uploadsAllowed :: "asset_import_row option \<Rightarrow> nat" where
  "uploadsAllowed r = (case r of None \<Rightarrow> 0 | Some row \<Rightarrow> if ai_status row = ImpPending \<and> \<not> remoteKnown row then 1 else 0)"

lemma settle_uploads: "upholds sameUploads (settleFailed b a e)"
  unfolding settleFailed_def by (intro same_uploads.up_rules same_uploads.up_world uploads_exec)

lemma importAsset_uploads:
  "wpE (importAsset im b client albumID sn a)
     (\<lambda>_. atMostUploads (uploadsAllowed (selectionOf b (ra_id a) (wdb w))) w)
     (atMostUploads (uploadsAllowed (selectionOf b (ra_id a) (wdb w))) w) w"
  unfolding importAsset_def
proof (rule wpE_try_queryRow, goal_cases)
  case (1 n x e)
  then show ?case by (auto intro!: wpE_ret wpE_raise simp: atMostUploads_def)
next
  case (2 n)
  then show ?case by (auto intro!: wpE_ret simp: atMostUploads_def)
next
  case (3 n row)
  show ?case
  proof (cases "ai_status row = ImpPending")
    case True
    then have k: "uploadsAllowed (selectionOf b (ra_id a) (wdb w)) = (if remoteKnown row then 0 else 1)"
      using 3 by (simp add: uploadsAllowed_def)
    have start: "atMostUploads 0 w (w\<lparr>tick := n\<rparr>)" by (simp add: atMostUploads_def)
    show ?thesis
      unfolding k
      apply (simp only: sum.case True simp_thms if_False)
      apply (rule wpE_step, rule wpE_mono [OF atMost_on [OF uploads_exec start]], assumption, erule atMost_mono)
      apply (rule wpE_tryE, rule wpE_mono, erule sendAsset_posts)
       apply (simp add: wpE_ret)
      apply (intro allI, simp only: sum.case, rule wpE_tryE, rule wpE_mono, erule atMost_on [OF settle_uploads])
       apply (simp_all add: wpE_raise)
      done
  qed (auto intro!: wpE_ret simp: atMostUploads_def)
qed

text \<open>A pending selection that is imported without an error is accounted: sent, with a proper identifier, and
marked as a duplicate exactly when the server said so.\<close>

definition accounted :: "asset_import_row option \<Rightarrow> bool" where
  "accounted r \<longleftrightarrow> (case r of None \<Rightarrow> False | Some i \<Rightarrow> isSent i \<and> ai_error i = [] \<and>
     (\<exists>x. ai_remote i = Some x \<and> uuidOk x) \<and> (ai_status i = ImpDuplicate) = ai_duplicate i)"

definition selectedAs :: "int \<Rightarrow> string \<Rightarrow> asset_import_row \<Rightarrow> world \<Rightarrow> bool" where
  "selectedAs b a row t \<longleftrightarrow> selectionOf b a (wdb t) = Some row"

lemma selected_exec:
  assumes "selectedAs b a row s" and "\<And>i. selectionKey (f i) = selectionKey i"
  shows "wpE (exec (setSelections (isSelection b a) f)) (\<lambda>_. selectedAs b a (f row)) (\<lambda>_. True) s"
proof (intro vcg TrueI)
  fix d r n
  assume run: "setSelections (isSelection b a) f (wdb s) = Inr (d, r)"
  have "isSelection b a row" using assms(1) selectionOf_key by (auto simp: selectedAs_def)
  with selectionOf_set [OF run, of b a] assms show "selectedAs b a (f row) (s\<lparr>wdb := d, tick := n\<rparr>)"
    by (simp add: selectedAs_def)
qed

lemma selected_calm: "upholds calm m \<Longrightarrow> selectedAs b a row s \<Longrightarrow> wpE m (\<lambda>_. selectedAs b a row) (\<lambda>_. True) s"
  by (rule wpE_mono [OF wpE_upholds [where R = calm]]) (auto simp: selectedAs_def calm_def)

lemma addToAlbum_selected:
  assumes "selectedAs b a row s"
  shows "wpE (addToAlbum target i j) (\<lambda>_ t. selectedAs b a row t \<and> uuidOk j) (\<lambda>_. True) s"
proof -
  have "wpE (addToAlbum target i j) (\<lambda>_ _. uuidOk j) (\<lambda>_. True) s"
    using client_posts(5) [of target i j s]
    by (auto simp: wpE_def wp_def clientPost_def split: prod.splits sum.splits)
  from wpE_conj [OF selected_calm [OF calm_client(4) assms] this] show ?thesis by simp
qed

lemma sendAsset_accounts:
  assumes row: "selectedAs b (ra_id a) row1 s" and r1: "ai_remote row1 = ai_remote row" "ai_duplicate row1 = ai_duplicate row"
  shows "wpE (sendAsset im b client albumID sn a row) (\<lambda>_ t. accounted (selectionOf b (ra_id a) (wdb t))) (\<lambda>_. True) s"
proof -
  have "wpE (if ai_remote row = None \<or> ai_remote row = Some []
            then bindE (openAsset (im_media im) sn a) (\<lambda>(stream, _).
                 bindE (immichUpload client (ra_filename a) (ra_uploaded a) (ra_size a) stream) (\<lambda>(i, status).
                 bindE (exec (setSelections (isSelection b (ra_id a))
                          (\<lambda>r. r\<lparr>ai_remote := Some i, ai_duplicate := (status = ''duplicate'')\<rparr>))) (\<lambda>_.
                 ret (i, status = ''duplicate''))))
            else ret (the (ai_remote row), ai_duplicate row))
     (\<lambda>p t. \<exists>q. selectedAs b (ra_id a) q t \<and> ai_remote q = Some (fst p) \<and> ai_duplicate q = snd p) (\<lambda>_. True) s"
    apply (rule wpE_if)
     apply (rule wpE_step, rule selected_calm [OF calm_openAsset row], rule wpE_prod)
     apply (rule wpE_step, erule selected_calm [OF calm_client(5)], rule wpE_prod)
     apply (rule wpE_step, erule selected_exec, simp add: selectionKey_def)
     apply (rule wpE_ret, auto) [1]
    using row r1 by (auto intro!: wpE_ret)
  then show ?thesis
    unfolding sendAsset_def
  proof (rule wpE_step)
    fix p t
    assume "\<exists>q. selectedAs b (ra_id a) q t \<and> ai_remote q = Some (fst p) \<and> ai_duplicate q = snd p"
    then obtain i dup q where p: "p = (i, dup)" and q: "selectedAs b (ra_id a) q t" "ai_remote q = Some i" "ai_duplicate q = dup"
      by (cases p) auto
    show "wpE (case p of (i, duplicate) \<Rightarrow> bindE (addToAlbum client albumID i) (\<lambda>_.
       exec (setSelections (isSelection b (ra_id a))
         (\<lambda>r. r\<lparr>ai_status := (if duplicate then ImpDuplicate else ImpImported), ai_error := []\<rparr>))))
      (\<lambda>_ t. accounted (selectionOf b (ra_id a) (wdb t))) (\<lambda>_. True) t"
      unfolding p prod.case
      apply (rule wpE_step, rule addToAlbum_selected [OF q(1)], erule conjE)
      apply (rule wpE_mono, erule selected_exec)
      using q by (auto simp: selectionKey_def selectedAs_def accounted_def isSent_def)
  qed
qed

definition wasPending :: "asset_import_row option \<Rightarrow> bool" where
  "wasPending r \<longleftrightarrow> (case r of None \<Rightarrow> False | Some i \<Rightarrow> ai_status i = ImpPending)"

lemma importAsset_result:
  "wpE (importAsset im b client albumID sn a)
     (\<lambda>_ t. if wasPending (selectionOf b (ra_id a) (wdb w)) then accounted (selectionOf b (ra_id a) (wdb t)) else wdb t = wdb w)
     (\<lambda>_. True) w"
  unfolding importAsset_def
proof (rule wpE_try_queryRow, goal_cases)
  case (1 n x e)
  then show ?case by (auto intro!: wpE_raise)
next
  case (2 n)
  then show ?case by (auto intro!: wpE_ret simp: wasPending_def)
next
  case (3 n row)
  have start: "selectedAs b (ra_id a) row (w\<lparr>tick := n\<rparr>)" using 3 by (simp add: selectedAs_def)
  show ?case
  proof (cases "ai_status row = ImpPending")
    case True
    with 3 have p: "wasPending (selectionOf b (ra_id a) (wdb w))" by (simp add: wasPending_def)
    show ?thesis
      apply (simp only: p sum.case True simp_thms if_False if_True)
      apply (rule wpE_step, rule selected_exec [OF start], simp add: selectionKey_def)
      apply (rule wpE_tryE, rule wpE_mono, erule sendAsset_accounts)
      by (auto intro!: wpE_ret wpE_tryE wpE_raise wpE_mono [OF wpE_triv])
  qed (use 3 in \<open>auto intro!: wpE_ret simp: wasPending_def\<close>)
qed

section \<open>The end of a job\<close>

text \<open>A finished job has its outcome, and a failed one leaves no media that an automatic job would send again.\<close>

definition finishedAs :: "claimed \<Rightarrow> err + unit \<Rightarrow> db \<Rightarrow> db \<Rightarrow> bool" where
  "finishedAs j r d d' \<longleftrightarrow> (\<exists>row. jobRow (cj_id j) d = Some row \<and>
     jobRow (cj_id j) d' = Some (row\<lparr>jb_status := fst (outcome r (jb_cancel row)), jb_error := snd (outcome r (jb_cancel row))\<rparr>) \<and>
     (fst (outcome r (jb_cancel row)) = Failed \<longrightarrow>
        (\<forall>i \<in> set (asset_imports d'). ai_import i = cj_import j \<longrightarrow> ai_status i \<noteq> ImpPending)) \<and>
     (fst (outcome r (jb_cancel row)) \<noteq> Failed \<longrightarrow> asset_imports d' = asset_imports d))"

lemma finish_exec:
  assumes row: "jobRow i (wdb s) = Some row" and f: "\<And>q. jb_id (f q) = jb_id q"
    and Q: "\<And>t. jobRow i (wdb t) = Some (f row) \<Longrightarrow> asset_imports (wdb t) = asset_imports (wdb s) \<Longrightarrow> Q () t"
  shows "wpE (exec (setJobs (\<lambda>q. jb_id q = i) f)) Q (\<lambda>_. True) s"
proof (intro vcg TrueI)
  fix d r n
  assume "setJobs (\<lambda>q. jb_id q = i) f (wdb s) = Inr (d, r)"
  then have d: "d = (wdb s)\<lparr>jobs := updWhere (\<lambda>q. jb_id q = i) f (jobs (wdb s))\<rparr>" by (simp add: setJobs_def)
  have "jb_id row = i" using row by (auto simp: jobRow_def dest: find_SomeD)
  with row f have "jobRow i d = Some (f row)" by (simp add: d jobRow_def find_updWhere)
  then show "Q r (s\<lparr>wdb := d, tick := n\<rparr>)" using Q [of "s\<lparr>wdb := d, tick := n\<rparr>"] by (simp add: d)
qed

lemma finishJob_result: "wpE (finishJob j r) (\<lambda>_ t. finishedAs j r (wdb w) (wdb t)) (\<lambda>_. True) w"
proof -
  have "wpE (bindE (queryRow (jobRow (cj_id j))) (\<lambda>row.
           let (status, message) = outcome r (jb_cancel row) in
           bindE (if status = Failed
                  then exec (setSelections (\<lambda>i. ai_import i = cj_import j \<and> ai_status i = ImpPending)
                         (\<lambda>i. i\<lparr>ai_status := ImpFailed, ai_error := message\<rparr>))
                  else ret ()) (\<lambda>_.
           exec (setJobs (\<lambda>q. jb_id q = cj_id j) (\<lambda>q. q\<lparr>jb_status := status, jb_error := message\<rparr>)))))
      (\<lambda>_ t. finishedAs j r (wdb w) (wdb t)) (\<lambda>_. True) s" if s: "wdb s = wdb w" for s
  proof (rule wpE_bindE, rule wpE_queryRow, rule TrueI, goal_cases)
    case (1 row n)
    obtain st m where o: "outcome r (jb_cancel row) = (st, m)" by fastforce
    let ?g = "\<lambda>q. q\<lparr>jb_status := st, jb_error := m\<rparr>"
    have "wpE (if st = Failed
                  then exec (setSelections (\<lambda>i. ai_import i = cj_import j \<and> ai_status i = ImpPending)
                         (\<lambda>i. i\<lparr>ai_status := ImpFailed, ai_error := m\<rparr>)) else ret ())
       (\<lambda>_ t. jobRow (cj_id j) (wdb t) = Some row \<and>
         (st = Failed \<longrightarrow> (\<forall>i \<in> set (asset_imports (wdb t)). ai_import i = cj_import j \<longrightarrow> ai_status i \<noteq> ImpPending)) \<and>
         (st \<noteq> Failed \<longrightarrow> asset_imports (wdb t) = asset_imports (wdb w))) (\<lambda>_. True) (s\<lparr>tick := n\<rparr>)"
      using 1 s by (intro vcg TrueI) (auto simp: setSelections_def jobRow_def updWhere_def)
    then show ?case
      unfolding o Let_def prod.case
      apply (rule wpE_step)
      apply (rule finish_exec [where i = "cj_id j"])
        apply (erule conjunct1)
       apply simp
      using 1 s o by (auto simp: finishedAs_def)
  qed
  then show ?thesis unfolding finishJob_def by (intro wpE_inTx) auto
qed

section \<open>Automatic reconciliation\<close>

text \<open>One binding: nothing, or ready media that was never selected, in one bounded batch with one queued job, and
only for a binding that is due.\<close>

definition isDue :: "int \<Rightarrow> db \<Rightarrow> import_row \<Rightarrow> bool" where
  "isDue i d b \<longleftrightarrow> b \<in> set (event_imports d) \<and> ei_id b = i \<and> ei_auto b \<and> ei_state b = AlbumReady \<and>
     (\<exists>e \<in> set (events d). ev_id e = ei_event b \<and> \<not> ev_deleting e) \<and> \<not> hasActive i d \<and>
     (\<forall>s \<in> set (asset_imports d). ai_import s = i \<longrightarrow> ai_status s \<noteq> ImpPending \<and> ai_status s \<noteq> ImpImporting)"

definition isSettled :: "int \<Rightarrow> db \<Rightarrow> bool" where
  "isSettled i d \<longleftrightarrow> (\<forall>b. isDue i d b \<longrightarrow>
     (\<forall>a \<in> set (assets d). as_event a = ei_event b \<and> as_status a = Ready \<longrightarrow> selectionOf i (as_id a) d \<noteq> None))"

definition newBatch :: "int \<Rightarrow> import_row \<Rightarrow> asset_row list \<Rightarrow> db \<Rightarrow> db \<Rightarrow> bool" where
  "newBatch i b new d d' \<longleftrightarrow> isDue i d b \<and> new \<noteq> [] \<and> int (length new) \<le> reconcileAssets \<and>
     (\<forall>a \<in> set new. a \<in> set (assets d) \<and> as_event a = ei_event b \<and> as_status a = Ready \<and> selectionOf i (as_id a) d = None) \<and>
     d' = d\<lparr>asset_imports := asset_imports d @ map (newSelection i) new,
            jobs := jobs d @ [\<lparr>jb_id = nextId (map jb_id (jobs d)), jb_import = i, jb_status = Queued, jb_mode = ModeNew,
              jb_cancel = False, jb_error = []\<rparr>]\<rparr>"

definition reconciledTo :: "int \<Rightarrow> db \<Rightarrow> db \<Rightarrow> bool" where
  "reconciledTo i d d' \<longleftrightarrow> (d' = d \<and> isSettled i d) \<or> (\<exists>b new. newBatch i b new d d')"

lemma dueBinding_isDue: "dueBinding i d = Some e \<Longrightarrow> \<exists>b. isDue i d b \<and> ei_event b = e"
  unfolding dueBinding_def isDue_def
  by (fastforce simp: list_ex_iff dest!: find_SomeD)

lemma not_due: "dueBinding i d = None \<Longrightarrow> bindingsOk (event_imports d) \<Longrightarrow> isSettled i d"
  by (fastforce simp: dueBinding_def isSettled_def isDue_def find_None list_ex_iff bindingsOk_def albumKnown_def)

lemma due_unique: "dueBinding i d = Some e \<Longrightarrow> bindingsOk (event_imports d) \<Longrightarrow> isDue i d b \<Longrightarrow> ei_event b = e"
  using dueBinding_isDue [of i d e] by (auto simp: isDue_def bindingsOk_def dest: distinct_map_eq)

lemma limitTo_Nil: "0 < n \<Longrightarrow> limitTo n xs = [] \<longleftrightarrow> xs = []"
  by (cases xs) auto

lemma none_unselected:
  assumes "dueBinding i d = Some e" and "bindingsOk (event_imports d)" and "unselected i e d = []"
  shows "isSettled i d"
proof -
  from assms(3) have "sort_key (\<lambda>a. (as_created a, as_id a)) (filter (\<lambda>a. selectionOf i (as_id a) d = None) (readyOf e d)) = []"
    by (simp add: unselected_def limitTo_Nil reconcileAssets_def)
  then have "set (filter (\<lambda>a. selectionOf i (as_id a) d = None) (readyOf e d)) = {}"
    by (metis set_sort empty_set)
  then show ?thesis
    using due_unique [OF assms(1,2)] by (auto simp: isSettled_def readyOf_def filter_empty_conv)
qed

lemma reconcileBinding_result:
  assumes bs: "bindingsOk (event_imports (wdb w))"
  shows "wpE (reconcileBinding i) (\<lambda>_ t. reconciledTo i (wdb w) (wdb t)) (\<lambda>_. True) w"
proof -
  let ?tx = "inTx (bindE (queryRow (dueBinding i)) (\<lambda>eventID.
       bindE (exec (\<lambda>d. insertSelection i (unselected i eventID d) d)) (\<lambda>n.
       bindE (failIf (n = 0) NoRows) (\<lambda>_.
       exec (insertJob i ModeNew)))))"
  have ok: "wpE ?tx (\<lambda>_ t. reconciledTo i (wdb w) (wdb t)) (\<lambda>_. True) w"
  proof (intro wpE_inTx TrueI conjI allI, intro vcg TrueI conjI allI, goal_cases)
    case (1 n e m d k l d' r l' l'')
    from dueBinding_isDue [OF 1(1)] obtain b where b: "isDue i (wdb w) b" "ei_event b = e" by auto
    let ?new = "unselected i e (wdb w)"
    from 1 have d: "d = (wdb w)\<lparr>asset_imports := asset_imports (wdb w) @ map (newSelection i) ?new\<rparr>" and k: "int (length ?new) \<noteq> 0"
      by (auto simp: insertSelection_def split: if_splits)
    from 1 have d': "d' = d\<lparr>jobs := jobs d @ [\<lparr>jb_id = nextId (map jb_id (jobs d)), jb_import = i, jb_status = Queued,
        jb_mode = ModeNew, jb_cancel = False, jb_error = []\<rparr>]\<rparr>"
      by (auto simp: insertJob_def Let_def split: if_splits)
    have len: "int (length ?new) \<le> reconcileAssets"
      unfolding unselected_def by (rule length_limitTo) (simp add: reconcileAssets_def)
    have rows: "\<forall>a \<in> set ?new. a \<in> set (assets (wdb w)) \<and> as_event a = ei_event b \<and> as_status a = Ready \<and> selectionOf i (as_id a) (wdb w) = None"
      using b by (auto simp: readyOf_def dest!: set_unselected)
    show ?case
      using b k len rows by (auto simp: reconciledTo_def newBatch_def d d')
  qed
  have err: "wp ?tx (\<lambda>r t. r = Inl NoRows \<longrightarrow> isSettled i (wdb w) \<and> wdb t = wdb w) w"
  proof (rule wp_inTx_error)
    fix n
    show "wp (bindE (queryRow (dueBinding i)) (\<lambda>eventID.
       bindE (exec (\<lambda>d. insertSelection i (unselected i eventID d) d)) (\<lambda>n.
       bindE (failIf (n = 0) NoRows) (\<lambda>_. exec (insertJob i ModeNew)))))
      (\<lambda>r t. r = Inl NoRows \<longrightarrow> isSettled i (wdb w)) (w\<lparr>tick := n\<rparr>)"
      unfolding wp_simps
    proof (rule wp_queryRow, goal_cases)
      case 2
      with bs show ?case by (simp add: not_due)
    next
      case (3 m e)
      then have due: "dueBinding i (wdb w) = Some e" by simp
      show ?case
        unfolding thenQ_simps wp_simps
      proof (rule wp_exec_err, goal_cases)
        case (2 x t)
        then show ?case by (auto simp: insertSelection_def split: if_splits)
      next
        case (3 d k l)
        then have k: "k = int (length (unselected i e (wdb w)))" by (auto simp: insertSelection_def split: if_splits)
        have "wp (exec (insertJob i ModeNew)) (\<lambda>r t. r = Inl NoRows \<longrightarrow> isSettled i (wdb w)) s" for s
          by (rule wp_exec_err) (auto simp: insertJob_def Let_def split: if_splits)
        with none_unselected [OF due bs] k show ?case by (simp add: wp_simps)
      qed auto
    qed auto
  qed simp_all
  have "wpE (tryE ?tx (\<lambda>r. case r of Inr _ \<Rightarrow> ret () | Inl e \<Rightarrow> if e = NoRows then ret () else raise e))
      (\<lambda>_ t. reconciledTo i (wdb w) (wdb t)) (\<lambda>_. True) w"
  proof -
    obtain r t where run: "?tx w = (r, t)" by fastforce
    show ?thesis
    proof (cases r)
      case (Inl e)
      with run err have "e = NoRows \<longrightarrow> isSettled i (wdb w) \<and> wdb t = wdb w" by (auto simp: wp_def)
      with run Inl show ?thesis by (auto simp: wpE_def tryE_def ret_def raise_def reconciledTo_def)
    next
      case (Inr x)
      with run ok have "reconciledTo i (wdb w) (wdb t)" by (auto dest: wpE_D1)
      with run Inr show ?thesis by (auto simp: wpE_def tryE_def ret_def)
    qed
  qed
  then show ?thesis unfolding reconcileBinding_def .
qed

section \<open>The round robin\<close>

text \<open>The cursor after a scan: the last binding of a full page, or the start. The pages that are
scanned while the set of bindings stays the same reach every binding.\<close>

definition autoIds :: "db \<Rightarrow> int list" where
  "autoIds d = sort (map ei_id (filter (\<lambda>b. ei_auto b \<and> ei_state b = AlbumReady) (event_imports d)))"

definition nextCursor :: "int list \<Rightarrow> int \<Rightarrow> int" where
  "nextCursor ids after = (let page = limitTo reconcileBindings (filter (\<lambda>i. after < i) ids)
     in if int (length page) < reconcileBindings then 0 else last page)"

primrec cursorAfter :: "nat \<Rightarrow> int list \<Rightarrow> int \<Rightarrow> int" where
  "cursorAfter 0 ids after = after"
| "cursorAfter (Suc n) ids after = cursorAfter n ids (nextCursor ids after)"

lemma autoBindings_page: "autoBindings after d = limitTo reconcileBindings (filter (\<lambda>i. after < i) (autoIds d))"
  by (simp add: autoBindings_def autoIds_def filter_sort filter_map o_def conj_ac)

definition sameBindings :: "world \<Rightarrow> world \<Rightarrow> bool" where
  "sameBindings s t \<longleftrightarrow> event_imports (wdb t) = event_imports (wdb s) \<and> reconcileAfter t = reconcileAfter s"

interpretation same_bindings: tx_order sameBindings
  by unfold_locales (auto simp: sameBindings_def)

lemma reconcileBinding_bindings: "upholds sameBindings (reconcileBinding i)"
proof -
  have "upholds sameBindings (exec (\<lambda>d. insertSelection i (f d) d))" "upholds sameBindings (exec (insertJob i m))" for f m
    by (rule same_bindings.up_exec; auto simp: sameBindings_def insertSelection_def insertJob_def Let_def split: if_splits)+
  then show ?thesis
    unfolding reconcileBinding_def by (intro same_bindings.up_inTx same_bindings.up_rules same_bindings.up_world)
qed

lemma reconcile_cursor:
  "wpE reconcile (\<lambda>_ t. reconcileAfter t = nextCursor (autoIds (wdb w)) (reconcileAfter w) \<and>
     event_imports (wdb t) = event_imports (wdb w)) (\<lambda>_. True) w"
proof -
  let ?page = "autoBindings (reconcileAfter w) (wdb w)"
  let ?step = "\<lambda>i. bindE (reconcileBinding i) (\<lambda>_. modify (reconcileAfter_update (\<lambda>_. i)))"
  have loop: "wpE (forE ?step ids)
      (\<lambda>_ t. event_imports (wdb t) = event_imports (wdb s) \<and> reconcileAfter t = (if ids = [] then reconcileAfter s else last ids))
      (\<lambda>_. True) s" for ids s
  proof (induction ids arbitrary: s)
    case Nil
    show ?case by (simp add: wpE_ret)
  next
    case (Cons i ids)
    have "wpE (?step i) (\<lambda>_ t. event_imports (wdb t) = event_imports (wdb s) \<and> reconcileAfter t = i) (\<lambda>_. True) s"
      by (rule wpE_step, rule wpE_mono [OF wpE_upholds [OF reconcileBinding_bindings]])
        (auto simp: sameBindings_def intro!: wpE_modify)
    then show ?case
      unfolding forE.simps
    proof (rule wpE_step)
      fix x and t :: world assume t: "event_imports (wdb t) = event_imports (wdb s) \<and> reconcileAfter t = i"
      show "wpE (forE ?step ids) (\<lambda>_ t. event_imports (wdb t) = event_imports (wdb s) \<and>
          reconcileAfter t = (if i # ids = [] then reconcileAfter s else last (i # ids))) (\<lambda>_. True) t"
        by (rule wpE_mono [OF Cons.IH]) (use t in auto)
    qed
  qed
  have "wpE (bindE (forE ?step ?page) (\<lambda>_.
      modify (\<lambda>w. if int (length ?page) < reconcileBindings then w\<lparr>reconcileAfter := 0\<rparr> else w)))
      (\<lambda>_ t. reconcileAfter t = nextCursor (autoIds (wdb w)) (reconcileAfter w) \<and> event_imports (wdb t) = event_imports (wdb w))
      (\<lambda>_. True) (w\<lparr>tick := n\<rparr>)" for n
    apply (rule wpE_step, rule loop, rule wpE_modify)
    by (auto simp: nextCursor_def autoBindings_page Let_def reconcileBindings_def)
  then show ?thesis
    unfolding reconcile_def
    by (intro wpE_bindE [where m = "gets reconcileAfter"] wpE_gets, intro wpE_bindE [where m = "query q" for q] wpE_query) auto
qed

definition page :: "int list \<Rightarrow> int \<Rightarrow> int list" where
  "page ids after = limitTo reconcileBindings (filter (\<lambda>i. after < i) ids)"

text \<open>Pages that can still come before the one that holds \<open>k\<close>.\<close>

definition pagesLeft :: "int list \<Rightarrow> int \<Rightarrow> int \<Rightarrow> nat" where
  "pagesLeft ids k after =
     (if after < k then length (filter (\<lambda>i. after < i \<and> i < k) ids)
      else length ids + 1 + length (filter (\<lambda>i. after < i) ids))"

lemma filter_shrinks:
  assumes "x \<in> set xs" and "P x" and "\<not> Q x" and "\<And>y. Q y \<Longrightarrow> P y"
  shows "length (filter Q xs) < length (filter P xs)"
proof -
  have le: "length (filter Q ys) \<le> length (filter P ys)" for ys
    using assms(4) by (induction ys) (auto simp: le_Suc_eq)
  from assms(1) show ?thesis
  proof (induction xs)
    case (Cons y ys)
    then show ?case using assms(2-4) le [of ys] by (cases "y = x") (auto simp: less_Suc_eq_le)
  qed simp
qed

lemma page_step:
  assumes "k \<in> set ids" and "sorted ids" and "0 < k" and "k \<notin> set (page ids after)"
  shows "pagesLeft ids k (nextCursor ids after) < pagesLeft ids k after"
proof -
  let ?F = "filter (\<lambda>i. after < i) ids"
  have page: "page ids after = take 32 ?F" by (simp add: page_def limitTo_take reconcileBindings_def)
  have next': "nextCursor ids after = (if length ?F < 32 then 0 else last (take 32 ?F))"
    by (simp add: nextCursor_def limitTo_take Let_def reconcileBindings_def)
  have sF: "sorted ?F" using assms(2) by (rule sorted_wrt_filter [of "(\<le>)", folded])
  have lastF: "last (take 32 ?F) \<in> set ids" "after < last (take 32 ?F)" "last (take 32 ?F) \<in> set (take 32 ?F)" if "\<not> length ?F < 32"
  proof -
    from that have "take 32 ?F \<noteq> []" by auto
    then show l: "last (take 32 ?F) \<in> set (take 32 ?F)" by (rule last_in_set)
    then have "last (take 32 ?F) \<in> set ?F" by (rule in_set_takeD)
    then show "last (take 32 ?F) \<in> set ids" "after < last (take 32 ?F)" by auto
  qed
  show ?thesis
  proof (cases "after < k")
    case True
    with assms(1) have kF: "k \<in> set ?F" by simp
    with assms(4) page have long: "\<not> length ?F < 32" by auto
    have "k \<in> set (drop 32 ?F)" using kF assms(4) unfolding page by (metis Un_iff append_take_drop_id set_append)
    moreover have "\<forall>x \<in> set (take 32 ?F). \<forall>y \<in> set (drop 32 ?F). x \<le> y"
      using sF by (metis append_take_drop_id sorted_append)
    ultimately have "last (take 32 ?F) \<le> k" using lastF(3) [OF long] by blast
    moreover have "last (take 32 ?F) \<noteq> k" using lastF(3) [OF long] assms(4) page by auto
    ultimately have lt: "last (take 32 ?F) < k" by simp
    have "length (filter (\<lambda>i. last (take 32 ?F) < i \<and> i < k) ids) < length (filter (\<lambda>i. after < i \<and> i < k) ids)"
      by (rule filter_shrinks [OF lastF(1) [OF long]]) (use lastF(2) [OF long] lt in auto)
    with True lt long next' show ?thesis by (simp add: pagesLeft_def)
  next
    case False
    show ?thesis
    proof (cases "length ?F < 32")
      case True
      have "length (filter (\<lambda>i. 0 < i \<and> i < k) ids) \<le> length ids" by (rule length_filter_le)
      then have "length (filter (\<lambda>i. 0 < i \<and> i < k) ids) < length ids + 1 + length ?F" by linarith
      with True False next' assms(3) show ?thesis by (simp add: pagesLeft_def)
    next
      case long: False
      have "length (filter (\<lambda>i. last (take 32 ?F) < i) ids) < length ?F"
        by (rule filter_shrinks [OF lastF(1) [OF long]]) (use lastF(2) [OF long] in auto)
      with long False next' lastF(2) [OF long] show ?thesis by (simp add: pagesLeft_def)
    qed
  qed
qed

lemma page_reaches:
  assumes "k \<in> set ids" and "sorted ids" and "0 < k"
  shows "\<exists>n \<le> pagesLeft ids k after. k \<in> set (page ids (cursorAfter n ids after))"
proof (induction "pagesLeft ids k after" arbitrary: after rule: less_induct)
  case less
  show ?case
  proof (cases "k \<in> set (page ids after)")
    case True
    then show ?thesis by (intro exI [of _ 0]) simp
  next
    case False
    from page_step [OF assms False] less obtain n where
      "n \<le> pagesLeft ids k (nextCursor ids after)" "k \<in> set (page ids (cursorAfter n ids (nextCursor ids after)))" by blast
    with page_step [OF assms False] show ?thesis by (intro exI [of _ "Suc n"]) simp
  qed
qed

section \<open>Enqueueing\<close>

text \<open>What the job owns: nothing, every ready asset of the event, or what had failed or was interrupted.\<close>

definition ownsSelection :: "bool \<Rightarrow> job_mode \<Rightarrow> int \<Rightarrow> int \<Rightarrow> db \<Rightarrow> db \<Rightarrow> bool" where
  "ownsSelection albumOnly m b e d d' \<longleftrightarrow>
     (if albumOnly then asset_imports d' = asset_imports d \<and> (\<forall>i \<in> set (asset_imports d). ai_import i \<noteq> b)
      else if m = ModeNew then
        (\<exists>new. asset_imports d' = asset_imports d @ map (newSelection b) new \<and> set new \<subseteq> set (readyOf e d)) \<and>
        (\<forall>a \<in> set (readyOf e d). selectionOf b (as_id a) d' \<noteq> None)
      else (\<forall>i \<in> set (asset_imports d'). ai_import i = b \<longrightarrow> ai_status i \<noteq> ImpFailed \<and> ai_status i \<noteq> ImpImporting))"

definition enqueuedAs :: "import_service \<Rightarrow> int \<Rightarrow> string \<Rightarrow> string \<Rightarrow> bool \<Rightarrow> int \<Rightarrow> db \<Rightarrow> db \<Rightarrow> bool" where
  "enqueuedAs im e key mode albumOnly n d d' \<longleftrightarrow>
     (\<exists>t b m. byKey (im_targets im) key = Inr t \<and> modeOf mode = Some m \<and>
        b \<in> set (event_imports d') \<and> ei_event b = e \<and> ei_target b = tg_id t \<and>
        (\<exists>ev \<in> set (events d). ev_id ev = e \<and> \<not> ev_deleting ev) \<and> \<not> hasActive (ei_id b) d \<and>
        jobs d' = jobs d @ [\<lparr>jb_id = n, jb_import = ei_id b, jb_status = Queued, jb_mode = m, jb_cancel = False, jb_error = []\<rparr>] \<and>
        n \<notin> jb_id ` set (jobs d) \<and> ownsSelection albumOnly m (ei_id b) e d d')"

text \<open>Once the binding is there: the rows of the other tables are still those of the start.\<close>

definition boundTo :: "int \<Rightarrow> int \<Rightarrow> int \<Rightarrow> db \<Rightarrow> db \<Rightarrow> bool" where
  "boundTo b e t d d' \<longleftrightarrow> (\<exists>q \<in> set (event_imports d'). ei_id q = b \<and> ei_event q = e \<and> ei_target q = t) \<and>
     jobs d' = jobs d \<and> assets d' = assets d"

lemma boundTo_upd:
  assumes "boundTo b e t d d'" and "\<And>q. ei_id (f q) = ei_id q \<and> ei_event (f q) = ei_event q \<and> ei_target (f q) = ei_target q"
  shows "boundTo b e t d (d'\<lparr>event_imports := updWhere P f (event_imports d')\<rparr>)"
proof -
  from assms(1) obtain q where "q \<in> set (event_imports d')" "ei_id q = b" "ei_event q = e" "ei_target q = t"
    by (auto simp: boundTo_def)
  then have "(if P q then f q else q) \<in> set (updWhere P f (event_imports d'))" "ei_id (if P q then f q else q) = b"
    "ei_event (if P q then f q else q) = e" "ei_target (if P q then f q else q) = t"
    using assms(2) by (auto simp: updWhere_def)
  then have "\<exists>q \<in> set (updWhere P f (event_imports d')). ei_id q = b \<and> ei_event q = e \<and> ei_target q = t" by blast
  with assms(1) show ?thesis by (simp add: boundTo_def)
qed

lemma bindingOf_bound: "bindingOf e i d = Some b \<Longrightarrow> boundTo (ei_id b) e i d d"
  by (auto simp: bindingOf_def boundTo_def dest!: find_SomeD)

lemma insertBinding_bound:
  "insertBinding e i nm mk d = Inr (u, b) \<Longrightarrow> boundTo b e i d u \<and> asset_imports u = asset_imports d"
  by (auto simp: insertBinding_def Let_def boundTo_def split: if_splits)

lemma selectFor_result:
  assumes "boundTo b e t d (wdb s)" and "asset_imports (wdb s) = asset_imports d"
  shows "wpE (selectFor albumOnly m b e) (\<lambda>_ u. boundTo b e t d (wdb u) \<and> ownsSelection albumOnly m b e d (wdb u)) (\<lambda>_. True) s"
proof -
  have ready: "readyOf e (wdb s) = readyOf e d" using assms by (simp add: readyOf_def boundTo_def)
  have sel: "selectionOf b a (wdb s) = selectionOf b a d" for a using assms by (simp add: selectionOf_def)
  consider "albumOnly" | "\<not> albumOnly" "m = ModeNew" | "\<not> albumOnly" "m = ModeRetry" by (cases m) auto
  then show ?thesis
  proof cases
    case 1
    with assms show ?thesis unfolding selectFor_def
      by (simp, intro vcg) (auto simp: ownsSelection_def list_ex_iff)
  next
    case 2
    let ?new = "filter (\<lambda>a. selectionOf b (as_id a) d = None) (readyOf e d)"
    have post: "boundTo b e t d d' \<and> ownsSelection albumOnly m b e d d'"
      if d': "d' = (wdb s)\<lparr>asset_imports := asset_imports d @ map (newSelection b) ?new\<rparr>" for d'
    proof -
      have "selectionOf b (as_id a) d' \<noteq> None" if a: "a \<in> set (readyOf e d)" for a
      proof (cases "selectionOf b (as_id a) d")
        case None
        with a have "newSelection b a \<in> set (asset_imports d')" by (auto simp: d')
        then show ?thesis unfolding selectionOf_def find_None by (auto simp: newSelection_def intro!: bexI)
      next
        case (Some i)
        then have "i \<in> set (asset_imports d)" "isSelection b (as_id a) i"
          by (auto simp: selectionOf_def isSelection_def dest: find_SomeD)
        then show ?thesis unfolding selectionOf_def find_None by (auto simp: d' isSelection_def)
      qed
      with 2 assms(1) show ?thesis by (auto simp: ownsSelection_def boundTo_def d')
    qed
    have run: "boundTo b e t d d' \<and> ownsSelection albumOnly m b e d d'" if "selectReady b e (wdb s) = Inr (d', r)" for d' r
      using that by (intro post) (auto simp: selectReady_def insertSelection_def ready sel assms(2) split: if_splits)
    from 2 show ?thesis unfolding selectFor_def
      apply (simp, intro vcg TrueI)
      using run 2 by auto
  next
    case 3
    with assms show ?thesis unfolding selectFor_def
      by (simp, intro vcg TrueI) (auto simp: setSelections_def ownsSelection_def boundTo_def updWhere_def retryRow_def)
  qed
qed

lemma enqueueTx_tail:
  assumes s: "boundTo b e (tg_id t) d (wdb s)" "asset_imports (wdb s) = asset_imports d"
    and t: "byKey (im_targets im) key = Inr t" "modeOf mode = Some m"
    and ev: "ev \<in> set (events d)" "ev_id ev = e" "\<not> ev_deleting ev"
  shows "wpE (bindE (query (\<lambda>d. Inr (hasActive b d))) (\<lambda>active.
      bindE (failIf active ErrActive) (\<lambda>_.
      bindE (exec (setBindings (\<lambda>i. ei_id i = b \<and> ei_state i = AlbumNew) (ei_name_update (\<lambda>_. name)))) (\<lambda>_.
      bindE (selectFor albumOnly m b e) (\<lambda>_. exec (insertJob b m))))))
    (\<lambda>n u. enqueuedAs im e key mode albumOnly n d (wdb u)) (\<lambda>_. True) s"
proof (intro wpE_bindE [where m = "query q" for q] wpE_query TrueI, goal_cases)
  case (1 active n)
  then have active: "active = hasActive b d" using s by (simp add: hasActive_def boundTo_def)
  have named: "wpE (exec (setBindings (\<lambda>i. ei_id i = b \<and> ei_state i = AlbumNew) (ei_name_update (\<lambda>_. name))))
      (\<lambda>_ u. boundTo b e (tg_id t) d (wdb u) \<and> asset_imports (wdb u) = asset_imports d) (\<lambda>_. True) (s\<lparr>tick := n\<rparr>)"
    using s by (intro vcg TrueI) (auto simp: setBindings_def intro!: boundTo_upd)
  have job: "wpE (exec (insertJob b m)) (\<lambda>n u. enqueuedAs im e key mode albumOnly n d (wdb u)) (\<lambda>_. True) u"
    if u: "boundTo b e (tg_id t) d (wdb u)" "ownsSelection albumOnly m b e d (wdb u)" and "\<not> hasActive b d" for u
  proof (intro vcg TrueI)
    fix d' r k
    assume "insertJob b m (wdb u) = Inr (d', r)"
    then have d': "d' = (wdb u)\<lparr>jobs := jobs (wdb u) @ [\<lparr>jb_id = r, jb_import = b, jb_status = Queued, jb_mode = m, jb_cancel = False, jb_error = []\<rparr>]\<rparr>"
      and r: "r = nextId (map jb_id (jobs (wdb u)))" by (auto simp: insertJob_def Let_def split: if_splits)
    from u(1) obtain q where q: "q \<in> set (event_imports (wdb u))" "ei_id q = b" "ei_event q = e" "ei_target q = tg_id t"
      by (auto simp: boundTo_def)
    have "r \<notin> jb_id ` set (jobs d)" using nextId_fresh [of "map jb_id (jobs (wdb u))"] u(1) by (simp add: r boundTo_def)
    moreover have "ownsSelection albumOnly m b e d d'" using u(2) by (auto simp: ownsSelection_def d' selectionOf_def)
    ultimately have "enqueuedAs im e key mode albumOnly r d d'"
      unfolding enqueuedAs_def using t ev q u(1) \<open>\<not> hasActive b d\<close>
      by (intro exI [of _ t] exI [of _ q] exI [of _ m]) (auto simp: d' boundTo_def)
    then show "enqueuedAs im e key mode albumOnly r d (wdb (u\<lparr>wdb := d', tick := k\<rparr>))" by simp
  qed
  show ?case
    unfolding active
    apply (rule wpE_bindE, rule wpE_failIf, rule TrueI)
    apply (rule wpE_step, rule named)
    apply (rule wpE_step, rule selectFor_result, erule conjunct1, erule conjunct2)
    by (auto intro: job)
qed

lemma enqueueTx_result:
  assumes w: "wdb s = d"
  shows "wpE (enqueueTx im e key name mode albumOnly req) (\<lambda>n u. enqueuedAs im e key mode albumOnly n d (wdb u)) (\<lambda>_. True) s"
proof (cases "modeOf mode")
  case None
  then show ?thesis by (simp add: enqueueTx_def wpE_raise)
next
  case (Some m)
  show ?thesis
    unfolding enqueueTx_def Let_def Some option.case
    apply (rule wpE_bindE, rule wpE_failIf, rule TrueI)
    apply (rule wpE_bindE, rule wpE_liftE, rule TrueI)
    subgoal for t
      apply (rule wpE_step [where Q = "\<lambda>_ u. wdb u = d"])
      using w apply (intro vcg TrueI; simp)
      apply (rule wpE_step [where Q = "\<lambda>ev u. wdb u = d \<and> ev \<in> set (events d) \<and> ev_id ev = e"])
       apply (simp add: getEvent_def, intro vcg TrueI, auto dest: find_SomeD) [1]
      apply (rule wpE_bindE, rule wpE_failIf, rule TrueI, (elim conjE)?)
      apply (rule wpE_try_queryRow)
        apply (auto intro!: vcg) [1]
      subgoal for _ _ ev u n
        apply (simp only: sum.case simp_thms if_True)
        apply (rule wpE_bindE, rule wpE_failIf, rule TrueI)
        apply (rule wpE_step [where Q = "\<lambda>b u. boundTo b e (tg_id t) d (wdb u) \<and> asset_imports (wdb u) = asset_imports d"])
         apply (intro vcg TrueI, auto dest: insertBinding_bound) [1]
        apply (elim conjE, rule enqueueTx_tail, assumption+)
        using Some by auto
      subgoal for _ _ ev u n b
        apply (simp only: sum.case)
        apply (rule wpE_bindE, rule wpE_failIf, rule TrueI)
        apply (simp only: bindE_simps)
        apply (rule enqueueTx_tail)
        using Some by (auto intro: bindingOf_bound)
      done
    done
qed

lemma enqueue_result: "wpE (enqueue im e key name mode albumOnly) (\<lambda>n t. enqueuedAs im e key mode albumOnly n (wdb w) (wdb t)) (\<lambda>_. True) w"
  unfolding enqueue_def by (intro wpE_inTx TrueI, rule wpE_mono [OF enqueueTx_result]) auto

section \<open>The status\<close>

text \<open>Every ready asset of the event is counted once.\<close>

definition countsAddUp :: "status_view \<Rightarrow> bool" where
  "countsAddUp v \<longleftrightarrow> sw_total v = sw_imported v + sw_duplicate v + sw_failed v + sw_pending v + sw_new v \<and>
     0 \<le> sw_imported v \<and> 0 \<le> sw_duplicate v \<and> 0 \<le> sw_failed v \<and> 0 \<le> sw_pending v \<and> 0 \<le> sw_new v"

lemma status_partition:
  "int (length rows) = countWhere (\<lambda>a. f a = Some ImpImported) rows + countWhere (\<lambda>a. f a = Some ImpDuplicate) rows +
     countWhere (\<lambda>a. f a = Some ImpFailed) rows + countWhere (\<lambda>a. f a = Some ImpPending \<or> f a = Some ImpImporting) rows +
     countWhere (\<lambda>a. f a = None) rows"
proof (induction rows)
  case (Cons a rows)
  show ?case
  proof (cases "f a")
    case (Some s)
    with Cons show ?thesis by (cases s) auto
  qed (use Cons in auto)
qed simp

definition countSum :: "int \<Rightarrow> int \<Rightarrow> db \<Rightarrow> status_view \<Rightarrow> status_view" where
  "countSum i eventID d v = v\<lparr>sw_total := int (length (readyOf eventID d)),
     sw_imported := countStatus i eventID (\<lambda>s. s = Some ImpImported) d,
     sw_duplicate := countStatus i eventID (\<lambda>s. s = Some ImpDuplicate) d,
     sw_failed := countStatus i eventID (\<lambda>s. s = Some ImpFailed) d,
     sw_pending := countStatus i eventID (\<lambda>s. s = Some ImpPending \<or> s = Some ImpImporting) d,
     sw_new := countStatus i eventID (\<lambda>s. s = None) d\<rparr>"

lemma countSum_adds: "countsAddUp (countSum i e d v\<lparr>sw_job := j\<rparr>)"
  using status_partition [where f = "\<lambda>a. map_option ai_status (selectionOf i (as_id a) d)" and rows = "readyOf e d"]
  by (simp add: countsAddUp_def countSum_def countStatus_def)

lemma Status_quiet: "upholds quiet (Status im e key)"
  unfolding Status_def getEvent_def optionalRow_def by (intro quiet.up_rules quiet.up_world)

lemma Status_counts: "wpE (Status im e key) (\<lambda>v t. countsAddUp v) (\<lambda>_. True) w"
proof -
  have counted: "wpE (bindE (query (\<lambda>d. Inr (countSum i e d v))) (\<lambda>counted.
         bindE (optionalRow (lastJob i)) (\<lambda>j. ret (counted\<lparr>sw_job := j\<rparr>)))) (\<lambda>v t. countsAddUp v) (\<lambda>_. True) s" for i v s
    unfolding optionalRow_def by (intro vcg TrueI) (auto simp: countSum_adds)
  show ?thesis
    unfolding Status_def Let_def countSum_def [symmetric]
    apply (rule wpE_step [where Q = "\<lambda>_ _. True"], rule wpE_mono [OF wpE_triv], simp, simp)
    apply (rule wpE_step [where Q = "\<lambda>_ _. True"], rule wpE_mono [OF wpE_triv], simp, simp)
    apply (rule wpE_sum)
     apply (rule wpE_if, rule wpE_raise, simp, rule wpE_ret, simp add: countsAddUp_def)
    apply (rule wpE_step [where Q = "\<lambda>_ _. True"], rule wpE_mono [OF wpE_triv], simp, simp)
    apply (rule counted)
    done
qed

end
