(* ===== verification/ImmichRuns.thy ===== *)
theory ImmichRuns
  imports ImmichResults Examples
begin

text \<open>
  The import service over time: any sequence of its operations, each in its environment of faults and
  answers, with crashes and restarts in between. A restart keeps the database and what other systems have
  seen of requests; locks, cursors and the environment are new.
\<close>

definition restarted :: "world \<Rightarrow> (int \<Rightarrow> nat) \<Rightarrow> env \<Rightarrow> world" where
  "restarted w locks en = w\<lparr>readers := locks, cleanupAfter := [], retiredAfter := [], reconcileAfter := 0,
     provider := None, buckets := \<lparr>lm_entries = [], lm_swept = None\<rparr>, dead := False, env := en\<rparr>"

inductive immichRun :: "import_service \<Rightarrow> world \<Rightarrow> world \<Rightarrow> bool" for im :: import_service where
  start: "immichRun im w w"
| enqueued: "immichRun im w v \<Longrightarrow> immichRun im w (snd (enqueue im e key name mode albumOnly v))"
| created: "immichRun im w v \<Longrightarrow> immichRun im w (snd (createBoundEvent im inp key name auto v))"
| stopped: "immichRun im w v \<Longrightarrow> immichRun im w (snd (Cancel im e key v))"
| switched: "immichRun im w v \<Longrightarrow> immichRun im w (snd (SetAutoImport im e key x v))"
| worked: "immichRun im w v \<Longrightarrow> immichRun im w (snd (runRound im woken st v))"
| restart: "immichRun im w v \<Longrightarrow> immichRun im w (restarted v locks en)"

lemma careful_restarted: "careful v (restarted v locks en)"
  by (simp add: careful_def restarted_def advances_refl withinBudget_def matched_refl)

lemma immichRun_careful: "immichRun im w t \<Longrightarrow> careful w t"
proof (induction rule: immichRun.induct)
  case (start w)
  show ?case by (rule careful.refl)
next
  case (restart w v locks en)
  then show ?case by (blast intro: careful_trans careful_restarted)
qed (use careful_operations in \<open>auto simp: upholds_def intro: careful_trans\<close>)

section \<open>An example\<close>

definition exTargets :: target_set where
  "exTargets = \<lparr>ts_active = ''home'', ts_entries = [\<lparr>tg_id = 1, tg_key = ''home'', tg_available = True, tg_public = [], tg_client = True\<rparr>]\<rparr>"

definition exImports :: import_service where
  "exImports = \<lparr>im_targets = exTargets, im_media = exService\<rparr>"

definition exBinding :: import_row where
  "exBinding = \<lparr>ei_id = 1, ei_event = 7, ei_target = 1, ei_name = ''Album'', ei_marker = ''m'', ei_state = AlbumNew,
     ei_album = None, ei_auto = True\<rparr>"

definition exSent :: asset_import_row where
  "exSent = \<lparr>ai_import = 1, ai_asset = exID CHR ''a'', ai_remote = Some ''r'', ai_duplicate = False, ai_status = ImpImported,
     ai_attempts = 1, ai_error = []\<rparr>"

definition exImportDB :: db where
  "exImportDB = exDB\<lparr>targets := [\<lparr>it_id = 1, it_key = ''home'', it_url = ''https://immich.example''\<rparr>],
     event_imports := [exBinding], asset_imports := [exSent],
     jobs := [\<lparr>jb_id = 1, jb_import = 1, jb_status = Queued, jb_mode = ModeNew, jb_cancel = False, jb_error = []\<rparr>]\<rparr>"

lemma exImport_ok: "immichOk exImportDB"
  by (simp add: immichOk_def exImportDB_def exDB_def bindingsOk_def exBinding_def albumKnown_def jobsOk_def activeJob_def)

text \<open>A server that has the permissions and version asked for at steps 6 and 7, and creates the album at step 13.\<close>

definition exAlbumID :: string where
  "exAlbumID = ''00000000-0000-4000-8000-000000000000''"

definition exServer :: "env \<Rightarrow> env" where
  "exServer e = e\<lparr>e_http := (\<lambda>k. \<lparr>ha_done = True, ha_status = 200, ha_length = 10, ha_read = True,
     ha_json = (if k = 6 then JPermissions [''all''] else if k = 7 then JVersion 3 2 1
       else JAlbum \<lparr>al_id = exAlbumID, al_name = ''Album'', al_description = ''m''\<rparr>)\<rparr>)\<rparr>"

definition exJobWorld :: world where
  "exJobWorld = exWorld exImportDB (exServer (exEnv 0 Fine))"

definition exWorked :: world where
  "exWorked = snd (runRound exImports False (True, 10 ^ 15) exJobWorld)"

definition exRestarted :: world where
  "exRestarted = snd (runRound exImports False (False, 0) (restarted exWorked (\<lambda>_. 0) (exServer (exEnv 0 Fine))))"

text \<open>The job runs: the album is created, with one request.\<close>

lemma exWorked_sent:
  "albumPosts ''m'' (trace exWorked) = 1 \<and> map ei_album (event_imports (wdb exWorked)) = [Some exAlbumID] \<and>
   map jb_status (jobs (wdb exWorked)) = [Completed]"
  by code_simp

lemma exImport_run: "immichRun exImports exJobWorld exRestarted"
  unfolding exRestarted_def exWorked_def by (intro immichRun.intros)

end
