(* ===== verification/HttpExamples.thy ===== *)
theory HttpExamples
  imports HttpSafe StartupSafe Examples ImmichRuns
begin

text \<open>A small application and a few requests, for the closed instances of the properties of the HTTP layer.\<close>

definition exBcrypt :: bcrypt where
  "exBcrypt = \<lparr>bc_cost = (\<lambda>_. True), bc_match = (\<lambda>h p. h = p), bc_make = (\<lambda>p _ _. Some p)\<rparr>"

definition exSolved :: verification where
  "exSolved = \<lparr>vf_success = True, vf_hostname = ''photos.test'', vf_action = challengeAction, vf_codes = []\<rparr>"

definition exApp :: application where
  "exApp = \<lparr>ap_media = exService, ap_imports = exImports, ap_manager = ''hash'', ap_bcrypt = exBcrypt, ap_max_file = 1000,
     ap_base = ''https://photos.test'', ap_rate_off = False, ap_multiplier = 1, ap_trusted = [], ap_site_key = ''site'',
     ap_password = True, ap_oidc = None,
     ap_verify = (\<lambda>_. \<lparr>vr_done = True, vr_status = 200, vr_length = 100, vr_result = Some exSolved\<rparr>)\<rparr>"

text \<open>A request without cookies from the site's own page.\<close>

definition exRequest :: "string \<Rightarrow> string list \<Rightarrow> decoded \<Rightarrow> http_request" where
  "exRequest method path body = \<lparr>rq_method = method, rq_path = path, rq_host = ''photos.test'', rq_tls = True,
     rq_origin = ''https://photos.test'', rq_referer = [], rq_site = [], rq_csrf = [], rq_session = [], rq_binding = [],
     rq_remote = ''203.0.113.1:10'', rq_forwarded = [], rq_type = ''application/json'', rq_length = 2, rq_body = body,
     rq_filename = None, rq_source = \<lparr>rd_data = [], rd_broken = False\<rparr>, rq_target = [], rq_query = None, rq_slot = True,
     rq_swap = False\<rparr>"

definition exDelete :: http_request where
  "exDelete = exRequest ''DELETE'' [''api'', ''admin'', ''events'', ''7''] (Decoded InNothing)"

definition exList :: http_request where
  "exList = exRequest ''GET'' [''api'', ''admin'', ''events''] (Decoded InNothing)"

definition exOpenSession :: http_request where
  "exOpenSession = exRequest ''POST'' [''api'', ''public'', ''events'', exPublic, ''upload-sessions'']
     (Decoded (InSession ''token'' ''Ann''))"

lemma exDelete_route: "routeOf (rq_path exDelete) = REvent ''7''"
  by code_simp

lemma exList_reads: "readsOnly exList"
  by code_simp

lemma exOpenSession_route: "routeOf (rq_path exOpenSession) = RSessions exPublic"
  by code_simp

text \<open>A proxy at 10.0.0.1 that appends the address it saw.\<close>

definition exTrusted :: "prefix list" where
  "exTrusted = [\<lparr>px_addr = V4 [10, 0, 0, 0], px_bits = 8\<rparr>]"

lemma exClient: "ClientIP ''10.0.0.1:10'' [''198.51.100.5''] exTrusted = (Some (V4 [198, 51, 100, 5]), False)"
  by code_simp

lemma exClient_untrusted: "\<not> isTrusted exTrusted (V4 [198, 51, 100, 5])"
  by code_simp

end
