(* ===== verification/Schema.thy ===== *)
theory Schema
  imports HttpSafe StartupSafe Locks ImmichResults
begin

text \<open>
  The schema of src/migrations as an invariant: keys are unique, references lead to rows, and the checks of the
  tables hold. Every statement of the program keeps it, so every operation does, at every step and with every
  fault. The references are what lets the quota ledger survive a new event: no old row can belong to it.
\<close>

section \<open>The schema\<close>

definition sessionKeys :: "db \<Rightarrow> bool" where
  "sessionKeys d \<longleftrightarrow> distinct (map us_id (sessions d)) \<and>
     (\<forall>u \<in> set (sessions d). us_event u \<in> ev_id ` set (events d) \<and> 0 < us_max_assets u \<and> 0 < us_max_bytes u)"

definition readyChecks :: "asset_row \<Rightarrow> bool" where
  "readyChecks a \<longleftrightarrow> 0 \<le> as_size a \<and> 0 \<le> as_expected a \<and> 1 \<le> runeCount (as_filename a) \<and> runeCount (as_filename a) \<le> 255 \<and>
     (as_status a = Ready \<longrightarrow> 0 < as_size a \<and> as_mime a \<noteq> [] \<and> as_completed a \<noteq> None)"

definition requestKey :: "asset_row \<Rightarrow> string \<times> string option" where
  "requestKey a = (as_session a, as_request a)"

definition requests :: "asset_row list \<Rightarrow> (string \<times> string option) list" where
  "requests as = map requestKey (filter (\<lambda>a. as_request a \<noteq> None) as)"

definition backendIds :: "db \<Rightarrow> int set" where
  "backendIds d = insert 0 (sb_id ` set (backends d))"

definition assetKeys :: "db \<Rightarrow> bool" where
  "assetKeys d \<longleftrightarrow> distinct (map as_id (assets d)) \<and> distinct (map as_key (assets d)) \<and> distinct (requests (assets d)) \<and>
     (\<forall>a \<in> set (assets d). (as_session a, as_event a) \<in> (\<lambda>u. (us_id u, us_event u)) ` set (sessions d) \<and>
        as_backend a \<in> backendIds d \<and> readyChecks a)"

text \<open>Migration 006 inserts the row of the local backend; the program only adds rows of type \<open>s3\<close>.\<close>

definition localRow :: "backend_row list \<Rightarrow> bool" where
  "localRow bs \<longleftrightarrow> (\<exists>b \<in> set bs. sb_id b = 1) \<and> (\<forall>b \<in> set bs. (sb_type b = ''local'') = (sb_id b = 1))"

definition storageKeys :: "db \<Rightarrow> bool" where
  "storageKeys d \<longleftrightarrow> distinct (map sb_id (backends d)) \<and> distinct (map sb_key (backends d)) \<and>
     distinct (map it_id (targets d)) \<and> distinct (map it_key (targets d)) \<and>
     distinct (map cl_key (retired d)) \<and> (\<forall>c \<in> set (retired d). cl_backend c \<in> backendIds d) \<and> localRow (backends d)"

definition bindingKey :: "import_row \<Rightarrow> int \<times> string \<times> int \<times> int" where
  "bindingKey b = (ei_id b, ei_marker b, ei_event b, ei_target b)"

definition bindingKeys :: "import_row list \<Rightarrow> bool" where
  "bindingKeys bs \<longleftrightarrow> distinct (map ei_id bs) \<and> distinct (map ei_marker bs) \<and> distinct (map (\<lambda>b. (ei_event b, ei_target b)) bs)"

definition importKeys :: "db \<Rightarrow> bool" where
  "importKeys d \<longleftrightarrow> bindingKeys (event_imports d) \<and> distinct (map selectionKey (asset_imports d)) \<and> jobsOk (jobs d) \<and>
     (\<forall>b \<in> set (event_imports d). ei_event b \<in> ev_id ` set (events d) \<and> ei_target b \<in> it_id ` set (targets d)) \<and>
     (\<forall>i \<in> set (asset_imports d). ai_import i \<in> ei_id ` set (event_imports d) \<and> ai_asset i \<in> as_id ` set (assets d)) \<and>
     (\<forall>j \<in> set (jobs d). jb_import j \<in> ei_id ` set (event_imports d))"

definition signKeys :: "db \<Rightarrow> bool" where
  "signKeys d \<longleftrightarrow> distinct (map ad_token (admin_sessions d)) \<and> flowsOk d"

definition schemaOk :: "db \<Rightarrow> bool" where
  "schemaOk d \<longleftrightarrow> eventsOk d \<and> sessionKeys d \<and> assetKeys d \<and> storageKeys d \<and> importKeys d \<and> signKeys d"

lemmas schema_defs = eventsOk_def sessionKeys_def assetKeys_def backendIds_def storageKeys_def importKeys_def signKeys_def flowsOk_def

lemma schemaI:
  "eventsOk d \<Longrightarrow> sessionKeys d \<Longrightarrow> assetKeys d \<Longrightarrow> storageKeys d \<Longrightarrow> importKeys d \<Longrightarrow> signKeys d \<Longrightarrow> schemaOk d"
  by (simp add: schemaOk_def)

text \<open>A table that a part does not speak of can change.\<close>

lemma schema_other [simp]:
  "eventsOk (sessions_update fs d) = eventsOk d" "eventsOk (assets_update fa d) = eventsOk d" "eventsOk (retired_update fr d) = eventsOk d"
  "eventsOk (backends_update fb d) = eventsOk d" "eventsOk (targets_update ft d) = eventsOk d" "eventsOk (event_imports_update fi d) = eventsOk d"
  "eventsOk (asset_imports_update fx d) = eventsOk d" "eventsOk (jobs_update fj d) = eventsOk d" "eventsOk (credential_update fc d) = eventsOk d"
  "eventsOk (admin_sessions_update fd d) = eventsOk d" "eventsOk (oidc_flows_update fo d) = eventsOk d"
  "sessionKeys (assets_update fa d) = sessionKeys d" "sessionKeys (retired_update fr d) = sessionKeys d" "sessionKeys (backends_update fb d) = sessionKeys d"
  "sessionKeys (targets_update ft d) = sessionKeys d" "sessionKeys (event_imports_update fi d) = sessionKeys d" "sessionKeys (asset_imports_update fx d) = sessionKeys d"
  "sessionKeys (jobs_update fj d) = sessionKeys d" "sessionKeys (credential_update fc d) = sessionKeys d" "sessionKeys (admin_sessions_update fd d) = sessionKeys d"
  "sessionKeys (oidc_flows_update fo d) = sessionKeys d"
  "assetKeys (events_update fe d) = assetKeys d" "assetKeys (retired_update fr d) = assetKeys d" "assetKeys (targets_update ft d) = assetKeys d"
  "assetKeys (event_imports_update fi d) = assetKeys d" "assetKeys (asset_imports_update fx d) = assetKeys d" "assetKeys (jobs_update fj d) = assetKeys d"
  "assetKeys (credential_update fc d) = assetKeys d" "assetKeys (admin_sessions_update fd d) = assetKeys d" "assetKeys (oidc_flows_update fo d) = assetKeys d"
  "storageKeys (events_update fe d) = storageKeys d" "storageKeys (sessions_update fs d) = storageKeys d" "storageKeys (assets_update fa d) = storageKeys d"
  "storageKeys (event_imports_update fi d) = storageKeys d" "storageKeys (asset_imports_update fx d) = storageKeys d" "storageKeys (jobs_update fj d) = storageKeys d"
  "storageKeys (credential_update fc d) = storageKeys d" "storageKeys (admin_sessions_update fd d) = storageKeys d" "storageKeys (oidc_flows_update fo d) = storageKeys d"
  "importKeys (sessions_update fs d) = importKeys d" "importKeys (retired_update fr d) = importKeys d" "importKeys (backends_update fb d) = importKeys d"
  "importKeys (credential_update fc d) = importKeys d" "importKeys (admin_sessions_update fd d) = importKeys d" "importKeys (oidc_flows_update fo d) = importKeys d"
  "signKeys (events_update fe d) = signKeys d" "signKeys (sessions_update fs d) = signKeys d" "signKeys (assets_update fa d) = signKeys d"
  "signKeys (retired_update fr d) = signKeys d" "signKeys (backends_update fb d) = signKeys d" "signKeys (targets_update ft d) = signKeys d"
  "signKeys (event_imports_update fi d) = signKeys d" "signKeys (asset_imports_update fx d) = signKeys d" "signKeys (jobs_update fj d) = signKeys d"
  "signKeys (credential_update fc d) = signKeys d"
  by (simp_all add: schema_defs)

section \<open>Statements on events and sessions\<close>

lemma schema_events:
  assumes "schemaOk d" and "eventsOk (d\<lparr>events := E\<rparr>)" and "ev_id ` set (events d) \<subseteq> ev_id ` set E"
  shows "schemaOk (d\<lparr>events := E\<rparr>)"
proof (rule schemaI)
  show "sessionKeys (d\<lparr>events := E\<rparr>)" using assms(1,3) by (auto simp: schemaOk_def sessionKeys_def)
  show "importKeys (d\<lparr>events := E\<rparr>)" using assms(1,3) by (auto simp: schemaOk_def importKeys_def)
qed (use assms in \<open>simp_all add: schemaOk_def\<close>)

lemma schema_insertEvent:
  assumes "insertEvent (newPublicID bs) e t d = Inr (d', r)" and "schemaOk d"
  shows "schemaOk d'"
proof -
  have "d' = d\<lparr>events := events d @ [r]\<rparr>" using assms(1) by (auto simp: insertEvent_def Let_def split: if_splits)
  moreover have "eventsOk d'" using assms insertEvent_ok by (simp add: schemaOk_def)
  ultimately show ?thesis using assms(2) by (auto intro!: schema_events)
qed

lemma ids_updWhere: "(\<And>r. P r \<Longrightarrow> g (f r) = g r) \<Longrightarrow> g ` set (updWhere P f rows) = g ` set rows"
  using map_updWhere [of P g f rows] by (metis set_map)

lemma schema_updateRow:
  assumes "validate i = Inr e" and "updateRow n e t d = Inr (d', r)" and "schemaOk d"
  shows "schemaOk d'"
proof -
  from assms(2) have "d' = d\<lparr>events := updWhere (\<lambda>q. ev_id q = n \<and> \<not> ev_deleting q) (withFields e t) (events d)\<rparr>"
    by (auto simp: updateRow_def split: option.splits if_splits)
  moreover have "eventsOk d'" using assms updateRow_ok by (simp add: schemaOk_def)
  ultimately show ?thesis using assms(3) by (simp add: schema_events ids_updWhere)
qed

lemma schema_markDeleting:
  assumes "markDeleting i p t d = Inr (d', n)" and "schemaOk d"
  shows "schemaOk d'"
proof -
  let ?P = "\<lambda>e. ev_id e = i \<and> ev_public e = p" and ?f = "\<lambda>e. e\<lparr>ev_deleting := True, ev_enabled := False, ev_updated := t\<rparr>"
  have d': "d' = d\<lparr>events := updWhere ?P ?f (events d)\<rparr>" using assms(1) by (auto simp: markDeleting_def Let_def)
  have "\<forall>q \<in> set (updWhere ?P ?f (events d)). 0 < ev_id q \<and> validPublicID (ev_public q) \<and> eventChecks q"
    using assms(2) by (intro updWhere_ball) (auto simp: schemaOk_def eventsOk_def eventChecks_def limitChecks_def)
  then have "eventsOk d'" using assms(2) by (simp add: d' schemaOk_def eventsOk_def map_updWhere)
  with d' show ?thesis using assms(2) by (simp add: schema_events ids_updWhere)
qed

lemma schema_insertSession:
  assumes "insertSession u d = Inr (d', x)" and "schemaOk d"
  shows "schemaOk d'"
proof -
  from assms(1) have d': "d' = d\<lparr>sessions := sessions d @ [u]\<rparr>"
    and u: "us_id u \<notin> us_id ` set (sessions d)" "us_event u \<in> ev_id ` set (events d)" "0 < us_max_assets u" "0 < us_max_bytes u"
    by (force simp: insertSession_def list_all_iff list_ex_iff split: if_splits)+
  have "assetKeys (d\<lparr>sessions := sessions d @ [u]\<rparr>)" using assms(2) by (simp add: schemaOk_def assetKeys_def backendIds_def)
  moreover have "sessionKeys (d\<lparr>sessions := sessions d @ [u]\<rparr>)" using assms(2) u by (simp add: schemaOk_def sessionKeys_def)
  ultimately show ?thesis using assms(2) by (simp add: d' schemaOk_def)
qed

lemma schema_touchSession:
  assumes "touchSession s t d = Inr (d', x)" and "schemaOk d"
  shows "schemaOk d'"
proof -
  let ?U = "updWhere (\<lambda>u. us_id u = s) (us_updated_update (\<lambda>_. t)) (sessions d)"
  have d': "d' = d\<lparr>sessions := ?U\<rparr>" using assms(1) by (simp add: touchSession_def)
  have "(\<lambda>u. (us_id u, us_event u)) ` set ?U = (\<lambda>u. (us_id u, us_event u)) ` set (sessions d)" by (simp add: ids_updWhere)
  moreover have "\<forall>u \<in> set ?U. us_event u \<in> ev_id ` set (events d) \<and> 0 < us_max_assets u \<and> 0 < us_max_bytes u"
    using assms(2) by (intro updWhere_ball) (auto simp: schemaOk_def sessionKeys_def)
  ultimately show ?thesis
    using assms(2) by (simp add: d' schemaOk_def sessionKeys_def assetKeys_def backendIds_def map_updWhere)
qed


section \<open>Statements on assets\<close>

lemma requests_filter: "distinct (requests as) \<Longrightarrow> distinct (requests (filter P as))"
  by (induction as) (auto simp: requests_def)

lemma distinct_map_filters: "distinct (map f (filter A xs)) \<Longrightarrow> distinct (map f (filter A (filter Q xs)))"
  by (induction xs) auto

lemma requests_updWhere: "(\<And>a. P a \<Longrightarrow> requestKey (g a) = requestKey a) \<Longrightarrow> requests (updWhere P g as) = requests as"
  by (induction as) (auto simp: requests_def updWhere_def requestKey_def)

lemma schema_deleteAssets: "schemaOk d \<Longrightarrow> schemaOk (deleteAssets P d)"
  by (auto simp: deleteAssets_def schemaOk_def assetKeys_def importKeys_def backendIds_def list_ex_iff distinct_map_filter' requests_filter
      image_iff) metis

lemma schema_deleteSessions: "schemaOk d \<Longrightarrow> schemaOk (deleteSessions P d)"
proof -
  assume ok: "schemaOk d"
  let ?Q = "\<lambda>a. list_ex (\<lambda>u. P u \<and> us_id u = as_session a \<and> us_event u = as_event a) (sessions d)"
  let ?d = "deleteAssets ?Q d"
  have d: "schemaOk ?d" using ok by (rule schema_deleteAssets)
  have "assetKeys (?d\<lparr>sessions := filter (\<lambda>u. \<not> P u) (sessions d)\<rparr>)"
    using d ok by (fastforce simp: schemaOk_def assetKeys_def backendIds_def list_ex_iff)
  moreover have "sessionKeys (?d\<lparr>sessions := filter (\<lambda>u. \<not> P u) (sessions d)\<rparr>)"
    using ok by (simp add: schemaOk_def sessionKeys_def distinct_map_filter')
  ultimately show ?thesis using d by (simp add: deleteSessions_def schemaOk_def)
qed

lemma schema_insertAsset:
  assumes "insertAsset a d = Inr (d', x)" and "schemaOk d" and "as_status a = Pending" and "as_size a = 0"
  shows "schemaOk d'"
proof -
  from assms(1) have d': "d' = d\<lparr>assets := assets d @ [a]\<rparr>" and ok: "assetInsertOk d a" by (auto simp: insertAsset_def split: if_splits)
  have keys: "as_id a \<notin> as_id ` set (assets d)" "as_key a \<notin> as_key ` set (assets d)"
    "as_request a \<noteq> None \<Longrightarrow> requestKey a \<notin> set (requests (assets d))"
    using ok by (auto simp: assetInsertOk_def list_all_iff requests_def requestKey_def)
  have refs: "(as_session a, as_event a) \<in> (\<lambda>u. (us_id u, us_event u)) ` set (sessions d)" "as_backend a \<in> backendIds d" "readyChecks a"
    using ok assms(3,4) by (force simp: assetInsertOk_def list_ex_iff backendIds_def readyChecks_def)+
  have "distinct (requests (assets d @ [a]))" using keys(3) assms(2) by (auto simp: requests_def schemaOk_def assetKeys_def)
  with keys refs assms(2) have "assetKeys d'" by (simp add: d' schemaOk_def assetKeys_def backendIds_def)
  moreover have "importKeys d'" using assms(2) by (auto simp: d' schemaOk_def importKeys_def)
  ultimately show ?thesis using assms(2) by (simp add: d' schemaOk_def)
qed

lemma schema_updAssets:
  assumes "schemaOk d"
    and "\<And>a. P a \<Longrightarrow> as_id (g a) = as_id a \<and> as_key (g a) = as_key a \<and> requestKey (g a) = requestKey a \<and> as_event (g a) = as_event a"
    and "\<And>a. a \<in> set (assets d) \<Longrightarrow> P a \<Longrightarrow> readyChecks (g a) \<and> as_backend (g a) \<in> backendIds d"
  shows "schemaOk (d\<lparr>assets := updWhere P g (assets d)\<rparr>)"
proof -
  let ?A = "updWhere P g (assets d)"
  have "\<forall>a \<in> set ?A. (as_session a, as_event a) \<in> (\<lambda>u. (us_id u, us_event u)) ` set (sessions d) \<and> as_backend a \<in> backendIds d \<and> readyChecks a"
    using assms by (intro updWhere_ball) (auto simp: schemaOk_def assetKeys_def requestKey_def)
  then have "assetKeys (d\<lparr>assets := ?A\<rparr>)"
    using assms(1,2) by (simp add: schemaOk_def assetKeys_def map_updWhere requests_updWhere backendIds_def)
  moreover have "importKeys (d\<lparr>assets := ?A\<rparr>)"
    using assms(1,2) by (simp add: schemaOk_def importKeys_def ids_updWhere)
  ultimately show ?thesis using assms(1) by (simp add: schemaOk_def)
qed

lemma schema_readyChecks: "schemaOk d \<Longrightarrow> a \<in> set (assets d) \<Longrightarrow> readyChecks a \<and> as_backend a \<in> backendIds d"
  by (simp add: schemaOk_def assetKeys_def)

lemma schema_markReady:
  assumes "markReady P g d = Inr (d', n)" and "schemaOk d"
    and "\<And>a. as_id (g a) = as_id a \<and> as_key (g a) = as_key a \<and> requestKey (g a) = requestKey a \<and> as_event (g a) = as_event a \<and>
      as_backend (g a) = as_backend a \<and> as_expected (g a) = as_expected a \<and> as_filename (g a) = as_filename a"
  shows "schemaOk d'"
proof -
  from assms(1) have "d' = d\<lparr>assets := updWhere P g (assets d)\<rparr>"
    and "\<forall>a \<in> set (assets d). P a \<longrightarrow> 0 < as_size (g a) \<and> as_mime (g a) \<noteq> [] \<and> as_completed (g a) \<noteq> None"
    by (auto simp: markReady_def list_ex_iff split: if_splits)
  with assms(2,3) schema_readyChecks [OF assms(2)] show ?thesis
    by (auto intro!: schema_updAssets simp: readyChecks_def)
qed

lemma schema_setAuthorized: "setAuthorized i t d = Inr (d', x) \<Longrightarrow> schemaOk d \<Longrightarrow> schemaOk d'"
  using schema_readyChecks [of d] by (auto simp: setAuthorized_def readyChecks_def requestKey_def intro!: schema_updAssets)

lemma schema_unready: "unready i d = Inr (d', x) \<Longrightarrow> schemaOk d \<Longrightarrow> schemaOk d'"
  using schema_readyChecks [of d] by (auto simp: unready_def readyChecks_def requestKey_def intro!: schema_updAssets)

lemma schema_deleteEvents: "schemaOk d \<Longrightarrow> schemaOk (deleteEvents P d)"
proof -
  assume ok: "schemaOk d"
  let ?gone = "\<lambda>i. list_ex (\<lambda>e. P e \<and> ev_id e = i) (events d)"
  let ?lost = "\<lambda>i. list_ex (\<lambda>b. ?gone (ei_event b) \<and> ei_id b = i) (event_imports d)"
  let ?d = "deleteAssets (\<lambda>a. ?gone (as_event a)) d" and ?d' = "deleteEvents P d"
  have d: "schemaOk ?d" using ok by (rule schema_deleteAssets)
  have d': "?d' = ?d\<lparr>events := filter (\<lambda>e. \<not> P e) (events d), sessions := filter (\<lambda>u. \<not> ?gone (us_event u)) (sessions d),
      event_imports := filter (\<lambda>b. \<not> ?gone (ei_event b)) (event_imports d),
      asset_imports := filter (\<lambda>i. \<not> ?lost (ai_import i)) (asset_imports ?d), jobs := filter (\<lambda>j. \<not> ?lost (jb_import j)) (jobs d)\<rparr>"
    by (simp add: deleteEvents_def Let_def)
  have left: "i \<in> ev_id ` set (filter (\<lambda>e. \<not> P e) (events d))" if "i \<in> ev_id ` set (events d)" "\<not> ?gone i" for i
    using that by (auto simp: list_ex_iff)
  have kept: "i \<in> ei_id ` set (filter (\<lambda>b. \<not> ?gone (ei_event b)) (event_imports d))" if "i \<in> ei_id ` set (event_imports d)" "\<not> ?lost i" for i
    using that by (auto simp: list_ex_iff)
  have "eventsOk ?d'" using ok by (auto simp: schemaOk_def intro: eventsOk_filter)
  moreover have "sessionKeys ?d'"
    using ok left unfolding d' schemaOk_def sessionKeys_def by (simp add: distinct_map_filter')
  moreover have "assetKeys ?d'"
    using d ok unfolding d' schemaOk_def assetKeys_def backendIds_def by fastforce
  moreover have "jobsOk (jobs ?d')"
    using ok unfolding d' schemaOk_def importKeys_def jobsOk_def by (simp add: distinct_map_filter' distinct_map_filters del: filter_filter)
  moreover have "importKeys ?d'"
    using d ok left kept calculation(4) unfolding d' schemaOk_def importKeys_def bindingKeys_def by (simp add: distinct_map_filter')
  ultimately show ?thesis using d by (simp add: d' schemaOk_def)
qed


section \<open>Statements on destinations and sign-in\<close>

lemma schema_retireKey:
  assumes "retireKey r d = Inr (d', x)" and "schemaOk d"
  shows "schemaOk d'"
proof (cases "list_ex (\<lambda>q. cl_key q = cl_key r) (retired d)")
  case True
  with assms show ?thesis by (simp add: retireKey_def)
next
  case False
  with assms(1) have d': "d' = d\<lparr>retired := retired d @ [r]\<rparr>" and b: "cl_backend r \<in> backendIds d"
    by (auto simp: retireKey_def list_ex_iff backendIds_def split: if_splits) (metis imageI)
  from False have "cl_key r \<notin> cl_key ` set (retired d)" by (auto simp: list_ex_iff)
  with assms(2) b have "storageKeys d'" by (simp add: d' schemaOk_def storageKeys_def backendIds_def)
  with assms(2) show ?thesis by (simp add: d' schemaOk_def)
qed

lemma schema_updRetired:
  assumes "schemaOk d" and "\<And>r. cl_key (f r) = cl_key r" and "\<And>r. cl_backend r \<in> backendIds d \<Longrightarrow> cl_backend (f r) \<in> backendIds d"
  shows "schemaOk (d\<lparr>retired := updWhere P f (retired d)\<rparr>)"
proof -
  have "\<forall>c \<in> set (updWhere P f (retired d)). cl_backend c \<in> backendIds d"
    using assms(1,3) by (intro updWhere_ball) (auto simp: schemaOk_def storageKeys_def)
  then have "storageKeys (d\<lparr>retired := updWhere P f (retired d)\<rparr>)"
    using assms(1,2) by (simp add: schemaOk_def storageKeys_def map_updWhere backendIds_def)
  then show ?thesis using assms(1) by (simp add: schemaOk_def)
qed

lemma schema_markChecked: "markChecked k t d = Inr (d', x) \<Longrightarrow> schemaOk d \<Longrightarrow> schemaOk d'"
  by (auto simp: markChecked_def intro!: schema_updRetired)

lemma schema_insertBackend:
  assumes "insertBackend k c d = Inr (d', i)" and "schemaOk d"
  shows "schemaOk d'" and "i \<in> sb_id ` set (backends d')"
proof -
  from assms(1) obtain b where d': "d' = d\<lparr>backends := backends d @ [b]\<rparr>" "sb_id b = i" "i = nextId (map sb_id (backends d))"
    "sb_key b \<notin> sb_key ` set (backends d)" "sb_type b = ''s3''"
    by (fastforce simp: insertBackend_def Let_def list_ex_iff split: if_splits)
  have "i \<notin> sb_id ` set (backends d)" using nextId_fresh [of "map sb_id (backends d)"] d' by simp
  then have "localRow (backends d @ [b])"
    using d' assms(2) by (force simp: schemaOk_def storageKeys_def localRow_def)
  then have "storageKeys d'" using assms(2) nextId_fresh [of "map sb_id (backends d)"]
    by (auto simp: d' schemaOk_def storageKeys_def backendIds_def)
  moreover have "assetKeys d'" using assms(2) by (auto simp: d' schemaOk_def assetKeys_def backendIds_def)
  ultimately show "schemaOk d'" using assms(2) by (simp add: d' schemaOk_def)
  show "i \<in> sb_id ` set (backends d')" using d' by simp
qed

lemma schema_bindAssets:
  assumes "bindAssets i target d = Inr (d', x)" and "schemaOk d" and "i \<in> backendIds d"
  shows "schemaOk d'"
  using assms schema_readyChecks [OF assms(2)]
  by (auto simp: bindAssets_def readyChecks_def requestKey_def intro!: schema_updAssets)

lemma schema_bindRetired:
  assumes "bindRetired i target d = Inr (d', x)" and "schemaOk d" and "i \<in> backendIds d"
  shows "schemaOk d'"
  using assms by (auto simp: bindRetired_def intro!: schema_updRetired)

lemma schema_insertTarget: "insertTarget k u d = Inr (d', x) \<Longrightarrow> schemaOk d \<Longrightarrow> schemaOk d'"
  using nextId_fresh [of "map it_id (targets d)"]
  by (auto simp: insertTarget_def Let_def list_ex_iff schemaOk_def storageKeys_def backendIds_def importKeys_def split: if_splits)

lemma flowsOk_admin [simp]: "flowsOk (admin_sessions_update f d) = flowsOk d"
  by (simp add: flowsOk_def)

lemma schema_dropSessions: "dropSessions P d = Inr (d', x) \<Longrightarrow> schemaOk d \<Longrightarrow> schemaOk d'"
  by (auto simp: dropSessions_def schemaOk_def signKeys_def distinct_map_filter')

lemma schema_saveCredential: "saveCredential h d = Inr (d', x) \<Longrightarrow> schemaOk d \<Longrightarrow> schemaOk d'"
  by (auto simp: saveCredential_def schemaOk_def)

lemma schema_insertAdmin: "insertAdmin r c d = Inr (d', x) \<Longrightarrow> schemaOk d \<Longrightarrow> schemaOk d'"
  by (auto simp: insertAdmin_def list_ex_iff schemaOk_def signKeys_def split: if_splits) metis

lemma flowsOk_filter: "flowsOk d \<Longrightarrow> flowsOk (d\<lparr>oidc_flows := filter P (oidc_flows d)\<rparr>)"
  by (auto simp: flowsOk_def distinct_map_filter' intro: order.trans [OF length_filter_le])

lemma schema_takeFlow: "takeFlow st b t d = Inr (d', x) \<Longrightarrow> schemaOk d \<Longrightarrow> schemaOk d'"
  by (auto simp: takeFlow_def schemaOk_def signKeys_def flowsOk_filter split: option.splits)

text \<open>What changes the flows only, and keeps their bound, keeps the schema.\<close>

lemma schema_flows:
  assumes "d'\<lparr>oidc_flows := []\<rparr> = d\<lparr>oidc_flows := []\<rparr>" and "flowsOk d'" and "schemaOk d"
  shows "schemaOk d'"
proof -
  have "d' = (d'\<lparr>oidc_flows := []\<rparr>)\<lparr>oidc_flows := oidc_flows d'\<rparr>" by simp
  then obtain fs where "d' = d\<lparr>oidc_flows := fs\<rparr>" unfolding assms(1) by simp
  with assms(2,3) show ?thesis by (simp add: schemaOk_def signKeys_def)
qed

section \<open>Statements on imports\<close>

lemma schema_insertBinding:
  assumes "insertBinding e t n m d = Inr (d', i)" and "schemaOk d"
  shows "schemaOk d'"
proof -
  from assms(1) obtain b where d': "d' = d\<lparr>event_imports := event_imports d @ [b]\<rparr>"
    and b: "ei_id b = nextId (map ei_id (event_imports d))" "ei_event b = e" "ei_target b = t" "ei_marker b = m"
    and new: "bindingOf e t d = None" "m \<notin> ei_marker ` set (event_imports d)" "e \<in> ev_id ` set (events d)" "t \<in> it_id ` set (targets d)"
    by (fastforce simp: insertBinding_def Let_def list_all_iff list_ex_iff split: if_splits)
  have "\<not> (\<exists>q \<in> set (event_imports d). ei_event q = e \<and> ei_target q = t)"
    using new(1) by (auto simp: bindingOf_def find_None_iff)
  then have "bindingKeys (event_imports d')"
    using assms(2) new(2) b nextId_fresh [of "map ei_id (event_imports d)"]
    by (auto simp: d' schemaOk_def importKeys_def bindingKeys_def)
  then have "importKeys d'" using assms(2) b new(3,4) by (simp add: d' schemaOk_def importKeys_def)
  then show ?thesis using assms(2) by (simp add: d' schemaOk_def)
qed

lemma schema_insertJob:
  assumes "insertJob b m d = Inr (d', i)" and "schemaOk d"
  shows "schemaOk d'"
proof -
  from assms(1) obtain j where d': "d' = d\<lparr>jobs := jobs d @ [j]\<rparr>" "jb_id j = nextId (map jb_id (jobs d))" "jb_import j = b"
    and new: "b \<in> ei_id ` set (event_imports d)" "\<not> hasActive b d"
    by (fastforce simp: insertJob_def Let_def list_ex_iff split: if_splits)
  have "jobsOk (jobs d')"
    using assms(2) new(2) d'(2,3) nextId_fresh [of "map jb_id (jobs d)"]
    by (auto simp: d'(1) schemaOk_def importKeys_def jobsOk_def hasActive_def list_ex_iff)
  then have "importKeys d'" using assms(2) d'(3) new(1) by (simp add: d'(1) schemaOk_def importKeys_def)
  then show ?thesis using assms(2) by (simp add: d' schemaOk_def)
qed

lemma schema_insertSelection:
  assumes "insertSelection b new d = Inr (d', n)" and "schemaOk d" and "distinct (map as_id new)" and "set new \<subseteq> set (assets d)"
    and "\<And>a. a \<in> set new \<Longrightarrow> selectionOf b (as_id a) d = None"
  shows "schemaOk d'"
proof -
  from assms(1) have d': "d' = d\<lparr>asset_imports := asset_imports d @ map (newSelection b) new\<rparr>"
    and b: "new = [] \<or> b \<in> ei_id ` set (event_imports d)" by (force simp: insertSelection_def list_ex_iff split: if_splits)+
  have "selectionKey i \<noteq> (b, as_id a)" if "i \<in> set (asset_imports d)" "a \<in> set new" for i a
    using that assms(5) by (auto simp: selectionOf_def find_None_iff selectionKey_def)
  then have "distinct (map selectionKey (asset_imports d'))"
    using assms(2,3) by (auto simp: d' schemaOk_def importKeys_def selectionKey_def newSelection_def distinct_map inj_on_def)
  then have "importKeys d'"
    using assms(2,4) b by (auto simp: d' schemaOk_def importKeys_def newSelection_def)
  then show ?thesis using assms(2) by (simp add: d' schemaOk_def)
qed

lemma schema_setSelections:
  assumes "setSelections P f d = Inr (d', x)" and "schemaOk d" and "\<And>i. ai_import (f i) = ai_import i \<and> ai_asset (f i) = ai_asset i"
  shows "schemaOk d'"
proof -
  have "\<forall>i \<in> set (updWhere P f (asset_imports d)). ai_import i \<in> ei_id ` set (event_imports d) \<and> ai_asset i \<in> as_id ` set (assets d)"
    using assms(2,3) by (intro updWhere_ball) (auto simp: schemaOk_def importKeys_def)
  then show ?thesis using assms by (auto simp: setSelections_def schemaOk_def importKeys_def map_updWhere selectionKey_def)
qed

lemma schema_setBindings:
  assumes "setBindings P f d = Inr (d', x)" and "schemaOk d" and "\<And>b. bindingKey (f b) = bindingKey b"
  shows "schemaOk d'"
proof -
  let ?B = "updWhere P f (event_imports d)"
  have f: "ei_id (f b) = ei_id b" "ei_marker (f b) = ei_marker b" "ei_event (f b) = ei_event b" "ei_target (f b) = ei_target b" for b
    using assms(3) [of b] by (simp_all add: bindingKey_def)
  have "bindingKeys ?B" using assms(2) f by (simp add: schemaOk_def importKeys_def bindingKeys_def map_updWhere)
  moreover have "ei_id ` set ?B = ei_id ` set (event_imports d)" using f by (simp add: ids_updWhere)
  moreover have "\<forall>b \<in> set ?B. ei_event b \<in> ev_id ` set (events d) \<and> ei_target b \<in> it_id ` set (targets d)"
    using assms(2) f by (intro updWhere_ball) (auto simp: schemaOk_def importKeys_def)
  ultimately show ?thesis using assms(1,2) by (auto simp: setBindings_def schemaOk_def importKeys_def)
qed

lemma activeJobs_updWhere:
  assumes "\<And>q. activeJob (f q) \<Longrightarrow> activeJob q" and "\<And>q. jb_import (f q) = jb_import q"
  shows "distinct (map jb_import (filter activeJob js)) \<Longrightarrow> distinct (map jb_import (filter activeJob (updWhere P f js)))"
proof (induction js)
  case (Cons j js)
  have "jb_import ` set (filter activeJob (updWhere P f js)) \<subseteq> jb_import ` set (filter activeJob js)"
    using assms by (auto simp: set_updWhere image_iff)
  with Cons assms show ?case by (auto simp: updWhere_def split: if_splits)
qed (simp add: updWhere_def)

lemma schema_setJobs:
  assumes "setJobs P f d = Inr (d', x)" and "schemaOk d"
    and "\<And>j. P j \<Longrightarrow> jb_id (f j) = jb_id j \<and> jb_import (f j) = jb_import j \<and> (activeJob (f j) \<longrightarrow> activeJob j)"
  shows "schemaOk d'"
proof -
  let ?f = "\<lambda>j. if P j then f j else j"
  have J: "updWhere P f (jobs d) = updWhere (\<lambda>_. True) ?f (jobs d)" by (simp add: updWhere_def)
  have f: "jb_id (?f j) = jb_id j" "jb_import (?f j) = jb_import j" "activeJob (?f j) \<Longrightarrow> activeJob j" for j
    using assms(3) [of j] by (auto split: if_splits)
  have "jobsOk (updWhere P f (jobs d))"
    using assms(2) activeJobs_updWhere [where f = ?f and P = "\<lambda>_. True" and js = "jobs d", OF f(3,2)]
      map_updWhere [where f = ?f and g = jb_id, OF f(1)]
    unfolding J schemaOk_def importKeys_def jobsOk_def by metis
  moreover have "\<forall>j \<in> set (updWhere P f (jobs d)). jb_import j \<in> ei_id ` set (event_imports d)"
    using assms(2,3) by (intro updWhere_ball) (auto simp: schemaOk_def importKeys_def)
  ultimately show ?thesis using assms(1,2) by (auto simp: setJobs_def schemaOk_def importKeys_def)
qed

end
