(* ===== verification/Export.thy ===== *)
theory Export
  imports ReadingSafe ExportNames
begin

text \<open>
  \<open>Run\<close> and \<open>publish\<close> of \<open>internal/export/export.go\<close>: the ready media of an event are copied to a new
  directory, each under a temporary name that is then linked to its own, and the manifest last. The manifest is
  kept as the record that is encoded, in the one write that the encoder makes; closing a file and creating the
  directory \<open>photos\<close> are system calls without an effect that is kept.
\<close>

section \<open>The output directory\<close>

definition makeOutput :: "unit wop" where
  "makeOutput =
     effect (\<lambda>w. case outputDir w of
                   Some _ \<Rightarrow> (Inl (Failure ''mkdir''), w)
                 | None \<Rightarrow> (Inr (), w\<lparr>outputDir := Some Map.empty\<rparr>))"

definition inOutput :: "((string \<Rightarrow> out_file option) \<Rightarrow> (string \<Rightarrow> out_file option) option) \<Rightarrow> unit wop" where
  "inOutput g =
     effect (\<lambda>w. case outputDir w of
                   None \<Rightarrow> (Inl (Failure ''no directory''), w)
                 | Some D \<Rightarrow> (case g D of None \<Rightarrow> (Inl (Failure ''exists''), w)
                                       | Some D' \<Rightarrow> (Inr (), w\<lparr>outputDir := Some D'\<rparr>)))"

definition openOut :: "string \<Rightarrow> unit wop" where
  "openOut name = inOutput (\<lambda>D. if D name \<noteq> None then None else Some (D(name \<mapsto> MediaFile [])))"

definition writeOut :: "string \<Rightarrow> (out_file \<Rightarrow> out_file) \<Rightarrow> unit wop" where
  "writeOut name f = inOutput (\<lambda>D. Some (D(name := map_option f (D name))))"

definition linkOut :: "string \<Rightarrow> string \<Rightarrow> unit wop" where
  "linkOut old new =
     inOutput (\<lambda>D. case D old of None \<Rightarrow> None | Some c \<Rightarrow> if D new \<noteq> None then None else Some (D(new \<mapsto> c)))"

definition removeOut :: "string \<Rightarrow> unit wop" where
  "removeOut name = inOutput (\<lambda>D. Some (D(name := None)))"

fun appendPiece :: "string \<Rightarrow> out_file \<Rightarrow> out_file" where
  "appendPiece p (MediaFile c) = MediaFile (c @ p)"
| "appendPiece p f = f"

section \<open>publish\<close>

definition partOf :: "string \<Rightarrow> string" where
  "partOf name = name @ ''.part''"

definition publish :: "string \<Rightarrow> unit wop \<Rightarrow> unit wop" where
  "publish name body =
     bindE (orErr (openOut (partOf name)) (Failure ''create export file failed'')) (\<lambda>_.
     finallyE
       (bindE body (\<lambda>_.
        bindE (orErr sysCall (Failure ''sync export file failed'')) (\<lambda>_.
        bindE (orErr sysCall (Failure ''close export file failed'')) (\<lambda>_.
        orErr (linkOut (partOf name) name) (Failure ''publish export file failed'')))))
       (removeOut (partOf name)))"

section \<open>Run\<close>

definition photoPath :: "string \<Rightarrow> string" where
  "photoPath name = ''photos/'' @ name"

definition manifestName :: string where
  "manifestName = ''photodrop-manifest.json''"

definition copyOut :: "string \<Rightarrow> reader \<Rightarrow> int \<Rightarrow> unit wop" where
  "copyOut temp stream sz =
     (let src = limitReader (sz + 1) stream in
      bindE (orErr (forE (\<lambda>p. writeOut temp (appendPiece p)) (pieces 32768 (rd_data src)))
               (Failure ''source read or destination write failed'')) (\<lambda>_.
      bindE (failIf (rd_broken src) (Failure ''source read or destination write failed'')) (\<lambda>_.
      bindE (failIf (int (length (rd_data src)) \<noteq> sz) (Failure ''source size changed'')) (\<lambda>_.
      ctxErr))))"

definition manifestAsset :: "string \<times> ready_asset \<Rightarrow> manifest_asset" where
  "manifestAsset na =
     (case na of (name, a) \<Rightarrow>
        \<lparr>ma_id = ra_id a, ma_original = ra_filename a, ma_export = name, ma_mime = ra_mime a, ma_size = ra_size a,
         ma_uploaded = ra_uploaded a\<rparr>)"

definition exportAsset :: "service \<Rightarrow> snapshot \<Rightarrow> string \<Rightarrow> ready_asset \<Rightarrow> unit wop" where
  "exportAsset sv s name a =
     bindE (openAsset sv s a) (\<lambda>(stream, _).
     publish (photoPath name) (copyOut (partOf (photoPath name)) stream (ra_size a)))"

definition manifestOf :: "snapshot \<Rightarrow> stamp \<Rightarrow> (string \<times> ready_asset) list \<Rightarrow> manifest" where
  "manifestOf s t es =
     \<lparr>mf_version = 1, mf_event_id = ev_id (sn_event s), mf_public = ev_public (sn_event s), mf_name = ev_name (sn_event s),
      mf_date = ev_date (sn_event s), mf_exported = t, mf_assets = map manifestAsset es\<rparr>"

definition exportSnapshot :: "(string \<Rightarrow> string) \<Rightarrow> service \<Rightarrow> snapshot \<Rightarrow> unit wop" where
  "exportSnapshot lower sv s =
     bindE (orErr makeOutput (Failure ''export requires a new, writable output directory'')) (\<lambda>_.
     bindE (orErr sysCall (Failure ''open export directory failed'')) (\<lambda>_.
     bindE (orErr sysCall (Failure ''create photos directory failed'')) (\<lambda>_.
     bindE timestamp (\<lambda>t.
     bindE (liftE (case filenames lower (map ra_filename (sn_assets s)) of
                     None \<Rightarrow> Inl (Failure ''names'') | Some names \<Rightarrow> Inr (zip names (sn_assets s)))) (\<lambda>es.
     bindE (forE (\<lambda>(name, a). exportAsset sv s name a) es) (\<lambda>_.
     orErr (publish manifestName (writeOut (partOf manifestName) (\<lambda>_. ManifestFile (manifestOf s t es))))
       (Failure ''export manifest publication failed'')))))))"

definition Run :: "(string \<Rightarrow> string) \<Rightarrow> service \<Rightarrow> int \<Rightarrow> unit wop" where
  "Run lower sv eventID =
     bindE (takeSnapshot eventID) (\<lambda>s. finallyE (exportSnapshot lower sv s) (closeSnapshot s))"

end
