(* ===== verification/ExportSafe.thy ===== *)
theory ExportSafe
  imports Export
begin

text \<open>
  What an export guarantees: an existing output is never touched; wherever it stops, a manifest that is there lists
  only files that are there, complete; and a success has exported exactly the ready media of the event.
\<close>

section \<open>The output directory step by step\<close>

text \<open>Everything that an export reads is left alone.\<close>

definition untouched :: "world \<Rightarrow> world \<Rightarrow> bool" where
  "untouched w t \<longleftrightarrow> wdb t = wdb w \<and> files t = files w \<and> readers t = readers w \<and> outputDir t = outputDir w"

interpretation untouched: tx_order untouched
  by unfold_locales (auto simp: untouched_def)

definition reads :: "world \<Rightarrow> world \<Rightarrow> bool" where
  "reads w t \<longleftrightarrow> wdb t = wdb w \<and> files t = files w \<and> readers t = readers w"

lemma reads_admin [simp]:
  "reads w (t\<lparr>tick := n\<rparr>) = reads w t" "reads w (t\<lparr>dead := b\<rparr>) = reads w t" "reads w (t\<lparr>outputDir := D\<rparr>) = reads w t"
  by (simp_all add: reads_def)

definition outIs :: "world \<Rightarrow> (string \<Rightarrow> out_file option) \<Rightarrow> world \<Rightarrow> bool" where
  "outIs w D t \<longleftrightarrow> reads w t \<and> outputDir t = Some D"

definition outSome :: "world \<Rightarrow> ((string \<Rightarrow> out_file option) \<Rightarrow> bool) \<Rightarrow> world \<Rightarrow> bool" where
  "outSome w G t \<longleftrightarrow> reads w t \<and> (\<exists>D. outputDir t = Some D \<and> G D)"

lemma out_admin [simp]:
  "outIs w D (t\<lparr>tick := n\<rparr>) = outIs w D t" "outIs w D (t\<lparr>dead := b\<rparr>) = outIs w D t"
  "outIs w D (t\<lparr>outputDir := E\<rparr>) \<longleftrightarrow> reads w t \<and> E = Some D"
  "outSome w G (t\<lparr>tick := n\<rparr>) = outSome w G t" "outSome w G (t\<lparr>dead := b\<rparr>) = outSome w G t"
  by (auto simp: outIs_def outSome_def)

lemma outIs_some: "outIs w D t \<Longrightarrow> G D \<Longrightarrow> outSome w G t"
  by (auto simp: outIs_def outSome_def)

lemma outSome_mono: "outSome w G t \<Longrightarrow> (\<And>D. G D \<Longrightarrow> H D) \<Longrightarrow> outSome w H t"
  by (auto simp: outSome_def)

lemma out_sysCall: "outIs w D t \<Longrightarrow> G D \<Longrightarrow> wpE sysCall (\<lambda>_. outIs w D) (outSome w G) t"
  "outIs w D t \<Longrightarrow> G D \<Longrightarrow> wpE ctxErr (\<lambda>_. outIs w D) (outSome w G) t"
  unfolding sysCall_def ctxErr_def by (rule wpE_effect; auto intro: outIs_some)+

lemma out_inOutput:
  assumes "outIs w D t" and "G D" and "\<And>E. g D = Some E \<Longrightarrow> G E"
  shows "wpE (inOutput g) (\<lambda>_ u. \<exists>E. g D = Some E \<and> outIs w E u) (outSome w G) t"
  unfolding inOutput_def
  by (rule wpE_effect)
     (use assms in \<open>auto simp: outIs_def outSome_def reads_def split: option.splits\<close>)

lemma wpE_forE_done:
  assumes "I [] t" and "\<And>ds x u. I ds u \<Longrightarrow> x \<in> set xs \<Longrightarrow> wpE (f x) (\<lambda>_. I (ds @ [x])) E u"
  shows "wpE (forE f xs) (\<lambda>_. I xs) E t"
proof -
  have "wpE (forE f ys) (\<lambda>_. I (ds @ ys)) E u" if "I ds u" "set ys \<subseteq> set xs" for ds ys u
    using that
  proof (induction ys arbitrary: ds u)
    case (Cons y ys)
    show ?case
      by (simp, rule wpE_step [OF assms(2) [OF Cons.prems(1)]]) (use Cons in force)+
  qed (simp add: wpE_ret)
  from this [OF assms(1), of xs] show ?thesis by simp
qed

section \<open>publish\<close>

text \<open>The directories that publishing a content under a name can leave, from \<open>D\<close>.\<close>

definition publishing :: "(out_file \<Rightarrow> bool) \<Rightarrow> string \<Rightarrow> (string \<Rightarrow> out_file option) \<Rightarrow> (string \<Rightarrow> out_file option) \<Rightarrow> bool" where
  "publishing P name D E \<longleftrightarrow>
     E = D \<or> (D (partOf name) = None \<and>
       ((\<exists>x. E = D(partOf name := x)) \<or> (D name = None \<and> (\<exists>c x. P c \<and> E = D(name \<mapsto> c, partOf name := x)))))"

definition published :: "(out_file \<Rightarrow> bool) \<Rightarrow> string \<Rightarrow> (string \<Rightarrow> out_file option) \<Rightarrow> (string \<Rightarrow> out_file option) \<Rightarrow> bool" where
  "published P name D E \<longleftrightarrow> D (partOf name) = None \<and> D name = None \<and> (\<exists>c x. P c \<and> E = D(name \<mapsto> c, partOf name := x))"

lemma partOf_ne [simp]: "partOf name \<noteq> name" "name \<noteq> partOf name"
  by (simp_all add: partOf_def)

lemma publish_result:
  assumes t: "outIs w D t"
    and body: "\<And>u. outIs w (D(partOf name \<mapsto> MediaFile [])) u \<Longrightarrow>
      wpE body (\<lambda>_ v. \<exists>c. P c \<and> outIs w (D(partOf name \<mapsto> c)) v) (outSome w (\<lambda>E. \<exists>x. E = D(partOf name := x))) u"
  shows "wpE (publish name body) (\<lambda>_ u. \<exists>E. published P name D E \<and> outIs w E u) (outSome w (publishing P name D)) t"
proof -
  let ?p = "partOf name"
  have remove: "wpE (removeOut ?p) (\<lambda>_. outSome w (publishing P name D)) (outSome w (publishing P name D)) u"
    if "outSome w (publishing P name D) u" "D ?p = None" for u
  proof -
    from that(1) obtain E where E: "outIs w E u" "publishing P name D E" by (auto simp: outSome_def outIs_def)
    then have "publishing P name D (E(?p := None))" using that(2)
      by (auto simp: publishing_def fun_upd_twist) (metis fun_upd_triv fun_upd_upd)+
    with E show ?thesis unfolding removeOut_def
      by (intro wpE_mono [OF out_inOutput [OF E(1), of "publishing P name D"]]) (auto intro: outIs_some)
  qed
  have removed: "wpE (removeOut ?p) (\<lambda>_ v. \<exists>E. published P name D E \<and> outIs w E v) (\<lambda>v. \<exists>E. published P name D E \<and> outIs w E v) u"
    if "outIs w E u" "published P name D E" for E u
  proof -
    from that(2) obtain c x where "P c" "E = D(name \<mapsto> c, ?p := x)" "D ?p = None" "D name = None"
      by (auto simp: published_def)
    then have p: "published P name D (E(?p := None))"
      unfolding published_def by (intro conjI exI [of _ c] exI [of _ None]) simp_all
    have "wpE (removeOut ?p) (\<lambda>_ v. \<exists>E'. Some (E(?p := None)) = Some E' \<and> outIs w E' v) (outSome w (published P name D)) u"
      unfolding removeOut_def by (rule out_inOutput [OF that(1)]) (use that(2) p in auto)
    then show ?thesis by (rule wpE_mono) (use p in \<open>auto simp: outSome_def outIs_def\<close>)
  qed
  show ?thesis
    unfolding publish_def
  proof (rule wpE_step, rule wpE_orErr, unfold openOut_def, rule out_inOutput [OF t])
    show "publishing P name D D" by (simp add: publishing_def)
  next
    fix E assume "(if D ?p \<noteq> None then None else Some (D(?p \<mapsto> MediaFile []))) = Some E"
    then show "publishing P name D E" by (auto simp: publishing_def split: if_splits)
  next
    fix u
    assume "\<exists>E. (if D ?p \<noteq> None then None else Some (D(?p \<mapsto> MediaFile []))) = Some E \<and> outIs w E u"
    then have free: "D ?p = None" and u: "outIs w (D(?p \<mapsto> MediaFile [])) u" by (auto split: if_splits)
    have part: "publishing P name D (D(?p := x))" for x using free by (auto simp: publishing_def)
    show "wpE (finallyE (bindE body (\<lambda>_. bindE (orErr sysCall (Failure ''sync export file failed'')) (\<lambda>_.
        bindE (orErr sysCall (Failure ''close export file failed'')) (\<lambda>_.
        orErr (linkOut ?p name) (Failure ''publish export file failed''))))) (removeOut ?p))
      (\<lambda>_ u. \<exists>E. published P name D E \<and> outIs w E u) (outSome w (publishing P name D)) u"
    proof (rule wpE_finallyE, rule wpE_mono)
      show "wpE (bindE body (\<lambda>_. bindE (orErr sysCall (Failure ''sync export file failed'')) (\<lambda>_.
          bindE (orErr sysCall (Failure ''close export file failed'')) (\<lambda>_.
          orErr (linkOut ?p name) (Failure ''publish export file failed'')))))
        (\<lambda>_ v. \<exists>E. published P name D E \<and> outIs w E v) (outSome w (publishing P name D)) u"
      proof (rule wpE_step, rule wpE_mono [OF body [OF u]])
        fix x v
        assume "\<exists>c. P c \<and> outIs w (D(?p \<mapsto> c)) v"
        then obtain c where c: "P c" and v: "outIs w (D(?p \<mapsto> c)) v" by blast
        let ?c = "D(?p \<mapsto> c)" and ?S = "outSome w (publishing P name D)"
        have sys: "wpE (orErr sysCall e) (\<lambda>_. outIs w ?c) ?S v" if "outIs w ?c v" for v e
          by (rule wpE_orErr, rule out_sysCall(1) [OF that]) (rule part)
        have pub: "published P name D (?c(name \<mapsto> c))" if "D name = None"
          unfolding published_def using that c free
          by (intro conjI exI [of _ c] exI [of _ "Some c"]) (simp_all add: fun_upd_twist [of name ?p])
        then have pubg: "D name = None \<Longrightarrow> publishing P name D (?c(name \<mapsto> c))"
          by (auto simp: publishing_def published_def)
        have link: "wpE (orErr (linkOut ?p name) e) (\<lambda>_ v. \<exists>E. published P name D E \<and> outIs w E v) ?S v"
          if "outIs w ?c v" for v e
        proof (rule wpE_orErr, unfold linkOut_def, rule wpE_mono, rule out_inOutput [OF that, where G = "publishing P name D"])
          show "publishing P name D ?c" by (rule part)
        qed (use pub pubg in \<open>auto split: if_splits\<close>)
        show "wpE (bindE (orErr sysCall (Failure ''sync export file failed'')) (\<lambda>_.
            bindE (orErr sysCall (Failure ''close export file failed'')) (\<lambda>_.
            orErr (linkOut ?p name) (Failure ''publish export file failed''))))
          (\<lambda>_ v. \<exists>E. published P name D E \<and> outIs w E v) ?S v"
          by (rule wpE_step [OF sys [OF v]], rule wpE_step [OF sys], assumption, rule link)
      qed (auto elim: outSome_mono intro: part)
    next
      fix x v
      assume "\<exists>E. published P name D E \<and> outIs w E v"
      then obtain E where E: "published P name D E" "outIs w E v" by blast
      from removed [OF E(2,1)] show "wpE (removeOut ?p) (\<lambda>_ v. \<exists>E. published P name D E \<and> outIs w E v)
        (\<lambda>v. \<exists>E. published P name D E \<and> outIs w E v) v" .
    next
      fix v assume "outSome w (publishing P name D) v"
      from remove [OF this free] show "wpE (removeOut ?p) (\<lambda>_. outSome w (publishing P name D)) (outSome w (publishing P name D)) v" .
    qed
  qed
qed

section \<open>One asset\<close>

lemma limitReader_exact:
  assumes "int (length (rd_data (limitReader (n + 1) r))) = n" and "\<not> rd_broken (limitReader (n + 1) r)"
  shows "rd_data (limitReader (n + 1) r) = rd_data r"
  using assms by (auto simp: limitReader_def split: if_splits)

lemma copyOut_result:
  assumes "outIs w (D(temp \<mapsto> MediaFile [])) t"
  shows "wpE (copyOut temp stream sz)
    (\<lambda>_ v. \<exists>c. (c = MediaFile (rd_data stream) \<and> int (length (rd_data stream)) = sz) \<and> outIs w (D(temp \<mapsto> c)) v)
    (outSome w (\<lambda>E. \<exists>x. E = D(temp := x))) t"
proof -
  let ?src = "limitReader (sz + 1) stream" and ?S = "outSome w (\<lambda>E. \<exists>x. E = D(temp := x))"
  let ?I = "\<lambda>ds. outIs w (D(temp \<mapsto> MediaFile (concat ds)))"
  have step: "wpE (writeOut temp (appendPiece p)) (\<lambda>_. ?I (ds @ [p])) ?S u" if "?I ds u" for ds p u
    unfolding writeOut_def
    by (rule wpE_mono, rule out_inOutput [OF that, where G = "\<lambda>E. \<exists>x. E = D(temp := x)"]) auto
  have "wpE (forE (\<lambda>p. writeOut temp (appendPiece p)) (pieces 32768 (rd_data ?src))) (\<lambda>_. ?I (pieces 32768 (rd_data ?src))) ?S t"
  proof (rule wpE_forE_done [where I = ?I])
    show "?I [] t" using assms by simp
  qed (rule step)
  then show ?thesis
    unfolding copyOut_def Let_def
    apply (rule wpE_step [OF wpE_orErr])
    apply (intro wpE_bindE wpE_failIf)
       apply (auto intro: outIs_some) [2]
     apply (auto intro: outIs_some) [1]
    apply (rule wpE_mono, rule out_sysCall(2) [where G = "\<lambda>E. \<exists>x. E = D(temp := x)"], assumption)
      apply (use limitReader_exact [of sz stream] in auto)
    done
qed

text \<open>The content that storage gave for an asset: for a local one, the bytes of its file.\<close>

definition delivered :: "service \<Rightarrow> world \<Rightarrow> ready_asset \<Rightarrow> string \<Rightarrow> bool" where
  "delivered sv w a data \<longleftrightarrow>
     (\<exists>b. resolve (sv_backends sv) (ra_backend a) = Inr b \<and> (be_type b = ''local'' \<longrightarrow> files w (ra_key a) = Some data)) \<and>
     int (length data) = ra_size a"

lemma untouched_openAsset: "upholds untouched (openAsset sv s a)"
proof -
  have r: "upholds untouched (remote c f)" for c and f :: "env \<Rightarrow> nat \<Rightarrow> 'a"
    by (rule untouched.up_remote) (simp add: untouched_def)
  show ?thesis
    unfolding openAsset_def openLocal_def s3Open_def localOpen_def safely_def sysCall_def ctxErr_def lstat_def orErr_def
    by (intro untouched.up_rules untouched.up_effect r) (simp_all add: untouched_def)
qed

section \<open>All assets\<close>

text \<open>The entries are in the directory, as storage gave them.\<close>

definition holdsAll :: "service \<Rightarrow> world \<Rightarrow> (string \<times> ready_asset) list \<Rightarrow> (string \<Rightarrow> out_file option) \<Rightarrow> bool" where
  "holdsAll sv w es D \<longleftrightarrow>
     (\<forall>(name, a) \<in> set es. \<exists>data. delivered sv w a data \<and> D (photoPath name) = Some (MediaFile data))"

lemma paths_apart [simp]:
  "photoPath name \<noteq> manifestName" "manifestName \<noteq> photoPath name"
  "partOf (photoPath name) \<noteq> manifestName" "manifestName \<noteq> partOf (photoPath name)"
  by (simp_all add: photoPath_def manifestName_def partOf_def)

lemma published_keeps: "published P name D E \<Longrightarrow> D m = Some f \<Longrightarrow> E m = Some f"
  by (auto simp: published_def)

text \<open>No entry has the temporary name of a later one.\<close>

definition unblocked :: "(string \<times> ready_asset) list \<Rightarrow> bool" where
  "unblocked es \<longleftrightarrow> (\<forall>k < length es. \<forall>j < k. fst (es ! j) \<noteq> partOf (fst (es ! k)))"

lemma unblocked_snoc:
  assumes "unblocked es" and "partOf name \<notin> fst ` set es"
  shows "unblocked (es @ [(name, a)])"
  unfolding unblocked_def
proof (intro allI impI)
  fix k j
  assume k: "k < length (es @ [(name, a)])" and j: "j < k"
  show "fst ((es @ [(name, a)]) ! j) \<noteq> partOf (fst ((es @ [(name, a)]) ! k))"
  proof (cases "k < length es")
    case True
    then show ?thesis using assms(1) j by (simp add: unblocked_def nth_append)
  next
    case False
    with k j have "k = length es" "j < length es" by simp_all
    moreover from this have "fst (es ! j) \<in> fst ` set es" by (intro imageI nth_mem)
    with assms(2) have "fst (es ! j) \<noteq> partOf name" by metis
    ultimately show ?thesis by (simp add: nth_append)
  qed
qed

lemma scanned_names: "map Some as = map scanReady rows \<Longrightarrow> map ra_filename as = map as_filename rows"
  by (induction as rows rule: list_induct2') (auto simp: scanReady_def map_option_case split: option.splits)

lemma holdsAll_free: "holdsAll sv w es D \<Longrightarrow> D (partOf (photoPath name)) = None \<Longrightarrow> partOf name \<notin> fst ` set es"
  by (fastforce simp: holdsAll_def photoPath_def partOf_def)

lemma exportAsset_result:
  assumes "outIs w D t" and "holdsAll sv w es D" and "D manifestName = None"
  shows "wpE (exportAsset sv s name a)
    (\<lambda>_ u. partOf name \<notin> fst ` set es \<and> (\<exists>E. outIs w E u \<and> holdsAll sv w (es @ [(name, a)]) E \<and> E manifestName = None))
    (outSome w (\<lambda>E. E manifestName = None)) t"
proof -
  let ?n = "photoPath name" and ?none = "\<lambda>E. E manifestName = None"
  have "wpE (openAsset sv s a) (\<lambda>r v. delivered sv w a (rd_data (fst r)) \<or> int (length (rd_data (fst r))) \<noteq> ra_size a) (\<lambda>_. True) t"
    by (rule wpE_mono [OF openAsset_result])
       (use assms(1) in \<open>auto simp: openedAs_def delivered_def outIs_def reads_def split: if_splits\<close>)
  from wpE_conj [OF this wpE_upholds [OF untouched_openAsset]]
  have opened: "wpE (openAsset sv s a) (\<lambda>r v. (delivered sv w a (rd_data (fst r)) \<or> int (length (rd_data (fst r))) \<noteq> ra_size a) \<and> outIs w D v)
      (outSome w ?none) t"
    by (rule wpE_mono) (use assms(1,3) in \<open>auto simp: untouched_def outIs_def outSome_def reads_def\<close>)
  show ?thesis
    unfolding exportAsset_def
  proof (rule wpE_step [OF opened], rule wpE_prod)
    fix r u info and stream :: reader
    assume r: "(delivered sv w a (rd_data (fst r)) \<or> int (length (rd_data (fst r))) \<noteq> ra_size a) \<and> outIs w D u"
      and p: "r = (stream, info)"
    let ?P = "\<lambda>c. c = MediaFile (rd_data stream) \<and> int (length (rd_data stream)) = ra_size a"
    from r have "outIs w D u" by simp
    then show "wpE (publish ?n (copyOut (partOf ?n) stream (ra_size a)))
      (\<lambda>_ u. partOf name \<notin> fst ` set es \<and> (\<exists>E. outIs w E u \<and> holdsAll sv w (es @ [(name, a)]) E \<and> ?none E)) (outSome w ?none) u"
    proof (rule wpE_mono [OF publish_result [where P = ?P]])
      fix v assume "outIs w (D(partOf ?n \<mapsto> MediaFile [])) v"
      then show "wpE (copyOut (partOf ?n) stream (ra_size a)) (\<lambda>_ v. \<exists>c. ?P c \<and> outIs w (D(partOf ?n \<mapsto> c)) v)
        (outSome w (\<lambda>E. \<exists>x. E = D(partOf ?n := x))) v" by (rule copyOut_result)
    next
      fix x v
      assume "\<exists>E. published ?P ?n D E \<and> outIs w E v"
      then obtain E where E: "published ?P ?n D E" "outIs w E v" by blast
      then have "E ?n = Some (MediaFile (rd_data stream))" "delivered sv w a (rd_data stream)" "E manifestName = None"
        using r p assms(3) by (auto simp: published_def)
      moreover have "holdsAll sv w es E"
        using assms(2) published_keeps [OF E(1)] unfolding holdsAll_def by fastforce
      moreover have "partOf name \<notin> fst ` set es"
        using holdsAll_free [OF assms(2)] E(1) by (simp add: published_def)
      ultimately show "partOf name \<notin> fst ` set es \<and> (\<exists>E. outIs w E v \<and> holdsAll sv w (es @ [(name, a)]) E \<and> ?none E)"
        using E(2) by (auto simp: holdsAll_def)
    next
      fix v assume "outSome w (publishing ?P ?n D) v"
      then show "outSome w ?none v" by (rule outSome_mono) (use assms(3) in \<open>auto simp: publishing_def\<close>)
    qed
  qed
qed

lemma exportAll_result:
  assumes "outIs w Map.empty t"
  shows "wpE (forE (\<lambda>(name, a). exportAsset sv s name a) es)
    (\<lambda>_ u. unblocked es \<and> (\<exists>E. outIs w E u \<and> holdsAll sv w es E \<and> E manifestName = None))
    (outSome w (\<lambda>E. E manifestName = None)) t"
proof (rule wpE_forE_done [where I = "\<lambda>ds u. unblocked ds \<and> (\<exists>E. outIs w E u \<and> holdsAll sv w ds E \<and> E manifestName = None)"])
  fix ds x u
  assume "unblocked ds \<and> (\<exists>E. outIs w E u \<and> holdsAll sv w ds E \<and> E manifestName = None)"
  then obtain E where un: "unblocked ds" and E: "outIs w E u" "holdsAll sv w ds E" "E manifestName = None" by blast
  show "wpE (case x of (name, a) \<Rightarrow> exportAsset sv s name a)
       (\<lambda>_ u. unblocked (ds @ [x]) \<and> (\<exists>E. outIs w E u \<and> holdsAll sv w (ds @ [x]) E \<and> E manifestName = None))
       (outSome w (\<lambda>E. E manifestName = None)) u"
    by (rule wpE_prod, rule wpE_mono, rule exportAsset_result [OF E]) (use un in \<open>simp_all add: unblocked_snoc\<close>)
qed (use assms in \<open>auto simp: holdsAll_def unblocked_def\<close>)

section \<open>The export\<close>

text \<open>A complete export of an event: the manifest of a snapshot, and every file that it lists.\<close>

definition exported :: "(string \<Rightarrow> string) \<Rightarrow> service \<Rightarrow> int \<Rightarrow> world \<Rightarrow> (string \<Rightarrow> out_file option) \<Rightarrow> bool" where
  "exported lower sv i w D \<longleftrightarrow>
     (\<exists>s names t. snapshotOf i (wdb w) s \<and> filenames lower (map ra_filename (sn_assets s)) = Some names \<and>
        D manifestName = Some (ManifestFile (manifestOf s t (zip names (sn_assets s)))) \<and>
        unblocked (zip names (sn_assets s)) \<and> holdsAll sv w (zip names (sn_assets s)) D)"

definition exportLeaves :: "(string \<Rightarrow> string) \<Rightarrow> service \<Rightarrow> int \<Rightarrow> world \<Rightarrow> world \<Rightarrow> bool" where
  "exportLeaves lower sv i w t \<longleftrightarrow>
     outputDir t = outputDir w \<or>
     (outputDir w = None \<and> (\<exists>D. outputDir t = Some D \<and> (D manifestName = None \<or> exported lower sv i w D)))"

definition exportDone :: "(string \<Rightarrow> string) \<Rightarrow> service \<Rightarrow> int \<Rightarrow> world \<Rightarrow> world \<Rightarrow> bool" where
  "exportDone lower sv i w t \<longleftrightarrow> outputDir w = None \<and> (\<exists>D. outputDir t = Some D \<and> exported lower sv i w D)"

definition sameOut :: "world \<Rightarrow> world \<Rightarrow> bool" where
  "sameOut w t \<longleftrightarrow> outputDir t = outputDir w"

interpretation sameOut: tx_order sameOut
  by unfold_locales (auto simp: sameOut_def)

lemma snapshot_sameOut: "upholds sameOut (takeSnapshot i)" "upholds sameOut (closeSnapshot s)"
proof -
  have lock: "upholds sameOut (modify (rlock i))" "upholds sameOut (modify (runlock i))" for i
    by (rule sameOut.up_modify; simp add: sameOut_def rlock_def runlock_def)+
  show "upholds sameOut (takeSnapshot i)" unfolding takeSnapshot_def getEvent_def
    by (intro sameOut.up_rules sameOut.up_world lock)
  show "upholds sameOut (closeSnapshot s)" unfolding closeSnapshot_def
    by (intro sameOut.up_rules lock)
qed

lemma exportSnapshot_result:
  assumes "reads w t" and "outputDir t = outputDir w" and "snapshotOf i (wdb w) s"
  shows "wpE (exportSnapshot lower sv s) (\<lambda>_ u. reads w u \<and> exportDone lower sv i w u)
    (\<lambda>u. reads w u \<and> exportLeaves lower sv i w u) t"
proof -
  let ?none = "outSome w (\<lambda>E. E manifestName = None)" and ?E = "\<lambda>u. reads w u \<and> exportLeaves lower sv i w u"
  have made: "wpE makeOutput (\<lambda>_ u. outputDir w = None \<and> outIs w Map.empty u) ?E t"
    unfolding makeOutput_def
    by (rule wpE_effect) (use assms in \<open>auto simp: exportLeaves_def outIs_def reads_def split: option.splits\<close>)
  have left: "?none u \<Longrightarrow> outputDir w = None \<Longrightarrow> ?E u" for u
    by (auto simp: outSome_def exportLeaves_def)
  show ?thesis
    unfolding exportSnapshot_def
  proof (rule wpE_step [OF wpE_orErr [OF made]], elim conjE)
    fix t assume new: "outputDir w = None" and t: "outIs w Map.empty t"
    have sys: "wpE (orErr sysCall e) (\<lambda>_. outIs w Map.empty) ?E u" if "outIs w Map.empty u" for u e
      by (rule wpE_orErr, rule wpE_mono, rule out_sysCall(1) [OF that, where G = "\<lambda>E. E manifestName = None"])
         (use left new in auto)
    have rest: "wpE (bindE (forE (\<lambda>(name, a). exportAsset sv s name a) es) (\<lambda>_.
        orErr (publish manifestName (writeOut (partOf manifestName) (\<lambda>_. ManifestFile (manifestOf s st es)))) e))
        (\<lambda>_ u. reads w u \<and> exportDone lower sv i w u) ?E u"
      if u: "outIs w Map.empty u" and names: "filenames lower (map ra_filename (sn_assets s)) = Some names"
        and es: "es = zip names (sn_assets s)" for u st es e names
    proof (rule wpE_step, rule wpE_mono [OF exportAll_result [OF u]], assumption, rule left, assumption, rule new)
      fix x v
      assume "unblocked es \<and> (\<exists>E. outIs w E v \<and> holdsAll sv w es E \<and> E manifestName = None)"
      then obtain D where un: "unblocked es" and D: "outIs w D v" "holdsAll sv w es D" "D manifestName = None" by blast
      let ?P = "\<lambda>c. c = ManifestFile (manifestOf s st es)"
      have body: "wpE (writeOut (partOf manifestName) (\<lambda>_. ManifestFile (manifestOf s st es)))
          (\<lambda>_ v. \<exists>c. ?P c \<and> outIs w (D(partOf manifestName \<mapsto> c)) v)
          (outSome w (\<lambda>E. \<exists>x. E = D(partOf manifestName := x))) v'"
        if "outIs w (D(partOf manifestName \<mapsto> MediaFile [])) v'" for v'
        unfolding writeOut_def
        by (rule wpE_mono, rule out_inOutput [OF that, where G = "\<lambda>E. \<exists>x. E = D(partOf manifestName := x)"]) auto
      have full: "exported lower sv i w (D(manifestName \<mapsto> ManifestFile (manifestOf s st es), partOf manifestName := x))" for x
      proof -
        have "photoPath n \<noteq> partOf manifestName" for n by (simp add: photoPath_def partOf_def manifestName_def)
        then have "holdsAll sv w es (D(manifestName \<mapsto> ManifestFile (manifestOf s st es), partOf manifestName := x))"
          using D(2) by (auto simp: holdsAll_def)
        with names assms(3) un show ?thesis unfolding exported_def es
          by (intro exI [of _ s] exI [of _ names] exI [of _ st]) simp
      qed
      show "wpE (orErr (publish manifestName (writeOut (partOf manifestName) (\<lambda>_. ManifestFile (manifestOf s st es)))) e)
        (\<lambda>_ u. reads w u \<and> exportDone lower sv i w u) ?E v"
        by (rule wpE_orErr, rule wpE_mono, rule publish_result [OF D(1), where P = ?P], rule body, assumption)
           (use full new D(3) in \<open>auto simp: published_def publishing_def exportDone_def exportLeaves_def outIs_def outSome_def\<close>)
    qed
    show "wpE (bindE (orErr sysCall (Failure ''open export directory failed'')) (\<lambda>_.
        bindE (orErr sysCall (Failure ''create photos directory failed'')) (\<lambda>_.
        bindE timestamp (\<lambda>st.
        bindE (liftE (case filenames lower (map ra_filename (sn_assets s)) of
            None \<Rightarrow> Inl (Failure ''names'') | Some names \<Rightarrow> Inr (zip names (sn_assets s)))) (\<lambda>es.
        bindE (forE (\<lambda>(name, a). exportAsset sv s name a) es) (\<lambda>_.
        orErr (publish manifestName (writeOut (partOf manifestName) (\<lambda>_. ManifestFile (manifestOf s st es))))
          (Failure ''export manifest publication failed'')))))))
      (\<lambda>_ u. reads w u \<and> exportDone lower sv i w u) ?E t"
      apply (rule wpE_step [OF sys [OF t]], rule wpE_step [OF sys], assumption)
      apply (rule wpE_bindE, rule wpE_timestamp, rule wpE_bindE, rule wpE_liftE)
       apply (rule left, rule outIs_some, simp, simp, rule new)
      apply (rule rest [where names = "the (filenames lower (map ra_filename (sn_assets s)))"])
        apply (auto split: option.splits)
      done
  qed
qed

lemma exportDone_cong:
  "wdb v = wdb w \<Longrightarrow> files v = files w \<Longrightarrow> outputDir v = outputDir w \<Longrightarrow> exportDone lower sv i v t = exportDone lower sv i w t"
  "wdb v = wdb w \<Longrightarrow> files v = files w \<Longrightarrow> outputDir v = outputDir w \<Longrightarrow> exportLeaves lower sv i v t = exportLeaves lower sv i w t"
  by (simp_all add: exportDone_def exportLeaves_def exported_def holdsAll_def delivered_def)

lemma Run_result:
  "wpE (Run lower sv i) (\<lambda>_ t. reads w t \<and> exportDone lower sv i w t) (\<lambda>t. reads w t \<and> exportLeaves lower sv i w t) w"
  unfolding Run_def
proof (rule wpE_step)
  show "wpE (takeSnapshot i) (\<lambda>s t. (snapshotOf i (wdb w) s \<and> quiet (rlock i w) t) \<and> sameOut w t)
    (\<lambda>t. reads w t \<and> exportLeaves lower sv i w t) w"
    by (rule wpE_mono [OF wpE_conj [OF takeSnapshot_result wpE_upholds [OF snapshot_sameOut(1)]]])
       (auto simp: quiet_def sameOut_def reads_def exportLeaves_def)
next
  fix s t
  assume t: "(snapshotOf i (wdb w) s \<and> quiet (rlock i w) t) \<and> sameOut w t"
  let ?v = "rlock i w"
  have v: "wdb ?v = wdb w" "files ?v = files w" "outputDir ?v = outputDir w" by (simp_all add: rlock_def)
  have i: "ev_id (sn_event s) = i" "\<not> sn_closed s" using t by (simp_all add: snapshotOf_def)
  have reads: "reads ?v t" "outputDir t = outputDir ?v" "snapshotOf i (wdb ?v) s"
    using t v by (auto simp: quiet_def reads_def sameOut_def)
  have close: "reads w (runlock i u)" "exportDone lower sv i w (runlock i u) = exportDone lower sv i w u"
    "exportLeaves lower sv i w (runlock i u) = exportLeaves lower sv i w u" if "reads ?v u" for u
    using that by (auto simp: reads_def rlock_def runlock_def exportDone_def exportLeaves_def fun_eq_iff)
  show "wpE (finallyE (exportSnapshot lower sv s) (closeSnapshot s)) (\<lambda>_ t. reads w t \<and> exportDone lower sv i w t)
    (\<lambda>t. reads w t \<and> exportLeaves lower sv i w t) t"
    using exportSnapshot_result [OF reads, of lower sv] i close
    by (intro wpE_finallyE)
       (auto elim!: wpE_mono simp: closeSnapshot_def exportDone_cong [OF v] intro!: wpE_bindE wpE_modify wpE_ret)
qed

text \<open>A guest can choose the names \<open>a.png.part\<close> and \<open>a.png\<close>: the second file's temporary name is then taken, and
the export of the event fails whenever it is tried.\<close>

lemma blocked_names: "filenames asciiLower [''a.png.part'', ''a.png''] = Some [''a.png.part'', ''a.png'']"
  by code_simp

lemma Run_blocked:
  assumes "map as_filename (readyRows i (wdb w)) = [''a.png.part'', ''a.png'']"
  shows "wpE (Run asciiLower sv i) (\<lambda>_ _. False) (\<lambda>_. True) w"
proof (rule wpE_mono [OF Run_result])
  fix x t
  assume "reads w t \<and> exportDone asciiLower sv i w t"
  then obtain D where "exported asciiLower sv i w D" by (auto simp: exportDone_def)
  then obtain s names where s: "snapshotOf i (wdb w) s" and n: "filenames asciiLower (map ra_filename (sn_assets s)) = Some names"
    and un: "unblocked (zip names (sn_assets s))" by (auto simp: exported_def)
  have "map ra_filename (sn_assets s) = map as_filename (readyRows i (wdb w))"
  proof -
    from s have "map Some (sn_assets s) = map scanReady (readyRows i (wdb w))" by (simp add: snapshotOf_def)
    then show ?thesis by (rule scanned_names)
  qed
  with assms have f: "map ra_filename (sn_assets s) = [''a.png.part'', ''a.png'']" by simp
  with n blocked_names have "names = [''a.png.part'', ''a.png'']" by simp
  moreover from f obtain a b where "sn_assets s = [a, b]" by (auto simp: map_eq_Cons_conv)
  ultimately show False using un unfolding unblocked_def partOf_def by (force dest: spec [of _ 1])
qed simp

end
