(* ===== verification/Keeping.thy ===== *)
theory Keeping
  imports Schema ImmichRuns ExportSafe
begin

text \<open>
  What every operation keeps of the constraints of the migrations (\<open>schemaOk\<close>), and which operations leave the
  media alone: signing in, events and sessions, and everything the importer does.
\<close>

section \<open>What a step keeps\<close>

definition ledgered :: "db \<Rightarrow> bool" where
  "ledgered d \<longleftrightarrow> schemaOk d \<and> ledgerOk d"

text \<open>
  A step keeps the schema. With the first flag it adds and changes no binding; with the second it leaves the assets and
  their files alone and keeps the ledger.
\<close>

definition keeping :: "bool \<Rightarrow> bool \<Rightarrow> world \<Rightarrow> world \<Rightarrow> bool" where
  "keeping c m s t \<longleftrightarrow> (schemaOk (wdb s) \<longrightarrow> schemaOk (wdb t)) \<and>
     (c \<longrightarrow> set (event_imports (wdb t)) \<subseteq> set (event_imports (wdb s))) \<and>
     (m \<longrightarrow> assets (wdb t) = assets (wdb s) \<and> files t = files s \<and> (ledgered (wdb s) \<longrightarrow> ledgered (wdb t)))"

interpretation keeping: tx_order "keeping c m" for c m
  by unfold_locales (auto simp: keeping_def)

lemma keeping_mono: "keeping True True s t \<Longrightarrow> keeping c m s t"
  "keeping False True s t \<Longrightarrow> keeping False m s t" "keeping True False s t \<Longrightarrow> keeping c False s t"
  by (auto simp: keeping_def)

lemma quiet_keeping: "quiet s t \<Longrightarrow> keeping c m s t"
  by (simp add: quiet_def keeping_def)

lemma onlyTrace_keeping: "onlyTrace s t \<Longrightarrow> keeping c m s t"
  by (simp add: onlyTrace_def keeping_def)

lemma sameRest_keeping: "sameRest s t \<Longrightarrow> keeping c False s t"
  by (simp add: sameRest_def keeping_def)

lemmas keeping_reads = quiet_reads [THEN upholds_mono, OF quiet_keeping] quiet_checks [THEN upholds_mono, OF quiet_keeping]
lemmas keeping_requests = onlyTrace_requests [THEN upholds_mono, OF onlyTrace_keeping]

lemma keeping_withRLock: "upholds (keeping c m) p \<Longrightarrow> upholds (keeping c m) (withRLock i p)"
  by (rule keeping.up_withRLock) (simp_all add: keeping_def rlock_def runlock_def)

lemmas keeping_up = keeping.up_rules keeping.up_world keeping.up_inTx keeping_withRLock keeping_reads keeping_requests

lemma keeping_exec:
  assumes "\<And>d d' r. f d = Inr (d', r) \<Longrightarrow> schemaOk d \<Longrightarrow> schemaOk d'"
    and "\<And>d d' r. c \<Longrightarrow> f d = Inr (d', r) \<Longrightarrow> set (event_imports d') \<subseteq> set (event_imports d)"
    and "\<And>d d' r. m \<Longrightarrow> f d = Inr (d', r) \<Longrightarrow> assets d' = assets d \<and> (ledgered d \<longrightarrow> ledgerOk d')"
  shows "upholds (keeping c m) (exec f)"
  by (rule keeping.up_exec) (use assms in \<open>fastforce simp: keeping_def ledgered_def\<close>)

section \<open>The ledger and the other tables\<close>

lemma ledgered_keys: "ledgered d \<Longrightarrow> u \<in> set (sessions d) \<Longrightarrow> us_event u \<in> ev_id ` set (events d)"
  by (simp add: ledgered_def schemaOk_def sessionKeys_def)

lemma ledger_same: "ledgered d \<Longrightarrow> assets d' = assets d \<Longrightarrow> sessions d' = sessions d \<Longrightarrow> events d' = events d \<Longrightarrow> ledgerOk d'"
  unfolding ledgered_def by (metis ledger_assets)

lemma ledger_events:
  assumes "ledgered d" and "assets d' = assets d" and "sessions d' = sessions d"
    and "\<And>i. i \<in> ev_id ` set (events d) \<Longrightarrow> (\<exists>e \<in> set (events d'). ev_id e = i \<and> \<not> ev_deleting e) \<Longrightarrow>
      \<exists>e \<in> set (events d). ev_id e = i \<and> \<not> ev_deleting e"
  shows "ledgerOk d'"
proof -
  have "liveSession d u" if "liveSession d' u" "u \<in> set (sessions d)" for u
    using that assms(4) [of "us_event u"] ledgered_keys [OF assms(1) that(2)] by (auto simp: liveSession_def list_ex_iff)
  with assms show ?thesis by (auto simp: ledgered_def ledgerOk_def sessionWithin_def underLimits_def)
qed

lemma keep_insertEvent: "upholds (keeping c m) (exec (insertEvent (newPublicID bs) e t))"
proof (rule keeping_exec)
  show "assets d' = assets d \<and> (ledgered d \<longrightarrow> ledgerOk d')" if ins: "insertEvent (newPublicID bs) e t d = Inr (d', r)" for d d' r
  proof -
    from ins have d': "d' = d\<lparr>events := events d @ [r]\<rparr>" and r: "ev_id r = nextId (map ev_id (events d))"
      by (auto simp: insertEvent_def Let_def split: if_splits)
    have "ledgerOk d'" if ok: "ledgered d"
      by (rule ledger_events [OF ok]) (use r nextId_fresh [of "map ev_id (events d)"] in \<open>auto simp: d'\<close>)
    then show ?thesis by (simp add: d')
  qed
qed (auto intro: schema_insertEvent simp: insertEvent_def Let_def split: if_splits)

lemma keep_updateRow:
  assumes "validate i = Inr e"
  shows "upholds (keeping c m) (exec (updateRow n e t))"
proof (rule keeping_exec [OF schema_updateRow [OF assms]])
  show "assets d' = assets d \<and> (ledgered d \<longrightarrow> ledgerOk d')" if upd: "updateRow n e t d = Inr (d', r)" for d d' r
  proof -
    from upd have d': "d' = d\<lparr>events := updWhere (\<lambda>q. ev_id q = n \<and> \<not> ev_deleting q) (withFields e t) (events d)\<rparr>"
      by (auto simp: updateRow_def split: option.splits if_splits)
    have "ledgerOk d'" if ok: "ledgered d"
      by (rule ledger_events [OF ok]) (force simp: d' set_updWhere split: if_splits)+
    then show ?thesis by (simp add: d')
  qed
qed (auto simp: updateRow_def split: option.splits if_splits)

lemma ledgered_markDeleting: "markDeleting i p t d = Inr (d', r) \<Longrightarrow> ledgered d \<Longrightarrow> ledgered d'"
proof -
  assume mark: "markDeleting i p t d = Inr (d', r)" and ok: "ledgered d"
  have "ledgerOk d'"
    by (rule ledger_events [OF ok]) (use mark in \<open>auto simp: markDeleting_def Let_def set_updWhere split: if_splits\<close>)
  with mark ok show "ledgered d'" by (auto simp: ledgered_def intro: schema_markDeleting)
qed

lemma keep_markDeleting: "upholds (keeping c m) (exec (markDeleting i p t))"
proof (rule keeping_exec)
  show "assets d' = assets d \<and> (ledgered d \<longrightarrow> ledgerOk d')" if mark: "markDeleting i p t d = Inr (d', r)" for d d' r
    using ledgered_markDeleting [OF mark] mark by (auto simp: markDeleting_def Let_def ledgered_def)
qed (auto intro: schema_markDeleting simp: markDeleting_def Let_def)

lemma keep_insertSession: "upholds (keeping c m) (exec (insertSession u))"
proof (rule keeping_exec)
  show "assets d' = assets d \<and> (ledgered d \<longrightarrow> ledgerOk d')" if ins: "insertSession u d = Inr (d', r)" for d d' r
  proof -
    from ins have d': "d' = d\<lparr>sessions := sessions d @ [u]\<rparr>" and u: "us_id u \<notin> us_id ` set (sessions d)"
      "0 < us_max_assets u" "0 < us_max_bytes u"
      by (auto simp: insertSession_def list_all_iff split: if_splits)
    have "ledgerOk d'" if ok: "ledgered d"
    proof -
      have none: "filter (ofSession (us_id u)) (assets d) = []"
        using ok u(1) by (auto simp: filter_empty_conv ofSession_def ledgered_def schemaOk_def assetKeys_def image_iff) metis
      have "sessionWithin d' u"
        using u none by (simp add: sessionWithin_def underLimits_def d' countWhere_def sumWhere_def)
      with ok u(1) show ?thesis
        by (auto simp: ledgered_def ledgerOk_def d' liveSession_def sessionWithin_def underLimits_def)
    qed
    then show ?thesis by (simp add: d')
  qed
qed (auto intro: schema_insertSession simp: insertSession_def split: if_splits)

lemma keep_keys:
  assumes "\<And>d d' r. f d = Inr (d', r) \<Longrightarrow> schemaOk d \<Longrightarrow> schemaOk d'"
    and "\<And>d d' r. f d = Inr (d', r) \<Longrightarrow> assets d' = assets d \<and> sessions d' = sessions d \<and> events d' = events d"
    and "\<And>d d' r. c \<Longrightarrow> f d = Inr (d', r) \<Longrightarrow> event_imports d' = event_imports d"
  shows "upholds (keeping c m) (exec f)"
  using assms(1)
proof (rule keeping_exec)
  show "assets d' = assets d \<and> (ledgered d \<longrightarrow> ledgerOk d')" if "f d = Inr (d', r)" for d d' r
    using assms(2) [OF that] ledger_same by blast
qed (use assms(3) in auto)

text \<open>Signing in, and what start-up binds.\<close>

lemma keep_dropSessions: "upholds (keeping c m) (exec (dropSessions P))"
  by (rule keep_keys [OF schema_dropSessions]) (auto simp: dropSessions_def Let_def split: if_splits option.splits)

lemma keep_saveCredential: "upholds (keeping c m) (exec (saveCredential h))"
  by (rule keep_keys [OF schema_saveCredential]) (auto simp: saveCredential_def Let_def split: if_splits option.splits)

lemma keep_insertAdmin: "upholds (keeping c m) (exec (insertAdmin r x))"
  by (rule keep_keys [OF schema_insertAdmin]) (auto simp: insertAdmin_def Let_def split: if_splits option.splits)

lemma keep_takeFlow: "upholds (keeping c m) (exec (takeFlow st b t))"
  by (rule keep_keys [OF schema_takeFlow]) (auto simp: takeFlow_def Let_def split: if_splits option.splits)

lemma keep_insertTarget: "upholds (keeping c m) (exec (insertTarget k u))"
  by (rule keep_keys [OF schema_insertTarget]) (auto simp: insertTarget_def Let_def split: if_splits option.splits)

lemma keep_retireKey: "upholds (keeping c m) (exec (retireKey q))"
  by (rule keep_keys [OF schema_retireKey]) (auto simp: retireKey_def Let_def split: if_splits option.splits)

lemma keep_markChecked: "upholds (keeping c m) (exec (markChecked k s))"
  by (rule keep_keys [OF schema_markChecked]) (auto simp: markChecked_def Let_def split: if_splits option.splits)

text \<open>Imports.\<close>

lemma keep_setSelections:
  "(\<And>i. ai_import (f i) = ai_import i \<and> ai_asset (f i) = ai_asset i) \<Longrightarrow> upholds (keeping c m) (exec (setSelections P f))"
  by (rule keep_keys, erule (1) schema_setSelections) (auto simp: setSelections_def)

lemma keep_setJobs:
  "(\<And>j. P j \<Longrightarrow> jb_id (f j) = jb_id j \<and> jb_import (f j) = jb_import j \<and> (activeJob (f j) \<longrightarrow> activeJob j)) \<Longrightarrow>
   upholds (keeping c m) (exec (setJobs P f))"
  by (rule keep_keys, erule (1) schema_setJobs) (auto simp: setJobs_def)

lemma keep_insertJob: "upholds (keeping c m) (exec (insertJob b mode))"
  by (rule keep_keys [OF schema_insertJob]) (auto simp: insertJob_def Let_def split: if_splits)

lemma keep_setBindings:
  "(\<And>b. bindingKey (f b) = bindingKey b) \<Longrightarrow> upholds (keeping False m) (exec (setBindings P f))"
  by (rule keep_keys, erule (1) schema_setBindings) (auto simp: setBindings_def)

lemma keep_insertBinding: "upholds (keeping False m) (exec (insertBinding e t n k))"
  by (rule keep_keys [OF schema_insertBinding]) (auto simp: insertBinding_def Let_def split: if_splits)

lemma keep_selection:
  assumes "\<And>d. schemaOk d \<Longrightarrow> distinct (map as_id (new d))" and "\<And>d. set (new d) \<subseteq> set (assets d)"
    and "\<And>d a. a \<in> set (new d) \<Longrightarrow> selectionOf b (as_id a) d = None"
  shows "upholds (keeping c m) (exec (\<lambda>d. insertSelection b (new d) d))"
  by (rule keep_keys, erule schema_insertSelection) (auto simp: insertSelection_def assms split: if_splits)

lemma schema_ready: "schemaOk d \<Longrightarrow> distinct (map as_id (filter P (assets d)))"
  by (simp add: schemaOk_def assetKeys_def distinct_map_filter')

lemma keep_selectReady: "upholds (keeping c m) (exec (selectReady b e))"
proof -
  have "selectReady b e = (\<lambda>d. insertSelection b (filter (\<lambda>a. selectionOf b (as_id a) d = None) (readyOf e d)) d)"
    by (simp add: selectReady_def fun_eq_iff)
  then show ?thesis by (auto simp: readyOf_def schema_ready intro!: keep_selection)
qed

lemma keep_unselected: "upholds (keeping c m) (exec (\<lambda>d. insertSelection b (unselected b e d) d))"
  by (rule keep_selection) (auto simp: schemaOk_def assetKeys_def readyOf_def intro: unselected_distinct dest: set_unselected)

section \<open>Operations that leave the media alone\<close>

text \<open>Signing in, events and sessions.\<close>

lemma keep_createEvent: "upholds (keeping c m) (createEvent i)"
proof -
  have "upholds (keeping c m) (tryCreate k e t)" for k e t
    by (induction k) (auto intro!: keeping_up keep_insertEvent)
  then show ?thesis unfolding createEvent_def by (intro keeping_up)
qed

text \<open>Imports.\<close>

lemma keep_selectFor: "upholds (keeping c m) (selectFor albumOnly mode b e)"
  unfolding selectFor_def by (intro keeping_up keep_selectReady keep_setSelections) (simp add: retryRow_def)

lemma keep_enqueueTx: "upholds (keeping False m) (enqueueTx im e key name mode albumOnly req)"
proof -
  have n: "upholds (keeping False m) (exec (setBindings P (ei_name_update (\<lambda>_. n))))" for P n
    by (rule keep_setBindings) (simp add: bindingKey_def)
  show ?thesis
    unfolding enqueueTx_def getEvent_def
    by (intro keeping_up keep_selectFor keep_insertBinding keep_insertJob n)
qed

lemma keep_enqueue: "upholds (keeping False m) (enqueue im e key name mode albumOnly)"
  unfolding enqueue_def by (intro keeping_up keep_enqueueTx)

lemma keep_createBound: "upholds (keeping False m) (createBoundEvent im inp key name auto)"
proof -
  have "upholds (keeping False m) (exec (setBindings P (ei_auto_update (\<lambda>_. x))))" for P x
    by (rule keep_setBindings) (simp add: bindingKey_def)
  then show ?thesis
    unfolding createBoundEvent_def by (intro keeping_up keep_createEvent keep_enqueueTx)
qed

lemma keep_Cancel: "upholds (keeping c m) (Cancel im e key)"
proof -
  have "upholds (keeping c m) (exec (\<lambda>d. setJobs (\<lambda>j. activeJob j \<and> Q d j) (jb_cancel_update (\<lambda>_. True)) d))" for Q
  proof (rule keep_keys)
    show "schemaOk d'" if "setJobs (\<lambda>j. activeJob j \<and> Q d j) (jb_cancel_update (\<lambda>_. True)) d = Inr (d', r)" "schemaOk d" for d d' r
      by (rule schema_setJobs [OF that]) (simp add: activeJob_def)
  qed (auto simp: setJobs_def)
  then show ?thesis unfolding Cancel_def by (intro keeping_up)
qed

lemma keep_SetAutoImport: "upholds (keeping False m) (SetAutoImport im e key x)"
proof -
  have "upholds (keeping False m) (exec (\<lambda>d. Inr (d\<lparr>event_imports := updWhere (P d) (ei_auto_update (\<lambda>_. x)) (event_imports d)\<rparr>, n d)))"
    for P and n :: "db \<Rightarrow> int"
  proof (rule keep_keys)
    show "schemaOk d'" if "Inr (d\<lparr>event_imports := updWhere (P d) (ei_auto_update (\<lambda>_. x)) (event_imports d)\<rparr>, n d) = Inr (d', r)"
      and "schemaOk d" for d d' r
      using that schema_setBindings [of "P d" "ei_auto_update (\<lambda>_. x)" d d'] by (auto simp: setBindings_def bindingKey_def)
  qed auto
  then show ?thesis unfolding SetAutoImport_def Let_def by (intro keeping_up)
qed

lemma keep_recover: "upholds (keeping c m) recover"
  unfolding recover_def by (intro keeping_up keep_setSelections keep_setJobs) (auto simp: activeJob_def)

lemma keep_claim: "upholds (keeping c m) claim"
  unfolding claim_def by (intro keeping_up keep_setJobs) (auto simp: activeJob_def)

lemma keep_finishJob: "upholds (keeping c m) (finishJob j r)"
  unfolding finishJob_def
  by (intro keeping_up keep_setSelections keep_setJobs) (auto simp: activeJob_def dest: outcome_done)

lemma keep_modify: "(\<And>w. wdb (g w) = wdb w \<and> files (g w) = files w) \<Longrightarrow> upholds (keeping c m) (modify g)"
  by (rule keeping.up_modify) (simp add: keeping_def)

lemma keep_reconcile: "upholds (keeping c m) reconcile"
  unfolding reconcile_def reconcileBinding_def
  by (intro keeping_up keep_unselected keep_insertJob keep_modify) auto

lemma keep_remote: "upholds (keeping c m) (remote q a)"
  by (rule keeping.up_remote) (simp add: keeping_def)

lemma keep_request: "upholds (keeping c m) (immichRequest target verb path body limit)"
  unfolding immichRequest_def by (intro keeping_up keep_remote)

lemma keep_client:
  "upholds (keeping c m) (immichValidate target)" "upholds (keeping c m) (getAlbum target i)"
  "upholds (keeping c m) (findAlbum target marker)" "upholds (keeping c m) (createAlbum target name marker)"
  "upholds (keeping c m) (addToAlbum target i j)" "upholds (keeping c m) (immichUpload target f made sz src)"
proof -
  have "upholds (keeping c m) (case rs of [(i, success, e)] \<Rightarrow> failIf (P i success e) x | _ \<Rightarrow> raise ImmichUnavailable)" for rs P x
    by (auto split: list.splits intro: keeping_up)
  note more = this
  show "upholds (keeping c m) (immichValidate target)"
    unfolding immichValidate_def by (intro keeping_up keep_request up_json)
  show "upholds (keeping c m) (getAlbum target i)"
    unfolding getAlbum_def by (intro keeping_up keep_request up_json)
  show "upholds (keeping c m) (findAlbum target marker)"
    unfolding findAlbum_def by (intro keeping_up keep_request up_json)
  show "upholds (keeping c m) (createAlbum target name marker)"
    unfolding createAlbum_def by (intro keeping_up keep_request up_json)
  show "upholds (keeping c m) (addToAlbum target i j)"
    unfolding addToAlbum_def by (intro keeping_up keep_request up_json more)
  show "upholds (keeping c m) (immichUpload target f made sz src)"
    unfolding immichUpload_def by (intro keeping_up keep_request up_json)
qed

lemma keep_openAsset: "upholds (keeping c m) (openAsset sv sn a)"
  by (rule upholds_mono [OF untouched_openAsset]) (simp add: untouched_def keeping_def)

lemma keep_snapshot: "upholds (keeping c m) (takeSnapshot e)" "upholds (keeping c m) (closeSnapshot sn)"
  unfolding takeSnapshot_def closeSnapshot_def getEvent_def
  by (intro keeping_up keep_modify; simp add: rlock_def runlock_def)+

lemma keep_importAll: "upholds (keeping c m) (importAll im b client albumID sn as failed)"
proof -
  have "upholds (keeping c m) (importAsset im b client albumID sn a)" for a
    unfolding importAsset_def sendAsset_def settleFailed_def
    by (intro keeping_up keep_client keep_openAsset keep_setSelections) auto
  then show ?thesis by (induction as arbitrary: failed) (auto intro!: keeping_up)
qed

lemma keep_albumOf: "upholds (keeping False m) (albumOf client i)"
  unfolding albumOf_def
  by (intro keeping_up keep_client keep_setBindings) (auto simp: bindingKey_def)

lemma keep_runRound: "upholds (keeping False m) (runRound im woken st)"
proof -
  have job: "upholds (keeping False m) (importJob im j)" for j
    unfolding importJob_def by (intro keeping_up keep_client keep_snapshot keep_albumOf keep_importAll)
  have run: "upholds (keeping False m) (executeJob im j)" for j
    unfolding executeJob_def by (intro keeping_up job keep_finishJob)
  have logged: "upholds (keeping False m) (logged p)" if "upholds (keeping False m) p" for p :: "'a wop"
    unfolding logged_def by (intro keeping_up that)
  show ?thesis
    unfolding runRound_def
    by (intro keeping_up logged run keep_recover keep_reconcile keep_claim)
qed

end
