(* ===== verification/SystemSafe.thy ===== *)
theory SystemSafe
  imports Keeping
begin

text \<open>
  The server as a whole: requests, maintenance and import rounds in any order, with faults, crashes and restarts
  anywhere, keep the schema, the files of ready media, the quota ledger, and the albums of the imports.
\<close>

section \<open>The invariant\<close>

definition albumsKnown :: "db \<Rightarrow> bool" where
  "albumsKnown d \<longleftrightarrow> (\<forall>b \<in> set (event_imports d). (ei_state b = AlbumReady) = albumKnown b)"

definition sound :: "world \<Rightarrow> bool" where
  "sound w \<longleftrightarrow> schemaOk (wdb w) \<and> ledgerOk (wdb w) \<and> albumsKnown (wdb w) \<and> stored (wdb w) (files w)"

definition soundly :: "world \<Rightarrow> world \<Rightarrow> bool" where
  "soundly s t \<longleftrightarrow> (sound s \<longrightarrow> sound t)"

interpretation soundly: world_order soundly
  by unfold_locales (auto simp: soundly_def sound_def)

lemma sound_immich: "schemaOk d \<and> albumsKnown d \<longleftrightarrow> schemaOk d \<and> immichOk d"
  by (auto simp: schemaOk_def assetKeys_def importKeys_def immichOk_def bindingsOk_def bindingKeys_def albumsKnown_def)

lemma soundly_keeping: "keeping True True s t \<Longrightarrow> soundly s t"
  by (auto simp: soundly_def sound_def keeping_def ledgered_def albumsKnown_def stored_def)

lemma soundly_still: "wdb t = wdb s \<Longrightarrow> files t = files s \<Longrightarrow> soundly s t"
  by (simp add: soundly_def sound_def)

lemma soundly_imports: "keeping False True s t \<and> careful s t \<Longrightarrow> soundly s t"
proof -
  assume *: "keeping False True s t \<and> careful s t"
  have "sound t" if s: "sound s"
  proof -
    from s have "immichOk (wdb s)" using sound_immich [of "wdb s"] by (simp add: sound_def)
    with * have "immichOk (wdb t)" by (simp add: careful_def advances_def)
    moreover from * s have "schemaOk (wdb t)" by (simp add: keeping_def sound_def)
    ultimately have "albumsKnown (wdb t)" using sound_immich [of "wdb t"] by blast
    with * s show ?thesis by (auto simp: keeping_def ledgered_def sound_def stored_def)
  qed
  then show ?thesis by (simp add: soundly_def)
qed

lemma soundly_media: "keeping True False s t \<and> under stored s t \<and> keepsDB ledgerOk s t \<Longrightarrow> soundly s t"
  by (auto simp: soundly_def sound_def keeping_def under_def keepsDB_def albumsKnown_def)

lemma up_keeping: "upholds (keeping True True) m \<Longrightarrow> upholds soundly m"
  by (erule upholds_mono) (rule soundly_keeping)

lemma up_imports: "upholds (keeping False True) m \<Longrightarrow> upholds careful m \<Longrightarrow> upholds soundly m"
  by (rule upholds_mono [OF upholds_conj soundly_imports])

lemma up_media: "upholds (keeping True False) m \<Longrightarrow> upholds (under stored) m \<Longrightarrow> upholds (keepsDB ledgerOk) m \<Longrightarrow> upholds soundly m"
  by (rule upholds_mono [OF upholds_conj [OF _ upholds_conj] soundly_media])

section \<open>Signing in, events and sessions\<close>

lemma keep_randomToken: "upholds (keeping c m) randomToken" and keep_unixNow: "upholds (keeping c m) unixNow"
  unfolding randomToken_def unixNow_def by (intro keeping_up)+

lemma keep_createSession: "upholds (keeping c m) (createSession hash previous x)"
  unfolding createSession_def Let_def by (intro keeping_up keep_randomToken keep_dropSessions keep_insertAdmin)

lemma keep_Login: "upholds (keeping c m) (Login b hash password previous)"
  unfolding Login_def by (intro keeping_up keep_createSession)

lemma keep_Logout: "upholds (keeping c m) (Logout token)"
  unfolding Logout_def by (rule keep_dropSessions)

lemma keep_Lookup: "upholds (keeping c m) (Lookup token)"
  unfolding Lookup_def by (intro keeping_up keep_unixNow)

lemma keep_discover: "upholds (keeping c m) (discover op)"
  unfolding discover_def by (intro keeping_up keep_remote keep_modify) simp

lemma keep_CompleteOIDC: "upholds (keeping c m) (CompleteOIDC op cfg state browser code e)"
  unfolding CompleteOIDC_def redeem_def
  by (intro keeping_up keep_unixNow keep_takeFlow keep_discover keep_remote)

lemma keep_updateEvent: "upholds (keeping c m) (updateEvent i inp)"
proof (cases "validate inp")
  case (Inr e)
  have "bindE (liftE (Inr e)) f = f e" for f :: "event_row \<Rightarrow> event_row wop"
    by (simp add: bindE_def liftE_def fun_eq_iff)
  then show ?thesis
    unfolding updateEvent_def by (simp add: Inr) (intro keeping_up keep_updateRow [OF Inr])
next
  case (Inl e)
  then show ?thesis by (simp add: updateEvent_def upholds_def liftE_def bindE_def raise_def keeping.refl)
qed

lemma keep_CreateAttributedSession: "upholds (keeping c m) (CreateAttributedSession sv public x name)"
  unfolding CreateAttributedSession_def Let_def by (intro keeping_up keep_insertSession)

section \<open>Media\<close>

lemma keep_media:
  assumes "\<And>d d' r. f d = Inr (d', r) \<Longrightarrow> schemaOk d \<Longrightarrow> schemaOk d'"
    and "\<And>d d' r. f d = Inr (d', r) \<Longrightarrow> event_imports d' = event_imports d"
  shows "upholds (keeping c False) (exec f)"
  by (rule keeping_exec) (use assms in auto)

lemma keep_insertAsset: "as_status a = Pending \<Longrightarrow> as_size a = 0 \<Longrightarrow> upholds (keeping c False) (exec (insertAsset a))"
  by (rule keep_media) (auto intro: schema_insertAsset simp: insertAsset_def split: if_splits)

lemma keep_completed:
  "upholds (keeping c False) (exec (markReady P (completed kind sz t)))"
  "upholds (keeping c False) (exec (markReady P (completedDirect kind cls sz t)))"
  by (rule keep_media, erule (1) schema_markReady, simp add: completed_def completedDirect_def requestKey_def,
      auto simp: markReady_def split: if_splits)+

lemma keep_touchSession: "upholds (keeping c False) (exec (touchSession s t))"
  by (rule keep_media [OF schema_touchSession]) (auto simp: touchSession_def)

lemma keep_setAuthorized: "upholds (keeping c False) (exec (setAuthorized i t))"
  by (rule keep_media [OF schema_setAuthorized]) (auto simp: setAuthorized_def)

lemma keep_unready: "upholds (keeping c False) (exec (unready i))"
  by (rule keep_media [OF schema_unready]) (auto simp: unready_def)

lemma keep_deleteAssets: "upholds (keeping c False) (exec (\<lambda>d. Inr (deleteAssets (P d) d, ())))"
  by (rule keep_media) (auto intro: schema_deleteAssets)

lemma event_imports_deleteSessions: "event_imports (deleteSessions P d) = event_imports d"
  by (simp add: deleteSessions_def)

lemma event_imports_deleteEvents: "set (event_imports (deleteEvents P d)) \<subseteq> set (event_imports d)"
  by (auto simp: deleteEvents_def Let_def)

lemma keep_dropExpired: "upholds (keeping c False) (exec (dropExpired t))"
  by (rule keep_media) (auto intro: schema_deleteSessions simp: dropExpired_def event_imports_deleteSessions)

lemma keep_removeEvent: "upholds (keeping True False) (removeEvent i)"
proof -
  have "upholds (keeping True False) (exec (\<lambda>d. Inr (deleteEvents P d, n d)))" for P and n :: "db \<Rightarrow> int"
    by (rule keeping_exec) (auto intro: schema_deleteEvents dest: subsetD [OF event_imports_deleteEvents])
  then show ?thesis unfolding removeEvent_def by (intro keeping_up)
qed

context object_store
begin

lemma keep_store: "upholds (keeping c False) (st_put st key src limit)" "upholds (keeping c False) (st_delete st key)"
  by (auto intro!: upholdsI sameRest_keeping dest: put_rest delete_rest)

lemma keep_removeAttempt:
  assumes "sv_store sv = st"
  shows "upholds (keeping c False) (removeAttempt sv n i key)"
  unfolding removeAttempt_def removeObject_def assms
  by (intro keeping_up keeping_requests keep_store keep_retireKey keep_deleteAssets)

lemma keep_Upload:
  assumes "sv_store sv = st"
  shows "upholds (keeping c False) (Upload sv p s f declared source claimed limit)"
proof -
  have "upholds (keeping c False) (transfer sv n p s f i source prefix kind claimed e l)" for n i prefix kind e l
    unfolding transfer_def finish_def Let_def assms by (intro keeping_up keep_store keep_completed keep_touchSession)
  moreover have "upholds (keeping c False) (admit n p s f i t cls k claimed l)" for n i t cls k l
    unfolding admit_def Let_def by (intro keeping_up keep_insertAsset) (simp_all add: pendingLocal_def)
  ultimately show ?thesis
    unfolding Upload_def uploadLocked_def Let_def by (intro keeping_up keep_removeAttempt [OF assms])
qed

lemma keep_runCleanup:
  assumes "sv_store sv = st"
  shows "upholds (keeping c False) (runCleanup sv)"
proof -
  have ctx: "upholds (keeping c False) ctxErr" by (rule upholds_mono [OF ctxErr_quiet quiet_keeping])
  have "upholds (keeping c False) (cleanAttempt sv t p)" for t p
    unfolding cleanAttempt_def by (intro keeping_up keep_modify keep_removeAttempt [OF assms] ctx) simp
  moreover have "upholds (keeping c False) (cleanRetired sv r)" for r
    unfolding cleanRetired_def by (intro keeping_up keep_modify keeping_requests keep_markChecked ctx) simp
  ultimately show ?thesis
    unfolding runCleanup_def cleanupRetired_def Let_def by (intro keeping_up keep_modify keep_dropExpired) auto
qed

end

text \<open>Direct uploads.\<close>

lemma keep_loadDirect: "upholds (keeping c m) (loadDirect p s i)"
  by (rule upholds_mono [OF quiet_loadDirect quiet_keeping])

lemma keep_Authorize: "upholds (keeping c False) (Authorize sv p s i)"
  unfolding Authorize_def directLock_def Let_def
  by (intro keeping_up keeping_requests keep_loadDirect keep_setAuthorized)

lemma keep_Prepare: "upholds (keeping c False) (Prepare sv p s r limit)"
proof -
  have "upholds (keeping c False) (prepareTx b n e p s r limit)" for b n e r
    unfolding prepareTx_def prepareNew_def by (intro keeping_up keep_insertAsset) (simp_all add: pendingDirect_def)
  then show ?thesis unfolding Prepare_def by (intro keeping_up keep_Authorize)
qed

lemma keep_Complete: "upholds (keeping c False) (Complete sv p s i)"
proof -
  have "upholds (keeping c False) (completeTx sv p s row kind cls sz)" for row kind cls sz
    unfolding completeTx_def by (intro keeping_up keep_completed keep_touchSession)
  moreover have "upholds (keeping c False) (rejectIf b key bad cause)" for b key bad cause
    unfolding rejectIf_def rejectObject_def by (intro keeping_up keeping_requests)
  ultimately show ?thesis
    unfolding Complete_def directLock_def verifyObject_def rejectObject_def Let_def
    by (intro keeping_up keeping_requests keep_loadDirect)
qed

section \<open>Deleting an event\<close>

text \<open>
  A row that is made pending again is charged with its expected size, which may be more than it had. That is
  harmless because no session of an event under deletion is live.
\<close>

definition closing :: "int \<Rightarrow> db \<Rightarrow> bool" where
  "closing i d \<longleftrightarrow> (\<forall>e \<in> set (events d). ev_id e = i \<longrightarrow> ev_deleting e)"

definition winding :: "int \<Rightarrow> db \<Rightarrow> bool" where
  "winding i d \<longleftrightarrow> schemaOk d \<and> ledgerOk d \<and> closing i d"

lemma markDeleting_winding:
  assumes "markDeleting i p t d = Inr (d', 1)" and "ledgered d"
  shows "winding i d'"
proof -
  let ?P = "\<lambda>e. ev_id e = i \<and> ev_public e = p"
  from assms(1) have d': "events d' = updWhere ?P (\<lambda>e. e\<lparr>ev_deleting := True, ev_enabled := False, ev_updated := t\<rparr>) (events d)"
    and n: "countWhere ?P (events d) = 1" by (auto simp: markDeleting_def Let_def)
  from n have "filter ?P (events d) \<noteq> []" by (auto simp: countWhere_def)
  then obtain e where e: "e \<in> set (events d)" "?P e" by (auto simp: filter_empty_conv)
  have only: "q = e" if "q \<in> set (events d)" "ev_id q = i" for q
    using that e assms(2) by (auto simp: ledgered_def schemaOk_def eventsOk_def dest: distinct_map_eq)
  have "closing i d'"
    unfolding closing_def d'
  proof (intro ballI impI)
    fix q assume "q \<in> set (updWhere ?P (\<lambda>e. e\<lparr>ev_deleting := True, ev_enabled := False, ev_updated := t\<rparr>) (events d))" and i: "ev_id q = i"
    then obtain r where r: "r \<in> set (events d)"
      "q = (if ?P r then r\<lparr>ev_deleting := True, ev_enabled := False, ev_updated := t\<rparr> else r)" by (auto simp: set_updWhere)
    with i have "r = e" by (intro only) (auto split: if_splits)
    with r e show "ev_deleting q" by simp
  qed
  with ledgered_markDeleting [OF assms] show ?thesis by (simp add: winding_def ledgered_def)
qed

lemma sessionWithin_same:
  "filter (ofSession (us_id u)) (assets d') = filter (ofSession (us_id u)) (assets d) \<Longrightarrow> sessionWithin d u \<Longrightarrow> sessionWithin d' u"
  by (simp add: sessionWithin_def underLimits_def countWhere_def sumWhere_def)

lemma filter_updWhere: "(\<And>x. Q (g x) = Q x) \<Longrightarrow> (\<And>x. x \<in> set xs \<Longrightarrow> P x \<Longrightarrow> \<not> Q x) \<Longrightarrow> filter Q (updWhere P g xs) = filter Q xs"
  by (induction xs) (auto simp: updWhere_def)

lemma unready_winding:
  assumes ok: "winding i d" and a: "a \<in> set (assets d)" "as_event a = i" and run: "unready (as_id a) d = Inr (d', r)"
  shows "winding i d'"
proof -
  let ?P = "\<lambda>b. as_id b = as_id a" and ?g = "\<lambda>a. a\<lparr>as_status := Pending, as_completed := None\<rparr>"
  from run have d': "d' = d\<lparr>assets := updWhere ?P ?g (assets d)\<rparr>" by (simp add: unready_def)
  have one: "b = a" if "b \<in> set (assets d)" "as_id b = as_id a" for b
    using that a ok by (auto simp: winding_def schemaOk_def assetKeys_def dest: distinct_map_eq)
  have within: "sessionWithin d' u" if u: "u \<in> set (sessions d)" "liveSession d u" for u
  proof (rule sessionWithin_same)
    show "sessionWithin d u" using u ok by (auto simp: winding_def ledgerOk_def)
    have "us_event u \<noteq> i" using u ok by (auto simp: winding_def closing_def liveSession_def list_ex_iff)
    moreover obtain v where "v \<in> set (sessions d)" "us_id v = as_session a" "us_event v = i"
      using ok a by (force simp: winding_def schemaOk_def assetKeys_def)
    ultimately have "as_session a \<noteq> us_id u"
      using u ok by (auto simp: winding_def schemaOk_def sessionKeys_def dest: distinct_map_eq)
    then show "filter (ofSession (us_id u)) (assets d') = filter (ofSession (us_id u)) (assets d)"
      unfolding d' by (simp, intro filter_updWhere) (auto simp: ofSession_def dest: one)
  qed
  have "\<forall>a \<in> set (updWhere ?P ?g (assets d)). 0 \<le> as_expected a \<and> 0 \<le> as_size a"
    using ok by (intro updWhere_ball) (auto simp: winding_def ledgerOk_def)
  with within ok have "ledgerOk d'" by (auto simp: d' winding_def ledgerOk_def map_updWhere liveSession_def)
  moreover have "schemaOk d'" using schema_unready [OF run] ok by (simp add: winding_def)
  ultimately show ?thesis using ok by (simp add: winding_def closing_def d')
qed

lemma deleteEvents_ledger: "ledgerOk d \<Longrightarrow> ledgerOk (deleteEvents P d)"
proof -
  let ?Q = "\<lambda>a. list_ex (\<lambda>e. P e \<and> ev_id e = as_event a) (events d)"
  assume "ledgerOk d"
  then have "ledgerOk (deleteAssets ?Q d)" by (rule deleteAssets_ledger)
  moreover have "liveSession d u" if "liveSession (deleteEvents P d) u" for u
    using that by (auto simp: liveSession_def deleteEvents_def Let_def list_ex_iff)
  ultimately show ?thesis
    by (auto simp: ledgerOk_def deleteEvents_def Let_def sessionWithin_def underLimits_def liveSession_def distinct_map_filter')
qed

lemma keepsDB_and: "upholds (keepsDB A) m \<Longrightarrow> upholds (keepsDB B) m \<Longrightarrow> upholds (keepsDB (\<lambda>d. A d \<and> B d)) m"
  by (simp add: upholds_def keepsDB_def)

context object_store
begin

lemma removeAttempt_winding:
  assumes "sv_store sv = st"
  shows "upholds (keepsDB (winding i)) (removeAttempt sv n j key)"
proof -
  have "upholds (keepsDB schemaOk) (removeAttempt sv n j key)"
    by (rule upholds_mono [OF keep_removeAttempt [OF assms, where c = False]]) (simp add: keeping_def keepsDB_def)
  moreover have "upholds (keepsDB (closing i)) (removeAttempt sv n j key)"
  proof -
    have "upholds (keepsDB (closing i)) (exec (retireKey r))" for r
      by (rule keeps.up_exec) (auto simp: keepsDB_def retireKey_def closing_def split: if_splits)
    moreover have "upholds (keepsDB (closing i)) (exec (\<lambda>d. Inr (deleteAssets P d, ())))" for P
      by (rule keeps.up_exec) (auto simp: keepsDB_def closing_def)
    ultimately show ?thesis
      unfolding removeAttempt_def removeObject_def assms
      by (intro keeps.up_rules keeps.up_world delete_keepsDB upholds_mono [OF onlyTrace_requests(4) onlyTrace_keepsDB])
  qed
  ultimately show ?thesis
    unfolding winding_def by (intro keepsDB_and removeAttempt_ledger [OF assms])
qed

lemma DeleteEvent_ledgered:
  assumes "sv_store sv = st"
  shows "upholds (keepsDB ledgered) (DeleteEvent sv i)"
proof -
  let ?K = "keepsDB ledgered"
  have unready: "wpE (exec (unready (as_id a))) (\<lambda>_. keepsDB (winding i) u) (keepsDB (winding i) u) u"
    if "a \<in> set (assets (wdb u))" "as_event a = i" for a u
    by (rule wpE_exec) (use that in \<open>auto simp: keepsDB_def dest: unready_winding\<close>)
  have fin: "wpE (removeEvent i) (\<lambda>_. ?K w) (?K w) u" if "?K w u" for w u
    unfolding removeEvent_def
    by (intro wpE_bindE wpE_exec wpE_failIf)
      (use that in \<open>auto simp: keepsDB_def ledgered_def intro: deleteEvents_ledger schema_deleteEvents\<close>)
  have loop: "wpE (bindE (deleteLoop k sv i) (\<lambda>_. removeEvent i)) (\<lambda>_. ?K w) (?K w) u"
    if "?K w u" "ledgered (wdb w) \<Longrightarrow> winding i (wdb u)" for k w u
    by (rule wpE_bindE, rule wpE_mono, rule keeps.deleteLoop_order [OF removeAttempt_winding [OF assms] unready])
      (use that in \<open>auto intro!: fin simp: keepsDB_def winding_def ledgered_def\<close>)
  have "wpE (DeleteEvent sv i) (\<lambda>_. ?K w) (?K w) w" for w
    unfolding DeleteEvent_def
    apply (rule wpE_bindE, rule wpE_mono, rule wpE_upholds [OF quiet_reads(2)])
     apply (rule wpE_bindE, rule wpE_tryLock, rule wpE_bindE, rule wpE_failIf, erule quiet_keepsDB)
     apply (rule wpE_bindE, rule wpE_timestamp)
     apply (rule wpE_bindE, rule wpE_exec)
       apply (auto simp: keepsDB_def quiet_def dest: ledgered_markDeleting) [2]
     apply (rule wpE_bindE, rule wpE_failIf)
      apply (auto simp: keepsDB_def quiet_def dest: ledgered_markDeleting) [1]
     apply (rule wpE_bindE, rule wpE_gets, rule loop)
      apply (auto simp: keepsDB_def quiet_def dest: ledgered_markDeleting intro: markDeleting_winding) [2]
    apply (erule quiet_keepsDB)
    done
  then show ?thesis unfolding upholds_def by (blast intro: wpE_state)
qed

lemma keep_DeleteEvent:
  assumes "sv_store sv = st"
  shows "upholds (keeping True False) (DeleteEvent sv i)"
proof -
  have "upholds (keeping True False) (deleteLoop k sv i)" for k
    by (induction k) (auto intro!: keeping_up keep_unready keep_removeAttempt [OF assms])
  then show ?thesis
    unfolding DeleteEvent_def getEvent_def by (intro keeping_up keep_markDeleting keep_removeEvent)
qed

lemma soundly_DeleteEvent:
  assumes "sv_store sv = st"
  shows "upholds soundly (DeleteEvent sv i)"
proof -
  have "wpE (DeleteEvent sv i) (\<lambda>_. sparing i w) (sparing i w) w" for w
    by (rule wpE_mono [OF DeleteEvent_sparing [OF assms]]) auto
  then have "upholds (sparing i) (DeleteEvent sv i)" unfolding upholds_def by (blast intro: wpE_state)
  from upholds_conj [OF this upholds_conj [OF keep_DeleteEvent [OF assms] DeleteEvent_ledgered [OF assms]]]
  show ?thesis
    by (rule upholds_mono)
      (auto simp: soundly_def sound_def sparing_def keeping_def keepsDB_def ledgered_def albumsKnown_def)
qed

end

section \<open>Requests\<close>

definition sameFiles :: "world \<Rightarrow> world \<Rightarrow> bool" where
  "sameFiles s t \<longleftrightarrow> files t = files s"

interpretation same_files: tx_order sameFiles
  by unfold_locales (auto simp: sameFiles_def)

lemma Begin_sameFiles: "upholds sameFiles (Begin op previous)"
  unfolding Begin_def discover_def beginTx_def unixNow_def randomToken_def
  by (intro same_files.up_rules same_files.up_world same_files.up_inTx same_files.up_exec same_files.up_remote same_files.up_modify)
    (simp_all add: sameFiles_def)

lemma soundly_Begin: "upholds soundly (Begin op previous)"
proof (rule upholds_mono [OF upholds_conj [OF Begin_sameFiles upholds_conj [OF Begin_bounded Begin_flows]]])
  fix s t
  assume *: "sameFiles s t \<and> keepsDB flowsOk s t \<and> flowsOnly s t"
  have "sound t" if s: "sound s"
  proof -
    have eq: "(wdb t)\<lparr>oidc_flows := []\<rparr> = (wdb s)\<lparr>oidc_flows := []\<rparr>" using * by (simp add: flowsOnly_def)
    have same: "assets (wdb t) = assets (wdb s)" "sessions (wdb t) = sessions (wdb s)" "events (wdb t) = events (wdb s)"
      "event_imports (wdb t) = event_imports (wdb s)"
      using arg_cong [OF eq, of assets] arg_cong [OF eq, of sessions] arg_cong [OF eq, of events] arg_cong [OF eq, of event_imports]
      by simp_all
    have "schemaOk (wdb t)"
      using schema_flows [OF eq] * s by (auto simp: sound_def keepsDB_def schemaOk_def signKeys_def)
    with * s same show ?thesis
      using ledger_assets [of "wdb s" "wdb t"] by (simp add: sound_def sameFiles_def albumsKnown_def stored_def)
  qed
  then show "soundly s t" by (simp add: soundly_def)
qed

lemmas soundly_signing =
  up_keeping [OF keep_Login] up_keeping [OF keep_Logout] up_keeping [OF keep_createSession] up_keeping [OF keep_Lookup]
  up_keeping [OF keep_CompleteOIDC] soundly_Begin

lemmas soundly_events =
  up_keeping [OF keep_createEvent] up_keeping [OF keep_updateEvent] up_keeping [OF keep_CreateAttributedSession]

lemmas soundly_imports_ops =
  up_imports [OF keep_enqueue careful_operations(1)] up_imports [OF keep_createBound careful_operations(2)]
  up_imports [OF keep_Cancel careful_operations(3)] up_imports [OF keep_SetAutoImport careful_operations(4)]
  up_imports [OF keep_runRound careful_operations(5)]

lemmas soundly_direct =
  up_media [OF keep_Prepare Prepare_under Prepare_ledger] up_media [OF keep_Authorize Authorize_under Authorize_ledger]
  up_media [OF keep_Complete Complete_under Complete_ledger]

lemma soundly_reads:
  "upholds soundly listEvents" "upholds soundly (getEvent i)" "upholds soundly (getPublic p)" "upholds soundly Stats"
  "upholds soundly (Contributors i)" "upholds soundly (Status im i key)" "upholds soundly (testTarget im key)"
proof -
  have "upholds (keeping True True) listEvents" "upholds (keeping True True) (getEvent i)" "upholds (keeping True True) (getPublic p)"
    "upholds (keeping True True) Stats" "upholds (keeping True True) (Contributors i)" "upholds (keeping True True) (Status im i key)"
    "upholds (keeping True True) (testTarget im key)"
    unfolding listEvents_def getEvent_def getPublic_def Stats_def Contributors_def Status_def optionalRow_def testTarget_def Let_def
    by (intro keeping_up keep_client)+
  from this [THEN up_keeping] show "upholds soundly listEvents" "upholds soundly (getEvent i)" "upholds soundly (getPublic p)"
    "upholds soundly Stats" "upholds soundly (Contributors i)" "upholds soundly (Status im i key)" "upholds soundly (testTarget im key)" .
qed

lemma soundly_modify: "(\<And>w. wdb (g w) = wdb w \<and> files (g w) = files w) \<Longrightarrow> upholds soundly (modify g)"
  by (rule soundly.up_modify) (simp add: soundly_still)

lemma soundly_remote: "upholds soundly (remote q a)"
  by (rule soundly.up_remote) (simp add: soundly_still)

lemma soundly_challenge: "upholds soundly (VerifyChallenge service token)"
  unfolding VerifyChallenge_def by (intro soundly.up_rules soundly_remote)

lemma soundly_respond: "upholds soundly m \<Longrightarrow> (\<And>x. upholds soundly (next x)) \<Longrightarrow> upholds soundly (respond onErr m next)"
  unfolding respond_def by (intro soundly.up_rules)

lemma soundly_body: "(\<And>x. upholds soundly (next x)) \<Longrightarrow> upholds soundly (withBody rq sel next)"
  unfolding withBody_def by (intro soundly.up_rules)

lemma soundly_empty: "upholds soundly next \<Longrightarrow> upholds soundly (emptyControl rq next)"
  unfolding emptyControl_def by (intro soundly.up_rules soundly_body)

lemma soundly_limited: "upholds soundly next \<Longrightarrow> upholds soundly (limited a ks next)"
proof (induction ks)
  case (Cons k ks)
  have "upholds soundly (Allow n key rate)" for n key rate
    unfolding Allow_def by (intro soundly.up_rules soundly.up_world soundly_modify) simp
  with Cons show ?case by (cases k) (auto intro!: soundly.up_rules)
qed simp

lemma soundly_guarded: "upholds soundly next \<Longrightarrow> upholds soundly (guarded a scope public s rq next)"
  unfolding guarded_def by (intro soundly.up_rules soundly_limited)

lemma soundly_protected: "(\<And>s. upholds soundly (next s)) \<Longrightarrow> upholds soundly (protected a rq next)"
  unfolding protected_def by (intro soundly.up_rules soundly_respond soundly_signing)

lemmas soundly_http = soundly.up_rules soundly.up_world soundly_respond soundly_body soundly_empty

lemma soundly_open_handlers:
  "upholds soundly (login a rq)" "upholds soundly (authMethods a)" "upholds soundly (oidcRoute a rq (\<lambda>op cfg. oidcLogin rq op))"
  "upholds soundly (oidcRoute a rq (oidcCallback a rq))" "upholds soundly (publicEvent a e)" "upholds soundly (createUploadSession a e rq)"
proof -
  show "upholds soundly (login a rq)" unfolding login_def by (intro soundly_http soundly_signing)
  show "upholds soundly (authMethods a)" unfolding authMethods_def by (intro soundly_http)
  show "upholds soundly (oidcRoute a rq (\<lambda>op cfg. oidcLogin rq op))"
    unfolding oidcRoute_def oidcLogin_def by (intro soundly_http soundly_limited soundly_signing)
  show "upholds soundly (oidcRoute a rq (oidcCallback a rq))"
    unfolding oidcRoute_def oidcCallback_def CreateSession_def by (intro soundly_http soundly_limited soundly_signing)
  show "upholds soundly (publicEvent a e)" unfolding publicEvent_def by (intro soundly_http soundly_reads)
  show "upholds soundly (createUploadSession a e rq)"
    unfolding createUploadSession_def challenged_def storeSession_def
    by (intro soundly_http soundly_reads soundly_events soundly_challenge)
qed

lemma soundly_views: "upholds soundly (eventViews a m es)"
  by (induction es) (auto intro!: soundly_http)

lemma soundly_admin_handlers:
  "upholds soundly (logout rq)" "upholds soundly (listAllEvents a)" "upholds soundly (createOneEvent a rq)"
  "upholds soundly (getOneEvent a i)" "upholds soundly (updateOneEvent a i rq)" "upholds soundly (immichStatus a i rq)"
  "upholds soundly (immichTargets a)" "upholds soundly (immichProvision a i rq)" "upholds soundly (immichAutoImport a i rq)"
  "upholds soundly (immichTest a i rq)" "upholds soundly (immichStart a i rq)" "upholds soundly (immichCancel a i rq)"
  unfolding logout_def listAllEvents_def createOneEvent_def getOneEvent_def updateOneEvent_def writeAdminEvent_def immichStatus_def
    immichTargets_def immichProvision_def immichAutoImport_def immichTest_def immichStart_def immichCancel_def Enqueue_def Provision_def
  by (intro soundly_http soundly_signing soundly_reads soundly_events soundly_imports_ops soundly_views)+

context object_store
begin

lemma soundly_dispatch:
  assumes st: "sv_store (ap_media a) = st" and bs: "backendsOk (sv_backends (ap_media a))"
  shows "upholds soundly (dispatch a rq)"
proof -
  have up: "upholds soundly (uploadAsset a e s rq)" for e s
    unfolding uploadAsset_def by (intro soundly_http up_media keep_Upload Upload_under Upload_ledger st)
  have direct: "upholds soundly (prepareAsset a e s rq)" "upholds soundly (authorizeAsset a e s i rq)"
    "upholds soundly (completeAsset a e s i rq)" for e s i
    unfolding prepareAsset_def authorizeAsset_def completeAsset_def
    by (intro soundly_http soundly_direct bs)+
  have delete: "upholds soundly (deleteOneEvent a i rq)" for i
    unfolding deleteOneEvent_def by (intro soundly_http soundly_DeleteEvent st)
  have admin: "upholds soundly (adminHandler a rq s r)" for s r
    by (cases "(a, rq, s, r)" rule: adminHandler.cases) (auto intro!: soundly_http soundly_admin_handlers delete)
  have "upholds soundly h" if "openHandler a rq r = Some h" for r h
    using that by (cases "(a, rq, r)" rule: openHandler.cases) (auto intro!: soundly_guarded soundly_open_handlers up direct)
  then show ?thesis
    unfolding dispatch_def Let_def by (auto split: option.split intro!: soundly_http soundly_protected admin)
qed

lemma soundly_runCleanup: "sv_store sv = st \<Longrightarrow> upholds soundly (runCleanup sv)"
  by (intro up_media keep_runCleanup runCleanup_under runCleanup_ledger)

end

end
