(* ===== verification/Migrate.thy ===== *)
theory Migrate
  imports Checks Sha256 "HOL-Library.Multiset"
begin

text \<open>
  \<open>internal/database/migrate.go\<close>: contiguous SQL files are applied in order, each once, in one transaction, and
  recorded with a checksum. SQLite's execution of a script is a parameter; the rest of the database is an
  arbitrary type. A database has no history before the first script has created its table.
\<close>

section \<open>The database\<close>

record 'd database =
  dt_history :: "(int \<times> string \<times> string) list option"
  dt_content :: 'd

type_synonym 'd engine = "string \<Rightarrow> 'd database \<Rightarrow> 'd database option"

text \<open>\<open>INSERT INTO schema_migrations\<close>: the table must exist; version and name are unique.\<close>

definition recordMigration :: "int \<Rightarrow> string \<Rightarrow> string \<Rightarrow> 'd database \<Rightarrow> err + 'd database" where
  "recordMigration v name hash d =
     (case dt_history d of
        None \<Rightarrow> Inl (Failure ''record migration'')
      | Some rows \<Rightarrow>
          if list_ex (\<lambda>(v', n', _). v' = v \<or> n' = name) rows then Inl (Failure ''record migration'')
          else Inr (d\<lparr>dt_history := Some (rows @ [(v, name, hash)])\<rparr>))"

section \<open>Files\<close>

text \<open>\<open>bytes.ReplaceAll\<close> of line ends, and the checksum.\<close>

fun unixLines :: "string \<Rightarrow> string" where
  "unixLines (c # d # s) = (if c = CHR 0x0D \<and> d = CHR 0x0A then d # unixLines s else c # unixLines (d # s))"
| "unixLines s = s"

definition checksumOf :: "string \<Rightarrow> string" where
  "checksumOf script = hexEncode (sha256 script)"

text \<open>\<open>fmt.Sprintf("%03d_", n)\<close>.\<close>

definition numberPrefix :: "nat \<Rightarrow> string" where
  "numberPrefix n = (let s = decI (int n) in replicate (3 - length s) CHR ''0'' @ s @ ''_'')"

definition hasSqlSuffix :: "string \<Rightarrow> bool" where
  "hasSqlSuffix name \<longleftrightarrow> 4 \<le> length name \<and> drop (length name - 4) name = ''.sql''"

text \<open>\<open>fs.Glob(files, "*.sql")\<close>: in lexical order. The files of one directory have different names.\<close>

definition sqlFiles :: "(string \<times> string) list \<Rightarrow> (string \<times> string) list" where
  "sqlFiles fs = sort_key fst (filter (\<lambda>f. hasSqlSuffix (fst f)) fs)"

definition contiguous :: "string list \<Rightarrow> bool" where
  "contiguous names \<longleftrightarrow> list_all (\<lambda>i. hasPrefix (names ! i) (numberPrefix (Suc i))) [0..<length names]"

section \<open>migrate\<close>

text \<open>The rows of the history, in the order of their versions, must be those of the first files.\<close>

fun readApplied :: "string list \<Rightarrow> (int \<times> string \<times> string) list \<Rightarrow> (string \<times> string) list \<Rightarrow> err + (string \<times> string) list" where
  "readApplied names [] applied = Inr applied"
| "readApplied names ((v, n, c) # rows) applied =
     (if v \<noteq> int (length applied) + 1 \<or> int (length names) < v \<or> n \<noteq> names ! length applied
      then Inl (Failure ''migration history does not match this binary'')
      else readApplied names rows (applied @ [(n, c)]))"

definition migrateOne :: "'d engine \<Rightarrow> (string \<times> string) list \<Rightarrow> nat \<times> string \<times> string \<Rightarrow> 'd database \<Rightarrow> err + 'd database" where
  "migrateOne run applied f d =
     (case f of (i, name, content) \<Rightarrow>
        let script = unixLines content; hash = checksumOf script in
        if i < length applied then thenR (refuse (snd (applied ! i) \<noteq> hash) ''migration changed after application'') (\<lambda>_. Inr d)
        else (case run script d of
                None \<Rightarrow> Inl (Failure ''apply migration'')
              | Some d' \<Rightarrow> recordMigration (int i + 1) name hash d'))"

definition migrateTx :: "'d engine \<Rightarrow> (string \<times> string) list \<Rightarrow> 'd database \<Rightarrow> err + 'd database" where
  "migrateTx run fs d =
     thenR (readApplied (map fst fs) (sort_key fst (case dt_history d of None \<Rightarrow> [] | Some rows \<Rightarrow> rows)) []) (\<lambda>applied.
     eachR (migrateOne run applied) (enumerate 0 fs) d)"

text \<open>The whole function: the files are checked first; an error, also of the commit, leaves the database as it was.\<close>

definition migrate :: "'d engine \<Rightarrow> bool \<Rightarrow> (string \<times> string) list \<Rightarrow> ('d database, err, unit) op" where
  "migrate run commits fs0 d =
     (let fs = sqlFiles fs0 in
      if fs = [] then (Inl (Failure ''no readable SQL migrations''), d)
      else if \<not> contiguous (map fst fs) then (Inl (Failure ''contiguous numbering''), d)
      else (case migrateTx run fs d of
              Inl e \<Rightarrow> (Inl e, d)
            | Inr d' \<Rightarrow> if commits then (Inr (), d') else (Inl EIo, d)))"

section \<open>What it guarantees\<close>

definition historyFrom :: "nat \<Rightarrow> (string \<times> string) list \<Rightarrow> (int \<times> string \<times> string) list" where
  "historyFrom k fs = map (\<lambda>(i, name, content). (int i + 1, name, checksumOf (unixLines content))) (enumerate k fs)"

definition rowsOf :: "'d database \<Rightarrow> (int \<times> string \<times> string) list" where
  "rowsOf d = (case dt_history d of None \<Rightarrow> [] | Some rows \<Rightarrow> rows)"

text \<open>The scripts leave the recorded rows alone; one of them creates the table.\<close>

definition recordsKept :: "'d engine \<Rightarrow> bool" where
  "recordsKept run \<longleftrightarrow>
     (\<forall>s d d'. run s d = Some d' \<longrightarrow>
        dt_history d' = dt_history d \<or> (dt_history d = None \<and> dt_history d' = Some []))"

lemma historyFrom_simps [simp]:
  "historyFrom k [] = []"
  "historyFrom k ((name, content) # fs) = (int k + 1, name, checksumOf (unixLines content)) # historyFrom (Suc k) fs"
  "historyFrom k (fs @ gs) = historyFrom k fs @ historyFrom (k + length fs) gs"
  "length (historyFrom k fs) = length fs"
  by (simp_all add: historyFrom_def enumerate_append_eq)

text \<open>The versions after \<open>k\<close>.\<close>

fun versions :: "nat \<Rightarrow> nat \<Rightarrow> int list" where
  "versions k 0 = []"
| "versions k (Suc n) = (int k + 1) # versions (Suc k) n"

lemma versions_after: "v \<in> set (versions k n) \<Longrightarrow> int k < v"
  by (induction n arbitrary: k) (auto, fastforce)

lemma versions_sorted: "sorted (versions k n) \<and> distinct (versions k n)"
  by (induction n arbitrary: k) (auto dest: versions_after)

lemma historyFrom_keys: "map fst (historyFrom k fs) = versions k (length fs)"
  by (induction fs arbitrary: k) auto

lemma run_rows: "recordsKept run \<Longrightarrow> run s d = Some d' \<Longrightarrow> rowsOf d' = rowsOf d"
  by (fastforce simp: recordsKept_def rowsOf_def)

lemma recordMigration_rows: "recordMigration v n c d = Inr d' \<Longrightarrow> rowsOf d' = rowsOf d @ [(v, n, c)]"
  by (auto simp: recordMigration_def rowsOf_def split: option.splits if_splits)

text \<open>What reading the history means: its rows are those of the first files, as far as their names go.\<close>

lemma readApplied_ok:
  assumes "readApplied names rows applied = Inr ap"
  shows "ap = applied @ map snd rows \<and> (rows = [] \<or> length applied + length rows \<le> length names) \<and>
    map fst rows = versions (length applied) (length rows) \<and>
    map (fst \<circ> snd) rows = take (length rows) (drop (length applied) names)"
  using assms
proof (induction rows arbitrary: applied)
  case (Cons r rows)
  obtain v n c where r: "r = (v, n, c)" by (cases r) auto
  with Cons.prems have v: "v = int (length applied) + 1" "length applied < length names" "n = names ! length applied"
    and rest: "readApplied names rows (applied @ [(n, c)]) = Inr ap"
    by (auto split: if_splits)
  from Cons.IH [OF rest] v r show ?case
    by (auto simp: Cons_nth_drop_Suc [symmetric])
qed simp

lemma readApplied_history:
  assumes "k + length fs \<le> length names" and "map fst fs = take (length fs) (drop k names)" and "length applied = k"
  shows "readApplied names (historyFrom k fs) applied = Inr (applied @ map snd (historyFrom k fs))"
  using assms
proof (induction fs arbitrary: k applied)
  case (Cons f fs)
  obtain n c where f: "f = (n, c)" by (cases f)
  from Cons.prems have k: "k < length names" "names ! k = n"
    using f by (auto simp: Cons_nth_drop_Suc [symmetric])
  have "map fst fs = take (length fs) (drop (Suc k) names)"
    using Cons.prems(1,2) f k(1) by (simp add: Cons_nth_drop_Suc [symmetric])
  with Cons.IH [of "Suc k" "applied @ [(n, checksumOf (unixLines c))]"] Cons.prems k f show ?case by simp
qed simp

text \<open>The loop over the files: files that the history has are compared, the others are run and recorded.\<close>

lemma migrate_loop:
  assumes "recordsKept run" and "eachR (migrateOne run ap) (enumerate k fs) d = Inr d'"
  shows "rowsOf d' = rowsOf d @ drop (length ap - k) (historyFrom k fs) \<and>
    (\<forall>j. j < length fs \<and> k + j < length ap \<longrightarrow> snd (ap ! (k + j)) = snd (snd (historyFrom k fs ! j)))"
  using assms(2)
proof (induction fs arbitrary: k d)
  case (Cons f fs)
  obtain n c where f: "f = (n, c)" by (cases f)
  from Cons.prems obtain u where u: "migrateOne run ap (k, n, c) d = Inr u"
    and rest: "eachR (migrateOne run ap) (enumerate (Suc k) fs) u = Inr d'"
    unfolding f enumerate_simps eachR_Cons by blast
  note ih = Cons.IH [OF rest]
  show ?case
  proof (cases "k < length ap")
    case True
    with u have "u = d" and c: "snd (ap ! k) = checksumOf (unixLines c)"
      by (auto simp: migrateOne_def Let_def ok_iff)
    have d: "drop (length ap - k) ((v :: int \<times> string \<times> string) # xs) = drop (length ap - Suc k) xs" for v xs
      using True by (simp add: Suc_diff_Suc [symmetric])
    show ?thesis using ih \<open>u = d\<close> c f by (auto simp: d less_Suc_eq_0_disj)
  next
    case False
    with u obtain e where "run (unixLines c) d = Some e" "recordMigration (int k + 1) n (checksumOf (unixLines c)) e = Inr u"
      by (auto simp: migrateOne_def Let_def split: option.splits)
    then have "rowsOf u = rowsOf d @ [(int k + 1, n, checksumOf (unixLines c))]"
      using recordMigration_rows run_rows [OF assms(1)] by metis
    with ih False f show ?thesis by (auto simp: less_Suc_eq_0_disj)
  qed
qed simp

text \<open>A transaction that succeeds: the rows it found are those of the first files, and it added those of the others.\<close>

lemma triple_eqI:
  assumes "map fst xs = map fst ys" and "map (fst \<circ> snd) xs = map (fst \<circ> snd) ys"
    and "\<forall>j < length xs. snd (snd (xs ! j)) = snd (snd (ys ! j))"
  shows "xs = (ys :: (int \<times> string \<times> string) list)"
proof (rule nth_equalityI)
  show l: "length xs = length ys" using assms(1) by (rule map_eq_imp_length_eq)
  fix j
  assume j: "j < length xs"
  have "fst (xs ! j) = fst (ys ! j)" using arg_cong [OF assms(1), of "\<lambda>l. l ! j"] j l by simp
  moreover have "fst (snd (xs ! j)) = fst (snd (ys ! j))" using arg_cong [OF assms(2), of "\<lambda>l. l ! j"] j l by simp
  ultimately show "xs ! j = ys ! j" using assms(3) j by (simp add: prod_eq_iff)
qed

lemma versions_take: "n \<le> m \<Longrightarrow> versions k n = take n (versions k m)"
proof (induction n arbitrary: k m)
  case (Suc n)
  then obtain l where "m = Suc l" "n \<le> l" by (cases m) auto
  with Suc.IH [of l "Suc k"] show ?case by simp
qed simp

lemma historyFrom_names: "map (fst \<circ> snd) (historyFrom k fs) = map fst fs"
  by (induction fs arbitrary: k) auto

lemma migrateTx_rows:
  assumes "recordsKept run" and "migrateTx run fs d = Inr d'"
  shows "sort_key fst (rowsOf d) = take (length (rowsOf d)) (historyFrom 0 fs) \<and>
    rowsOf d' = rowsOf d @ drop (length (rowsOf d)) (historyFrom 0 fs)"
proof -
  let ?S = "sort_key fst (rowsOf d)" and ?n = "length (rowsOf d)"
  from assms(2) obtain ap where ap: "readApplied (map fst fs) ?S [] = Inr ap"
    and loop: "eachR (migrateOne run ap) (enumerate 0 fs) d = Inr d'"
    unfolding migrateTx_def ok_iff by (auto simp: rowsOf_def)
  from readApplied_ok [OF ap] have r: "ap = map snd ?S" "?S = [] \<or> ?n \<le> length fs"
    "map fst ?S = versions 0 ?n" "map (fst \<circ> snd) ?S = take ?n (map fst fs)"
    by auto
  then have n: "?n \<le> length fs" by (metis length_sort le0 list.size(3))
  from migrate_loop [OF assms(1) loop] r(1) n have rows: "rowsOf d' = rowsOf d @ drop ?n (historyFrom 0 fs)"
    and sums: "\<forall>j < ?n. snd (snd (?S ! j)) = snd (snd (historyFrom 0 fs ! j))"
    by auto
  have "?S = take ?n (historyFrom 0 fs)"
  proof (rule triple_eqI)
    show "map fst ?S = map fst (take ?n (historyFrom 0 fs))"
      using r(3) versions_take [OF n, of 0] by (simp add: take_map [symmetric] historyFrom_keys)
    show "map (fst \<circ> snd) ?S = map (fst \<circ> snd) (take ?n (historyFrom 0 fs))"
      using r(4) by (simp only: take_map [symmetric] historyFrom_names)
    show "\<forall>j < length ?S. snd (snd (?S ! j)) = snd (snd (take ?n (historyFrom 0 fs) ! j))"
      using sums by simp
  qed
  with rows show ?thesis by simp
qed

text \<open>After a success the history, in the order of its versions, is exactly that of the files.\<close>

lemma historyFrom_sorted: "sorted (map fst (historyFrom k fs)) \<and> distinct (map fst (historyFrom k fs))"
  by (simp add: historyFrom_keys versions_sorted)

lemma migrateTx_history:
  assumes "recordsKept run" and "migrateTx run fs d = Inr d'"
  shows "sort_key fst (rowsOf d') = historyFrom 0 fs"
proof (rule sort_key_inj_key_eq)
  from migrateTx_rows [OF assms] have
    old: "sort_key fst (rowsOf d) = take (length (rowsOf d)) (historyFrom 0 fs)" and
    new: "rowsOf d' = rowsOf d @ drop (length (rowsOf d)) (historyFrom 0 fs)" by blast+
  from arg_cong [OF old, of mset] have "mset (rowsOf d) = mset (take (length (rowsOf d)) (historyFrom 0 fs))" by simp
  then have "mset (rowsOf d') = mset (take (length (rowsOf d)) (historyFrom 0 fs) @ drop (length (rowsOf d)) (historyFrom 0 fs))"
    unfolding new by (simp only: mset_append)
  then show m: "mset (rowsOf d') = mset (historyFrom 0 fs)" by (simp only: append_take_drop_id)
  have "inj_on fst (set (historyFrom 0 fs))" using historyFrom_sorted [of 0 fs] by (simp add: distinct_map)
  with mset_eq_setD [OF m] show "inj_on fst (set (rowsOf d'))" by simp
qed (rule conjunct1 [OF historyFrom_sorted])

text \<open>Once the history is that of the files, nothing is run again.\<close>

lemma migrate_loop_skips:
  assumes "\<forall>j < length fs. k + j < length ap \<and> snd (ap ! (k + j)) = snd (snd (historyFrom k fs ! j))"
  shows "eachR (migrateOne run ap) (enumerate k fs) d = Inr d"
  using assms
proof (induction fs arbitrary: k)
  case (Cons f fs)
  obtain n c where f: "f = (n, c)" by (cases f)
  have "k < length ap" "snd (ap ! k) = checksumOf (unixLines c)" using Cons.prems f by (auto dest: spec [of _ 0])
  moreover have "eachR (migrateOne run ap) (enumerate (Suc k) fs) d = Inr d"
    using Cons.prems f by (intro Cons.IH) (auto dest: spec [of _ "Suc j" for j])
  moreover from calculation(1,2) have "migrateOne run ap (k, n, c) d = Inr d" by (simp add: migrateOne_def thenR_def refuse_def)
  ultimately show ?case by (simp add: f thenR_def)
qed simp

lemma migrateTx_again:
  assumes "sort_key fst (rowsOf d) = historyFrom 0 fs"
  shows "migrateTx run fs d = Inr d"
proof -
  have "readApplied (map fst fs) (historyFrom 0 fs) [] = Inr (map snd (historyFrom 0 fs))"
    using readApplied_history [of 0 fs "map fst fs" "[]"] by simp
  moreover have "eachR (migrateOne run (map snd (historyFrom 0 fs))) (enumerate 0 fs) d = Inr d"
    by (rule migrate_loop_skips) simp
  ultimately show ?thesis using assms unfolding migrateTx_def rowsOf_def by (simp add: thenR_def)
qed

text \<open>An upgrade in two steps is the upgrade in one.\<close>

lemma eachR_append: "eachR f (xs @ ys) s = thenR (eachR f xs s) (eachR f ys)"
  by (induction xs arbitrary: s) (auto simp: thenR_def split: sum.split)

lemma migrate_loop_late:
  assumes "length ap \<le> k" and "length aq \<le> k"
  shows "eachR (migrateOne run ap) (enumerate k fs) d = eachR (migrateOne run aq) (enumerate k fs) d"
  using assms
proof (induction fs arbitrary: k d)
  case (Cons f fs)
  obtain n c where f: "f = (n, c)" by (cases f)
  have "migrateOne run ap (k, f) d = migrateOne run aq (k, f) d" using Cons.prems by (simp add: migrateOne_def f)
  moreover have "eachR (migrateOne run ap) (enumerate (Suc k) fs) = eachR (migrateOne run aq) (enumerate (Suc k) fs)"
    using Cons.prems by (intro ext Cons.IH) simp_all
  ultimately show ?case by simp
qed simp

lemma migrateTx_upgrade:
  assumes "recordsKept run" and "migrateTx run fs d = Inr e"
  shows "migrateTx run (fs @ gs) e = migrateTx run (fs @ gs) d"
proof -
  let ?S = "sort_key fst (rowsOf d)" and ?n = "length (rowsOf d)" and ?H = "historyFrom 0 fs"
  from assms(2) obtain ap where ap: "readApplied (map fst fs) ?S [] = Inr ap"
    and loop: "eachR (migrateOne run ap) (enumerate 0 fs) d = Inr e"
    unfolding migrateTx_def ok_iff by (auto simp: rowsOf_def)
  from migrateTx_rows [OF assms] have S: "?S = take ?n ?H" by simp
  from readApplied_ok [OF ap] have apS: "ap = map snd ?S" by simp
  have n: "?n \<le> length fs" using arg_cong [OF S, of length] by simp
  have "readApplied (map fst (fs @ gs)) (historyFrom 0 (take ?n fs)) [] = Inr (map snd (historyFrom 0 (take ?n fs)))"
    using readApplied_history [of 0 "take ?n fs" "map fst (fs @ gs)" "[]"] n by (simp add: take_map)
  moreover have "historyFrom 0 (take ?n fs) = ?S"
    using historyFrom_simps(3) [of 0 "take ?n fs" "drop ?n fs"] n unfolding S by simp
  ultimately have d: "readApplied (map fst (fs @ gs)) ?S [] = Inr ap" by (simp add: apS)
  have "readApplied (map fst (fs @ gs)) ?H [] = Inr ([] @ map snd ?H)"
    by (rule readApplied_history) simp_all
  then have "readApplied (map fst (fs @ gs)) ?H [] = Inr (map snd ?H)" by (simp only: append_Nil)
  then have e: "readApplied (map fst (fs @ gs)) (sort_key fst (rowsOf e)) [] = Inr (map snd ?H)"
    by (simp only: migrateTx_history [OF assms])
  have en: "enumerate 0 (fs @ gs) = enumerate 0 fs @ enumerate (length fs) gs" by (simp add: enumerate_append_eq)
  have "migrateTx run (fs @ gs) d = eachR (migrateOne run ap) (enumerate (length fs) gs) e"
    unfolding migrateTx_def en eachR_append using d loop by (simp add: rowsOf_def thenR_def)
  also have "\<dots> = eachR (migrateOne run (map snd ?H)) (enumerate (length fs) gs) e"
    using n by (intro migrate_loop_late) (simp_all add: apS)
  also have "\<dots> = migrateTx run (fs @ gs) e"
  proof -
    have "eachR (migrateOne run (map snd ?H)) (enumerate 0 fs) e = Inr e" by (rule migrate_loop_skips) simp
    then show ?thesis unfolding migrateTx_def en eachR_append using e by (simp add: rowsOf_def thenR_def)
  qed
  finally show ?thesis by simp
qed

text \<open>The function as a whole.\<close>

definition migrated :: "(string \<times> string) list \<Rightarrow> 'd database \<Rightarrow> 'd database \<Rightarrow> bool" where
  "migrated fs d d' \<longleftrightarrow>
     (let H = historyFrom 0 (sqlFiles fs) in
      sort_key fst (rowsOf d) = take (length (rowsOf d)) H \<and> sort_key fst (rowsOf d') = H)"

lemma migrate_outcome:
  assumes "recordsKept run"
  shows "case migrate run commits fs d of
      (Inl _, d') \<Rightarrow> d' = d
    | (Inr _, d') \<Rightarrow> migrated fs d d' \<and> migrate run True fs d' = (Inr (), d')"
proof (cases "sqlFiles fs = [] \<or> \<not> contiguous (map fst (sqlFiles fs))")
  case True
  then show ?thesis by (auto simp: migrate_def Let_def)
next
  case False
  show ?thesis
  proof (cases "migrateTx run (sqlFiles fs) d")
    case (Inl e)
    with False show ?thesis by (simp add: migrate_def Let_def)
  next
    case (Inr d')
    note rows = migrateTx_rows [OF assms Inr] and history = migrateTx_history [OF assms Inr]
    from False Inr migrateTx_again [OF history, of run] rows history show ?thesis
      by (simp add: migrate_def migrated_def Let_def)
  qed
qed

lemma migrate_upgrade:
  assumes "recordsKept run" and "sqlFiles gs = sqlFiles fs @ rest" and "migrate run True fs d = (Inr (), e)"
  shows "(case migrate run c gs e of (r, t) \<Rightarrow> case migrate run c gs d of (r', t') \<Rightarrow> r = r' \<and> (r = Inr () \<longrightarrow> t = t'))"
proof -
  from assms(3) have "migrateTx run (sqlFiles fs) d = Inr e" by (auto simp: migrate_def Let_def split: if_splits sum.splits)
  from migrateTx_upgrade [OF assms(1) this, of rest] have "migrateTx run (sqlFiles gs) e = migrateTx run (sqlFiles gs) d"
    by (simp only: assms(2))
  then show ?thesis by (auto simp: migrate_def Let_def split: sum.splits)
qed

lemma migrate_once:
  assumes "recordsKept run" and "sqlFiles gs = sqlFiles fs @ rest"
  shows "case migrate run commits fs d of
      (Inl _, d') \<Rightarrow> d' = d
    | (Inr _, d') \<Rightarrow> migrated fs d d' \<and> migrate run True fs d' = (Inr (), d') \<and>
        (case migrate run c gs d' of (r, t) \<Rightarrow> case migrate run c gs d of (r', t') \<Rightarrow> r = r' \<and> (r = Inr () \<longrightarrow> t = t'))"
proof -
  have "migrate run True fs d = migrate run commits fs d" if "fst (migrate run commits fs d) = Inr ()"
    using that by (auto simp: migrate_def Let_def split: if_splits sum.splits)
  moreover obtain r d' where run: "migrate run commits fs d = (r, d')" by fastforce
  ultimately have "r = Inr () \<Longrightarrow> migrate run True fs d = (Inr (), d')" by simp
  with migrate_outcome [OF assms(1), where commits = commits and fs = fs and d = d] migrate_upgrade [OF assms, where d = d and c = c]
  show ?thesis by (cases r) (simp_all add: run)
qed

end
