(* ===== verification/Database.thy ===== *)
theory Database
  imports Migrate NetText
begin

text \<open>
  \<open>internal/database/database.go\<close>: the file of the database, its address as a URI, its permissions, and the
  migrations before anyone may use it. What each system call answers is a parameter.
\<close>

section \<open>The address\<close>

text \<open>\<open>URL.EscapedPath\<close>: the bytes that stand for themselves in a path, and the escapes of the others.\<close>

definition pathByte :: "char \<Rightarrow> bool" where
  "pathByte c \<longleftrightarrow> isLetter c \<or> isDigit c \<or> c \<in> set ''-_.~$&+,/:;=@''"

definition upperHex :: "int \<Rightarrow> char" where
  "upperHex n = (if n < 10 then char_of (48 + n) else char_of (55 + n))"

fun escapePath :: "string \<Rightarrow> string" where
  "escapePath [] = []"
| "escapePath (c # s) =
     (if pathByte c then c # escapePath s
      else CHR ''%'' # upperHex (byteVal c div 16) # upperHex (byteVal c mod 16) # escapePath s)"

definition uriPath :: "string \<Rightarrow> string" where
  "uriPath path = (if hasPrefix path ''/'' then path else CHR ''/'' # path)"

definition pragmas :: string where
  "pragmas = ''_pragma=busy_timeout%285000%29&_pragma=foreign_keys%281%29&_txlock=immediate''"

definition dsn :: "string \<Rightarrow> string" where
  "dsn path = ''file://'' @ escapePath (uriPath path) @ CHR ''?'' # pragmas"

text \<open>What reads the address takes the escapes back.\<close>

fun unescapePath :: "string \<Rightarrow> string" where
  "unescapePath [] = []"
| "unescapePath (c # s) =
     (case s of
        a # b # r \<Rightarrow> if c = CHR ''%'' then char_of (hexDigitVal a * 16 + hexDigitVal b) # unescapePath r else c # unescapePath s
      | _ \<Rightarrow> c # unescapePath s)"

lemma byteVal_upperHex: "0 \<le> n \<Longrightarrow> n < 16 \<Longrightarrow> byteVal (upperHex n) = (if n < 10 then 48 + n else 55 + n)"
  by (auto simp: upperHex_def byteVal_def take_bit_eq_mod)

lemma upperHex_ok: "0 \<le> n \<Longrightarrow> n < 16 \<Longrightarrow> isHex (upperHex n) \<and> hexDigitVal (upperHex n) = n"
  by (auto simp: isHex_def isLowerHex_def byteIn_def hexDigitVal_def isDigit_def byteVal_upperHex)

lemma byteVal_range: "0 \<le> byteVal c" "byteVal c < 256"
  using of_char_mod_256 [of c, where 'a = int] unfolding byteVal_def
  by (metis pos_mod_sign zero_less_numeral) (metis pos_mod_bound zero_less_numeral of_char_mod_256)

lemma escape_parts:
  "isHex (upperHex (byteVal c div 16))" "isHex (upperHex (byteVal c mod 16))"
  "char_of (hexDigitVal (upperHex (byteVal c div 16)) * 16 + hexDigitVal (upperHex (byteVal c mod 16))) = c"
  using byteVal_range [of c] upperHex_ok [of "byteVal c div 16"] upperHex_ok [of "byteVal c mod 16"]
  by (simp_all add: byteVal_def)

lemma pathByte_plain: "pathByte c \<Longrightarrow> c \<noteq> CHR ''%'' \<and> c \<noteq> CHR ''?'' \<and> c \<noteq> CHR ''#'' \<and> 32 \<le> byteVal c \<and> byteVal c \<noteq> 127"
  by (auto simp: pathByte_def isLetter_def isDigit_def byteIn_def byteVal_def)

lemma hex_plain: "isHex c \<Longrightarrow> c \<noteq> CHR ''%'' \<and> c \<noteq> CHR ''?'' \<and> c \<noteq> CHR ''#'' \<and> 32 \<le> byteVal c \<and> byteVal c \<noteq> 127"
  by (auto simp: isHex_def isLowerHex_def byteIn_def byteVal_def)

lemma unescape_plain: "c \<noteq> CHR ''%'' \<Longrightarrow> unescapePath (c # s) = c # unescapePath s"
  by (auto split: list.split)

lemma unescape_escape: "unescapePath (escapePath s) = s"
proof (induction s)
  case (Cons c s)
  then show ?case
    using pathByte_plain [of c] escape_parts(3) [of c] by (auto simp: unescape_plain simp del: unescapePath.simps(2)) simp
qed simp

lemma escape_chars: "c \<in> set (escapePath s) \<Longrightarrow> c \<noteq> CHR ''?'' \<and> c \<noteq> CHR ''#'' \<and> 32 \<le> byteVal c \<and> byteVal c \<noteq> 127"
  using escape_parts(1,2) [THEN hex_plain] by (induction s) (auto split: if_splits dest: pathByte_plain simp: byteVal_def)

lemma escapesOk_escape: "escapesOk (escapePath s)"
  using escape_parts by (induction s) (auto dest: pathByte_plain)

lemma cutAt_none: "c \<notin> set s \<Longrightarrow> cutAt c s = (s, None)"
  unfolding cutAt_def by (induction s) auto

lemma cutAt_first: "c \<notin> set s \<Longrightarrow> cutAt c (s @ c # r) = (s, Some r)"
  unfolding cutAt_def by (induction s) auto

lemma uriPath_slash: "\<exists>r. escapePath (uriPath path) = CHR ''/'' # r"
proof -
  have "\<exists>r. uriPath path = CHR ''/'' # r" by (cases path) (auto simp: uriPath_def hasPrefix_def)
  then show ?thesis by (auto simp: pathByte_def)
qed

text \<open>The address that is opened is that of the path, whatever its bytes are, and nothing of the path gets among the pragmas.\<close>

lemma parseURL_dsn:
  "parseURL (dsn path) = Some (emptyUrl\<lparr>u_scheme := ''file'', u_path := escapePath (uriPath path), u_query := pragmas\<rparr>)"
proof -
  let ?p = "escapePath (uriPath path)"
  obtain r where r: "?p = CHR ''/'' # r" using uriPath_slash by blast
  have plain: "c \<noteq> CHR ''?'' \<and> c \<noteq> CHR ''#'' \<and> \<not> (byteVal c < 32 \<or> byteVal c = 127)" if "c \<in> set ?p" for c
    using escape_chars [OF that] by simp
  have fixed: "\<forall>c \<in> set pragmas. c \<noteq> CHR ''#'' \<and> \<not> (byteVal c < 32 \<or> byteVal c = 127)"
    by (simp add: pragmas_def byteVal_def)
  have "CHR ''#'' \<notin> set (dsn path)" using plain fixed by (auto simp: dsn_def)
  then have cut: "cutAt CHR ''#'' (dsn path) = (dsn path, None)" by (rule cutAt_none)
  have ctl: "\<not> list_ex (\<lambda>c. byteVal c < 32 \<or> byteVal c = 127) (dsn path)"
    using plain fixed unfolding dsn_def list_ex_iff by (auto simp: byteVal_def)
  have scheme: "getScheme (dsn path) = Some (''file'', ''//'' @ ?p @ CHR ''?'' # pragmas)"
    by (simp add: getScheme_def dsn_def schemeChar_def isLetter_def isDigit_def byteIn_def byteVal_def)
  have "\<not> hasSuffix (''//'' @ ?p @ CHR ''?'' # pragmas) ''?''" by (simp add: hasSuffix_def pragmas_def hasPrefix_def)
  moreover have "cutAt CHR ''?'' ((''//'' @ ?p) @ CHR ''?'' # pragmas) = (''//'' @ ?p, Some pragmas)"
    by (rule cutAt_first) (use plain in auto)
  moreover have "parseRest (emptyUrl\<lparr>u_scheme := ''file'', u_query := pragmas\<rparr>) (''//'' @ ?p) =
      Some (emptyUrl\<lparr>u_scheme := ''file'', u_path := ?p, u_query := pragmas\<rparr>)"
    using escapesOk_escape [of "uriPath path"] unfolding r
    by (simp add: parseRest_def emptyUrl_def hasPrefix_def cutLast_def cutAt_def parseHost_def)
  moreover have "toLower ''file'' = ''file''" by code_simp
  moreover have "dsn path \<noteq> ''*''" by (simp add: dsn_def)
  ultimately show ?thesis using ctl by (simp add: parseURL_def cut scheme)
qed

section \<open>open\<close>

text \<open>
  The data directory and the file in it, with its mode. A connection creates a file that is not there, with the mode
  that the mask of the process leaves; the pragmas do not write to it. The mode 384 is \<open>0o600\<close>.
\<close>

record 'd disk =
  dk_dir :: bool
  dk_file :: "(int \<times> 'd database) option"

record disk_calls =
  og_mkdir :: bool
  og_path :: "string option"
  og_stat :: bool
  og_ping :: bool
  og_mode :: int
  og_chmod :: bool
  og_commits :: bool

definition openDatabase ::
  "'d engine \<Rightarrow> (string \<times> string) list \<Rightarrow> 'd database \<Rightarrow> disk_calls \<Rightarrow> ('d disk, err, string) op" where
  "openDatabase run fs blank og k =
     (if \<not> og_mkdir og then (Inl (Failure ''create data directory''), k)
      else let k = k\<lparr>dk_dir := True\<rparr> in
      (case og_path og of
         None \<Rightarrow> (Inl (Failure ''resolve database path''), k)
       | Some path \<Rightarrow>
           if \<not> og_stat og then (Inl (Failure ''inspect database file''), k)
           else if \<not> og_ping og then (Inl (Failure ''connect to database''), k)
           else let missing = (dk_file k = None); (mode, d) = (case dk_file k of None \<Rightarrow> (og_mode og, blank) | Some f \<Rightarrow> f) in
             if missing \<and> \<not> og_chmod og then (Inl (Failure ''set database permissions''), k\<lparr>dk_file := Some (mode, d)\<rparr>)
             else let mode = (if missing then 384 else mode) in
               (case migrate run (og_commits og) fs d of
                  (Inl e, d') \<Rightarrow> (Inl (Failure ''migrate database''), k\<lparr>dk_file := Some (mode, d')\<rparr>)
                | (Inr _, d') \<Rightarrow> (Inr (dsn path), k\<lparr>dk_file := Some (mode, d')\<rparr>))))"

text \<open>What the file holds: nothing yet is an empty database.\<close>

definition contentOf :: "'d database \<Rightarrow> 'd disk \<Rightarrow> 'd database" where
  "contentOf blank k = (case dk_file k of None \<Rightarrow> blank | Some (_, d) \<Rightarrow> d)"

definition modeOf :: "'d disk \<Rightarrow> int option" where
  "modeOf k = map_option fst (dk_file k)"

definition granted :: "string \<Rightarrow> int \<Rightarrow> disk_calls" where
  "granted path mode =
     \<lparr>og_mkdir = True, og_path = Some path, og_stat = True, og_ping = True, og_mode = mode, og_chmod = True, og_commits = True\<rparr>"

text \<open>
  What an opening leaves. An address that is returned is that of the file; the database has every migration of the
  binary; a file that is new is closed to others, and the mode of an old one stays; opening again changes nothing.
\<close>

definition opened ::
  "'d engine \<Rightarrow> (string \<times> string) list \<Rightarrow> 'd database \<Rightarrow> disk_calls \<Rightarrow> 'd disk \<Rightarrow> string \<Rightarrow> 'd disk \<Rightarrow> bool" where
  "opened run fs blank og k uri k' \<longleftrightarrow>
     (\<exists>path u. og_path og = Some path \<and> uri = dsn path \<and>
        parseURL uri = Some u \<and> u_scheme u = ''file'' \<and> u_host u = [] \<and> unescapePath (u_path u) = uriPath path \<and> u_query u = pragmas \<and>
        (\<forall>mode. openDatabase run fs blank (granted path mode) k' = (Inr uri, k'))) \<and>
     migrated fs (contentOf blank k) (contentOf blank k') \<and>
     modeOf k' = Some (case modeOf k of None \<Rightarrow> 384 | Some m \<Rightarrow> m) \<and> dk_dir k'"

lemma openDatabase_outcome:
  assumes "recordsKept run"
  shows "case openDatabase run fs blank og k of
      (Inl _, k') \<Rightarrow> contentOf blank k' = contentOf blank k
    | (Inr uri, k') \<Rightarrow> opened run fs blank og k uri k'"
proof -
  have again: "migrate run c fs d = (Inr u, d') \<Longrightarrow> migrated fs d d' \<and> migrate run True fs d' = (Inr (), d')"
    and undone: "migrate run c fs d = (Inl e, d') \<Longrightarrow> d' = d" for c d d' u e
    using migrate_outcome [OF assms, where commits = c and fs = fs and d = d] by auto
  have uri: "\<exists>u. parseURL (dsn path) = Some u \<and> u_scheme u = ''file'' \<and> u_host u = [] \<and>
      unescapePath (u_path u) = uriPath path \<and> u_query u = pragmas" for path
    by (simp add: parseURL_dsn emptyUrl_def unescape_escape)
  show ?thesis
    unfolding openDatabase_def Let_def opened_def
    by (cases "dk_file k")
      (auto simp: contentOf_def modeOf_def granted_def uri split: option.split sum.split prod.split dest: again undone)
qed

end
