(* ===== verification/Commands.thy ===== *)
theory Commands
  imports Server Database ExportSafe
begin

text \<open>
  \<open>cmd/photodrop\<close> and \<open>server/healthcheck.go\<close>: which command an argument list asks for, the flags of the export
  command as the package \<open>flag\<close> reads them, the export itself, and the health check. The text that a command
  prints and the log are left out.
\<close>

section \<open>main.go\<close>

datatype command = ShowVersion | ExportEvent "string list" | ProbeServer | RunServer | ShowUsage

definition commandOf :: "string list \<Rightarrow> command" where
  "commandOf args =
     (if args = [''version''] \<or> args = [''--version''] then ShowVersion
      else (case args of
              [] \<Rightarrow> RunServer
            | a # rest \<Rightarrow> if a = ''export'' then ExportEvent rest
                         else if a = ''healthcheck'' \<and> rest = [] then ProbeServer
                         else ShowUsage))"

definition buildText :: "string \<Rightarrow> string \<Rightarrow> string" where
  "buildText version commit =
     (if commit = [] then ''PhotoDrop '' @ version else ''PhotoDrop '' @ version @ '' ('' @ commit @ '')'')"

text \<open>
  \<open>run\<close> without arguments, up to \<open>server.Serve\<close>: the settings, the database, the server, and last the listener. The
  database is opened as \<open>openDatabase\<close> does it; the world's tables are those of the last migration.
\<close>

definition startServer :: "outside \<Rightarrow> variables \<Rightarrow> (application \<times> string list) wop" where
  "startServer ou vars =
     bindE (liftE (parse vars)) (\<lambda>cfg.
     bindE sysCall (\<lambda>_.
     bindE (newServer ou cfg) (\<lambda>srv.
     bindE sysCall (\<lambda>_.
     ret srv))))"

section \<open>strconv.ParseInt(s, 0, 64)\<close>

text \<open>The base that a prefix asks for, and what is left to read.\<close>

definition basePrefix :: "string \<Rightarrow> int \<times> string" where
  "basePrefix s =
     (case s of
        z # c # d # r \<Rightarrow>
          if z \<noteq> CHR ''0'' then (10, s)
          else if c \<in> set ''bB'' then (2, d # r) else if c \<in> set ''oO'' then (8, d # r) else if c \<in> set ''xX'' then (16, d # r)
          else (8, c # d # r)
      | z # r \<Rightarrow> if z = CHR ''0'' then (8, r) else (10, s)
      | [] \<Rightarrow> (10, s))"

definition anyDigit :: "char \<Rightarrow> int option" where
  "anyDigit c =
     (if isDigit c then Some (byteVal c - 48) else if byteIn 97 122 c then Some (byteVal c - 87)
      else if byteIn 65 90 c then Some (byteVal c - 55) else None)"

fun readDigits :: "int \<Rightarrow> string \<Rightarrow> int \<Rightarrow> int option" where
  "readDigits b [] n = Some n"
| "readDigits b (c # s) n =
     (if c = CHR ''_'' then readDigits b s n
      else (case anyDigit c of None \<Rightarrow> None | Some d \<Rightarrow> if d \<ge> b then None else readDigits b s (n * b + d)))"

text \<open>Underscores only stand between digits, where the prefix of a base counts as one.\<close>

fun underscores :: "bool \<Rightarrow> char \<Rightarrow> string \<Rightarrow> bool" where
  "underscores hex saw [] = (saw \<noteq> CHR ''_'')"
| "underscores hex saw (c # s) =
     (if isDigit c \<or> (hex \<and> isHex c) then underscores hex (CHR ''0'') s
      else if c = CHR ''_'' then saw = CHR ''0'' \<and> underscores hex (CHR ''_'') s
      else saw \<noteq> CHR ''_'' \<and> underscores hex (CHR ''!'') s)"

definition underscoreOK :: "string \<Rightarrow> bool" where
  "underscoreOK s =
     (case s of
        z # c # r \<Rightarrow> if z = CHR ''0'' \<and> c \<in> set ''bBoOxX'' then underscores (c \<in> set ''xX'') (CHR ''0'') r
                    else underscores False (CHR ''^'') s
      | _ \<Rightarrow> underscores False (CHR ''^'') s)"

definition parseUint0 :: "string \<Rightarrow> int option" where
  "parseUint0 s =
     (if s = [] then None
      else case basePrefix s of (b, ds) \<Rightarrow>
        (case readDigits b ds 0 of None \<Rightarrow> None | Some n \<Rightarrow> if CHR ''_'' \<in> set ds \<and> \<not> underscoreOK s then None else Some n))"

definition parseInt0 :: "string \<Rightarrow> int option" where
  "parseInt0 s =
     (case s of
        [] \<Rightarrow> None
      | c # r \<Rightarrow>
          (case parseUint0 (if c = CHR ''+'' \<or> c = CHR ''-'' then r else s) of
             None \<Rightarrow> None
           | Some n \<Rightarrow> if c = CHR ''-'' then (if 2 ^ 63 < n then None else Some (- n)) else (if 2 ^ 63 \<le> n then None else Some n)))"

section \<open>The flags of the export\<close>

definition setFlag :: "string \<Rightarrow> string \<Rightarrow> int \<times> string \<Rightarrow> (int \<times> string) option" where
  "setFlag name v p =
     (if name = ''event'' then map_option (\<lambda>i. (i, snd p)) (parseInt0 v)
      else if name = ''output'' then Some (fst p, v)
      else None)"

text \<open>
  \<open>FlagSet.Parse\<close> with no argument left over: one or two hyphens, the value after an equals sign or as the next
  argument. None is an error, help, or an argument that is no flag.
\<close>

fun parseFlags :: "string list \<Rightarrow> int \<times> string \<Rightarrow> (int \<times> string) option" where
  "parseFlags [] p = Some p"
| "parseFlags (s # args) p =
     (if length s < 2 \<or> hd s \<noteq> CHR ''-'' then None
      else if s = ''--'' then (if args = [] then Some p else None)
      else let body = (if s ! 1 = CHR ''-'' then drop 2 s else drop 1 s) in
        if body = [] \<or> hd body = CHR ''-'' \<or> hd body = CHR ''='' then None
        else (case cutAt CHR ''='' body of
                (name, Some v) \<Rightarrow> (case setFlag name v p of None \<Rightarrow> None | Some q \<Rightarrow> parseFlags args q)
              | (name, None) \<Rightarrow>
                  (case args of
                     [] \<Rightarrow> None
                   | v # rest \<Rightarrow> (case setFlag name v p of None \<Rightarrow> None | Some q \<Rightarrow> parseFlags rest q))))"

definition exportFlags :: "string list \<Rightarrow> (int \<times> string) option" where
  "exportFlags args =
     (case parseFlags args (0, []) of
        None \<Rightarrow> None
      | Some (i, out) \<Rightarrow> if i < 1 \<or> out = [] then None else Some (i, out))"

section \<open>export.go\<close>

text \<open>
  The database is opened as before. The directory that the export makes is the one of the flag.
\<close>

definition exportEvent :: "(string \<Rightarrow> string) \<Rightarrow> bool \<Rightarrow> variables \<Rightarrow> string list \<Rightarrow> unit wop" where
  "exportEvent lower isReal vars args =
     (case exportFlags args of
        None \<Rightarrow> raise (Failure ''usage: photodrop export --event ID --output NEW_DIRECTORY'')
      | Some (i, out) \<Rightarrow>
          bindE (liftE (LoadExport vars)) (\<lambda>(data, storage).
          bindE sysCall (\<lambda>_.
          bindE (newLocal isReal) (\<lambda>_.
          bindE (ReconcileBackends storage) (\<lambda>bs.
          Run lower (mediaService bs (Defaults noSecurity) DefaultMaxFileSize) i)))))"

section \<open>healthcheck.go\<close>

text \<open>The host to ask: an address that stands for all of them is asked at the loopback address.\<close>

definition probeHost :: "string \<Rightarrow> string" where
  "probeHost host = (if host = [] \<or> host = ''0.0.0.0'' then ''127.0.0.1'' else if host = ''::'' then ''::1'' else host)"

definition joinHostPort :: "string \<Rightarrow> string \<Rightarrow> string" where
  "joinHostPort host port =
     (if CHR '':'' \<in> set host then CHR ''['' # host @ '']:'' @ port else host @ CHR '':'' # port)"

definition probeURL :: "string \<Rightarrow> err + string" where
  "probeURL addr =
     (case splitHostPort addr of
        None \<Rightarrow> Inl (Failure ''health check address'')
      | Some (host, port) \<Rightarrow>
          let u = ''http://'' @ joinHostPort (probeHost host) port @ ''/healthz'' in
          if parseURL u = None then Inl (Failure ''create health check'') else Inr u)"

text \<open>\<open>get\<close> is the answer's status; it is None when there is no answer. A redirect is not followed.\<close>

definition CheckHealth :: "(string \<Rightarrow> nat option) \<Rightarrow> string \<Rightarrow> err + unit" where
  "CheckHealth get addr =
     (case probeURL addr of
        Inl e \<Rightarrow> Inl e
      | Inr u \<Rightarrow> (case get u of
                    None \<Rightarrow> Inl (Failure ''health check'')
                  | Some status \<Rightarrow> if status \<noteq> 200 then Inl (Failure ''health check: HTTP'') else Inr ()))"

end
