(* ===== verification/ConfigSafe.thy ===== *)
theory ConfigSafe
  imports Config
begin

text \<open>
  What the loaders guarantee: a configuration that is accepted has every bound, name and normal form that the
  rest of the server relies on; the variables of different backends are different ones; and the networks of
  trusted proxies are those that were written.
\<close>

section \<open>Networks\<close>

definition byteBits :: "int \<Rightarrow> bool list" where
  "byteBits b = map (\<lambda>k. b div 2 ^ k mod 2 = 1) [7, 6, 5, 4, 3, 2, 1, 0 :: nat]"

lemma addrBits_simps: "addrBits [] = []" "addrBits (b # bs) = byteBits b @ addrBits bs"
  by (simp_all add: addrBits_def byteBits_def)

lemma byteBits_nth: "i < 8 \<Longrightarrow> byteBits b ! i = (b div 2 ^ (7 - i) mod 2 = 1)"
proof -
  assume "i < 8"
  then have "[7, 6, 5, 4, 3, 2, 1, 0 :: nat] ! i = 7 - i" by (auto simp: less_Suc_eq numeral_eq_Suc)
  with \<open>i < 8\<close> show ?thesis unfolding byteBits_def by (subst nth_map) simp_all
qed

lemma cutLow:
  assumes "m \<le> k"
  shows "(b :: int) div 2 ^ m * 2 ^ m div 2 ^ k = b div 2 ^ k"
proof -
  have p: "(2 :: int) ^ k = 2 ^ m * 2 ^ (k - m)" using assms by (simp flip: power_add)
  show ?thesis unfolding p by (simp add: zdiv_zmult2_eq)
qed

lemma byteBits_masked:
  assumes "n < 8"
  shows "take n (byteBits (b div 2 ^ (8 - n) * 2 ^ (8 - n))) = take n (byteBits b)"
proof (rule nth_equalityI)
  fix i
  assume "i < length (take n (byteBits (b div 2 ^ (8 - n) * 2 ^ (8 - n))))"
  then have i: "i < n" by simp
  with assms cutLow [of "8 - n" "7 - i" b] show
    "take n (byteBits (b div 2 ^ (8 - n) * 2 ^ (8 - n))) ! i = take n (byteBits b) ! i"
    by (simp only: nth_take byteBits_nth)
qed (simp add: byteBits_def)

lemma addrBits_masked: "take n (addrBits (maskBytes n ip)) = take n (addrBits ip)"
proof (induction n ip rule: maskBytes.induct)
  case (2 n b bs)
  have l: "length (byteBits x) = 8" for x by (simp add: byteBits_def)
  show ?case
  proof (cases "8 \<le> n")
    case True
    with 2 show ?thesis by (simp add: addrBits_simps l)
  next
    case False
    with byteBits_masked [of n b] show ?thesis by (simp add: addrBits_simps l)
  qed
qed (simp add: addrBits_simps)

declare masked.simps [simp del]

lemma masked_contains: "prefixContains (masked p) a = prefixContains p a"
  by (cases a) (auto simp: masked.simps addrBits_masked split: addr.splits)

lemma trustedProxies_result:
  assumes "trustedProxies vars = Inr ps"
  shows "case nonEmpty vars ''PHOTODROP_TRUSTED_PROXY_CIDRS'' of
      None \<Rightarrow> ps = []
    | Some v \<Rightarrow> \<exists>qs. map (parsePrefix \<circ> trimSpace) (splitAt CHR '','' v) = map Some qs \<and> ps = map masked qs \<and> length qs \<le> 32"
proof -
  have each: "\<exists>qs. map (parsePrefix \<circ> trimSpace) parts = map Some qs \<and> ps = us @ map masked qs"
    if "eachR addTrusted parts us = Inr ps" for parts us
    using that
  proof (induction parts arbitrary: us)
    case (Cons x xs)
    from Cons.prems obtain p where p: "parsePrefix (trimSpace x) = Some p" "eachR addTrusted xs (us @ [masked p]) = Inr ps"
      unfolding eachR_Cons by (auto simp: addTrusted_def split: option.splits)
    from Cons.IH [OF p(2)] obtain qs where "map (parsePrefix \<circ> trimSpace) xs = map Some qs" "ps = (us @ [masked p]) @ map masked qs"
      by blast
    with p(1) show ?case by (intro exI [of _ "p # qs"]) (simp add: o_def)
  qed simp
  show ?thesis
  proof (cases "nonEmpty vars ''PHOTODROP_TRUSTED_PROXY_CIDRS''")
    case None
    with assms show ?thesis by (simp add: trustedProxies_def)
  next
    case (Some v)
    with assms have n: "length (splitAt CHR '','' v) \<le> 32" and "eachR addTrusted (splitAt CHR '','' v) [] = Inr ps"
      by (auto simp: trustedProxies_def Let_def ok_iff)
    from each [OF this(2)] obtain qs where q: "map (parsePrefix \<circ> trimSpace) (splitAt CHR '','' v) = map Some qs" "ps = map masked qs"
      by auto
    from arg_cong [OF q(1), of length] n have "length qs \<le> 32" by simp
    with q Some show ?thesis by auto
  qed
qed

section \<open>Bounds of the security settings\<close>

definition securityOk :: "security \<Rightarrow> bool" where
  "securityOk s \<longleftrightarrow>
     60 * nanosPerSecond \<le> sy_ttl s \<and> sy_ttl s \<le> 86400 * nanosPerSecond \<and>
     1 \<le> sy_max_assets s \<and> sy_max_assets s \<le> 1000 \<and> 1 \<le> sy_max_bytes s \<and> sy_max_bytes s \<le> 2 ^ 40 \<and>
     1 \<le> sy_multiplier s \<and> sy_multiplier s \<le> 100 \<and> length (sy_trusted s) \<le> 32 \<and>
     (sy_site_key s = [] \<longleftrightarrow> sy_secret_key s = [])"

lemma boundedInt_bound: "boundedInt vars name most d = Inr n \<Longrightarrow> n = d \<or> (1 \<le> n \<and> n \<le> most)"
  by (auto simp: boundedInt_def split: option.splits if_splits)

lemma boundedDuration_bound: "boundedDuration vars name a b d = Inr n \<Longrightarrow> n = d \<or> (a \<le> n \<and> n \<le> b)"
  by (auto simp: boundedDuration_def split: option.splits if_splits)

lemma rateMultiplier_bound: "rateMultiplier vars d = Inr n \<Longrightarrow> n = d \<or> (1 \<le> n \<and> n \<le> 100)"
  by (auto simp: rateMultiplier_def split: option.splits if_splits)

lemma defaults: "sy_ttl (Defaults noSecurity) = 7200 * nanosPerSecond" "sy_max_assets (Defaults noSecurity) = 100"
  "sy_max_bytes (Defaults noSecurity) = 5 * 1024 * 1024 * 1024" "sy_multiplier (Defaults noSecurity) = 1"
  by (simp_all add: Defaults_def noSecurity_def)

lemma loadSecurity_ok:
  assumes "loadSecurity vars base = Inr s"
  shows "securityOk s"
proof -
  from assms obtain ttl n b m off ps site secret where
    s: "s = \<lparr>sy_ttl = ttl, sy_max_assets = n, sy_max_bytes = b, sy_multiplier = m, sy_rate_off = off,
             sy_trusted = ps, sy_site_key = site, sy_secret_key = secret\<rparr>"
    and keys: "(site = []) = (secret = [])"
    and ttl: "boundedDuration (nonEmpty vars) ''PHOTODROP_UPLOAD_SESSION_TTL'' (60 * nanosPerSecond) (86400 * nanosPerSecond)
                (sy_ttl (Defaults noSecurity)) = Inr ttl"
    and n: "boundedInt vars ''PHOTODROP_UPLOAD_SESSION_MAX_ASSETS'' 1000 (sy_max_assets (Defaults noSecurity)) = Inr n"
    and b: "boundedInt vars ''PHOTODROP_UPLOAD_SESSION_MAX_BYTES'' (2 ^ 40) (sy_max_bytes (Defaults noSecurity)) = Inr b"
    and m: "rateMultiplier vars (sy_multiplier (Defaults noSecurity)) = Inr m"
    and ps: "trustedProxies vars = Inr ps"
    unfolding loadSecurity_def Let_def ok_iff by (fastforce simp: ok_iff split: prod.splits sum.splits)
  have "length ps \<le> 32"
    using trustedProxies_result [OF ps] by (auto split: option.splits)
  moreover have "60 * nanosPerSecond \<le> ttl" "ttl \<le> 86400 * nanosPerSecond"
    using boundedDuration_bound [OF ttl] by (auto simp: defaults nanosPerSecond_def)
  moreover have "1 \<le> n" "n \<le> 1000" "1 \<le> b" "b \<le> 2 ^ 40" "1 \<le> m" "m \<le> 100"
    using boundedInt_bound [OF n] boundedInt_bound [OF b] rateMultiplier_bound [OF m] by (auto simp: defaults)
  ultimately show ?thesis using keys by (simp add: s securityOk_def)
qed

text \<open>Defaults change nothing that was loaded, so the server may apply them again.\<close>

lemma Defaults_ok: "securityOk s \<Longrightarrow> Defaults s = s"
  by (auto simp: securityOk_def Defaults_def nanosPerSecond_def)

section \<open>Storage\<close>

definition s3Names :: "string list" where
  "s3Names = [''BUCKET'', ''REGION'', ''ENDPOINT'', ''PREFIX'', ''ACCESS_KEY_ID'', ''SECRET_ACCESS_KEY'', ''SESSION_TOKEN'',
     ''PATH_STYLE'', ''PRESIGN_TTL'']"

text \<open>No name of a variable is the end of another one, from an underscore on.\<close>

lemma s3Names_apart:
  assumes "n \<in> set s3Names" and "m \<in> set s3Names"
  shows "n \<noteq> x @ CHR ''_'' # m"
proof
  assume n: "n = x @ CHR ''_'' # m"
  have "list_all (\<lambda>n. list_all (\<lambda>m. \<not> (length m < length n \<and> drop (length n - length m - 1) n = CHR ''_'' # m)) s3Names) s3Names"
    by code_simp
  with assms have "length m < length n \<longrightarrow> drop (length n - length m - 1) n \<noteq> CHR ''_'' # m" by (simp add: list_all_iff)
  with n show False by simp
qed

lemma splitAt_concat: "c \<notin> set s \<Longrightarrow> splitAt c s = [s]"
  by (induction s) auto

lemma splitAt_chars: "\<forall>p \<in> set (splitAt c s). \<forall>d \<in> set p. P d \<Longrightarrow> d \<in> set s \<Longrightarrow> d = c \<or> P d"
  by (induction s) (auto split: list.splits if_splits)

lemma backendKey_chars: "ValidBackendKey key \<Longrightarrow> c \<in> set key \<Longrightarrow> c = CHR ''-'' \<or> lowerAlnum c"
  by (rule splitAt_chars [of "CHR ''-''" key]) (auto simp: ValidBackendKey_def list_all_iff)

lemma hyphen_iff: "c = CHR ''-'' \<longleftrightarrow> byteVal c = 45"
  using byteVal_inj [of c "CHR ''-''"] by (simp add: byteVal_def)

lemma byteVal_upperChar:
  "byteVal (upperChar c) =
     (if byteVal c = 45 then 95 else if 97 \<le> byteVal c \<and> byteVal c \<le> 122 then byteVal c - 32 else byteVal c)"
  unfolding upperChar_def hyphen_iff by (simp add: byteIn_def byteVal_def)

lemma upperChar_inj:
  assumes "c = CHR ''-'' \<or> lowerAlnum c" and "d = CHR ''-'' \<or> lowerAlnum d" and "upperChar c = upperChar d"
  shows "c = d"
proof -
  have v: "byteVal c = 45 \<or> (97 \<le> byteVal c \<and> byteVal c \<le> 122) \<or> (48 \<le> byteVal c \<and> byteVal c \<le> 57)"
    if "c = CHR ''-'' \<or> lowerAlnum c" for c
    using that unfolding hyphen_iff lowerAlnum_def isDigit_def byteIn_def by blast
  from v [OF assms(1)] v [OF assms(2)] arg_cong [OF assms(3), of byteVal, unfolded byteVal_upperChar]
  have "byteVal c = byteVal d" by (elim disjE conjE) (simp_all split: if_splits)
  then show ?thesis by (simp only: byteVal_inj)
qed

lemma variableName_inj:
  assumes "ValidBackendKey k" and "ValidBackendKey l" and "variableName k = variableName l"
  shows "k = l"
proof (rule map_inj_on)
  show "map upperChar k = map upperChar l" using assms(3) by (simp only: variableName_def)
  have "\<forall>c \<in> set k \<union> set l. c = CHR ''-'' \<or> lowerAlnum c"
    using backendKey_chars [OF assms(1)] backendKey_chars [OF assms(2)] by blast
  then show "inj_on upperChar (set k \<union> set l)"
    by (intro inj_onI) (rule upperChar_inj; simp only:)
qed

text \<open>The variables of two backends are different ones, and none of them is a variable of the single backend.\<close>

lemma keyedVariable_inj:
  assumes "ValidBackendKey k" and "ValidBackendKey l" and "n \<in> set s3Names" and "m \<in> set s3Names"
    and "keyedVariable k n = keyedVariable l m"
  shows "k = l \<and> n = m"
proof -
  have e: "us = []" if "n \<in> set s3Names" "m \<in> set s3Names" "CHR ''_'' # n = us @ CHR ''_'' # m" for us n m
    using that(3) s3Names_apart [OF that(1,2)] by (cases us) simp_all
  from assms(5) have "variableName k @ CHR ''_'' # n = variableName l @ CHR ''_'' # m"
    by (simp add: keyedVariable_def s3Variable_def)
  then consider us where "variableName k = variableName l @ us" "CHR ''_'' # m = us @ CHR ''_'' # n"
    | us where "variableName l = variableName k @ us" "CHR ''_'' # n = us @ CHR ''_'' # m"
    unfolding append_eq_append_conv2 by metis
  then have "variableName k = variableName l \<and> n = m"
  proof cases
    case 1
    with e [OF assms(4,3) 1(2)] show ?thesis by simp
  next
    case 2
    with e [OF assms(3,4) 2(2)] show ?thesis by simp
  qed
  with variableName_inj [OF assms(1,2)] show ?thesis by blast
qed

lemma keyedVariable_single:
  assumes "n \<in> set s3Names" and "m \<in> set s3Names"
  shows "keyedVariable k n \<noteq> s3Variable m"
  using s3Names_apart [OF assms(2,1)] by (auto simp: keyedVariable_def s3Variable_def)

text \<open>What a named backend is loaded from: its own variables only.\<close>

lemma keyedEnv_agree:
  assumes "\<forall>n \<in> set s3Names. vars (keyedVariable k n) = vars' (keyedVariable k n)"
  shows "loadStorageSingle (keyedEnv k vars) = loadStorageSingle (keyedEnv k vars')"
proof -
  have e: "keyedEnv k vars (s3Variable n) = keyedEnv k vars' (s3Variable n)" if "n \<in> set s3Names" for n
  proof -
    have "s3Variable n \<noteq> ''PHOTODROP_STORAGE_PROVIDER''" by (simp add: s3Variable_def)
    moreover have "hasPrefix (s3Variable n) ''PHOTODROP_S3_''" "drop 13 (s3Variable n) = n"
      by (simp_all add: s3Variable_def hasPrefix_def)
    ultimately show ?thesis using assms that unfolding keyedEnv_def by simp
  qed
  have "keyedEnv k vars ''PHOTODROP_STORAGE_PROVIDER'' = keyedEnv k vars' ''PHOTODROP_STORAGE_PROVIDER''"
    by (simp add: keyedEnv_def)
  then show ?thesis
    unfolding loadStorageSingle_def orDefault_def boolean_def boundedDuration_def
    using e [of "''BUCKET''"] e [of "''REGION''"] e [of "''ENDPOINT''"] e [of "''PREFIX''"] e [of "''ACCESS_KEY_ID''"]
      e [of "''SECRET_ACCESS_KEY''"] e [of "''SESSION_TOKEN''"] e [of "''PATH_STYLE''"] e [of "''PRESIGN_TTL''"]
    by (simp add: s3Names_def)
qed

lemma keyedEnv_apart:
  assumes "ValidBackendKey k" and "ValidBackendKey l" and "k \<noteq> l" and "m \<in> set s3Names"
  shows "loadStorageSingle (keyedEnv k (vars(keyedVariable l m := v))) = loadStorageSingle (keyedEnv k vars)"
  using keyedVariable_inj [OF assms(1,2) _ assms(4)] assms(3) by (intro keyedEnv_agree) auto

lemma keyedEnv_single:
  assumes "m \<in> set s3Names"
  shows "loadStorageSingle (keyedEnv k (vars(s3Variable m := v))) = loadStorageSingle (keyedEnv k vars)"
  using keyedVariable_single [OF _ assms] by (intro keyedEnv_agree) auto

text \<open>A normal prefix is its own normal form.\<close>

lemma trimSlash_ends:
  assumes "trimSlash s \<noteq> []"
  shows "hd (trimSlash s) \<noteq> CHR ''/'' \<and> last (trimSlash s) \<noteq> CHR ''/''"
proof -
  let ?d = "dropWhile (\<lambda>c. c = CHR ''/'') s" and ?P = "\<lambda>c. c = CHR ''/''"
  have t: "trimSlash s = rev (dropWhile ?P (rev ?d))" by (simp add: trimSlash_def)
  have "hd (dropWhile ?P (rev ?d)) \<noteq> CHR ''/''" using assms t hd_dropWhile [of ?P "rev ?d"] by simp
  then have l: "last (trimSlash s) \<noteq> CHR ''/''" using assms t by (simp add: last_rev)
  have "?d = trimSlash s @ rev (takeWhile ?P (rev ?d))"
    unfolding t by (metis rev_append rev_rev_ident takeWhile_dropWhile_id)
  then have "hd ?d = hd (trimSlash s)" "?d \<noteq> []" using assms by (metis hd_append2, force)
  with hd_dropWhile [of ?P s] l show ?thesis by simp
qed

lemma dropWhile_none: "xs \<noteq> [] \<Longrightarrow> \<not> P (hd xs) \<Longrightarrow> dropWhile P xs = xs"
  by (cases xs) simp_all

lemma trimSlash_append:
  assumes "t \<noteq> []" and "hd t \<noteq> CHR ''/''" and "last t \<noteq> CHR ''/''"
  shows "trimSlash (t @ ''/'') = t"
proof -
  have "dropWhile (\<lambda>c. c = CHR ''/'') (t @ ''/'') = t @ ''/''"
    using assms(1,2) by (intro dropWhile_none) simp_all
  moreover have "dropWhile (\<lambda>c. c = CHR ''/'') (rev t) = rev t"
    using assms(1,3) by (intro dropWhile_none) (simp_all add: hd_rev)
  ultimately show ?thesis by (simp add: trimSlash_def)
qed

lemma NormalizePrefix_trim: "trimSlash p = trimSlash q \<Longrightarrow> NormalizePrefix p = NormalizePrefix q"
  unfolding NormalizePrefix_def by (simp only:)

lemma NormalizePrefix_form:
  "NormalizePrefix raw = Inr p \<Longrightarrow> p = (if trimSlash raw = [] then [] else trimSlash raw @ ''/'')"
  unfolding NormalizePrefix_def Let_def by (simp split: if_splits)

lemma NormalizePrefix_idem:
  assumes "NormalizePrefix raw = Inr p"
  shows "NormalizePrefix p = Inr p"
proof -
  have "trimSlash p = trimSlash raw"
  proof (cases "trimSlash raw = []")
    case True
    have "p = []" using NormalizePrefix_form [OF assms] unfolding if_P [OF True] .
    moreover have "trimSlash [] = []" by (simp add: trimSlash_def)
    ultimately show ?thesis unfolding True by simp
  next
    case False
    have "p = trimSlash raw @ ''/''" using NormalizePrefix_form [OF assms] unfolding if_not_P [OF False] .
    then show ?thesis using trimSlash_append [OF False] trimSlash_ends [OF False] by blast
  qed
  from NormalizePrefix_trim [OF this] assms show ?thesis by simp
qed

text \<open>What the start-up relies on for every destination, and for the choice among them.\<close>

definition destinationOk :: "string \<times> s3_settings \<Rightarrow> bool" where
  "destinationOk kc \<longleftrightarrow>
     (case kc of (key, c) \<Rightarrow>
        ValidBackendKey key \<and> key \<noteq> localBackendKey \<and> configured c \<and> bucketOk (sc_bucket c) \<and> regionOk (sc_region c) \<and>
        secretOk (sc_access c) \<and> secretOk (sc_secret c) \<and> \<not> containsAny (sc_token c) nulCrLf \<and>
        NormalizePrefix (sc_prefix c) = Inr (sc_prefix c) \<and> (\<exists>raw. normalEndpoint raw = Inr (sc_endpoint c)) \<and>
        60 * nanosPerSecond \<le> sc_ttl c \<and> sc_ttl c \<le> 900 * nanosPerSecond)"

definition storageOk :: "storage_config \<Rightarrow> bool" where
  "storageOk s \<longleftrightarrow>
     distinct (map fst (cs_backends s)) \<and> list_all destinationOk (cs_backends s) \<and>
     (cs_provider s = ''s3'' \<and> cs_active s \<in> fst ` set (cs_backends s) \<or>
      cs_provider s = ''local'' \<and> ValidBackendKey (cs_active s))"

lemma bucketOk_ne: "bucketOk b \<Longrightarrow> b \<noteq> []"
  by (auto simp: bucketOk_def)

lemma secretOk_ne: "secretOk s \<Longrightarrow> s \<noteq> []"
  by (auto simp: secretOk_def trimSpace_def)

lemma single_ok:
  assumes "loadStorageSingle vars = Inr (p, c)" and "neededS3 p c" and "ValidBackendKey key" and "key \<noteq> localBackendKey"
  shows "destinationOk (key, c)"
proof -
  let ?d = "600 * nanosPerSecond"
  from assms(1,2) obtain ttl pre raw where
    ttl: "boundedDuration vars (s3Variable ''PRESIGN_TTL'') (60 * nanosPerSecond) (900 * nanosPerSecond) ?d = Inr ttl"
    and pre: "NormalizePrefix pre = Inr (sc_prefix c)" and raw: "normalEndpoint raw = Inr (sc_endpoint c)"
    and c: "sc_ttl c = ttl" "bucketOk (sc_bucket c)" "regionOk (sc_region c)" "secretOk (sc_access c)" "secretOk (sc_secret c)"
      "\<not> containsAny (sc_token c) nulCrLf"
    unfolding loadStorageSingle_def Let_def ok_iff by (fastforce simp: ok_iff split: if_splits)
  have "60 * nanosPerSecond \<le> ttl" "ttl \<le> 900 * nanosPerSecond"
    using boundedDuration_bound [OF ttl] by (auto simp: nanosPerSecond_def)
  with c raw NormalizePrefix_idem [OF pre] assms(3,4) show ?thesis
    by (auto simp: destinationOk_def configured_def bucketOk_ne secretOk_ne)
qed

lemma single_provider: "loadStorageSingle vars = Inr (p, c) \<Longrightarrow> p = orDefault vars ''PHOTODROP_STORAGE_PROVIDER'' ''local''"
  unfolding loadStorageSingle_def Let_def ok_iff by (auto simp: ok_iff split: if_splits)

definition destinationsOk :: "(string \<times> s3_settings) list \<Rightarrow> bool" where
  "destinationsOk bs \<longleftrightarrow> distinct (map fst bs) \<and> list_all destinationOk bs"

lemma addBackend_ok:
  assumes "destinationsOk bs" and "addBackend vars key bs = Inr cs"
  shows "destinationsOk cs"
proof -
  from assms(2) obtain p c where c: "ValidBackendKey key" "key \<noteq> localBackendKey" "key \<notin> fst ` set bs"
    "loadStorageSingle (keyedEnv key vars) = Inr (p, c)" "cs = bs @ [(key, c)]"
    unfolding addBackend_def ok_iff by (auto split: prod.splits)
  have "p = ''s3''" using single_provider [OF c(4)] by (simp add: orDefault_def keyedEnv_def)
  then have "destinationOk (key, c)" using single_ok [OF c(4) _ c(1,2)] by (simp add: neededS3_def)
  with assms(1) c show ?thesis by (auto simp: destinationsOk_def)
qed

lemma singleBackend_ok:
  assumes "loadStorageSingle vars = Inr (p, c)" and "singleBackend key c = Inr bs" and "key \<noteq> [] \<longrightarrow> ValidBackendKey key"
  shows "destinationsOk bs"
proof (cases "configured c")
  case True
  with assms(2) have k: "key \<noteq> []" "key \<noteq> localBackendKey" "bs = [(key, c)]"
    unfolding singleBackend_def ok_iff by (auto simp: ok_iff)
  have "destinationOk (key, c)"
    using single_ok [OF assms(1)] True k assms(3) by (auto simp: neededS3_def configured_def)
  with k show ?thesis by (simp add: destinationsOk_def)
next
  case False
  with assms(2) show ?thesis by (simp add: singleBackend_def destinationsOk_def)
qed

lemma localBackendKey_valid: "ValidBackendKey localBackendKey"
  by code_simp

lemma loadStorage_ok:
  assumes "loadStorage vars = Inr s"
  shows "storageOk s"
proof -
  define key where "key = orDefault vars ''PHOTODROP_STORAGE_BACKEND_KEY'' []"
  from assms obtain c bs cs keys p where
    c: "loadStorageSingle (vars(''PHOTODROP_STORAGE_PROVIDER'' \<mapsto> ''local'')) = Inr c"
    and key: "\<not> (key \<noteq> [] \<and> \<not> ValidBackendKey key)"
    and bs: "singleBackend key (snd c) = Inr bs" and cs: "eachR (addBackend vars) keys bs = Inr cs"
    and p: "\<not> (p \<noteq> ''local'' \<and> p \<noteq> ''s3'')" "\<not> (p = ''s3'' \<and> key \<notin> fst ` set cs)"
    and s: "\<lparr>cs_backends = cs, cs_provider = p, cs_active = (if p \<noteq> ''s3'' \<and> key = [] then localBackendKey else key)\<rparr> = s"
    unfolding loadStorage_def Let_def split_beta ok_iff key_def [symmetric] sum.inject by blast
  have "destinationsOk bs" using singleBackend_ok [of _ "fst c" "snd c"] c bs key by auto
  then have "destinationsOk cs" by (rule eachR_inv [OF cs]) (rule addBackend_ok)
  with p key localBackendKey_valid show ?thesis
    by (auto simp: storageOk_def destinationsOk_def simp flip: s)
qed

section \<open>Sign-in\<close>

definition oidcOk :: "oidc_config \<Rightarrow> bool" where
  "oidcOk c \<longleftrightarrow>
     issuerOk (oc_issuer c) \<and> credentialText (oc_client c) \<and> credentialText (oc_secret c) \<and>
     oc_subjects c @ oc_groups c \<noteq> [] \<and> length (oc_subjects c) \<le> 64 \<and> length (oc_groups c) \<le> 64 \<and>
     list_all (\<lambda>v. v \<noteq> [] \<and> length v \<le> 512) (oc_subjects c @ oc_groups c) \<and>
     oc_claim c \<noteq> [] \<and> hd (oc_scopes c) = ''openid'' \<and> distinct (oc_scopes c) \<and> list_all scopeOk (oc_scopes c)"

definition scopesOk :: "string list \<Rightarrow> bool" where
  "scopesOk ss \<longleftrightarrow> ss \<noteq> [] \<and> hd ss = ''openid'' \<and> distinct ss \<and> list_all scopeOk ss"

lemma addScope_ok: "scopesOk ss \<Longrightarrow> addScope s ss = Inr ts \<Longrightarrow> scopesOk ts"
  by (auto simp: scopesOk_def addScope_def split: if_splits)

lemma openid_ok: "scopesOk [''openid'']"
  by code_simp

lemma allowlist_ok:
  "allowlist vars name = Some vs \<Longrightarrow> length vs \<le> 64 \<and> list_all (\<lambda>v. v \<noteq> [] \<and> length v \<le> 512) vs"
  unfolding allowlist_def Let_def by (auto split: if_splits elim!: list.pred_mono_strong)

lemma allowlists_ok:
  assumes "allowlists vars = Inr p"
  shows "length (fst p) \<le> 64 \<and> length (snd p) \<le> 64 \<and> list_all (\<lambda>v. v \<noteq> [] \<and> length v \<le> 512) (fst p @ snd p)"
proof -
  from assms have "allowlist vars ''PHOTODROP_OIDC_ALLOWED_SUBJECTS'' = Some (fst p)"
    "allowlist vars ''PHOTODROP_OIDC_ALLOWED_GROUPS'' = Some (snd p)"
    unfolding allowlists_def by (simp_all split: option.splits) auto
  from this [THEN allowlist_ok] show ?thesis by simp
qed

lemma loadOIDC_ok:
  assumes "loadOIDC vars base = Inr c"
  shows "oidcOk c \<and> ValidOIDCURL base"
proof -
  from assms obtain issuer client secret p claim raw scopes where
    u: "\<not> (base = [] \<or> \<not> ValidOIDCURL base)"
    and t: "\<not> (\<not> credentialText issuer \<or> \<not> credentialText client \<or> \<not> credentialText secret)"
    and i: "\<not> \<not> issuerOk issuer" and p: "allowlists vars = Inr p"
    and ne: "\<not> (fst p = [] \<and> snd p = [])"
    and cl: "\<not> (claim = [] \<or> 256 < length claim \<or> list_ex isSpaceRune (runes claim) \<or> hasControl claim)"
    and sc: "eachR addScope (splitAt CHR '' '' raw) [''openid''] = Inr scopes"
    and c: "\<lparr>oc_issuer = issuer, oc_client = client, oc_secret = secret, oc_subjects = fst p, oc_groups = snd p,
           oc_claim = claim, oc_scopes = scopes\<rparr> = c"
    unfolding loadOIDC_def Let_def split_beta ok_iff sum.inject by blast
  have "scopesOk scopes" by (rule eachR_inv [where I = scopesOk, OF sc openid_ok]) (rule addScope_ok)
  with u t i allowlists_ok [OF p] ne cl show ?thesis
    by (simp add: oidcOk_def scopesOk_def flip: c)
qed

lemma loadAuth_ok:
  assumes "loadAuth vars base = Inr (mode, c)"
  shows "(PasswordEnabled mode \<or> OIDCEnabled mode) \<and> (OIDCEnabled mode \<longrightarrow> oidcOk c \<and> ValidOIDCURL base)"
  using assms loadOIDC_ok [of vars base c] unfolding loadAuth_def Let_def ok_iff
  by (auto simp: ok_iff PasswordEnabled_def OIDCEnabled_def split: if_splits)

section \<open>Immich targets\<close>

definition targetOk :: "string \<times> immich_settings \<Rightarrow> bool" where
  "targetOk kt \<longleftrightarrow>
     (case kt of (key, t) \<Rightarrow>
        ValidBackendKey key \<and> \<not> containsAny (ic_key t) nulCrLf \<and> length (ic_key t) \<le> 4096 \<and>
        (ic_url t = [] \<and> ic_key t = [] \<or> (\<exists>raw. NormalizeImmichURL raw = Inr (ic_url t))) \<and>
        (ic_public t = [] \<or> (\<exists>raw. NormalizeImmichURL raw = Inr (ic_public t))))"

definition targetsOk :: "(string \<times> immich_settings) list \<Rightarrow> bool" where
  "targetsOk ts \<longleftrightarrow> distinct (map fst ts) \<and> list_all targetOk ts"

lemma addTarget_ok:
  assumes "targetsOk ts" and "addTarget vars key ts = Inr us"
  shows "targetsOk us"
proof -
  from assms(2) obtain raw url public secret where us: "us = ts @ [(key, \<lparr>ic_url = url, ic_public = public, ic_key = secret\<rparr>)]"
    and key: "ValidBackendKey key" "key \<notin> fst ` set ts"
    and secret: "secret = [] \<or> length secret \<le> 4096 \<and> \<not> containsAny secret nulCrLf"
    and url: "url = [] \<and> secret = [] \<or> NormalizeImmichURL raw = Inr url"
    and public: "public = [] \<or> NormalizeImmichURL (orDefault vars (immichVariable key ''PUBLIC_URL'') []) = Inr public"
    unfolding addTarget_def Let_def ok_iff by (fastforce simp: ok_iff split: if_splits)
  from key secret url public have "targetOk (key, \<lparr>ic_url = url, ic_public = public, ic_key = secret\<rparr>)"
    by (auto simp: targetOk_def containsAny_def)
  with us key assms(1) show ?thesis by (auto simp: targetsOk_def)
qed

lemma loadImmich_ok: 
  assumes "loadImmich vars = Inr c"
  shows "targetsOk (cm_targets c)"
proof -
  from assms obtain keys where ts: "eachR (addTarget vars) keys [] = Inr (cm_targets c)"
    unfolding loadImmich_def Let_def ok_iff by (fastforce simp: ok_iff)
  show ?thesis by (rule eachR_inv [OF ts]) (simp add: targetsOk_def, rule addTarget_ok)
qed

text \<open>Unlike those of backends, the variables of two targets can be the same one: the public address of \<open>home\<close> is the
address of \<open>home-public\<close>.\<close>

definition exShared :: variables where
  "exShared = map_of [(''PHOTODROP_IMMICH_TARGETS'', ''home,home-public''),
     (''PHOTODROP_IMMICH_HOME_URL'', ''https://a.test''), (''PHOTODROP_IMMICH_HOME_API_KEY'', ''k''),
     (''PHOTODROP_IMMICH_HOME_PUBLIC_URL'', ''https://b.test''), (''PHOTODROP_IMMICH_HOME_PUBLIC_API_KEY'', ''l'')]"

lemma loadImmich_shared:
  "loadImmich exShared = Inr \<lparr>cm_targets =
     [(''home'', \<lparr>ic_url = ''https://a.test'', ic_public = ''https://b.test'', ic_key = ''k''\<rparr>),
      (''home-public'', \<lparr>ic_url = ''https://b.test'', ic_public = [], ic_key = ''l''\<rparr>)], cm_active = []\<rparr>"
  by code_simp

section \<open>The configuration\<close>

definition configOk :: "config \<Rightarrow> bool" where
  "configOk c \<longleftrightarrow>
     listenOk (cf_listen c) \<and> dataDirOk (cf_data c) \<and> 1 \<le> cf_max_file c \<and> cf_max_file c \<le> 1024 * 1024 * 1024 \<and>
     (\<exists>raw. normalBase raw = Inr (cf_base c)) \<and>
     (PasswordEnabled (cf_auth c) \<or> OIDCEnabled (cf_auth c)) \<and>
     (PasswordEnabled (cf_auth c) \<longrightarrow> adminPasswordOk (cf_password c)) \<and>
     (OIDCEnabled (cf_auth c) \<longrightarrow> oidcOk (cf_oidc c) \<and> ValidOIDCURL (cf_base c)) \<and>
     storageOk (cf_storage c) \<and> securityOk (cf_security c) \<and> targetsOk (cm_targets (cf_immich c))"

lemma maxFileSize_ok: "maxFileSize vars = Inr n \<Longrightarrow> 1 \<le> n \<and> n \<le> 1024 * 1024 * 1024"
  by (auto simp: maxFileSize_def DefaultMaxFileSize_def split: option.splits if_splits)

lemma parse_configOk:
  assumes "parse vars = Inr c"
  shows "configOk c"
proof -
  from assms obtain raw base where l: "listenOk (cf_listen c)" "dataDirOk (cf_data c)"
    and size: "maxFileSize vars = Inr (cf_max_file c)" and base: "normalBase raw = Inr (cf_base c)"
    and auth: "loadAuth vars (cf_base c) = Inr (cf_auth c, cf_oidc c)"
    and pw: "\<not> (PasswordEnabled (cf_auth c) \<and> \<not> adminPasswordOk (cf_password c))"
    and st: "loadStorage vars = Inr (cf_storage c)" and sec: "loadSecurity vars (cf_base c) = Inr (cf_security c)"
    and im: "loadImmich vars = Inr (cf_immich c)"
    unfolding parse_def Let_def ok_iff by (fastforce simp: ok_iff split: prod.splits)
  from l pw base maxFileSize_ok [OF size] loadAuth_ok [OF auth] loadStorage_ok [OF st] loadSecurity_ok [OF sec] loadImmich_ok [OF im]
  show ?thesis unfolding configOk_def by blast
qed

text \<open>The export command reads the same storage as the server.\<close>

lemma LoadExport_agrees: "parse vars = Inr c \<Longrightarrow> LoadExport vars = Inr (cf_data c, cf_storage c)"
  unfolding parse_def LoadExport_def Let_def ok_iff by (fastforce simp: ok_iff split: prod.splits)

lemma parse_listen: "parse vars = Inr c \<Longrightarrow> listenOk (cf_listen c)"
  unfolding parse_def Let_def ok_iff by (auto simp: ok_iff split: prod.splits)

end
