(* ===== verification/CommandsSafe.thy ===== *)
theory CommandsSafe
  imports Commands StartupSafe ConfigSafe
begin

text \<open>
  What the commands guarantee: the identifier that the administrator's page shows is the one that the export's flags
  give, an export changes nothing but the rows of the destinations, and every accepted configuration can be probed.
\<close>

section \<open>Numbers\<close>

lemma parseUint0_nonneg: "parseUint0 s = Some n \<Longrightarrow> 0 \<le> n"
proof -
  have digit: "0 \<le> d" if "anyDigit c = Some d" for c d
    using that by (auto simp: anyDigit_def isDigit_def byteIn_def split: if_splits)
  have "readDigits b ds m = Some n \<Longrightarrow> 0 \<le> m \<Longrightarrow> 0 \<le> b \<Longrightarrow> 0 \<le> n" for b ds m
    by (induction b ds m rule: readDigits.induct) (auto split: if_splits option.splits dest: digit)
  moreover have "0 \<le> fst (basePrefix s)" by (auto simp: basePrefix_def split: list.split)
  ultimately show "parseUint0 s = Some n \<Longrightarrow> 0 \<le> n"
    by (fastforce simp: parseUint0_def split: if_splits prod.splits option.splits)
qed

lemma parseInt0_range: "parseInt0 s = Some n \<Longrightarrow> - (2 ^ 63) \<le> n \<and> n < 2 ^ 63"
  by (auto simp: parseInt0_def split: list.splits option.splits if_splits dest: parseUint0_nonneg)

text \<open>A plain decimal number means itself.\<close>

lemma readDigits_append: "readDigits b (s @ t) n = Option.bind (readDigits b s n) (readDigits b t)"
  by (induction b s n rule: readDigits.induct) (auto split: option.splits)

lemma readDigits_decN: "0 \<le> n \<Longrightarrow> readDigits 10 (decN n) 0 = Some n"
proof (induction n rule: decN.induct)
  case (1 n)
  have last: "readDigits 10 [digitChar d] m = Some (m * 10 + d)" if "0 \<le> d" "d < 10" for d m
  proof -
    have "isDigit (digitChar d)" and "byteVal (digitChar d) = 48 + d" using that by (simp_all add: digitChar_digit byteVal_digitChar)
    moreover from this(1) have "digitChar d \<noteq> CHR ''_''" by (auto simp: isDigit_def byteIn_def byteVal_def)
    ultimately show ?thesis using that by (simp add: anyDigit_def)
  qed
  show ?case
  proof (cases "n < 10")
    case True
    with 1 show ?thesis using last [of n 0] by (simp add: decN_small)
  next
    case False
    with 1 have "readDigits 10 (decN (n div 10)) 0 = Some (n div 10)" by simp
    then show ?thesis using last [of "n mod 10" "n div 10"] by (simp add: decN_large [OF False] readDigits_append)
  qed
qed

lemma parseInt0_decN: "0 < n \<Longrightarrow> n < 2 ^ 63 \<Longrightarrow> parseInt0 (decN n) = Some n"
proof -
  assume n: "0 < n" "n < 2 ^ 63"
  obtain c r where s: "decN n = c # r" by (cases "decN n") auto
  have digits: "isDigit x" if "x \<in> set (decN n)" for x using n decN_digits [OF _ that] by simp
  have c: "c \<noteq> CHR ''0''" "c \<noteq> CHR ''+''" "c \<noteq> CHR ''-''"
    using decN_hd [OF n(1)] digits [of c] by (auto simp: s isDigit_def byteIn_def byteVal_def)
  have "CHR ''_'' \<notin> set (decN n)" using digits [of "CHR ''_''"] by (auto simp: isDigit_def byteIn_def byteVal_def)
  moreover have "basePrefix (decN n) = (10, decN n)" using c by (simp add: basePrefix_def s split: list.split)
  ultimately have "parseUint0 (decN n) = Some n" using readDigits_decN [of n] n by (simp add: parseUint0_def)
  then show ?thesis using c n by (simp add: parseInt0_def s)
qed

section \<open>Flags\<close>

lemma parseFlags_step:
  assumes "parseFlags (s # args) p = Some r"
  shows "r = p \<or> (\<exists>name v q args'. setFlag name v p = Some q \<and> length args' \<le> length args \<and> parseFlags args' q = Some r)"
proof -
  have "\<exists>name v q args'. setFlag name v p = Some q \<and> length args' \<le> length args \<and> parseFlags args' q = Some r"
    if "setFlag name v p = Some q" "parseFlags args' q = Some r" "length args' \<le> length args" for name v q args'
    using that by blast
  with assms show ?thesis
    by (auto simp: Let_def split: if_splits option.splits prod.splits list.splits)
qed

lemma parseFlags_range: "parseFlags args p = Some r \<Longrightarrow> fst p < 2 ^ 63 \<Longrightarrow> fst r < 2 ^ 63"
proof (induction "length args" arbitrary: args p rule: less_induct)
  case less
  have set: "fst q < 2 ^ 63" if "setFlag name v p = Some q" for name v q
    using that less.prems(2) by (auto simp: setFlag_def split: if_splits dest: parseInt0_range)
  show ?case
  proof (cases args)
    case (Cons s rest)
    from less.prems(1) have "r = p \<or> (\<exists>name v q args'. setFlag name v p = Some q \<and> length args' \<le> length rest \<and> parseFlags args' q = Some r)"
      unfolding Cons by (rule parseFlags_step)
    then show ?thesis
    proof
      assume "\<exists>name v q args'. setFlag name v p = Some q \<and> length args' \<le> length rest \<and> parseFlags args' q = Some r"
      then obtain name v q args' where q: "setFlag name v p = Some q" "length args' < length args" "parseFlags args' q = Some r"
        unfolding Cons by (metis le_imp_less_Suc length_Cons)
      from less.hyps [OF q(2,3) set [OF q(1)]] show ?thesis .
    qed (use less.prems(2) in simp)
  qed (use less in simp)
qed

lemma exportFlags_range: "exportFlags args = Some (i, out) \<Longrightarrow> 1 \<le> i \<and> i < 2 ^ 63 \<and> out \<noteq> []"
  using parseFlags_range [of args "(0, [])" "(i, out)"] by (auto simp: exportFlags_def split: option.splits if_splits)

lemma exportFlags_plain:
  assumes "1 \<le> i" and "i < 2 ^ 63" and "out \<noteq> []"
  shows "exportFlags [''--event'', decI i, ''--output'', out] = Some (i, out)"
proof -
  have "decI i = decN i" using assms by (simp add: decI_pos)
  moreover have "setFlag ''event'' (decN i) (0, []) = Some (i, [])" using assms by (simp add: setFlag_def parseInt0_decN)
  moreover have "setFlag ''output'' out (i, []) = Some (i, out)" by (simp add: setFlag_def)
  ultimately show ?thesis using assms by (simp add: exportFlags_def cutAt_def)
qed

section \<open>The health check\<close>

definition plainHost :: "char \<Rightarrow> bool" where
  "plainHost c \<longleftrightarrow> isLetter c \<or> isDigit c \<or> c \<in> set ''-.:[]''"

lemma plainHost_byte: "plainHost c \<Longrightarrow> hostByte c \<and> c \<notin> set ''%#?/@'' \<and> 32 \<le> byteVal c \<and> byteVal c \<noteq> 127"
  by (auto simp: plainHost_def hostByte_def isLetter_def isDigit_def byteIn_def byteVal_def)

lemma unescapeHost_plain: "\<forall>c \<in> set s. plainHost c \<Longrightarrow> unescapeHost s = Some s"
  by (induction s) (auto dest: plainHost_byte)

lemma parseURL_probe:
  assumes "parseHost hp = Some host" and plain: "\<forall>c \<in> set hp. plainHost c"
  shows "parseURL (''http://'' @ hp @ ''/healthz'') \<noteq> None"
proof -
  let ?u = "''http://'' @ hp @ ''/healthz''" and ?r = "''//'' @ hp @ ''/healthz''"
  have chars: "c \<notin> set ''%#?/@'' \<and> \<not> (byteVal c < 32 \<or> byteVal c = 127)" if "c \<in> set hp" for c
    using plain that plainHost_byte [of c] by auto
  have "CHR ''#'' \<notin> set ?u" and q: "CHR ''?'' \<notin> set ?r" using chars by auto
  then have cut: "cutAt CHR ''#'' ?u = (?u, None)" "cutAt CHR ''?'' ?r = (?r, None)" using cutAt_none by blast+
  have ctl: "\<not> list_ex (\<lambda>c. byteVal c < 32 \<or> byteVal c = 127) ?u"
    using chars unfolding list_ex_iff by (auto simp: byteVal_def)
  have scheme: "getScheme ?u = Some (''http'', ?r)"
    by (simp add: getScheme_def schemeChar_def isLetter_def isDigit_def byteIn_def byteVal_def)
  have suffix: "\<not> hasSuffix ?r ''?''" by (simp add: hasSuffix_def hasPrefix_def)
  have slash: "takeWhile (\<lambda>c. c \<noteq> CHR ''/'') (hp @ ''/healthz'') = hp" "dropWhile (\<lambda>c. c \<noteq> CHR ''/'') (hp @ ''/healthz'') = ''/healthz''"
    using chars by (induction hp) auto
  have "CHR ''@'' \<notin> set (rev hp)" using chars by auto
  then have at: "cutLast CHR ''@'' hp = None" by (simp add: cutLast_def cutAt_none)
  have lower: "toLower ''http'' = ''http''" by code_simp
  have "parseRest (emptyUrl\<lparr>u_scheme := toLower ''http'', u_query := []\<rparr>) ?r \<noteq> None"
    using assms(1) slash at by (simp add: parseRest_def hasPrefix_def lower)
  moreover have "?u \<noteq> ''*''" by simp
  ultimately show ?thesis
    using ctl suffix unfolding parseURL_def cut(1) prod.case option.case by (simp only: scheme cut(2) if_False prod.case option.case) simp
qed

lemma splitAt_octets: "list_all octetOk (splitAt CHR ''.'' s) \<Longrightarrow> c \<in> set s \<Longrightarrow> c = CHR ''.'' \<or> isDigit c"
  using splitAt_chars [of "CHR ''.''" s isDigit c] by (auto simp: octetOk_def list_all_iff)

lemma parseIPv4_chars: "parseIPv4 s = Some q \<Longrightarrow> c \<in> set s \<Longrightarrow> c = CHR ''.'' \<or> isDigit c"
  using splitAt_octets [of s c] by (auto simp: parseIPv4_def Let_def split: if_splits)

lemma parseFields_chars:
  "parseFields n s ip ell = Some r \<Longrightarrow> c \<in> set s \<Longrightarrow> isHex c \<or> c = CHR '':'' \<or> c = CHR ''.''"
proof (induction n arbitrary: s ip ell)
  case (Suc n)
  show ?case
  proof (cases "isHex c")
    case False
    then have c: "c \<in> set (dropWhile isHex s)"
      using Suc.prems(2) by (metis Un_iff set_append set_takeWhileD takeWhile_dropWhile_id)
    then obtain d r' where r: "dropWhile isHex s = d # r'" by (cases "dropWhile isHex s") auto
    have four: "isHex c \<or> c = CHR ''.''" if "parseIPv4 s = Some q" for q
      using parseIPv4_chars [OF that Suc.prems(2)] by (auto simp: isHex_def isLowerHex_def isDigit_def)
    show ?thesis
    proof (cases "hasPrefix (d # r') ''.''")
      case True
      with Suc.prems(1) four show ?thesis by (auto simp: Let_def r split: if_splits option.splits)
    next
      case dot: False
      with Suc.prems(1) have d: "d = CHR '':''" "r' \<noteq> []" by (auto simp: Let_def r split: if_splits)
      then obtain x q where x: "r' = x # q" by (cases r') auto
      from Suc.prems(1) dot d x have "(x = CHR '':'' \<and> q = []) \<or> (x = CHR '':'' \<and> (\<exists>ip k. parseFields n q ip (Some k) = Some r)) \<or>
          (\<exists>ip. parseFields n r' ip ell = Some r)" by (auto simp: Let_def r split: if_splits)
      moreover have "c = d \<or> c = x \<or> c \<in> set q" using c by (auto simp: r x)
      ultimately show ?thesis using d(1) Suc.IH [of q] Suc.IH [of r'] by (auto simp: x)
    qed
  qed simp
qed (simp split: if_splits)

lemma hex_plainHost: "isHex c \<or> c = CHR '':'' \<or> c = CHR ''.'' \<Longrightarrow> plainHost c \<and> c \<notin> set ''[]''"
  by (auto simp: plainHost_def isHex_def isLowerHex_def isLetter_def isDigit_def byteIn_def byteVal_def)

text \<open>A host with a colon that is accepted is an IPv6 address without a zone.\<close>

lemma validHost_ipv6:
  assumes "validHost h" and "CHR '':'' \<in> set h"
  shows "\<exists>ip. parseAddr h = Some (V6 ip [])" and "\<forall>c \<in> set h. isHex c \<or> c = CHR '':'' \<or> c = CHR ''.''"
proof -
  have "\<not> list_all labelOk (splitAt CHR ''.'' (if hasSuffix h ''.'' then butlast h else h))"
  proof
    assume labels: "list_all labelOk (splitAt CHR ''.'' (if hasSuffix h ''.'' then butlast h else h))"
    have "CHR '':'' \<in> set (if hasSuffix h ''.'' then butlast h else h)"
      using assms(2) by (cases h rule: rev_cases) (auto simp: hasSuffix_def hasPrefix_def split: if_splits)
    with labels splitAt_chars [of "CHR ''.''" _ "\<lambda>c. isLetter c \<or> isDigit c \<or> c = CHR ''-''" "CHR '':''"] show False
      by (fastforce simp: list_all_iff labelOk_def isLetter_def isDigit_def byteIn_def byteVal_def)
  qed
  with assms(1) obtain a where a: "parseAddr h = Some a" "zoneOf a = []"
    by (auto simp: validHost_def parseIP_def split: option.splits if_splits)
  from a(1) obtain c where c: "find (\<lambda>c. c \<in> set ''.:%'') h = Some c" by (auto simp: parseAddr_def split: option.splits)
  have "c \<noteq> CHR ''.''"
  proof
    assume "c = CHR ''.''"
    with a(1) c obtain q where "parseIPv4 h = Some q" by (auto simp: parseAddr_def)
    from parseIPv4_chars [OF this assms(2)] show False by (auto simp: isDigit_def byteIn_def byteVal_def)
  qed
  with a(1) c have six: "parseIPv6 h = Some a" by (auto simp: parseAddr_def split: if_splits)
  with a(2) have none: "CHR ''%'' \<notin> set h"
  proof -
    have "snd (cutAt CHR ''%'' h) = None"
      using six a(2) by (auto simp: parseIPv6_def split: prod.splits option.splits list.splits)
    then have "dropWhile (\<lambda>x. x \<noteq> CHR ''%'') h = []" by (auto simp: cutAt_def split: list.splits)
    then show ?thesis by (auto simp: dropWhile_eq_Nil_conv)
  qed
  then have bytes: "cutAt CHR ''%'' h = (h, None)" by (rule cutAt_none)
  with six obtain ip where ip: "parseIPv6Bytes h = Some ip" "a = V6 ip []" by (auto simp: parseIPv6_def)
  then show "\<exists>ip. parseAddr h = Some (V6 ip [])" using a(1) by blast
  show "\<forall>c \<in> set h. isHex c \<or> c = CHR '':'' \<or> c = CHR ''.''"
  proof
    fix c assume c: "c \<in> set h"
    show "isHex c \<or> c = CHR '':'' \<or> c = CHR ''.''"
    proof (cases "hasPrefix h ''::''")
      case True
      then obtain r where h: "h = CHR '':'' # CHR '':'' # r" by (auto simp: hasPrefix_def length_Suc_conv numeral_2_eq_2) (metis append_Cons append_Nil append_take_drop_id)
      with ip c parseFields_chars [of 8 r "[]" "Some 0" _ c] show ?thesis
        by (auto simp: parseIPv6Bytes_def hasPrefix_def split: if_splits Option.bind_splits)
    next
      case False
      with ip c parseFields_chars [of 8 h "[]" None _ c] show ?thesis
        by (auto simp: parseIPv6Bytes_def hasPrefix_def split: if_splits Option.bind_splits)
    qed
  qed
qed

lemma validHost_plain:
  assumes "validHost h" and "CHR '':'' \<notin> set h" and "c \<in> set h"
  shows "plainHost c \<and> c \<notin> set ''[]''"
proof (cases "parseIP h")
  case None
  with assms(1) have labels: "list_all labelOk (splitAt CHR ''.'' (if hasSuffix h ''.'' then butlast h else h))" by (simp add: validHost_def)
  let ?P = "\<lambda>c. isLetter c \<or> isDigit c \<or> c = CHR ''-''"
  have "\<forall>p \<in> set (splitAt CHR ''.'' (if hasSuffix h ''.'' then butlast h else h)). \<forall>d \<in> set p. ?P d"
    using labels by (auto simp: list_all_iff labelOk_def)
  moreover have "c = CHR ''.'' \<or> c \<in> set (if hasSuffix h ''.'' then butlast h else h)"
    using assms(3) by (cases h rule: rev_cases) (auto simp: hasSuffix_def hasPrefix_def)
  ultimately have "c = CHR ''.'' \<or> ?P c" using splitAt_chars [where P = ?P] by blast
  then show ?thesis by (auto simp: plainHost_def isLetter_def isDigit_def byteIn_def byteVal_def)
next
  case (Some a)
  have "find (\<lambda>c. c \<in> set ''.:%'') h \<noteq> Some (CHR '':'')" using assms(2) by (auto dest!: find_SomeD)
  with Some obtain q where "parseIPv4 h = Some q"
    by (auto simp: parseIP_def parseAddr_def split: option.splits if_splits)
  from parseIPv4_chars [OF this assms(3)] show ?thesis by (auto simp: plainHost_def isDigit_def byteIn_def byteVal_def)
qed

lemma parseHost_join:
  assumes "validHost h" and "validPort p"
  shows "\<exists>x. parseHost (joinHostPort h p) = Some x" and "\<forall>c \<in> set (joinHostPort h p). plainHost c"
proof -
  have digits: "isDigit c" if "c \<in> set p" for c using assms(2) that by (simp add: validPort_def list_all_iff)
  have port: "plainHost c \<and> c \<notin> set '':[]''" if "c \<in> set p" for c
    using digits [OF that] by (auto simp: plainHost_def isDigit_def byteIn_def byteVal_def)
  have fixed: "plainHost CHR '':''" "plainHost CHR ''[''" "plainHost CHR '']''" by (simp_all add: plainHost_def)
  show plain: "\<forall>c \<in> set (joinHostPort h p). plainHost c"
    using validHost_plain [OF assms(1)] validHost_ipv6(2) [OF assms(1)] hex_plainHost port fixed
    by (auto simp: joinHostPort_def)
  show "\<exists>x. parseHost (joinHostPort h p) = Some x"
  proof (cases "CHR '':'' \<in> set h")
    case True
    from validHost_ipv6 [OF assms(1) True] obtain ip where ip: "parseAddr h = Some (V6 ip [])"
      and chars: "\<forall>c \<in> set h. plainHost c" using hex_plainHost by blast
    have "CHR '']'' \<notin> set (rev p @ '':'')" using port by auto
    then have "cutAt CHR '']'' ((rev p @ '':'') @ CHR '']'' # rev h @ ''['') = (rev p @ '':'', Some (rev h @ ''[''))" by (rule cutAt_first)
    then have cut: "cutLast CHR '']'' (joinHostPort h p) = Some (CHR ''['' # h, CHR '':'' # p)"
      using True by (simp add: cutLast_def joinHostPort_def)
    have "validOptionalPort (CHR '':'' # p)" using digits by (simp add: validOptionalPort_def list_all_iff)
    moreover have "unescapeHost (joinHostPort h p) = Some (joinHostPort h p)" "unescapeHost h = Some h"
      using plain chars by (simp_all add: unescapeHost_plain)
    moreover have "hasPrefix (joinHostPort h p) ''[''" "CHR ''['' \<in> set (joinHostPort h p)" using True by (simp_all add: joinHostPort_def hasPrefix_def)
    ultimately show ?thesis using ip by (simp add: parseHost_def cut)
  next
    case False
    then have join: "joinHostPort h p = h @ CHR '':'' # p" by (simp add: joinHostPort_def)
    have "CHR ''['' \<notin> set (joinHostPort h p)" using validHost_plain [OF assms(1) False] port by (auto simp: join)
    moreover have "list_all isDigit p" using digits by (simp add: list_all_iff)
    ultimately show ?thesis
      using cutAt_first [OF False, of p] unescapeHost_plain [OF plain] by (simp add: parseHost_def join)
  qed
qed

text \<open>Every address that the configuration accepts can be probed.\<close>

lemma probeURL_total:
  assumes "listenOk addr"
  shows "\<exists>host port. splitHostPort addr = Some (host, port) \<and>
    probeURL addr = Inr (''http://'' @ joinHostPort (probeHost host) port @ ''/healthz'')"
proof -
  from assms obtain host port where split: "splitHostPort addr = Some (host, port)" and port: "validPort port" and host: "host = [] \<or> validHost host"
    by (auto simp: listenOk_def split: option.splits)
  have "validHost ''127.0.0.1''" "validHost ''::1''" by code_simp+
  with host have "validHost (probeHost host)" by (auto simp: probeHost_def)
  from parseHost_join [OF this port] obtain x where "parseHost (joinHostPort (probeHost host) port) = Some x"
    and "\<forall>c \<in> set (joinHostPort (probeHost host) port). plainHost c" by blast
  from parseURL_probe [OF this] split show ?thesis by (simp add: probeURL_def Let_def)
qed

section \<open>The export command\<close>

definition exportService :: "backend_set \<Rightarrow> service" where
  "exportService bs = mediaService bs (Defaults noSecurity) DefaultMaxFileSize"

text \<open>What the command did to the tables: nothing, or the registration of the destinations.\<close>

definition registered :: "storage_config \<Rightarrow> world \<Rightarrow> world \<Rightarrow> bool" where
  "registered cfg w t \<longleftrightarrow> wdb t = wdb w \<or> (\<exists>bs. startedPost cfg (wdb w) (Inr bs) t)"

lemma exportEvent_refused:
  "exportFlags args = None \<or> isl (LoadExport vars) \<Longrightarrow> \<exists>e. exportEvent lower r vars args w = (Inl e, w)"
  by (auto simp: exportEvent_def raise_def bindE_def liftE_def isl_def split: option.split prod.split)

lemma exportEvent_result:
  assumes "exportFlags args = Some (i, out)" and "LoadExport vars = Inr (data, cfg)"
  shows "wpE (exportEvent lower r vars args)
    (\<lambda>_ t. \<exists>bs v. startedPost cfg (wdb w) (Inr bs) v \<and> onlyTables w v \<and> reads v t \<and> exportDone lower (exportService bs) i v t)
    (\<lambda>t. registered cfg w t \<and> files t = files w \<and>
      (outputDir t = outputDir w \<or> (\<exists>bs v. wdb v = wdb t \<and> onlyTables w v \<and> exportLeaves lower (exportService bs) i v t))) w"
proof -
  let ?E = "\<lambda>t. registered cfg w t \<and> files t = files w \<and>
      (outputDir t = outputDir w \<or> (\<exists>bs v. wdb v = wdb t \<and> onlyTables w v \<and> exportLeaves lower (exportService bs) i v t))"
  let ?S = "\<lambda>t. wdb t = wdb w \<and> onlyTables w t"
  have E: "?S t \<Longrightarrow> ?E t" for t by (simp add: registered_def onlyTables_def)
  have sys: "wpE sysCall (\<lambda>_. ?S) ?E s" if "?S s" for s
    unfolding sysCall_def by (rule wpE_effect) (use that in \<open>auto simp: registered_def onlyTables_def\<close>)
  have local: "wpE (newLocal r) (\<lambda>_. ?S) ?E s" if "?S s" for s
    unfolding newLocal_def sysCall_def [symmetric]
    by (rule wpE_step [OF sys [OF that]], rule wpE_step, erule sys, rule wpE_failIf) (use E in auto)
  have run: "wpE (bindE (ReconcileBackends cfg) (\<lambda>bs. Run lower (exportService bs) i))
    (\<lambda>_ t. \<exists>bs v. startedPost cfg (wdb w) (Inr bs) v \<and> onlyTables w v \<and> reads v t \<and> exportDone lower (exportService bs) i v t) ?E s"
    if s: "?S s" for s
  proof (rule wpE_step)
    show "wpE (ReconcileBackends cfg) (\<lambda>bs t. startedPost cfg (wdb w) (Inr bs) t \<and> onlyTables w t) ?E s"
      by (rule wpE_mono [OF wpE_conj [OF ReconcileBackends_result wpE_upholds [OF ReconcileBackends_onlyTables]]])
        (use s in \<open>auto simp: registered_def onlyTables_def\<close>)
    fix bs v
    assume v: "startedPost cfg (wdb w) (Inr bs) v \<and> onlyTables w v"
    show "wpE (Run lower (exportService bs) i)
      (\<lambda>_ t. \<exists>bs v. startedPost cfg (wdb w) (Inr bs) v \<and> onlyTables w v \<and> reads v t \<and> exportDone lower (exportService bs) i v t) ?E v"
    proof (rule wpE_mono [OF Run_result])
      fix t assume t: "reads v t \<and> exportLeaves lower (exportService bs) i v t"
      with v have "registered cfg w t" by (auto simp: registered_def reads_def startedPost_def)
      with t v show "?E t" by (auto simp: reads_def onlyTables_def)
    qed (use v in blast)
  qed
  have "?S w" by (simp add: onlyTables_def)
  then show ?thesis
    unfolding exportEvent_def assms option.case prod.case exportService_def [symmetric]
    by (intro wpE_bindE wpE_liftE) (auto intro!: wpE_mono [OF sys] wpE_mono [OF local] wpE_mono [OF run] intro: wpE_bindE)
qed

lemma CheckHealth_result:
  assumes "parse vars = Inr c"
  shows "\<exists>host port. splitHostPort (cf_listen c) = Some (host, port) \<and>
    (CheckHealth get (cf_listen c) = Inr () \<longleftrightarrow> get (''http://'' @ joinHostPort (probeHost host) port @ ''/healthz'') = Some 200)"
  using probeURL_total [OF parse_listen [OF assms]] by (auto simp: CheckHealth_def split: option.split)

end
