(* ===== verification/SystemRun.thy ===== *)
theory SystemRun
  imports SystemSafe CommandsSafe
begin

text \<open>
  The server over time: starts, requests, maintenance and import rounds in any order, with faults and crashes
  anywhere, keep the invariant of SystemSafe. A start binds the configured destinations, so nothing is assumed of
  the application but that \<open>newServer\<close> made it.
\<close>

section \<open>What a start writes\<close>

lemma keep_NewManager: "upholds (keeping c m) (NewManager b password)"
proof -
  have "upholds (keeping c m) (hashPassword b password cost)" for cost
    unfolding upholds_def hashPassword_def by (auto simp: keeping_def split: option.split)
  then show ?thesis
    unfolding NewManager_def initialize_def readCredential_def
    by (intro keeping_up keep_dropSessions keep_saveCredential)
qed

lemma keep_ReconcileTargets: "upholds (keeping c m) (ReconcileTargets cfg)"
proof -
  have "upholds (keeping c m) (registerTarget ks)" for ks
    unfolding registerTarget_def by (intro keeping_up keep_insertTarget)
  then show ?thesis unfolding ReconcileTargets_def by (intro keeping_up)
qed

text \<open>The registration of destinations: new rows first, then the rows of old assets, which can only point to them.\<close>

lemma registerAll_schema: "upholds (keepsDB schemaOk) (registerAll kcs)"
proof -
  have "upholds (keepsDB schemaOk) (exec (insertBackend k c))" for k c
    by (rule keeps.up_exec) (auto simp: keepsDB_def intro: schema_insertBackend)
  then have "upholds (keepsDB schemaOk) (registerBackend kc)" for kc
    unfolding registerBackend_def by (intro keeps.up_rules keeps.up_world)
  then show ?thesis by (induction kcs) (auto intro!: keeps.up_rules)
qed

lemma bindLegacy_schema:
  assumes "schemaOk (wdb w)" and "\<forall>s \<in> snd ` set runtime. s3_id s \<in> backendIds (wdb w)"
  shows "wpE (bindLegacy runtime t) (\<lambda>_ v. schemaOk (wdb v) \<and> backends (wdb v) = backends (wdb w)) (\<lambda>_. True) w"
proof -
  have "wpE (bindE (exec (bindAssets (s3_id s) t)) (\<lambda>_. exec (bindRetired (s3_id s) t)))
      (\<lambda>_ v. schemaOk (wdb v) \<and> backends (wdb v) = backends (wdb w)) (\<lambda>_. True) w"
    if "filter (\<lambda>s. s3_target s = t) (map snd runtime) = [s]" for s
  proof -
    have "s \<in> snd ` set runtime" using arg_cong [OF that, of set] by auto
    with assms have s: "s3_id s \<in> backendIds (wdb w)" by blast
    show ?thesis
    proof (intro wpE_bindE wpE_exec TrueI)
      fix d u n d' v n'
      assume a: "bindAssets (s3_id s) t (wdb w) = Inr (d, u)" and r: "bindRetired (s3_id s) t (wdb (w\<lparr>wdb := d, tick := n\<rparr>)) = Inr (d', v)"
      have d: "backends d = backends (wdb w)" "schemaOk d"
        using a schema_bindAssets [OF a assms(1) s] by (auto simp: bindAssets_def)
      then have "s3_id s \<in> backendIds d" using s by (simp add: backendIds_def)
      then have "schemaOk d'" using schema_bindRetired [of "s3_id s" t d d' v] r d(2) by simp
      with r d(1) show "schemaOk (wdb (w\<lparr>wdb := d, tick := n\<rparr>\<lparr>wdb := d', tick := n'\<rparr>)) \<and>
          backends (wdb (w\<lparr>wdb := d, tick := n\<rparr>\<lparr>wdb := d', tick := n'\<rparr>)) = backends (wdb w)"
        by (auto simp: bindRetired_def)
    qed
  qed
  then show ?thesis
    unfolding bindLegacy_def by (auto split: list.splits intro!: wpE_raise)
qed

lemma boundTo_ids: "list_all2 (StartupSafe.boundTo d) kcs rs \<Longrightarrow> s \<in> snd ` set rs \<Longrightarrow> s3_id s \<in> backendIds d"
  using boundTo_sources [of d kcs rs s] by (auto simp: newS3_def backendIds_def)

lemma reconcileTx_schema:
  assumes "schemaOk (wdb w)"
  shows "wpE (reconcileTx cfg) (\<lambda>_ t. schemaOk (wdb t)) (\<lambda>_. True) w"
  unfolding reconcileTx_def Let_def
proof (rule wpE_step)
  show "wpE (registerAll kcs) (\<lambda>rs t. schemaOk (wdb t) \<and> (\<forall>r \<in> snd ` set rs. s3_id r \<in> backendIds (wdb t))) (\<lambda>_. True) w" for kcs
    by (rule wpE_mono [OF wpE_conj [OF wpE_upholds [OF registerAll_schema] registerAll_result]])
      (use assms in \<open>auto simp: keepsDB_def intro: boundTo_ids\<close>)
  fix runtime :: "(string \<times> s3cfg) list" and s :: world
  assume "schemaOk (wdb s) \<and> (\<forall>r \<in> snd ` set runtime. s3_id r \<in> backendIds (wdb s))"
  then have ok: "schemaOk (wdb s)" and ids: "\<forall>r \<in> snd ` set runtime. s3_id r \<in> backendIds (wdb s)" by auto
  let ?I = "\<lambda>t. schemaOk (wdb t) \<and> backends (wdb t) = backends (wdb s)"
  have loop: "wpE (forE (bindLegacy runtime) ts) (\<lambda>_. ?I) (\<lambda>_. True) (s\<lparr>tick := n\<rparr>)" for ts n
  proof (rule wpE_forE [where I = ?I])
    fix x xs and t :: world
    assume t: "?I t"
    then have "\<forall>r \<in> snd ` set runtime. s3_id r \<in> backendIds (wdb t)" using ids by (simp add: backendIds_def)
    from bindLegacy_schema [OF _ this, of x] t
    show "wpE (bindLegacy runtime x) (\<lambda>_. ?I) (\<lambda>_. True) t" by (auto elim: wpE_mono)
  qed (use ok in auto)
  show "wpE (bindE (query (\<lambda>d. Inr (legacyTargets d))) (\<lambda>ts.
     bindE (forE (bindLegacy runtime) ts) (\<lambda>_.
     bindE (query (\<lambda>d. Inr (unresolved d))) (\<lambda>n.
     bindE (failIf (n \<noteq> 0) e) (\<lambda>_.
     bindE (query (\<lambda>d. Inr (backends d))) (\<lambda>rows.
     bindE (liftE (resolve (backendSet cfg runtime rows) (bs_active (backendSet cfg runtime rows)))) (\<lambda>active.
     bindE (failIf (P active) e') (\<lambda>_. ret (backendSet cfg runtime rows)))))))))
     (\<lambda>_ t. schemaOk (wdb t)) (\<lambda>_. True) s" for e e' P
    by (rule wpE_bindE, rule wpE_query, rule TrueI, rule wpE_step, rule loop) (intro vcg TrueI; simp)
qed

text \<open>A row from before backends had names that gets one keeps all but its backend, which is not the local one.\<close>

lemma rebound_assets:
  assumes "list_all2 (reboundTo ss) as bs"
  shows "map as_id bs = map as_id as" and "map as_key bs = map as_key as"
    and "map as_session bs = map as_session as" and "map charge bs = map charge as"
    and "map (\<lambda>a. (as_expected a, as_size a)) bs = map (\<lambda>a. (as_expected a, as_size a)) as"
proof -
  have same: "map (as_backend_update (\<lambda>_. 0)) bs = map (as_backend_update (\<lambda>_. 0)) as"
    using assms by (induction rule: list_all2_induct) (auto simp: reboundTo_def)
  have all: "map f bs = map f as" if "\<And>a i. f (a\<lparr>as_backend := i\<rparr>) = f a" for f :: "asset_row \<Rightarrow> 'b"
  proof -
    have "f = f \<circ> as_backend_update (\<lambda>_. 0)" using that by (simp add: fun_eq_iff)
    then show ?thesis using arg_cong [OF same, of "map f"] by (metis map_map)
  qed
  show "map as_id bs = map as_id as" and "map as_key bs = map as_key as" by (rule all, simp)+
  show "map as_session bs = map as_session as" and "map charge bs = map charge as"
    by (rule all, simp add: charge_def)+
  show "map (\<lambda>a. (as_expected a, as_size a)) bs = map (\<lambda>a. (as_expected a, as_size a)) as" by (rule all, simp)
qed

lemma rebound_local:
  assumes "list_all2 (reboundTo ss) as bs" and "\<And>s. s \<in> ss \<Longrightarrow> s3_id s \<noteq> 1"
    and "\<forall>a \<in> set as. isReady a \<and> as_backend a = 1 \<longrightarrow> hasFile F a" and "b \<in> set bs" and "isReady b" and "as_backend b = 1"
  shows "hasFile F b"
proof -
  from assms(1,4) have "\<exists>a \<in> set as. reboundTo ss a b" by (induction rule: list_all2_induct) auto
  then obtain a where a: "a \<in> set as" "reboundTo ss a b" by blast
  with assms(2,6) have "b = a" by (auto simp: reboundTo_def)
  with a(1) assms(3,5,6) show ?thesis by blast
qed

lemma charged_same:
  assumes "map as_session bs = map as_session as" and "map charge bs = map charge as"
  shows "countWhere (ofSession u) bs = countWhere (ofSession u) as" and "sumWhere (ofSession u) charge bs = sumWhere (ofSession u) charge as"
proof -
  have "length bs = length as" using assms(1) map_eq_imp_length_eq by blast
  from this assms have "countWhere (ofSession u) bs = countWhere (ofSession u) as \<and> sumWhere (ofSession u) charge bs = sumWhere (ofSession u) charge as"
    by (induction bs as rule: list_induct2) (auto simp: countWhere_def sumWhere_def ofSession_def)
  then show "countWhere (ofSession u) bs = countWhere (ofSession u) as" and "sumWhere (ofSession u) charge bs = sumWhere (ofSession u) charge as"
    by simp_all
qed

lemma started_sound:
  assumes "startedPost cfg (wdb w) (Inr bs) v" and "sound w" and "schemaOk (wdb v)" and "files v = files w"
  shows "sound v" and "backendsOk bs"
proof -
  let ?d = "wdb w" and ?d' = "wdb v"
  from assms(1) obtain m ss where ext: "extends (fst ` set (cs_backends cfg)) ?d m" and reb: "rebound ss m ?d'"
    and ss: "\<forall>s \<in> ss. \<exists>kc \<in> set (cs_backends cfg). \<exists>b \<in> set (backends ?d').
      sb_key b = fst kc \<and> sameAddress (snd kc) b \<and> s = newS3 (sb_id b) (snd kc)"
    unfolding startedPost_def sum.case by blast
  from ext obtain new where m: "m = ?d\<lparr>backends := backends ?d @ new\<rparr>" by (auto simp: extends_def)
  have rest: "?d'\<lparr>assets := [], retired := []\<rparr> = m\<lparr>assets := [], retired := []\<rparr>" using reb by (simp add: rebound_def)
  have same: "sessions ?d' = sessions ?d" "events ?d' = events ?d" "event_imports ?d' = event_imports ?d"
    using arg_cong [OF rest, of sessions] arg_cong [OF rest, of events] arg_cong [OF rest, of event_imports] by (simp_all add: m)
  have as: "list_all2 (reboundTo ss) (assets ?d) (assets ?d')" using reb by (simp add: rebound_def m)
  have rows: "localRow (backends ?d')" using assms(3) by (simp add: schemaOk_def storageKeys_def)
  then have remote: "s3_id s \<noteq> 1" if "s \<in> ss" for s
    using ss that by (force simp: localRow_def sameAddress_def newS3_def)
  have "distinct (map as_id (assets ?d))" "distinct (map as_key (assets ?d))"
    and old: "\<forall>a \<in> set (assets ?d). isReady a \<and> as_backend a = 1 \<longrightarrow> hasFile (files v) a"
    using assms(2,4) by (simp_all add: sound_def stored_def)
  then have "stored ?d' (files v)"
    unfolding stored_def rebound_assets(1,2) [OF as] by (auto intro: rebound_local [OF as remote old])
  moreover have "ledgerOk ?d'"
  proof -
    have "(\<lambda>a. (as_expected a, as_size a)) ` set (assets ?d') = (\<lambda>a. (as_expected a, as_size a)) ` set (assets ?d)"
      using arg_cong [OF rebound_assets(5) [OF as], of set] by simp
    moreover have "\<forall>p \<in> (\<lambda>a. (as_expected a, as_size a)) ` set (assets ?d). 0 \<le> fst p \<and> 0 \<le> snd p"
      using assms(2) by (simp add: sound_def ledgerOk_def)
    ultimately have "\<forall>a \<in> set (assets ?d'). 0 \<le> as_expected a \<and> 0 \<le> as_size a" by (metis fst_conv image_eqI snd_conv)
    moreover have "sessionWithin ?d' u = sessionWithin ?d u" for u
      by (simp add: sessionWithin_def underLimits_def charged_same [OF rebound_assets(3,4) [OF as]])
    moreover have "liveSession ?d' u = liveSession ?d u" for u by (simp add: liveSession_def same)
    ultimately show ?thesis using assms(2) by (simp add: sound_def ledgerOk_def same rebound_assets(1) [OF as])
  qed
  ultimately show "sound v" using assms(2,3) by (simp add: sound_def albumsKnown_def same)
  from assms(1) obtain runtime where bs: "bs = backendSet cfg runtime (backends ?d')" by (auto simp: startedPost_def)
  have local: "(sb_type b = ''local'') = (sb_id b = 1)" if "b \<in> set (backends ?d')" for b
    using rows that by (simp add: localRow_def)
  have "be_id e = i \<and> (be_type e = ''local'') = (i = 1)" if entry: "bs_entries bs i = Some e" for i e
  proof -
    from entry obtain b where "find (\<lambda>b. sb_id b = i) (backends ?d') = Some b" and e: "e = entryOf runtime b"
      by (auto simp: bs backendSet_def)
    from find_SomeD [OF this(1)] local [of b] show ?thesis by (simp add: e entryOf_def)
  qed
  then show "backendsOk bs" by (simp add: backendsOk_def)
qed

lemma reconcileTx_files: "upholds sameFiles (reconcileTx cfg)"
  by (rule upholds_mono [OF reconcileTx_onlyTables]) (simp add: onlyTables_def sameFiles_def)

lemma ReconcileBackends_sound:
  assumes "sound w"
  shows "wpE (ReconcileBackends cfg) (\<lambda>bs t. sound t \<and> backendsOk bs) sound w"
  unfolding ReconcileBackends_def
proof (rule wpE_inTx)
  fix n
  let ?w = "w\<lparr>tick := n\<rparr>"
  have "wpE (reconcileTx cfg) (\<lambda>bs t. startedPost cfg (wdb ?w) (Inr bs) t \<and> schemaOk (wdb t) \<and> sameFiles ?w t)
      (\<lambda>t. True \<and> True \<and> sameFiles ?w t) ?w"
    by (intro wpE_conj reconcileTx_result reconcileTx_schema wpE_upholds reconcileTx_files) (use assms in \<open>simp add: sound_def\<close>)
  then show "wpE (reconcileTx cfg)
      (\<lambda>bs t. (\<forall>n b. sound (t\<lparr>wdb := wdb w, tick := n, dead := b\<rparr>)) \<and> (\<forall>n b. sound (t\<lparr>tick := n, dead := b\<rparr>)) \<and>
        (\<forall>n. sound (t\<lparr>tick := n\<rparr>) \<and> backendsOk bs)) (\<lambda>t. sound (t\<lparr>wdb := wdb w\<rparr>)) ?w"
  proof (rule wpE_mono)
    fix bs and t :: world
    assume *: "startedPost cfg (wdb ?w) (Inr bs) t \<and> schemaOk (wdb t) \<and> sameFiles ?w t"
    moreover have "sound ?w" using assms by (simp add: sound_def)
    ultimately have "sound t" "backendsOk bs" using started_sound [of cfg ?w bs t] by (auto simp: sameFiles_def)
    with * assms show "(\<forall>n b. sound (t\<lparr>wdb := wdb w, tick := n, dead := b\<rparr>)) \<and> (\<forall>n b. sound (t\<lparr>tick := n, dead := b\<rparr>)) \<and>
        (\<forall>n. sound (t\<lparr>tick := n\<rparr>) \<and> backendsOk bs)" by (simp add: sound_def sameFiles_def)
  qed (use assms in \<open>simp add: sound_def sameFiles_def\<close>)
qed (use assms in \<open>simp add: sound_def\<close>)

section \<open>A start\<close>

definition servable :: "application \<Rightarrow> bool" where
  "servable a \<longleftrightarrow> sv_store (ap_media a) = localStore \<and> backendsOk (sv_backends (ap_media a))"

lemma wpE_soundly: "upholds soundly m \<Longrightarrow> sound w \<Longrightarrow> wpE m (\<lambda>_. sound) sound w"
  by (drule wpE_upholds [where R = soundly]) (auto simp: soundly_def elim: wpE_mono)

lemma soundly_newLocal: "upholds soundly (newLocal isReal)"
proof -
  have "upholds soundly (effect (\<lambda>w. (Inr (), w)))" by (rule soundly.up_effect) (simp add: soundly.refl)
  then show ?thesis unfolding newLocal_def by (intro soundly.up_rules)
qed

lemma soundly_Origins: "upholds soundly (Origins order bs)"
proof -
  have "upholds (keeping True True) (uploadOrigin s)" for s
    unfolding uploadOrigin_def by (intro keeping_up keeping_requests)
  then have "upholds soundly (uploadOrigin s)" for s by (rule up_keeping)
  then have "upholds soundly (collectOrigins bs is)" for "is"
    by (induction "is") (auto split: option.split intro!: soundly.up_rules)
  then show ?thesis unfolding Origins_def by (intro soundly.up_rules)
qed

lemma soundly_startupCleanup: "sv_store sv = localStore \<Longrightarrow> upholds soundly (startupCleanup sv)"
  unfolding startupCleanup_def by (intro soundly.up_rules local_store.soundly_runCleanup)

lemma newServer_sound:
  assumes "sound w"
  shows "wpE (newServer ou cfg) (\<lambda>p t. sound t \<and> servable (fst p)) sound w"
proof -
  have sign: "upholds soundly (if PasswordEnabled (cf_auth cfg) then NewManager (ou_bcrypt ou) (cf_password cfg) else ret [])"
    by (intro soundly.up_rules up_keeping [OF keep_NewManager])
  have store: "sv_store (mediaService bs s l) = localStore" "sv_backends (mediaService bs s l) = bs" for bs s l
    by (simp_all add: mediaService_def)
  have rest: "wpE (bindE (ReconcileTargets (cf_immich cfg)) (\<lambda>ts.
     bindE (Origins (ou_order ou) bs) (\<lambda>origins.
     bindE (startupCleanup (mediaService bs (Defaults (cf_security cfg)) DefaultMaxFileSize)) (\<lambda>_.
     ret (applicationOf ou cfg hash bs ts, origins))))) (\<lambda>p t. sound t \<and> servable (fst p)) sound t"
    if "sound t \<and> backendsOk bs" for hash bs t
    using that
    by (intro wpE_step [OF wpE_soundly] up_keeping [OF keep_ReconcileTargets] soundly_Origins soundly_startupCleanup store wpE_ret)
      (auto simp: servable_def applicationOf_def Let_def store)
  show ?thesis
    unfolding newServer_def
    by (rule wpE_bindE, rule wpE_failIf, rule assms,
        rule wpE_step [OF wpE_soundly [OF sign assms]], rule wpE_step [OF wpE_soundly [OF soundly_newLocal]], assumption,
        rule wpE_step [OF ReconcileBackends_sound], assumption, rule rest)
qed

lemma soundly_sysCall: "upholds soundly sysCall"
  unfolding sysCall_def by (rule soundly.up_effect) (simp add: soundly.refl)

lemma startServer_sound:
  assumes "sound w"
  shows "wpE (startServer ou vars) (\<lambda>p t. sound t \<and> servable (fst p)) sound w"
proof -
  have listen: "wpE (bindE sysCall (\<lambda>_. ret p)) (\<lambda>p t. sound t \<and> servable (fst p)) sound t"
    if "sound t \<and> servable (fst p)" for p t
    by (rule wpE_step [OF wpE_soundly [OF soundly_sysCall]]) (use that in \<open>simp_all add: wpE_ret\<close>)
  show ?thesis
    unfolding startServer_def
    by (rule wpE_bindE, rule wpE_liftE, rule assms, rule wpE_step [OF wpE_soundly [OF soundly_sysCall assms]],
        rule wpE_step [OF newServer_sound], assumption, rule listen)
qed

section \<open>Everything that happens\<close>

text \<open>
  A start ends what ran before: it can come after a crash, with other variables, hence another password and other
  destinations, and another environment. It gives a server, or none. The export command is a process of its own, with locks of its own, that
  works on the same tables and files.
\<close>

inductive systemRun :: "world \<Rightarrow> (application \<times> string list) option \<Rightarrow> world \<Rightarrow> bool" for w :: world where
  initial: "systemRun w None w"
| started: "systemRun w s v \<Longrightarrow> startServer ou vars (restarted v locks en) = (r, t) \<Longrightarrow>
    systemRun w (case r of Inl e \<Rightarrow> None | Inr p \<Rightarrow> Some p) t"
| request: "systemRun w (Some (a, origins)) v \<Longrightarrow> systemRun w (Some (a, origins)) (snd (serve asset a origins rq v))"
| maintenance: "systemRun w (Some (a, origins)) v \<Longrightarrow> systemRun w (Some (a, origins)) (snd (runCleanup (ap_media a) v))"
| import_round: "systemRun w (Some (a, origins)) v \<Longrightarrow>
    systemRun w (Some (a, origins)) (snd (runRound (ap_imports a) woken st v))"
| export_command: "systemRun w s v \<Longrightarrow> exportEvent lower isReal vars args (restarted v locks en) = (r, t) \<Longrightarrow>
    systemRun w s (v\<lparr>wdb := wdb t, files := files t\<rparr>)"

lemma sound_restarted: "sound (restarted v locks en) = sound v"
  by (simp add: sound_def restarted_def)

lemma soundly_serve:
  assumes "servable a"
  shows "upholds soundly (serve asset a origins rq)"
proof -
  have "upholds soundly (dispatch a rq)" using assms by (intro local_store.soundly_dispatch) (simp_all add: servable_def)
  moreover have "upholds soundly (adminPage rq)" "upholds soundly (publicPage i)" for i
    unfolding adminPage_def publicPage_def by (intro soundly_respond soundly_signing soundly_reads soundly.up_rules)+
  ultimately show ?thesis
    unfolding serve_def Let_def by (auto split: page.split intro!: soundly.up_rules)
qed

lemma sound_export:
  assumes "sound w" and "exportEvent lower isReal vars args w = (r, t)"
  shows "sound t"
proof (cases "exportFlags args = None \<or> isl (LoadExport vars)")
  case True
  from exportEvent_refused [OF this] assms show ?thesis by (metis snd_conv)
next
  case False
  then obtain i out data cfg where flags: "exportFlags args = Some (i, out)" "LoadExport vars = Inr (data, cfg)"
    by (cases "LoadExport vars") auto
  have run: "upholds soundly (Run lower sv i)" for sv i
    by (rule upholds_mono [where R = "\<lambda>s t. wdb t = wdb s \<and> files t = files s"])
      (auto simp: soundly_still upholds_def intro: wpE_state [OF wpE_mono [OF Run_result]] simp: reads_def)
  have "wpE (exportEvent lower isReal vars args) (\<lambda>_. sound) sound w"
    unfolding exportEvent_def flags option.case prod.case
    by (rule wpE_bindE, rule wpE_liftE, simp add: assms(1), simp,
        rule wpE_step [OF wpE_soundly [OF soundly_sysCall assms(1)]], rule wpE_step [OF wpE_soundly [OF soundly_newLocal]], assumption,
        rule wpE_step [OF ReconcileBackends_sound], assumption, rule wpE_soundly [OF run], blast)
  from wpE_state [OF this] assms(2) show ?thesis by simp
qed

lemma systemRun_sound:
  assumes "systemRun w s v" and "sound w"
  shows "sound v \<and> (\<forall>p. s = Some p \<longrightarrow> servable (fst p))"
  using assms
proof (induction rule: systemRun.induct)
  case (started s v ou vars locks en r t)
  then have "wpE (startServer ou vars) (\<lambda>p t. sound t \<and> servable (fst p)) sound (restarted v locks en)"
    by (intro startServer_sound) (simp add: sound_restarted)
  with started.hyps(2) show ?case by (cases r) (auto dest: wpE_D1 wpE_D2)
next
  case (request a origins v asset rq)
  then show ?case using soundly_serve [of a asset origins rq] by (simp add: upholds_def soundly_def)
next
  case (maintenance a origins v)
  then show ?case
    using local_store.soundly_runCleanup [of "ap_media a"] by (auto simp: upholds_def soundly_def servable_def)
next
  case (import_round a origins v woken st)
  then show ?case using soundly_imports_ops(5) [of "ap_imports a" woken st] by (simp add: upholds_def soundly_def)
next
  case (export_command s v lower isReal vars args locks en r t)
  then have "sound t" using sound_export sound_restarted by blast
  with export_command show ?case by (simp add: sound_def)
qed simp

end
