(* ===== verification/ServerSafe.thy ===== *)
theory ServerSafe
  imports Server
begin

text \<open>
  What every response carries: the headers that forbid sniffing, framing and foreign scripts, whichever handler
  answers, no caching of what is dynamic or sets a cookie, and a health answer that needs nothing else.
\<close>

section \<open>Headers\<close>

lemma map_of_setHeader [simp]: "map_of (setHeader m v hs) n = (if n = m then Some v else map_of hs n)"
proof -
  have "map_of (filter (\<lambda>h. fst h \<noteq> m) hs) = (\<lambda>x. if x = m then None else map_of hs x)"
    by (induction hs) auto
  then show ?thesis by (auto simp: setHeader_def map_add_def split: option.split)
qed

definition protective :: "application \<Rightarrow> string list \<Rightarrow> http_request \<Rightarrow> headers \<Rightarrow> bool" where
  "protective a origins rq hs \<longleftrightarrow>
     map_of hs ''X-Content-Type-Options'' = Some ''nosniff'' \<and> map_of hs ''Referrer-Policy'' = Some ''no-referrer'' \<and>
     map_of hs ''X-Frame-Options'' = Some ''DENY'' \<and> map_of hs ''Content-Security-Policy'' = Some (contentPolicy a origins) \<and>
     (map_of hs ''Strict-Transport-Security'' \<noteq> None \<longleftrightarrow> overTLS a rq)"

lemma commonHeaders_protective: "protective a origins rq (commonHeaders a origins rq)"
  by (simp add: protective_def commonHeaders_def)

lemma commonHeaders_private: "privatePath rq \<Longrightarrow> map_of (commonHeaders a origins rq) ''Cache-Control'' = Some ''no-store''"
  by (simp add: commonHeaders_def)

text \<open>What is not a file of the frontend has a path that is kept out of caches, or is the health check.\<close>

lemma pageOf_private: "pageOf rq \<noteq> OtherPath \<Longrightarrow> pageOf rq = HealthPage \<or> privatePath rq"
  by (auto simp: pageOf_def privatePath_def pathText_def hasPrefix_def Let_def split: if_splits list.splits)

section \<open>Every response\<close>

definition hardened :: "application \<Rightarrow> string list \<Rightarrow> http_request \<Rightarrow> headers \<times> response \<Rightarrow> bool" where
  "hardened a origins rq x \<longleftrightarrow>
     protective a origins rq (fst x) \<and> (pageOf rq \<noteq> OtherPath \<longrightarrow> map_of (fst x) ''Cache-Control'' = Some ''no-store'') \<and>
     (rp_cookies (snd x) \<noteq> [] \<longrightarrow> pageOf rq = ApiPath)"

lemma answer_cookies [simp]: "rp_cookies (answer n b) = []"
  by (simp add: answer_def)

lemma wpE_respond_plain:
  "(\<And>e. P (onErr e)) \<Longrightarrow> (\<And>x. wpE (next x) (\<lambda>r _. P r) (\<lambda>_. True) = (\<lambda>_. True)) \<Longrightarrow>
   wpE (respond onErr m next) (\<lambda>r _. P r) (\<lambda>_. True) w"
  unfolding respond_def by (rule wpE_tryE, rule wpE_mono [OF wpE_triv]) (auto simp: wpE_ret wpE_raise)

lemma serve_hardened: "wpE (serve asset a origins rq) (\<lambda>x _. hardened a origins rq x) (\<lambda>_. True) w"
proof -
  let ?hs = "commonHeaders a origins rq"
  have page: "hardened a origins rq (?hs, r)" if "pageOf rq \<noteq> OtherPath" "pageOf rq \<noteq> HealthPage" "rp_cookies r \<noteq> [] \<longrightarrow> pageOf rq = ApiPath" for r
    using that pageOf_private [of rq] by (auto simp: hardened_def commonHeaders_protective commonHeaders_private)
  have plain: "wpE (bindE m (\<lambda>r. ret (?hs, r))) (\<lambda>x _. hardened a origins rq x) (\<lambda>_. True) w"
    if "wpE m (\<lambda>r _. hardened a origins rq (?hs, r)) (\<lambda>_. True) w" for m
    by (rule wpE_step [OF that]) (simp add: wpE_ret)
  have static: "hardened a origins rq (staticFile asset rq ?hs)" if "pageOf rq = OtherPath"
    using that commonHeaders_protective [of a origins rq]
    by (auto simp: hardened_def staticFile_def Let_def protective_def)
  show ?thesis
  proof (cases "pageOf rq")
    case ApiPath
    then show ?thesis unfolding serve_def Let_def by (simp add: plain page wpE_mono [OF wpE_triv])
  next
    case AdminPage
    have "wpE (adminPage rq) (\<lambda>r _. rp_cookies r = []) (\<lambda>_. True) w"
      unfolding adminPage_def by (rule wpE_respond_plain) (auto simp: fun_eq_iff wpE_ret)
    then have "wpE (adminPage rq) (\<lambda>r _. hardened a origins rq (?hs, r)) (\<lambda>_. True) w"
      by (rule wpE_mono) (use AdminPage page in auto)
    with AdminPage show ?thesis unfolding serve_def Let_def by (simp add: plain)
  next
    case (GuestPage i)
    have "wpE (publicPage i) (\<lambda>r _. rp_cookies r = []) (\<lambda>_. True) w"
      unfolding publicPage_def by (rule wpE_respond_plain) (auto simp: fun_eq_iff wpE_ret)
    then have "wpE (publicPage i) (\<lambda>r _. hardened a origins rq (?hs, r)) (\<lambda>_. True) w"
      by (rule wpE_mono) (use GuestPage page in auto)
    with GuestPage show ?thesis unfolding serve_def Let_def by (simp add: plain)
  next
    case HealthPage
    then show ?thesis
      using commonHeaders_protective [of a origins rq] unfolding serve_def Let_def
      by (simp add: wpE_ret hardened_def protective_def)
  qed (use page static in \<open>simp_all add: serve_def Let_def wpE_ret\<close>)
qed

lemma serve_health:
  "safeMethod rq \<Longrightarrow> rq_path rq = [''healthz''] \<Longrightarrow> \<exists>hs. serve asset a origins rq w = (Inr (hs, answer 200 Health), w)"
  by (simp add: serve_def pageOf_def Let_def ret_def)

section \<open>The content policy\<close>

text \<open>The directives of a policy: what is between semicolons.\<close>

definition directives :: "string \<Rightarrow> string list" where
  "directives p = map (dropWhile (\<lambda>c. c = CHR '' '')) (splitAt CHR '';'' p)"

lemma splitAt_cons: "c \<notin> set s \<Longrightarrow> splitAt c (s @ c # t) = s # splitAt c t"
  by (induction s) (auto split: list.split)

lemma spaced_plain: "\<forall>x \<in> set origins. CHR '';'' \<notin> set x \<Longrightarrow> CHR '';'' \<notin> set (spaced origins)"
  by (induction origins) (auto simp: spaced_def)

definition quoted :: "string \<Rightarrow> string" where
  "quoted s = [CHR 0x27] @ s @ [CHR 0x27]"

text \<open>The policy has these ten directives and no other, as long as no origin has a semicolon.\<close>

lemma contentPolicy_directives:
  assumes "\<forall>x \<in> set origins. CHR '';'' \<notin> set x"
  shows "directives (contentPolicy a origins) =
    [''default-src '' @ quoted ''self'', ''connect-src '' @ quoted ''self'' @ spaced origins,
     ''script-src '' @ quoted ''self'' @ (if ap_site_key a = [] then [] else CHR '' '' # challengeOrigin),
     ''frame-src '' @ (if ap_site_key a = [] then quoted ''none'' else challengeOrigin), ''style-src '' @ quoted ''self'',
     ''img-src '' @ quoted ''self'', ''object-src '' @ quoted ''none'', ''base-uri '' @ quoted ''none'',
     ''frame-ancestors '' @ quoted ''none'', ''form-action '' @ quoted ''self'']"
  using splitAt_cons [OF spaced_plain [OF assms]]
  by (simp add: directives_def contentPolicy_def Let_def quoted_def challengeOrigin_def)

end
