(* ===== verification/Lifecycle.thy ===== *)
theory Lifecycle
  imports Prelude "HOL-Library.Transitive_Closure_Table"
begin

text \<open>
  \<open>Serve\<close> of \<open>internal/server/server.go\<close>: the goroutines of a running server and its shutdown, as a step
  relation. One step is one thing that a goroutine does to what the others see. What a request, a maintenance
  cycle or an import round does is modelled elsewhere; here they only begin and end. What \<open>net/http\<close> promises:
  \<open>Serve\<close> returns \<open>ErrServerClosed\<close> once \<open>Shutdown\<close> has closed the listener, and \<open>Shutdown\<close> succeeds when no
  request is left.
\<close>

section \<open>The goroutines\<close>

datatype worker = Resting | Working | Gone

datatype serving = Listening | Shut | Broken

datatype outcome = Orderly | ServeError | DrainError

text \<open>
  Where the calling goroutine is: the first \<open>select\<close>, inside \<open>Shutdown\<close>, waiting for the result after \<open>Close\<close>, in
  the deferred function (before and after \<open>stopMaintenance\<close>), or done.
\<close>

datatype position = Selecting | Draining | Aborting | Leaving outcome | Waiting outcome | Returned outcome

record running =
  rn_cancelled :: bool
  rn_stopped :: bool
  rn_imports :: worker
  rn_maintain :: worker
  rn_http :: serving
  rn_requests :: nat
  rn_caller :: position

definition startedServer :: running where
  "startedServer =
     \<lparr>rn_cancelled = False, rn_stopped = False, rn_imports = Resting, rn_maintain = Resting, rn_http = Listening, rn_requests = 0,
      rn_caller = Selecting\<rparr>"

text \<open>The context of the workers ends with its parent or by \<open>stopMaintenance\<close>.\<close>

definition ending :: "running \<Rightarrow> bool" where
  "ending s \<longleftrightarrow> rn_cancelled s \<or> rn_stopped s"

definition resultOf :: "serving \<Rightarrow> outcome" where
  "resultOf h = (if h = Shut then Orderly else ServeError)"

text \<open>
  A maintenance tick may be taken although the context has ended: \<open>select\<close> chooses among what is ready. A round of
  the imports only begins while it has not. \<open>Close\<close> drops connections but does not wait for their handlers.
\<close>

inductive serveStep :: "running \<Rightarrow> running \<Rightarrow> bool" where
  signal: "serveStep s (s\<lparr>rn_cancelled := True\<rparr>)"
| accept: "rn_http s = Listening \<Longrightarrow> serveStep s (s\<lparr>rn_requests := Suc (rn_requests s)\<rparr>)"
| finish: "rn_requests s = Suc n \<Longrightarrow> serveStep s (s\<lparr>rn_requests := n\<rparr>)"
| listener: "rn_http s = Listening \<Longrightarrow> serveStep s (s\<lparr>rn_http := Broken\<rparr>)"
| tick: "rn_maintain s = Resting \<Longrightarrow> serveStep s (s\<lparr>rn_maintain := Working\<rparr>)"
| cycle: "rn_maintain s = Working \<Longrightarrow> serveStep s (s\<lparr>rn_maintain := Resting\<rparr>)"
| maintained: "rn_maintain s = Resting \<Longrightarrow> ending s \<Longrightarrow> serveStep s (s\<lparr>rn_maintain := Gone\<rparr>)"
| round: "rn_imports s = Resting \<Longrightarrow> \<not> ending s \<Longrightarrow> serveStep s (s\<lparr>rn_imports := Working\<rparr>)"
| rounded: "rn_imports s = Working \<Longrightarrow> serveStep s (s\<lparr>rn_imports := Resting\<rparr>)"
| imported: "rn_imports s = Resting \<Longrightarrow> ending s \<Longrightarrow> serveStep s (s\<lparr>rn_imports := Gone\<rparr>)"
| broken: "rn_caller s = Selecting \<Longrightarrow> rn_http s \<noteq> Listening \<Longrightarrow> serveStep s (s\<lparr>rn_caller := Leaving (resultOf (rn_http s))\<rparr>)"
| shutdown: "rn_caller s = Selecting \<Longrightarrow> rn_cancelled s \<Longrightarrow>
    serveStep s (s\<lparr>rn_caller := Draining, rn_http := (if rn_http s = Listening then Shut else rn_http s)\<rparr>)"
| drained: "rn_caller s = Draining \<Longrightarrow> rn_requests s = 0 \<Longrightarrow> serveStep s (s\<lparr>rn_caller := Leaving (resultOf (rn_http s))\<rparr>)"
| expired: "rn_caller s = Draining \<Longrightarrow> 0 < rn_requests s \<Longrightarrow> serveStep s (s\<lparr>rn_caller := Aborting\<rparr>)"
| aborted: "rn_caller s = Aborting \<Longrightarrow> rn_http s \<noteq> Listening \<Longrightarrow> serveStep s (s\<lparr>rn_caller := Leaving DrainError\<rparr>)"
| stop: "rn_caller s = Leaving r \<Longrightarrow> serveStep s (s\<lparr>rn_caller := Waiting r, rn_stopped := True\<rparr>)"
| return: "rn_caller s = Waiting r \<Longrightarrow> rn_maintain s = Gone \<Longrightarrow> rn_imports s = Gone \<Longrightarrow> serveStep s (s\<lparr>rn_caller := Returned r\<rparr>)"

abbreviation serveSteps :: "running \<Rightarrow> running \<Rightarrow> bool" where
  "serveSteps \<equiv> serveStep\<^sup>*\<^sup>*"

code_pred (modes: i \<Rightarrow> o \<Rightarrow> bool) serveStep .

section \<open>What holds at every moment\<close>

text \<open>The caller is past the first \<open>select\<close> only when the listener is closed, and with the result \<open>nil\<close> only when
nothing is left to answer.\<close>

definition orderly :: "running \<Rightarrow> bool" where
  "orderly s \<longleftrightarrow>
     (rn_caller s \<noteq> Selecting \<longrightarrow> rn_http s \<noteq> Listening) \<and>
     (rn_http s = Shut \<longrightarrow> rn_caller s \<noteq> Selecting) \<and>
     (rn_caller s \<in> {Leaving Orderly, Waiting Orderly, Returned Orderly} \<longrightarrow> rn_cancelled s \<and> rn_requests s = 0) \<and>
     (rn_caller s \<in> {Draining, Aborting} \<longrightarrow> rn_cancelled s) \<and>
     (\<forall>r. rn_caller s \<in> {Waiting r, Returned r} \<longrightarrow> rn_stopped s) \<and>
     (\<forall>r. rn_caller s = Returned r \<longrightarrow> rn_maintain s = Gone \<and> rn_imports s = Gone)"

lemma orderly_started: "orderly startedServer"
  by (simp add: orderly_def startedServer_def)

lemma orderly_step: "serveStep s t \<Longrightarrow> orderly s \<Longrightarrow> orderly t"
  by (induction rule: serveStep.induct) (auto simp: orderly_def resultOf_def)

lemma orderly_steps: "serveSteps s t \<Longrightarrow> orderly s \<Longrightarrow> orderly t"
  by (induction rule: rtranclp_induct) (auto dest: orderly_step)

section \<open>The shutdown can always end\<close>

text \<open>From wherever it is, what is busy ends, the workers leave, and the caller returns.\<close>

lemma steps_maintain: "ending s \<Longrightarrow> serveSteps s (s\<lparr>rn_maintain := Gone\<rparr>)"
proof (cases "rn_maintain s")
  case Working
  assume "ending s"
  with Working have "serveStep s (s\<lparr>rn_maintain := Resting\<rparr>)" "serveStep (s\<lparr>rn_maintain := Resting\<rparr>) (s\<lparr>rn_maintain := Resting\<rparr>\<lparr>rn_maintain := Gone\<rparr>)"
    by (intro serveStep.cycle serveStep.maintained; simp add: ending_def)+
  then show ?thesis by simp
next
  case Gone
  then have "s\<lparr>rn_maintain := Gone\<rparr> = s" by simp
  then show ?thesis by simp
qed (auto intro: serveStep.maintained)

lemma steps_imports: "ending s \<Longrightarrow> serveSteps s (s\<lparr>rn_imports := Gone\<rparr>)"
proof (cases "rn_imports s")
  case Working
  assume "ending s"
  with Working have "serveStep s (s\<lparr>rn_imports := Resting\<rparr>)" "serveStep (s\<lparr>rn_imports := Resting\<rparr>) (s\<lparr>rn_imports := Resting\<rparr>\<lparr>rn_imports := Gone\<rparr>)"
    by (intro serveStep.rounded serveStep.imported; simp add: ending_def)+
  then show ?thesis by simp
next
  case Gone
  then have "s\<lparr>rn_imports := Gone\<rparr> = s" by simp
  then show ?thesis by simp
qed (auto intro: serveStep.imported)

lemma steps_requests: "serveSteps s (s\<lparr>rn_requests := 0\<rparr>)"
proof (induction "rn_requests s" arbitrary: s)
  case 0
  then have "s\<lparr>rn_requests := 0\<rparr> = s" by simp
  then show ?case by simp
next
  case (Suc n)
  then have "serveStep s (s\<lparr>rn_requests := n\<rparr>)" by (intro serveStep.finish) simp
  moreover have "serveSteps (s\<lparr>rn_requests := n\<rparr>) (s\<lparr>rn_requests := n\<rparr>\<lparr>rn_requests := 0\<rparr>)" using Suc.hyps(1) [of "s\<lparr>rn_requests := n\<rparr>"] by simp
  ultimately show ?case by (simp add: converse_rtranclp_into_rtranclp)
qed

lemma steps_waiting:
  assumes "rn_caller s = Waiting r" and "rn_stopped s"
  shows "\<exists>t. serveSteps s t \<and> rn_caller t = Returned r"
proof -
  let ?m = "s\<lparr>rn_maintain := Gone\<rparr>" and ?i = "s\<lparr>rn_maintain := Gone\<rparr>\<lparr>rn_imports := Gone\<rparr>"
  have "serveSteps s ?m" "serveSteps ?m ?i" using assms by (intro steps_maintain steps_imports; simp add: ending_def)+
  moreover have "serveStep ?i (?i\<lparr>rn_caller := Returned r\<rparr>)" using assms by (intro serveStep.return) simp_all
  ultimately have "serveSteps s (?i\<lparr>rn_caller := Returned r\<rparr>)" by (meson rtranclp.rtrancl_into_rtrancl rtranclp_trans)
  then show ?thesis by (intro exI [of _ "?i\<lparr>rn_caller := Returned r\<rparr>"]) simp
qed

lemma steps_leaving: "rn_caller s = Leaving r \<Longrightarrow> \<exists>t. serveSteps s t \<and> rn_caller t = Returned r"
proof -
  let ?w = "s\<lparr>rn_caller := Waiting r, rn_stopped := True\<rparr>"
  assume "rn_caller s = Leaving r"
  then have "serveStep s ?w" by (rule serveStep.stop)
  moreover have "\<exists>t. serveSteps ?w t \<and> rn_caller t = Returned r" by (rule steps_waiting) simp_all
  ultimately show ?thesis by (meson converse_rtranclp_into_rtranclp)
qed

lemma steps_draining: "rn_caller s = Draining \<Longrightarrow> \<exists>t. serveSteps s t \<and> rn_caller t = Returned (resultOf (rn_http s))"
proof -
  let ?z = "s\<lparr>rn_requests := 0\<rparr>" and ?l = "s\<lparr>rn_requests := 0\<rparr>\<lparr>rn_caller := Leaving (resultOf (rn_http s))\<rparr>"
  assume "rn_caller s = Draining"
  then have "serveSteps s ?z" "serveStep ?z ?l" using serveStep.drained [of ?z] by (simp_all add: steps_requests)
  moreover have "\<exists>t. serveSteps ?l t \<and> rn_caller t = Returned (resultOf (rn_http s))" by (rule steps_leaving) simp
  ultimately show ?thesis by (meson rtranclp.rtrancl_into_rtrancl rtranclp_trans)
qed

lemma cancelled_returns:
  assumes "orderly s" and "rn_cancelled s"
  shows "\<exists>t r. serveSteps s t \<and> rn_caller t = Returned r"
proof (cases "rn_caller s")
  case Selecting
  let ?d = "s\<lparr>rn_caller := Draining, rn_http := (if rn_http s = Listening then Shut else rn_http s)\<rparr>"
  have "serveStep s ?d" using Selecting assms(2) by (rule serveStep.shutdown)
  moreover have "\<exists>t. serveSteps ?d t \<and> rn_caller t = Returned (resultOf (rn_http ?d))" by (rule steps_draining) simp
  ultimately show ?thesis by (meson converse_rtranclp_into_rtranclp)
next
  case Draining
  from steps_draining [OF this] show ?thesis by blast
next
  case Aborting
  with assms(1) have "serveStep s (s\<lparr>rn_caller := Leaving DrainError\<rparr>)" by (intro serveStep.aborted) (auto simp: orderly_def)
  moreover have "\<exists>t. serveSteps (s\<lparr>rn_caller := Leaving DrainError\<rparr>) t \<and> rn_caller t = Returned DrainError" by (rule steps_leaving) simp
  ultimately show ?thesis by (meson converse_rtranclp_into_rtranclp)
next
  case (Leaving r)
  from steps_leaving [OF this] show ?thesis by blast
next
  case (Waiting r)
  with assms(1) have "rn_stopped s" by (auto simp: orderly_def)
  from steps_waiting [OF Waiting this] show ?thesis by blast
qed blast

end
