(* ===== verification/Spec2Isabelle.thy ===== *)
theory Spec2Isabelle
  imports Timestamps FakeS3 FakeOidc FaultProxy Locks HttpExamples SystemRun ServerSafe Lifecycle
begin

text \<open>
  PhotoDrop is a self-hosted server that collects photos and videos for events. Guests open an upload session
  for an event and upload files, either through the server into a directory or straight from the browser into
  object storage; administrators manage events, read statistics, export, and send media on to Immich servers.
  All state is in one SQLite database, the upload directory, the configured buckets, and a few process-local
  tables.

  \<^bold>\<open>How a program step is modelled.\<close> Every operation has the type \<open>'a wop\<close>: a function from the world to
  an error or a result, and the world after it (Prelude, World). The world (record \<open>world\<close>) holds the database (a list of
  rows per table), the files, the locks, the in-memory cursors and limiters, the trace of what was asked of other
  systems, and the environment. The environment says, step by step, what the clock reads, which random bytes are
  drawn, what other systems answer, and whether a statement, a commit, a system call or a request works, is
  refused, takes effect without being reported, or is the last thing the process does (\<open>ECrashed\<close>). A theorem
  that holds for every world therefore covers every error path and every place where the process can stop. The
  rows have the columns of src/migrations; the constraints, triggers and cascades of those files are part of the
  statements' definitions. A Go error is a value of \<open>err\<close>; a transaction is \<open>inTx\<close>; strings are byte
  strings, and integers of the program are \<open>int\<close> with the checks (and \<open>sqlSum\<close>'s overflow) written out.

  \<^bold>\<open>Parts of the program and the theories that model them\<close> (paths under src/internal).
  \<^item> Go's library as far as it is used: GoText (strings, UTF-8, hex, numbers), GoTime (instants, RFC 3339,
    durations' units), Mime (media types, DetectContentType), NetText (net, netip, net/url), Sha256 (on 32-bit words),
    GoFloat (float64 rounding, durations). Checks composes checks that end at the first error.
  \<^item> events/events.go: Events; Timestamps (the texts of its instants). media/validation.go and contributors.go: Validation. media/quotas.go: Quotas.
  \<^item> storage/local.go and read.go: LocalStore. storage/s3.go and direct.go: S3Store.
  \<^item> media/media.go: Media (sessions, uploads), Cleanup (maintenance, deletion). media/direct.go: Direct.
    media/read.go: Reading.
  \<^item> integrations/immich: ImmichClient (client.go), ImmichJobs (targets.go, jobs.go, auto.go).
  \<^item> auth: Auth (auth.go), Oidc (oidc.go). abuse: Abuse (clientip.go, limiter.go, turnstile.go).
  \<^item> server: Http (requests, guards, the error table), Handlers, Routes; Server (server.go's \<open>newServer\<close>: how the parts
    are put together, the headers, static files, cookies); Lifecycle (\<open>Serve\<close> and the loop of security.go: goroutines and
    the shutdown, a step relation).
  \<^item> storage/backends.go and immich/targets.go at start-up: Startup. database: Database (database.go), Migrate (migrate.go).
  \<^item> cmd/photodrop and server/healthcheck.go: Commands (the choice of the command, the start of a server, the flags, the
    export command, the health check).
  \<^item> config: ConfigText (normal forms and checks), Config (every loader, \<open>parse\<close>, \<open>LoadExport\<close>).
  \<^item> export/export.go: ExportNames (the names), Export (\<open>publish\<close>, \<open>Run\<close>, the manifest).
  \<^item> What the tests run against: FakeS3 (testutil/s3test), FakeOidc (testutil/oidctest), FaultProxy (src/scripts/immichtest).

  \<^bold>\<open>How they interact.\<close> Routes.dispatch is the one entry for requests: a guard (origin, session, CSRF, rate, challenge),
  a handler, one operation of Events, Media, Direct, Cleanup, Auth, Oidc or ImmichJobs. Media, Cleanup and
  Reading reach local files through the locale of LocalStore (\<open>local_store\<close>), and remote objects through S3Store. The
  event's lock (\<open>readers\<close>) ties uploads, snapshots and deletions together. ImmichJobs reads
  media through Reading and talks to the server through ImmichClient. Config turns the environment's variables into the
  settings that Oidc, Startup and the command lines use; Startup binds them to rows. Export takes a snapshot
  and copies its streams. Commands starts a server: Config, Database, then Server, which runs Auth's password check, Startup and
  one Cleanup before it serves; Lifecycle is what runs until the shutdown.

  \<^bold>\<open>What the lemmas show.\<close>
  \<^item> Effects: the precondition calculus (\<open>wp\<close>, \<open>wpE\<close>) with the postconditions of value and error, and the
    relations kept by every operation (\<open>upholds\<close>, locales \<open>world_order\<close> and \<open>tx_order\<close>, interpreted for
    each invariant).
  \<^item> MediaSafe, UploadResult, Ledger, DirectSafe, CleanupSafe, Deletion, Locks: the tie between rows and files, the
    quotas, what uploads and completions have done, what maintenance may drop, that deletion ends and disposes
    of everything, and that locks are given back.
  \<^item> Timestamps: the text of an instant reads back, and the byte order of two texts is the order of the stamps.
  \<^item> ReadingSafe: snapshots, streams, statistics.
  \<^item> ImmichSafe, ImmichResults, ImmichRuns: the tables of the imports and the remote album over any sequence of operations,
    crashes and restarts; the outcome of each operation; fairness of the reconciliation.
  \<^item> AuthSafe, OidcSafe, AbuseSafe, HttpSafe: who gets in, and that requests that do not change nothing.
  \<^item> StartupSafe: start-up binds names once and is idempotent. Migrate and Database: scripts run once and in order, at an
    address that the path cannot subvert.
  \<^item> Schema: the keys, references and checks of the migrations (\<open>schemaOk\<close>) and every statement that keeps them.
    Keeping, SystemSafe: that every operation, handler and request keeps them, the ledger and the files. SystemRun: the same
    for a start, the export command, and any sequence of everything (\<open>systemRun\<close>).
  \<^item> ServerSafe: the headers of every response. CommandsSafe: flags, the export command, the health check. Lifecycle: what
    holds when \<open>Serve\<close> returns, and that it always can.
  \<^item> ConfigSafe: what an accepted configuration guarantees; the variables of different destinations are apart, and
    those of Immich targets are not (\<open>loadImmich_shared\<close>).
  \<^item> ExportSafe: what an export leaves, on success and on every failure, and an event whose export cannot succeed
    (\<open>Run_blocked\<close>).
  \<^item> FakeS3, FakeOidc and FaultProxy end with what the tests rely on: an object stays until it is deleted and a ranged read is
    answered as S3Store wants it; a code is redeemed once, and a sign-in as Begin starts it is granted; gates are closed once.
  \<^item> Examples and HttpExamples hold the concrete worlds of the closed instances.

  \<^bold>\<open>Bounds and fuel.\<close> The loop that deletes an event's assets has as many rounds as the event has assets, plus
  one: \<open>delete_event_disposes\<close> shows that they are never used up. The numbers that an export tries for a name are
  bounded by the number of names already taken: \<open>export_names_distinct\<close> shows that one is found. All other loops
  follow a list or the structure of their input.

  \<^bold>\<open>Parameters.\<close> bcrypt (hash and match), the OpenID libraries and provider, the challenge service, the S3 SDK's
  answers, the Immich server's answers, and Unicode's lower-case mapping are arguments of the definitions or part of the
  environment. Nothing is assumed of them but what a theorem's hypotheses say (\<open>lowerOk\<close>: lower-casing keeps the
  digits of a suffix apart; \<open>recordsKept\<close>: a migration script does not rewrite the history of migrations;
  \<open>backendsOk\<close>: the entries of a backend set are those that start-up makes, as \<open>newServer_sound\<close> proves). What the process
  finds outside (the frontend's files, whether a directory is real, the order of a map) is the record \<open>outside\<close>.

  \<^bold>\<open>Not modelled.\<close>
  \<^item> storage.NewS3 (the SDK's client), oidcTransport (a capped transport), SQLite, and the OpenID and bcrypt libraries:
    third-party code or its set-up. Timeouts of http.Server and of requests, signals, and the clearing of the password from memory.
  \<^item> JSON texts, log lines, error messages for people, and deadlines: a request and an answer are records of their
    fields. A cancelled context is an answer of the environment wherever the code looks at it.
  \<^item> Truly concurrent interleavings inside one operation: an operation is a sequence of steps; other requests act
    between operations, and inside one only through the environment and the database's own checks.
  \<^item> The sample files and mains of the tests, and scripts/releasestate, which prints the tables for the CI. web: Svelte and TypeScript; web/embed.go and
    migrations/embed.go only name the embedded files.
\<close>

section \<open>The whole server\<close>

text \<open>C1. Over any sequence of starts, requests, maintenance rounds, import rounds and export commands, with any
configurations, and with faults and crashes anywhere: the keys, references and checks of the schema hold, every live
upload session is within its limits, an album's identifier is known exactly when its state says so, and every ready
asset of the local backend has a file of exactly its recorded size.\<close>

theorem system_safe:
  assumes "systemRun w s v" and "schemaOk (wdb w)" "ledgerOk (wdb w)" "albumsKnown (wdb w)" "stored (wdb w) (files w)"
  shows "schemaOk (wdb v) \<and> ledgerOk (wdb v) \<and> albumsKnown (wdb v) \<and> stored (wdb v) (files v)"
  using systemRun_sound [OF assms(1)] assms(2-5) by (simp add: sound_def)

lemma exDB_schema: "schemaOk exDB"
proof (rule schemaI)
  show "eventsOk exDB" by code_simp
  show "sessionKeys exDB" by code_simp
  show "assetKeys exDB" by (simp add: assetKeys_def requests_def exDB_def)
  show "storageKeys exDB" by (simp add: storageKeys_def localRow_def exDB_def)
  show "importKeys exDB" by (simp add: importKeys_def bindingKeys_def jobsOk_def exDB_def)
  show "signKeys exDB" by (simp add: signKeys_def flowsOk_def exDB_def)
qed

definition exVariables :: variables where
  "exVariables = [''PHOTODROP_BASE_URL'' \<mapsto> ''https://photos.test'', ''PHOTODROP_ADMIN_PASSWORD'' \<mapsto> ''correct horse battery'']"

definition exOutside :: outside where
  "exOutside = \<lparr>ou_index = True, ou_asset = (\<lambda>n. n = ''index.html''), ou_real = True, ou_order = [1, 2], ou_bcrypt = exBcrypt,
     ou_oidc = \<lparr>op_discover = (\<lambda>_. None), op_exchange = (\<lambda>_ _ _. None), op_verify = (\<lambda>_ _ _. None)\<rparr>,
     ou_verify = ap_verify exApp\<rparr>"

text \<open>A server starts, answers a request for an upload session, and is started again; step 3 of the second start crashes.\<close>

definition exStart :: "world \<Rightarrow> env \<Rightarrow> (err + application \<times> string list) \<times> world" where
  "exStart w en = startServer exOutside exVariables (restarted w (\<lambda>_. 0) en)"

definition exFirst :: world where
  "exFirst = exWorld exDB (exEnv 0 Fine)"

lemma exStart_ok: "map_sum id snd (fst (exStart exFirst (exEnv 0 Fine))) = Inr []"
  by code_simp

definition exSystem :: world where
  "exSystem = snd (exStart (snd (serve (ou_asset exOutside) (fst (projr (fst (exStart exFirst (exEnv 0 Fine))))) [] exOpenSession
     (snd (exStart exFirst (exEnv 0 Fine))))) (exEnv 3 CrashAfter))"

theorem system_safe_witness:
  "schemaOk (wdb exSystem) \<and> ledgerOk (wdb exSystem) \<and> albumsKnown (wdb exSystem) \<and> stored (wdb exSystem) (files exSystem)"
proof -
  obtain x t where first: "exStart exFirst (exEnv 0 Fine) = (x, t)" by fastforce
  with exStart_ok obtain a where x: "x = Inr (a, [])" by (cases x) auto
  let ?v = "snd (serve (ou_asset exOutside) a [] exOpenSession t)"
  obtain r u where again: "exStart ?v (exEnv 3 CrashAfter) = (r, u)" by fastforce
  have "systemRun exFirst (Some (a, [])) t"
    using systemRun.started [OF systemRun.initial first [unfolded exStart_def]] by (simp add: x)
  then have "systemRun exFirst (Some (a, [])) ?v" by (rule systemRun.request)
  from systemRun.started [OF this again [unfolded exStart_def]]
  obtain s where run: "systemRun exFirst s exSystem" using first again by (auto simp: exSystem_def x)
  have "ledgerOk exDB"
    by (simp add: ledgerOk_def exDB_def exSession_def sessionWithin_def underLimits_def countWhere_def sumWhere_def)
  moreover have "albumsKnown exDB" by (simp add: albumsKnown_def exDB_def)
  moreover have "stored exDB (\<lambda>_. None)" by (simp add: stored_def exDB_def)
  ultimately show ?thesis
    using system_safe [OF run] exDB_schema by (simp add: exFirst_def exWorld_def)
qed

section \<open>Local uploads\<close>

text \<open>C2. Whatever fails during an upload through the server, or while a direct upload is prepared, authorized or completed,
and wherever the process stops: every ready asset of the local backend has a file of exactly its recorded size,
ready rows keep all their columns, and their files keep their contents.\<close>

theorem uploads_keep_stored:
  assumes "stored (wdb w) (files w)"
    and "sv_store sv = localStore \<and> m = snd \<circ> Upload sv p s f declared source claimed limit \<or>
      backendsOk (sv_backends sv) \<and> m \<in> {snd \<circ> Prepare sv p s rq limit, snd \<circ> Authorize sv p s i, snd \<circ> Complete sv p s i}"
  shows "stored (wdb (m w)) (files (m w)) \<and> readyKept w (m w)"
proof -
  have "under stored w (m w)" using assms(2)
    local_store.Upload_under [of sv p s f declared source claimed limit] Prepare_under [of sv p s rq limit] Authorize_under [of sv p s i]
    Complete_under [of sv p s i] by (auto simp: upholds_def)
  with assms(1) show ?thesis by (simp add: under_def)
qed

lemma exDB_stored: "stored exDB F"
  by (simp add: stored_def exDB_def)

theorem uploads_keep_stored_witness:
  "stored (wdb (snd (exUpload (exWorld exDB (exEnv 17 CrashAfter)))))
          (files (snd (exUpload (exWorld exDB (exEnv 17 CrashAfter))))) \<and>
   stored (wdb (snd (exComplete (exWorld exDirectDB (exStorage (exEnv 6 Unreported))))))
          (files (snd (exComplete (exWorld exDirectDB (exStorage (exEnv 6 Unreported))))))"
proof -
  let ?w = "exWorld exDB (exEnv 17 CrashAfter)" and ?v = "exWorld exDirectDB (exStorage (exEnv 6 Unreported))"
  have "stored (wdb ?w) (files ?w)" by (simp add: exWorld_def exDB_stored)
  moreover have "stored (wdb ?v) (files ?v)"
    by (simp add: stored_def exDirectDB_def exWorld_def isReady_def exPending_def pendingDirect_def)
  moreover have "backendsOk (sv_backends exDirectService)" by (simp add: exDirectService_def exBackends_ok)
  ultimately show ?thesis
    using uploads_keep_stored [of ?w exService "snd \<circ> exUpload" exPublic "exID CHR ''a''" "''a.png''" "''image/png''"
        "\<lparr>rd_data = exPNG, rd_broken = False\<rparr>" 12 1000]
      uploads_keep_stored [of ?v exDirectService "snd \<circ> exComplete" exPublic "exID CHR ''a''" _ _ _ _ _ _ "exID CHR ''b''"]
    by (simp add: exUpload_def exService_def exComplete_def)
qed

text \<open>C3. An upload that reports success has stored the whole request body and nothing else under the
asset's key, and made one ready row that describes it: size, detected type, class, filename, session.\<close>

theorem upload_result:
  assumes "Upload sv p s f declared source claimed limit w = (Inr a, t)" and "sv_store sv = localStore"
  shows "\<exists>e \<in> set (events (wdb w)). ev_public e = p \<and> uploaded (ev_id e) s f source claimed limit a t"
  using local_store.Upload_result [OF assms(2)] assms(1) by (rule wpE_D1)

theorem upload_result_witness:
  "\<exists>a t. exUpload (exWorld exDB (exEnv 0 Fine)) = (Inr a, t) \<and>
     (\<exists>e \<in> set (events exDB). uploaded (ev_id e) (exID CHR ''a'') ''a.png'' \<lparr>rd_data = exPNG, rd_broken = False\<rparr> 12 1000 a t)"
proof -
  let ?w = "exWorld exDB (exEnv 0 Fine)"
  obtain r t where run: "exUpload ?w = (r, t)" by fastforce
  with exUpload_ok obtain a where r: "r = Inr a" by (cases r) auto
  have sv: "sv_store exService = localStore" by (simp add: exService_def)
  from run r upload_result [OF _ sv] show ?thesis
    unfolding exUpload_def by (fastforce simp: exWorld_def)
qed

text \<open>C4. The usage charged to an upload session, pending reservations included, never exceeds the session's
limits while its event is not being deleted: uploads, local and direct, and maintenance keep that, whatever fails.\<close>

theorem session_quota:
  "upholds (keepsDB ledgerOk) (Upload (sv\<lparr>sv_store := localStore\<rparr>) p s f declared source claimed limit) \<and>
   upholds (keepsDB ledgerOk) (Prepare sv p s r limit) \<and> upholds (keepsDB ledgerOk) (Authorize sv p s i) \<and>
   upholds (keepsDB ledgerOk) (Complete sv p s i) \<and>
   upholds (keepsDB ledgerOk) (runCleanup (sv\<lparr>sv_store := localStore\<rparr>))"
  using local_store.Upload_ledger [of "sv\<lparr>sv_store := localStore\<rparr>"] Prepare_ledger Authorize_ledger Complete_ledger
    local_store.runCleanup_ledger [of "sv\<lparr>sv_store := localStore\<rparr>"]
  by simp


section \<open>Direct uploads\<close>



text \<open>C7. Preparing is idempotent per request identifier: the transaction returns the attempt that the session
already has for the request, and only with the same metadata, writing nothing; otherwise it adds
exactly one pending row with a fresh identifier. When it reports an error the database is unchanged,
unless the commit itself was uncertain.\<close>

theorem prepare_idempotent:
  "case prepareTx c b n p s r limit w of
     (Inr i, t) \<Rightarrow> prepared s r i (wdb w) (wdb t)
   | (Inl e, t) \<Rightarrow> e = EIo \<or> e = ECrashed \<or> wdb t = wdb w"
proof -
  obtain x t where run: "prepareTx c b n p s r limit w = (x, t)" by fastforce
  have "rejects (prepareTx c b n p s r limit)" unfolding prepareTx_def by (rule rejects_inTx)
  then have "x = Inl e \<Longrightarrow> e = EIo \<or> e = ECrashed \<or> wdb t = wdb w" for e
    using run by (auto dest: rejectsD)
  moreover have "preparedOk s r w i t" if "x = Inr i" for i
    using run that by (intro wpE_D1 [OF prepareTx_result]) simp
  ultimately show ?thesis by (cases x) (simp_all add: run preparedOk_def)
qed

section \<open>Deletion and maintenance\<close>

text \<open>C8. A deletion that reports success has removed the event, its sessions, assets and bindings, and disposed of
every object: the file of a local asset is gone, the key of a remote one is retired before storage was
asked to delete it. On any error, what is not yet disposed of still has its row, so a retry goes on. Wherever it
stops, no ready row is without its file, and the ready media of other events are untouched. The loop over the event's
assets ends: the rounds it is given are never used up.\<close>

theorem delete_event_disposes:
  "wpE (DeleteEvent (sv\<lparr>sv_store := localStore\<rparr>) i)
     (\<lambda>_ t. tracked (sv_backends sv) w t \<and> eventGone i (wdb t)) (tracked (sv_backends sv) w) w \<and>
   sparing i w (snd (DeleteEvent (sv\<lparr>sv_store := localStore\<rparr>) i w)) \<and>
   noFuel (fst (DeleteEvent (sv\<lparr>sv_store := localStore\<rparr>) i w))"
proof (intro conjI)
  show "wpE (DeleteEvent (sv\<lparr>sv_store := localStore\<rparr>) i)
     (\<lambda>_ t. tracked (sv_backends sv) w t \<and> eventGone i (wdb t)) (tracked (sv_backends sv) w) w"
    using local_store.DeleteEvent_tracked [of "sv\<lparr>sv_store := localStore\<rparr>" i w] by simp
  show "sparing i w (snd (DeleteEvent (sv\<lparr>sv_store := localStore\<rparr>) i w))"
    using wpE_mono [OF local_store.DeleteEvent_sparing [of "sv\<lparr>sv_store := localStore\<rparr>" i w]]
    by (intro wpE_state) fastforce
  show "noFuel (fst (DeleteEvent (sv\<lparr>sv_store := localStore\<rparr>) i w))"
    using local_store.DeleteEvent_noFuel [of "sv\<lparr>sv_store := localStore\<rparr>" i w] by simp
qed

text \<open>C9. Cleanup drops only pending attempts, and only those that were written, and last authorized, more than
an hour (less the second within which text and time order differ) before a reading of the clock. It disposes of the
object of every row that it drops, asks storage only to delete keys that are retired, and never forgets a retired key.\<close>

theorem cleanup_spares_recent:
  "dropsOld w (snd (runCleanup (sv\<lparr>sv_store := localStore\<rparr>) w)) \<and>
   tracked (sv_backends sv) w (snd (runCleanup (sv\<lparr>sv_store := localStore\<rparr>) w))"
  using local_store.runCleanup_aged [of "sv\<lparr>sv_store := localStore\<rparr>"] local_store.runCleanup_tracked [of "sv\<lparr>sv_store := localStore\<rparr>"]
  by (simp add: upholds_def aged_dropsOld)

text \<open>C10. Every operation gives back the locks it took, on every error path.\<close>

theorem locks_released:
  "upholds sameReaders (CreateAttributedSession sv p v n) \<and> upholds sameReaders (Authorize sv p s i) \<and>
   upholds sameReaders (Complete sv p s i) \<and> upholds sameReaders (Prepare sv p s r limit) \<and>
   upholds sameReaders (Upload (sv\<lparr>sv_store := localStore\<rparr>) p s f declared source claimed limit) \<and>
   upholds sameReaders (runCleanup (sv\<lparr>sv_store := localStore\<rparr>)) \<and>
   upholds sameReaders (DeleteEvent (sv\<lparr>sv_store := localStore\<rparr>) e) \<and>
   upholds sameReaders (bindE (takeSnapshot e) closeSnapshot)"
  using readers_session readers_direct snapshot_balanced local_store.readers_Upload [of "sv\<lparr>sv_store := localStore\<rparr>"]
    local_store.readers_cleanup [of "sv\<lparr>sv_store := localStore\<rparr>"] local_store.readers_DeleteEvent [of "sv\<lparr>sv_store := localStore\<rparr>"]
  by simp

section \<open>Reading\<close>





text \<open>C13. The statistics, added up group by group (event and class) with 64-bit additions, are those of each
event on its own; a sum that leaves 64 bits is an error and not a wrong number. The contributor summary counts
each label's ready media exactly, most first, at most a hundred labels.\<close>

theorem stats_result:
  "wpE Stats (\<lambda>m t. wdb t = wdb w \<and> (\<forall>e. m e =
      (if list_ex (ofEvent e) (assets (wdb w)) then Some (eventStats e (assets (wdb w))) else None))) (\<lambda>_. True) w \<and>
   wpE (Contributors e) (\<lambda>l t. wdb t = wdb w \<and> summaryOk e (assets (wdb w)) l) (\<lambda>_. True) w"
  using Stats_result Contributors_result by (rule conjI)

section \<open>Storage\<close>


text \<open>C15. The key of an object tells its event and its asset: keys of different assets differ, in the upload
directory and in a bucket, and every key that is made passes the store's own check.\<close>

theorem keys_roundtrip:
  assumes "0 < e" and "e < 2 ^ 63" and "0 < e'" and "lowerID i" and "objectKey e i = objectKey e' i' \<or> s3Key c e i = s3Key c e' i'"
  shows "e' = e \<and> i' = i \<and> validKey (objectKey e i) \<and> s3ValidKey c (s3Key c e i)"
  using assms objectKey_inj [of e e' i i'] s3Key_inj [of e e' c i i'] objectKey_valid [of e i] s3Key_valid [of e i c]
  by auto

theorem keys_roundtrip_witness:
  "validKey (objectKey 7 (exID CHR ''a'')) \<and> s3ValidKey exS3 (s3Key exS3 7 (exID CHR ''a''))"
proof -
  have "lowerID (exID CHR ''a'')" by code_simp
  then show ?thesis using keys_roundtrip [of 7 7 "exID CHR ''a''" "exID CHR ''a''" exS3] by simp
qed

section \<open>Content types\<close>

text \<open>C16. The type that an upload is stored with: sniffing the same bytes again with the final size gives the same
type or rejects them, and a type that is accepted is supported and has a media class.\<close>

theorem sniff_stable:
  assumes "Sniff p (-1) = Inr k" and "0 < n"
  shows "(Sniff p n = Inr k \<or> Sniff p n = Inl ErrType) \<and> SupportedMIME k \<and> mediaClass k \<in> {''photo'', ''video''}"
  using Sniff_twice [OF assms] Sniff_supported [OF assms(1)] Sniff_class [OF assms(1)] by blast

theorem sniff_stable_witness:
  "(Sniff exPNG 12 = Inr ''image/png'' \<or> Sniff exPNG 12 = Inl ErrType) \<and> SupportedMIME ''image/png''"
proof -
  have "Sniff exPNG (-1) = Inr ''image/png''" by code_simp
  from sniff_stable [OF this, of 12] show ?thesis by simp
qed

section \<open>Export names\<close>

text \<open>C17. The names of an export are found within the numbers that are tried, one for each asset and
no two the same when their case is ignored, whatever the stored filenames are.\<close>

theorem export_names_distinct:
  assumes "lowerOk lower"
  shows "\<exists>names. filenames lower fs = Some names \<and> length names = length fs \<and> distinct (map lower names)"
  using addNames_result [OF assms, of fs "[]" Map.empty] by (auto simp: filenames_def)

theorem export_names_distinct_witness:
  "\<exists>names. filenames asciiLower [''a.jpg'', ''A.JPG'', ''a_2.jpg''] = Some names \<and> length names = 3 \<and>
     distinct (map asciiLower names)"
proof -
  have "\<not> byteIn 65 90 c" if "0 < n" "c \<in> set (decI n)" for c n
    using decN_digits [of n c] that by (auto simp: isDigit_def byteIn_def decI_pos)
  then have "asciiLower (decI n) = decI n" if "0 < n" for n
    using that by (auto simp: asciiLower_def intro!: map_idI)
  then have "lowerOk asciiLower"
    by (auto simp: lowerOk_def numbered_def asciiLower_def byteIn_def byteVal_def)
  from export_names_distinct [OF this, of "[''a.jpg'', ''A.JPG'', ''a_2.jpg'']"] show ?thesis
    by (simp add: numeral_3_eq_3)
qed


section \<open>Immich imports\<close>

text \<open>C19. Over any sequence of operations of the import service, with faults, crashes and restarts anywhere, the
request that creates a binding's album is sent at most once: the intent is stored first, and after
that the album is only looked for.\<close>

theorem immich_album_once:
  assumes "immichRun im w t" and "immichOk (wdb w)" and "b \<in> set (event_imports (wdb w))" and "albumBudget (trace w) b \<le> 1"
  shows "albumPosts (ei_marker b) (trace t) \<le> 1"
proof -
  from assms immichRun_careful obtain q where q: "q \<in> set (event_imports (wdb t))" "withinBudget (trace w) (trace t) b q"
    by (fastforce simp: careful_def matched_def)
  then have "albumBudget (trace t) q \<le> 1" "ei_marker q = ei_marker b"
    using assms(4) by (auto simp: withinBudget_def sameBinding_def)
  then show ?thesis by (simp add: albumBudget_def)
qed

theorem immich_album_once_witness: "albumPosts ''m'' (trace exRestarted) \<le> 1"
proof -
  have "immichOk (wdb exJobWorld)" "exBinding \<in> set (event_imports (wdb exJobWorld))" "albumBudget (trace exJobWorld) exBinding \<le> 1"
    using exImport_ok by (simp_all add: exJobWorld_def exWorld_def exImportDB_def albumBudget_def albumPosts_def)
  from immich_album_once [OF exImport_run this] show ?thesis by (simp add: exBinding_def)
qed

text \<open>C20. Over any such sequence the tables of the imports stay consistent (one binding for an event and a target,
one selection of an asset, one active job for a binding), a binding keeps its identity, its album and
the order of its states, an asset that is sent keeps its row, and a known remote identifier stays.\<close>

theorem immich_kept:
  assumes "immichRun im w t"
  shows "advances (wdb w) (wdb t)"
  using immichRun_careful [OF assms] by (simp add: careful_def)

theorem immich_kept_witness: "immichOk (wdb exRestarted) \<and> (\<exists>i \<in> set (asset_imports (wdb exRestarted)). i = exSent)"
proof -
  have ok: "immichOk (wdb exJobWorld)" and sent: "exSent \<in> set (asset_imports (wdb exJobWorld))" "isSent exSent"
    using exImport_ok by (simp_all add: exJobWorld_def exWorld_def exServer_def exImportDB_def exSent_def isSent_def)
  from immich_kept [OF exImport_run] ok sent show ?thesis
    by (fastforce simp: advances_def matched_def sameSelection_def)
qed



text \<open>C23. Automatic reconciliation of a binding queues one job for at most 256 ready assets that were never
selected, and only when the binding imports by itself, has its album, and neither an active job nor
unfinished media; otherwise it writes nothing, and then nothing was left to select.\<close>

theorem immich_reconciles:
  assumes "bindingsOk (event_imports (wdb w))"
  shows "wpE (reconcileBinding i) (\<lambda>_ t. reconciledTo i (wdb w) (wdb t)) (\<lambda>_. True) w"
  using assms by (rule reconcileBinding_result)

theorem immich_reconciles_witness:
  "wpE (reconcileBinding 1) (\<lambda>_ t. reconciledTo 1 exImportDB (wdb t)) (\<lambda>_. True) exJobWorld"
proof -
  have "bindingsOk (event_imports (wdb exJobWorld))"
    using exImport_ok by (simp add: exJobWorld_def exWorld_def immichOk_def)
  from immich_reconciles [OF this, of 1] show ?thesis by (simp add: exJobWorld_def exWorld_def)
qed

text \<open>C24. The reconciliation is fair: a scan that succeeds moves the cursor to the next page, and the pages that are
scanned while the automatic bindings stay the same hold every one of them after finitely many scans.\<close>

theorem immich_round_robin:
  assumes "k \<in> set (autoIds (wdb w))" and "0 < k"
  shows "wpE reconcile (\<lambda>_ t. reconcileAfter t = nextCursor (autoIds (wdb w)) (reconcileAfter w) \<and>
      event_imports (wdb t) = event_imports (wdb w)) (\<lambda>_. True) w \<and>
    (\<exists>n \<le> pagesLeft (autoIds (wdb w)) k (reconcileAfter w).
      k \<in> set (autoBindings (cursorAfter n (autoIds (wdb w)) (reconcileAfter w)) (wdb w)))"
  using reconcile_cursor page_reaches [OF assms(1) _ assms(2), of "reconcileAfter w"]
  by (simp add: autoBindings_page page_def autoIds_def)

theorem immich_round_robin_witness:
  "\<exists>n \<le> 1. 1 \<in> set (autoBindings (cursorAfter n [1] 0) (wdb exWorked))"
proof -
  have "autoIds (wdb exWorked) = [1]" "reconcileAfter exWorked = 0" by code_simp+
  with immich_round_robin [of 1 exWorked] show ?thesis by (auto simp: pagesLeft_def)
qed



section \<open>Administration and the HTTP layer\<close>

text \<open>C27. For every request to a route of the administrator: without a live session, and to change something also
without the site's own origin and the session's CSRF token, the answer is a refusal, and no row, no file and
no other system is touched.\<close>

theorem admin_routes_guarded:
  assumes "guardedRoute (routeOf (rq_path rq))" and "\<not> authorised a rq w"
  shows "wp (dispatch a rq) (refusedBy w) w"
  using assms by (rule dispatch_refuses)

theorem admin_routes_guarded_witness:
  "wp (dispatch exApp exDelete) (refusedBy (exWorld exDB (exEnv 3 Refused))) (exWorld exDB (exEnv 3 Refused))"
proof (rule admin_routes_guarded)
  show "guardedRoute (routeOf (rq_path exDelete))" by (simp add: exDelete_route guardedRoute_def)
  show "\<not> authorised exApp exDelete (exWorld exDB (exEnv 3 Refused))"
    by (simp add: authorised_def exDelete_def exRequest_def validToken_def)
qed

text \<open>C28. A request with a safe method, other than the two redirects of an OpenID sign-in, changes nothing: no row,
no file, no request to another system, whatever it asks for.\<close>

theorem reads_change_nothing:
  assumes "readsOnly rq"
  shows "upholds quiet (dispatch a rq)"
  using assms by (rule dispatch_quiet)

theorem reads_change_nothing_witness: "upholds quiet (dispatch exApp exList)"
  by (rule reads_change_nothing) (rule exList_reads)



text \<open>C30. When challenges are on, a request for an upload session redeems at most one challenge token, and writes
nothing unless it is the token of its body and the service vouched for it, for this site and this action.\<close>

theorem upload_session_challenged:
  assumes "ap_site_key a \<noteq> []" and "routeOf (rq_path rq) = RSessions public"
  shows "gatePost a rq w (snd (dispatch a rq w))"
  using assms by (rule dispatch_gate)

theorem upload_session_challenged_witness:
  "gatePost exApp exOpenSession (exWorld exDB (exEnv 5 CrashAfter)) (snd (dispatch exApp exOpenSession (exWorld exDB (exEnv 5 CrashAfter))))"
  by (rule upload_session_challenged [OF _ exOpenSession_route]) (simp add: exApp_def)

text \<open>C31. Sign-in with the password. A login stores one session for the new token, drops the browser's previous
session and the expired ones, and only if the password matches the hash that the manager and the database
hold; a look-up is exactly the unexpired row of the token's digest; a start with another password leaves
no session; and what is refused writes nothing.\<close>

theorem admin_sessions:
  "wp (Login b hash password previous) (loginPost b hash password previous (wdb w)) w \<and>
   wp (CreateSession hash previous) (externalPost previous (wdb w)) w \<and>
   wp (Lookup token) (lookupPost token (e_now (env w) (tick w) div nanosPerSecond) (wdb w)) w \<and>
   wp (initialize b password cost) (startPost b password (wdb w)) w"
  by (intro conjI Login_outcome CreateSession_outcome Lookup_outcome initialize_outcome)


text \<open>C33. A client cannot choose the address it is counted under: whatever forwarding values it sends before those of
the trusted proxies, the address is the one it would be without them, or the proxy's own.\<close>

theorem client_address_unforged:
  assumes "ClientIP remoteAddr honest trusted = (Some a, False)" and "\<not> isTrusted trusted a" and "honest \<noteq> []"
  shows "sameOrPeer (Some a, False) (ClientIP remoteAddr [] trusted) (ClientIP remoteAddr (forged @ honest) trusted)"
  using assms by (rule ClientIP_forged)

theorem client_address_unforged_witness:
  "sameOrPeer (Some (V4 [198, 51, 100, 5]), False) (ClientIP ''10.0.0.1:10'' [] exTrusted)
     (ClientIP ''10.0.0.1:10'' ([''1.1.1.1''] @ [''198.51.100.5'']) exTrusted)"
  by (rule client_address_unforged [OF exClient exClient_untrusted]) simp

text \<open>C34. Start-up binds every configured name of a destination to a row with its address, never changes a row that is
there, gives every stored object from before its one backend, and yields a set whose active backend can be
used; a second start writes nothing, and a start that is refused changes nothing.\<close>

theorem backends_bound: "wp (ReconcileBackends cfg) (startedPost cfg (wdb w)) w"
  by (rule ReconcileBackends_outcome)

section \<open>Start-up\<close>

text \<open>C35. A configuration that is accepted is well-formed as a whole: it has a way to sign in whose secrets are usable,
destinations with valid names, addresses and secrets of which the active one exists, bounded limits, and Immich targets with
valid names. The export command reads the same destinations, and a variable of one destination never
changes what another is configured with.\<close>

theorem config_accepted:
  assumes "parse vars = Inr c" and "ValidBackendKey k" and "ValidBackendKey l" and "k \<noteq> l" and "m \<in> set s3Names"
  shows "configOk c \<and> LoadExport vars = Inr (cf_data c, cf_storage c) \<and>
    loadStorageSingle (keyedEnv k (vars(keyedVariable l m := v))) = loadStorageSingle (keyedEnv k vars)"
  using assms by (intro conjI parse_configOk LoadExport_agrees keyedEnv_apart)

theorem config_accepted_witness: "\<exists>c. parse exVariables = Inr c \<and> configOk c \<and> cf_base c = ''https://photos.test''"
proof -
  have "map_sum id cf_base (parse exVariables) = Inr ''https://photos.test''" by code_simp
  then obtain c where c: "parse exVariables = Inr c" "cf_base c = ''https://photos.test''"
    by (cases "parse exVariables") auto
  have "ValidBackendKey ''cold''" "ValidBackendKey ''warm''" "''BUCKET'' \<in> set s3Names" by code_simp+
  with config_accepted [OF c(1), of "''cold''" "''warm''"] c show ?thesis by auto
qed



text \<open>C37. The export command. Arguments or settings that it does not accept change nothing. Otherwise success leaves the
complete export of the event of the flag, as it was stored when the destinations had been registered; on any
error the tables are as they were or have the registered destinations, no file of the upload directory is touched, and
what is left in the new directory is no export or a complete one. The identifier that the administrator's page shows is
read back from the flag.\<close>

theorem export_command:
  assumes "1 \<le> n" and "n < 2 ^ 63" and "dir \<noteq> []"
  shows "exportFlags [''--event'', decI n, ''--output'', dir] = Some (n, dir) \<and>
    (case (exportFlags args, LoadExport vars) of
       (Some (i, out), Inr (data, cfg)) \<Rightarrow> 1 \<le> i \<and> i < 2 ^ 63 \<and> out \<noteq> [] \<and>
         wpE (exportEvent lower r vars args)
           (\<lambda>_ t. \<exists>bs v. startedPost cfg (wdb w) (Inr bs) v \<and> onlyTables w v \<and> reads v t \<and> exportDone lower (exportService bs) i v t)
           (\<lambda>t. registered cfg w t \<and> files t = files w \<and>
             (outputDir t = outputDir w \<or> (\<exists>bs v. wdb v = wdb t \<and> onlyTables w v \<and> exportLeaves lower (exportService bs) i v t))) w
     | _ \<Rightarrow> \<exists>e. exportEvent lower r vars args w = (Inl e, w))"
  using exportFlags_plain [OF assms] exportFlags_range [of args] exportEvent_refused [of args vars]
  by (auto split: option.split sum.split prod.split intro!: exportEvent_result)

theorem export_command_witness:
  "exportFlags [''--event'', ''7'', ''--output'', ''out''] = Some (7, ''out'') \<and>
   (\<forall>lower r w. \<exists>e. exportEvent lower r (\<lambda>_. None) [''--event=0x'', ''--output'', ''out''] w = (Inl e, w))"
proof -
  have "decI 7 = ''7''" "exportFlags [''--event=0x'', ''--output'', ''out''] = None" by code_simp+
  with export_command [where n = 7 and dir = "''out''" and args = "[''--event=0x'', ''--output'', ''out'']" and vars = "\<lambda>_. None"] show ?thesis by simp
qed

section \<open>A running server\<close>

text \<open>C38. The shutdown. When Serve returns, the maintenance and the import worker are gone and the listener is closed, so
nothing of them can use the database that the caller then closes; it returns without an error only after every request
was answered. Once the process was told to stop, it can always get there.\<close>

theorem shutdown_orderly:
  assumes "serveSteps startedServer s"
  shows "(\<forall>r. rn_caller s = Returned r \<longrightarrow> rn_maintain s = Gone \<and> rn_imports s = Gone \<and> rn_http s \<noteq> Listening \<and>
      (r = Orderly \<longrightarrow> rn_cancelled s \<and> rn_requests s = 0)) \<and>
    (rn_cancelled s \<longrightarrow> (\<exists>t r. serveSteps s t \<and> rn_caller t = Returned r))"
proof -
  have s: "orderly s" using assms orderly_started by (rule orderly_steps)
  then show ?thesis using cancelled_returns [OF s] by (auto simp: orderly_def)
qed

definition exStopped :: running where
  "exStopped = startedServer\<lparr>rn_cancelled := True, rn_stopped := True, rn_imports := Gone, rn_maintain := Gone, rn_http := Shut,
     rn_caller := Returned Orderly\<rparr>"

lemma exStopped_run: "serveSteps startedServer exStopped"
proof -
  let ?a = "startedServer\<lparr>rn_requests := 1\<rparr>"
  let ?b = "?a\<lparr>rn_cancelled := True\<rparr>"
  let ?c = "?b\<lparr>rn_caller := Draining, rn_http := Shut\<rparr>"
  let ?d = "?c\<lparr>rn_requests := 0\<rparr>"
  let ?e = "?d\<lparr>rn_caller := Leaving Orderly\<rparr>"
  let ?f = "?e\<lparr>rn_caller := Waiting Orderly, rn_stopped := True\<rparr>"
  let ?g = "?f\<lparr>rn_maintain := Gone\<rparr>"
  let ?h = "?g\<lparr>rn_imports := Gone\<rparr>"
  have "serveSteps startedServer ?a" using serveStep.accept [of startedServer] by (simp add: startedServer_def)
  also have "serveStep ?a ?b" by (rule serveStep.signal)
  also have "serveStep ?b ?c" using serveStep.shutdown [of ?b] by (simp add: startedServer_def)
  also have "serveStep ?c ?d" by (rule serveStep.finish) simp
  also have "serveStep ?d ?e" using serveStep.drained [of ?d] by (simp add: resultOf_def)
  also have "serveStep ?e ?f" by (rule serveStep.stop) simp
  also have "serveStep ?f ?g" by (rule serveStep.maintained) (simp_all add: startedServer_def ending_def)
  also have "serveStep ?g ?h" by (rule serveStep.imported) (simp_all add: startedServer_def ending_def)
  also have "serveStep ?h exStopped" using serveStep.return [of ?h Orderly] by (simp add: startedServer_def exStopped_def)
  finally show ?thesis .
qed

theorem shutdown_orderly_witness: "rn_maintain exStopped = Gone \<and> rn_imports exStopped = Gone \<and> rn_requests exStopped = 0"
  using shutdown_orderly [OF exStopped_run] by (simp add: exStopped_def)

section \<open>The database\<close>

text \<open>C39. The migrations run once: a start that reports success has recorded every file of the binary, in order, with
its checksum, having run only those that the history did not hold, and a second start then changes nothing; one that
fails leaves the database as it was. A later binary with more files gives the same result on the
migrated database as on the original one. Opening the file does that and nothing else to it, under an address that no
byte of the path can turn into another file or into a setting of the connection; a new file is closed to others.\<close>

theorem database_opens:
  assumes "recordsKept run" and "sqlFiles gs = sqlFiles fs @ rest"
  shows "(case migrate run commits fs d of
      (Inl _, d') \<Rightarrow> d' = d
    | (Inr _, d') \<Rightarrow> migrated fs d d' \<and> migrate run True fs d' = (Inr (), d') \<and>
        (case migrate run c gs d' of (r, t) \<Rightarrow> case migrate run c gs d of (r', t') \<Rightarrow> r = r' \<and> (r = Inr () \<longrightarrow> t = t'))) \<and>
    (case openDatabase run fs blank og k of
      (Inl _, k') \<Rightarrow> contentOf blank k' = contentOf blank k
    | (Inr uri, k') \<Rightarrow> opened run fs blank og k uri k')"
  using migrate_once [OF assms] openDatabase_outcome [OF assms(1)] by (rule conjI)

definition exEngine :: "string list engine" where
  "exEngine script d = (if script = [] then None
     else Some \<lparr>dt_history = Some (rowsOf d), dt_content = dt_content d @ [script]\<rparr>)"

definition exScripts :: "(string \<times> string) list" where
  "exScripts = [(''001_a.sql'', ''CREATE TABLE schema_migrations''), (''002_b.sql'', ''CREATE TABLE events'')]"

lemma exScripts_run: "fst (migrate exEngine True exScripts \<lparr>dt_history = None, dt_content = []\<rparr>) = Inr ()"
proof -
  have files: "sqlFiles exScripts = exScripts" "contiguous (map fst exScripts)" by code_simp+
  have lines: "unixLines ''CREATE TABLE schema_migrations'' = ''CREATE TABLE schema_migrations''"
    "unixLines ''CREATE TABLE events'' = ''CREATE TABLE events''" by code_simp+
  have "exScripts \<noteq> []" by (simp add: exScripts_def)
  with files show ?thesis
    by (simp add: migrate_def)
       (simp add: migrateTx_def exScripts_def migrateOne_def recordMigration_def exEngine_def rowsOf_def Let_def lines thenR_def)
qed

theorem database_opens_witness:
  "\<exists>uri k. openDatabase exEngine exScripts \<lparr>dt_history = None, dt_content = []\<rparr> (granted ''/data/a?b.db'' 420)
      \<lparr>dk_dir = False, dk_file = None\<rparr> = (Inr uri, k) \<and> modeOf k = Some 384 \<and>
     migrated exScripts \<lparr>dt_history = None, dt_content = []\<rparr> (contentOf \<lparr>dt_history = None, dt_content = []\<rparr> k)"
proof -
  let ?d = "\<lparr>dt_history = None, dt_content = []\<rparr> :: string list database" and ?k = "\<lparr>dk_dir = False, dk_file = None\<rparr> :: string list disk"
  have "recordsKept exEngine" by (auto simp: recordsKept_def exEngine_def rowsOf_def split: option.splits if_splits)
  note opens = database_opens [OF this, where gs = exScripts and fs = exScripts and rest = "[]" and blank = ?d
      and og = "granted ''/data/a?b.db'' 420" and k = ?k, simplified, THEN conjunct2]
  obtain u d' where "migrate exEngine True exScripts ?d = (Inr u, d')"
    using exScripts_run by (cases "migrate exEngine True exScripts ?d") auto
  then obtain uri k where "openDatabase exEngine exScripts ?d (granted ''/data/a?b.db'' 420) ?k = (Inr uri, k)"
    by (simp add: openDatabase_def granted_def Let_def)
  with opens show ?thesis by (auto simp: opened_def modeOf_def contentOf_def)
qed

section \<open>Instants in the database\<close>

text \<open>C40. An event's instants are kept as texts. In the years 0 to 9999 the row that is read is the one that was written, and
the database, which compares two of the texts byte by byte, orders them the way the stamps of this development
are ordered; so keeping stamps in place of the texts loses nothing.\<close>

theorem timestamps_faithful:
  assumes "inYears (ev_created e)" and "inYears (ev_updated e)" and "\<forall>x. ev_expires e = Some x \<longrightarrow> inYears x"
  shows "scanEvent (e\<lparr>ev_created := c, ev_updated := u, ev_expires := x\<rparr>) (writeEvent e) = Some e \<and>
    (\<forall>s t. inYears s \<longrightarrow> inYears t \<longrightarrow> (textLess (stampText s) (stampText t) \<longleftrightarrow> s < t))"
  using scanEvent_write [OF assms] stampText_less by blast

theorem timestamps_faithful_witness:
  "writeEvent exWrittenEvent = \<lparr>ec_created = ''2026-02-28T23:00:00Z'', ec_updated = ''2026-02-28T23:00:00.5Z'', ec_expires = None\<rparr> \<and>
   scanEvent (zeroEvent\<lparr>ev_name := ''Party''\<rparr>) (writeEvent exWrittenEvent) = Some exWrittenEvent"
proof -
  have w: "writeEvent exWrittenEvent =
      \<lparr>ec_created = ''2026-02-28T23:00:00Z'', ec_updated = ''2026-02-28T23:00:00.5Z'', ec_expires = None\<rparr>"
    "inYears (ev_created exWrittenEvent)" "inYears (ev_updated exWrittenEvent)" "ev_expires exWrittenEvent = None"
    by code_simp+
  have base: "exWrittenEvent\<lparr>ev_created := ev_created zeroEvent, ev_updated := ev_updated zeroEvent, ev_expires := None\<rparr> =
      zeroEvent\<lparr>ev_name := ''Party''\<rparr>" by (simp add: exWrittenEvent_def zeroEvent_def)
  show ?thesis
    using timestamps_faithful [OF w(2,3), where c = "ev_created zeroEvent" and u = "ev_updated zeroEvent" and x = None, unfolded base] w
    by simp
qed

end
